(* ===== verification/Prelude.thy ===== *)
theory Prelude
  imports Main
begin

text \<open>
  Shared vocabulary of the development: Go's clock and durations, the operations of the
  standard packages \<open>strings\<close>, \<open>strconv\<close> and \<open>unicode/utf8\<close> that the program uses, written on
  byte strings, and the lemma collections the component theories hang their automation on.

  A Go string is a sequence of bytes, and so is an Isabelle \<open>string\<close>: a \<open>char\<close> is a byte,
  \<open>length\<close> is Go's \<open>len\<close>, \<open>take n s\<close> is \<open>s[:n]\<close> for \<open>n \<le> len(s)\<close>.
\<close>

named_theorems go_time \<open>unfolding of the clock operations\<close>
named_theorems go_str \<open>unfolding of the string operations\<close>

section \<open>Clock and durations\<close>

text \<open>
  \<open>time.Time\<close> is the number of nanoseconds since January 1, year 1, 00:00 UTC, the instant
  whose \<open>IsZero\<close> is true; \<open>time.Duration\<close> is a number of nanoseconds. \<open>Sub\<close> saturates at the
  limits of a signed 64-bit integer, as in the standard library.
\<close>

type_synonym gotime = int
type_synonym duration = int

definition max_dur :: duration where "max_dur = 9223372036854775807"
definition min_dur :: duration where "min_dur = - 9223372036854775808"

definition second :: duration where "second = 1000000000"
definition minute :: duration where "minute = 60 * second"
definition hour :: duration where "hour = 60 * minute"
definition day :: duration where "day = 24 * hour"

definition is_zero :: "gotime \<Rightarrow> bool" where "is_zero t \<longleftrightarrow> t = 0"

definition time_sub :: "gotime \<Rightarrow> gotime \<Rightarrow> duration" where
  "time_sub t u = max min_dur (min max_dur (t - u))"

lemmas dur_defs = second_def minute_def hour_def day_def

declare second_def [go_time] minute_def [go_time] hour_def [go_time] day_def [go_time]
  is_zero_def [go_time] max_dur_def [go_time] min_dur_def [go_time] time_sub_def [go_time]

lemma time_sub_less_iff: "min_dur < d \<Longrightarrow> d \<le> max_dur \<Longrightarrow> time_sub t u < d \<longleftrightarrow> t - u < d"
  by (auto simp: time_sub_def)

lemma time_sub_exact: "min_dur \<le> t - u \<Longrightarrow> t - u \<le> max_dur \<Longrightarrow> time_sub t u = t - u"
  by (simp add: time_sub_def)

text \<open>
  \<open>startOfDay\<close> in a location with the fixed offset \<open>off\<close> from UTC: midnight of the local day.
  The instant 0 is a midnight in UTC.
\<close>

definition start_of_day :: "duration \<Rightarrow> gotime \<Rightarrow> gotime" where
  "start_of_day off t = (t + off) div day * day - off"

lemma day_pos: "(0::int) < day"
  by (simp add: dur_defs)

lemma start_of_day_mono: "t \<le> u \<Longrightarrow> start_of_day off t \<le> start_of_day off u"
  unfolding start_of_day_def
  using zdiv_mono1 [of "t + off" "u + off" day] day_pos
  by (simp add: mult_right_mono)

text \<open>Arithmetic on \<open>int64\<close>: two's complement wrap-around.\<close>

definition wrap64 :: "int \<Rightarrow> int" where
  "wrap64 x = (x + 9223372036854775808) mod 18446744073709551616 - 9223372036854775808"

lemma wrap64_id: "min_dur \<le> x \<Longrightarrow> x \<le> max_dur \<Longrightarrow> wrap64 x = x"
  by (simp add: wrap64_def min_dur_def max_dur_def)

lemma wrap64_range: "min_dur \<le> wrap64 x \<and> wrap64 x \<le> max_dur"
  by (simp add: wrap64_def min_dur_def max_dur_def)

section \<open>Prefixes, suffixes and substrings\<close>

definition has_prefix :: "string \<Rightarrow> string \<Rightarrow> bool" where
  "has_prefix s p \<longleftrightarrow> take (length p) s = p"

definition has_suffix :: "string \<Rightarrow> string \<Rightarrow> bool" where
  "has_suffix s p \<longleftrightarrow> has_prefix (rev s) (rev p)"

text \<open>\<open>strings.Index\<close>: the byte offset of the first occurrence, \<open>None\<close> for -1.\<close>

fun str_index :: "string \<Rightarrow> string \<Rightarrow> nat option" where
  "str_index [] sub = (if sub = [] then Some 0 else None)"
| "str_index (c # cs) sub =
     (if has_prefix (c # cs) sub then Some 0 else map_option Suc (str_index cs sub))"

definition str_contains :: "string \<Rightarrow> string \<Rightarrow> bool" where
  "str_contains s sub \<longleftrightarrow> str_index s sub \<noteq> None"

text \<open>\<open>strings.LastIndex\<close>: the byte offset of the last occurrence.\<close>

fun str_last_index :: "string \<Rightarrow> string \<Rightarrow> nat option" where
  "str_last_index [] sub = (if sub = [] then Some 0 else None)"
| "str_last_index (c # cs) sub =
     (case str_last_index cs sub of
        Some i \<Rightarrow> Some (Suc i)
      | None \<Rightarrow> if has_prefix (c # cs) sub then Some 0 else None)"

text \<open>\<open>strings.TrimSuffix\<close> and \<open>strings.TrimPrefix\<close>.\<close>

definition trim_suffix :: "string \<Rightarrow> string \<Rightarrow> string" where
  "trim_suffix s p = (if has_suffix s p then take (length s - length p) s else s)"

definition trim_prefix :: "string \<Rightarrow> string \<Rightarrow> string" where
  "trim_prefix s p = (if has_prefix s p then drop (length p) s else s)"

lemma has_prefix_iff: "has_prefix s p \<longleftrightarrow> (\<exists>t. s = p @ t)"
  by (auto simp: has_prefix_def) (metis append_take_drop_id)

lemma has_prefix_Nil [simp]: "has_prefix s []"
  by (simp add: has_prefix_def)

lemma has_prefix_append [simp]: "has_prefix (p @ s) p"
  by (simp add: has_prefix_def)

lemma has_prefix_self [simp]: "has_prefix s s"
  by (simp add: has_prefix_def)

lemma has_prefix_Cons [simp]: "has_prefix (c # s) (d # p) \<longleftrightarrow> c = d \<and> has_prefix s p"
  by (auto simp: has_prefix_def)

lemma has_prefix_NilD [simp]: "has_prefix [] p \<longleftrightarrow> p = []"
  by (auto simp: has_prefix_def)

lemma has_suffix_iff: "has_suffix s p \<longleftrightarrow> (\<exists>t. s = t @ p)"
  unfolding has_suffix_def has_prefix_iff
  by (metis rev_append rev_rev_ident)

lemma has_prefix_length: "has_prefix s p \<Longrightarrow> length p \<le> length s"
  by (auto simp: has_prefix_iff)

lemma str_index_Some:
  "str_index s sub = Some i \<Longrightarrow> s = take i s @ sub @ drop (i + length sub) s \<and> i + length sub \<le> length s"
proof (induction s sub arbitrary: i rule: str_index.induct)
  case (1 sub)
  then show ?case by (auto split: if_splits)
next
  case (2 c cs sub)
  show ?case
  proof (cases "has_prefix (c # cs) sub")
    case True
    with "2.prems" have "i = 0" by simp
    with True has_prefix_length [OF True] show ?thesis
      by (simp add: has_prefix_def) (metis append_take_drop_id)
  next
    case False
    with "2.prems" obtain j where "str_index cs sub = Some j" "i = Suc j" by auto
    with "2.IH" [OF False this(1)] show ?thesis by simp
  qed
qed

lemma str_index_None: "str_index s sub = None \<longleftrightarrow> \<not> (\<exists>a b. s = a @ sub @ b)"
proof (induction s sub rule: str_index.induct)
  case (1 sub)
  then show ?case by auto
next
  case (2 c cs sub)
  show ?case
  proof (cases "has_prefix (c # cs) sub")
    case True
    then show ?thesis by (auto simp: has_prefix_iff) (metis append_Nil)
  next
    case False
    then have "(\<exists>a b. c # cs = a @ sub @ b) \<longleftrightarrow> (\<exists>a b. cs = a @ sub @ b)"
      by (auto simp: has_prefix_iff Cons_eq_append_conv)
    with False "2.IH" show ?thesis by auto
  qed
qed

lemma str_contains_iff: "str_contains s sub \<longleftrightarrow> (\<exists>a b. s = a @ sub @ b)"
  using str_index_None [of s sub] by (auto simp: str_contains_def)

lemma str_index_take_free:
  "str_index s sub = Some i \<Longrightarrow> j < i \<Longrightarrow> \<not> has_prefix (drop j s) sub"
proof (induction s sub arbitrary: i j rule: str_index.induct)
  case (1 sub)
  then show ?case by (auto split: if_splits)
next
  case (2 c cs sub)
  from "2.prems" have np: "\<not> has_prefix (c # cs) sub"
    by (auto split: if_splits)
  with "2.prems" obtain k where "str_index cs sub = Some k" "i = Suc k" by auto
  with np "2.IH" [OF np this(1)] "2.prems"(2) show ?case by (cases j) auto
qed

section \<open>White space\<close>

text \<open>
  The byte sequences of the runes for which \<open>unicode.IsSpace\<close> holds: the six ASCII ones and the
  UTF-8 encodings of U+0085, U+00A0, U+1680, U+2000 to U+200A, U+2028, U+2029, U+202F, U+205F
  and U+3000. Their first bytes are never continuation bytes, so looking for them byte by byte
  finds the runes that Go's decoding finds, in valid and in invalid UTF-8.
\<close>

definition space_seqs :: "string list" where
  "space_seqs =
     [[CHR 0x20], [CHR 0x09], [CHR 0x0A], [CHR 0x0B], [CHR 0x0C], [CHR 0x0D],
      [CHR 0xC2, CHR 0x85], [CHR 0xC2, CHR 0xA0], [CHR 0xE1, CHR 0x9A, CHR 0x80],
      [CHR 0xE2, CHR 0x80, CHR 0x80], [CHR 0xE2, CHR 0x80, CHR 0x81],
      [CHR 0xE2, CHR 0x80, CHR 0x82], [CHR 0xE2, CHR 0x80, CHR 0x83],
      [CHR 0xE2, CHR 0x80, CHR 0x84], [CHR 0xE2, CHR 0x80, CHR 0x85],
      [CHR 0xE2, CHR 0x80, CHR 0x86], [CHR 0xE2, CHR 0x80, CHR 0x87],
      [CHR 0xE2, CHR 0x80, CHR 0x88], [CHR 0xE2, CHR 0x80, CHR 0x89],
      [CHR 0xE2, CHR 0x80, CHR 0x8A], [CHR 0xE2, CHR 0x80, CHR 0xA8],
      [CHR 0xE2, CHR 0x80, CHR 0xA9], [CHR 0xE2, CHR 0x80, CHR 0xAF],
      [CHR 0xE2, CHR 0x81, CHR 0x9F], [CHR 0xE3, CHR 0x80, CHR 0x80]]"

definition lead_seq :: "string list \<Rightarrow> string \<Rightarrow> string option" where
  "lead_seq qs s = find (\<lambda>q. q \<noteq> [] \<and> has_prefix s q) qs"

lemma lead_seq_Some: "lead_seq qs s = Some q \<Longrightarrow> q \<in> set qs \<and> q \<noteq> [] \<and> has_prefix s q"
  by (auto simp: lead_seq_def find_Some_iff)

function strip_seqs :: "string list \<Rightarrow> string \<Rightarrow> string" where
  "strip_seqs qs s =
     (case lead_seq qs s of None \<Rightarrow> s | Some q \<Rightarrow> strip_seqs qs (drop (length q) s))"
  by pat_completeness auto
termination
  by (relation "measure (\<lambda>(qs, s). length s)")
    (auto dest!: lead_seq_Some simp: has_prefix_iff)

declare strip_seqs.simps [simp del]

definition trim_left :: "string \<Rightarrow> string" where
  "trim_left s = strip_seqs space_seqs s"

definition trim_right :: "string \<Rightarrow> string" where
  "trim_right s = rev (strip_seqs (map rev space_seqs) (rev s))"

text \<open>\<open>strings.TrimSpace\<close>.\<close>

definition trim_space :: "string \<Rightarrow> string" where
  "trim_space s = trim_right (trim_left s)"

lemma strip_seqs_suffix: "\<exists>p. s = p @ strip_seqs qs s"
proof (induction qs s rule: strip_seqs.induct)
  case (1 qs s)
  show ?case
  proof (cases "lead_seq qs s")
    case None
    then show ?thesis by (simp add: strip_seqs.simps)
  next
    case (Some q)
    with "1.IH" obtain p where p: "drop (length q) s = p @ strip_seqs qs (drop (length q) s)"
      by blast
    have "s = take (length q) s @ p @ strip_seqs qs (drop (length q) s)"
      by (metis append_take_drop_id p)
    with Some show ?thesis by (simp add: strip_seqs.simps [of qs s]) (metis append_assoc)
  qed
qed

lemma strip_seqs_none: "lead_seq qs (strip_seqs qs s) = None"
proof (induction qs s rule: strip_seqs.induct)
  case (1 qs s)
  then show ?case
    by (cases "lead_seq qs s") (auto simp: strip_seqs.simps [of qs s])
qed

lemma strip_seqs_idle: "lead_seq qs s = None \<Longrightarrow> strip_seqs qs s = s"
  by (simp add: strip_seqs.simps)

lemma lead_seq_Nil [simp]: "lead_seq qs [] = None"
  by (auto simp: lead_seq_def find_None_iff)

lemma strip_seqs_Nil [simp]: "strip_seqs qs [] = []"
  by (simp add: strip_seqs.simps)

lemma length_strip_seqs: "length (strip_seqs qs s) \<le> length s"
  by (metis strip_seqs_suffix length_append le_add2)

lemma length_trim_space: "length (trim_space s) \<le> length s"
  unfolding trim_space_def trim_left_def trim_right_def
  using length_strip_seqs [of space_seqs s]
    length_strip_seqs [of "map rev space_seqs" "rev (strip_seqs space_seqs s)"]
  by simp

lemma trim_right_prefix: "\<exists>q. s = trim_right s @ q"
  unfolding trim_right_def
  by (metis strip_seqs_suffix rev_append rev_rev_ident)

lemma trim_space_infix: "\<exists>a b. s = a @ trim_space s @ b"
proof -
  obtain a where "s = a @ trim_left s"
    using strip_seqs_suffix unfolding trim_left_def by blast
  moreover obtain b where "trim_left s = trim_right (trim_left s) @ b"
    using trim_right_prefix by blast
  ultimately show ?thesis by (metis trim_space_def)
qed

lemma trim_space_Nil [simp]: "trim_space [] = []"
  by (simp add: trim_space_def trim_left_def trim_right_def)

lemma trim_space_idem [simp]: "trim_space (trim_space s) = trim_space s"
proof -
  let ?u = "trim_left s" and ?t = "trim_space s"
  obtain q where u: "?u = ?t @ q" using trim_right_prefix [of ?u] by (auto simp: trim_space_def)
  have "lead_seq space_seqs ?t = None"
  proof (rule ccontr)
    assume "lead_seq space_seqs ?t \<noteq> None"
    then obtain z where "z \<in> set space_seqs" "z \<noteq> []" "has_prefix ?u z"
      using lead_seq_Some [of space_seqs ?t] u by (fastforce simp: has_prefix_iff)
    moreover have "lead_seq space_seqs ?u = None" unfolding trim_left_def by (rule strip_seqs_none)
    ultimately show False by (auto simp: lead_seq_def find_None_iff)
  qed
  then have "trim_left ?t = ?t" unfolding trim_left_def by (rule strip_seqs_idle)
  moreover have "trim_right ?t = ?t"
    by (simp add: trim_space_def trim_right_def strip_seqs_idle strip_seqs_none)
  ultimately show ?thesis by (simp add: trim_space_def [of ?t])
qed

lemma strip_seqs_keeps: "c \<in> set s \<Longrightarrow> \<forall>q \<in> set qs. c \<notin> set q \<Longrightarrow> c \<in> set (strip_seqs qs s)"
proof (induction qs s rule: strip_seqs.induct)
  case (1 qs s)
  show ?case
  proof (cases "lead_seq qs s")
    case None
    then show ?thesis using "1.prems" by (simp add: strip_seqs_idle)
  next
    case (Some q)
    from lead_seq_Some [OF this] obtain t where q: "q \<in> set qs" "s = q @ t" by (auto simp: has_prefix_iff)
    with "1.prems" have "c \<in> set (drop (length q) s)" by auto
    with "1.IH" [OF Some] "1.prems"(2) Some show ?thesis by (simp add: strip_seqs.simps [of qs s])
  qed
qed

lemma trim_space_keeps: "c \<in> set s \<Longrightarrow> \<forall>q \<in> set space_seqs. c \<notin> set q \<Longrightarrow> c \<in> set (trim_space s)"
  unfolding trim_space_def trim_left_def trim_right_def
  by (simp add: strip_seqs_keeps)

section \<open>Splitting, replacing, lower case, numerals\<close>

text \<open>
  \<open>strings.Split\<close> for a one-byte separator, \<open>strings.Join\<close>, \<open>strings.ReplaceAll\<close> for a
  non-empty pattern, and \<open>strings.Fields\<close>.
\<close>

fun split_char :: "char \<Rightarrow> string \<Rightarrow> string list" where
  "split_char c [] = [[]]"
| "split_char c (x # xs) =
     (if x = c then [] # split_char c xs
      else (case split_char c xs of [] \<Rightarrow> [[x]] | y # ys \<Rightarrow> (x # y) # ys))"

fun str_join :: "string \<Rightarrow> string list \<Rightarrow> string" where
  "str_join sep [] = []"
| "str_join sep [x] = x"
| "str_join sep (x # y # ys) = x @ sep @ str_join sep (y # ys)"

function replace_all :: "string \<Rightarrow> string \<Rightarrow> string \<Rightarrow> string" where
  "replace_all old new s =
     (case s of
        [] \<Rightarrow> []
      | c # cs \<Rightarrow>
          if old \<noteq> [] \<and> has_prefix s old
          then new @ replace_all old new (drop (length old) s)
          else c # replace_all old new cs)"
  by pat_completeness auto
termination
  by (relation "measure (\<lambda>(old, new, s). length s)") auto

declare replace_all.simps [simp del]

text \<open>\<open>strings.Replace\<close> with the limit 1.\<close>

definition replace_first :: "string \<Rightarrow> string \<Rightarrow> string \<Rightarrow> string" where
  "replace_first s old new =
     (case str_index s old of None \<Rightarrow> s | Some i \<Rightarrow> take i s @ new @ drop (i + length old) s)"

function fields_from :: "string \<Rightarrow> string \<Rightarrow> string list" where
  "fields_from acc s =
     (case s of
        [] \<Rightarrow> (if acc = [] then [] else [rev acc])
      | c # cs \<Rightarrow>
          (case lead_seq space_seqs s of
             Some q \<Rightarrow> (if acc = [] then [] else [rev acc]) @ fields_from [] (drop (length q) s)
           | None \<Rightarrow> fields_from (c # acc) cs))"
  by pat_completeness auto
termination
  by (relation "measure (\<lambda>(acc, s). length s)") (auto dest!: lead_seq_Some)

declare fields_from.simps [simp del]

definition str_fields :: "string \<Rightarrow> string list" where
  "str_fields s = fields_from [] s"

text \<open>
  \<open>strings.ToLower\<close> on ASCII bytes; bytes above 127 are kept, so the case of letters outside
  ASCII is not modelled (the program compares only against ASCII patterns).
\<close>

definition byte_of :: "char \<Rightarrow> nat" where "byte_of c = of_char c"

definition lower_char :: "char \<Rightarrow> char" where
  "lower_char c = (if 65 \<le> byte_of c \<and> byte_of c \<le> 90 then char_of (byte_of c + 32) else c)"

definition to_lower :: "string \<Rightarrow> string" where
  "to_lower s = map lower_char s"

text \<open>\<open>strconv.Itoa\<close> and the verb \<open>%d\<close>.\<close>

function nat_dec :: "nat \<Rightarrow> string" where
  "nat_dec n = (if n < 10 then [char_of (48 + n)] else nat_dec (n div 10) @ [char_of (48 + n mod 10)])"
  by pat_completeness auto
termination
  by (relation "measure id") auto

declare nat_dec.simps [simp del]

definition itoa :: "int \<Rightarrow> string" where
  "itoa i = (if i < 0 then CHR 0x2D # nat_dec (nat (- i)) else nat_dec (nat i))"

text \<open>\<open>utf8.RuneStart\<close>: the byte is not a continuation byte.\<close>

definition rune_start :: "char \<Rightarrow> bool" where
  "rune_start c \<longleftrightarrow> byte_of c div 64 \<noteq> 2"

lemma split_char_nonempty [simp]: "split_char c s \<noteq> []"
  by (induction s) (auto split: list.splits)

lemma split_char_no_sep: "p \<in> set (split_char c s) \<Longrightarrow> c \<notin> set p"
proof (induction s arbitrary: p)
  case Nil
  then show ?case by simp
next
  case (Cons x s)
  then show ?case
    by (cases "split_char c s") (auto split: if_splits)
qed

lemma str_join_split: "str_join [c] (split_char c s) = s"
proof (induction s)
  case Nil
  then show ?case by simp
next
  case (Cons x s)
  then show ?case
    by (cases "split_char c s"; cases "tl (split_char c s)") auto
qed

lemma split_char_append:
  "c \<notin> set a \<Longrightarrow> split_char c (a @ c # b) = a # split_char c b"
  by (induction a) auto

lemma split_char_single: "c \<notin> set a \<Longrightarrow> split_char c a = [a]"
  by (induction a) auto

lemma split_join: "ps \<noteq> [] \<Longrightarrow> \<forall>p \<in> set ps. c \<notin> set p \<Longrightarrow> split_char c (str_join [c] ps) = ps"
proof (induction "[c]" ps rule: str_join.induct)
  case (3 x y ys)
  then show ?case by (auto simp: split_char_append)
qed (auto simp: split_char_single)

section \<open>Panics\<close>

text \<open>The outcome of code that may panic, by an index or a slice out of range.\<close>

datatype 'a go = Panic | Ret 'a

text \<open>\<open>xs[i]\<close> and \<open>xs[lo:hi]\<close> on a slice whose capacity is its length.\<close>

definition at_index :: "'a list \<Rightarrow> int \<Rightarrow> 'a option" where
  "at_index xs i = (if 0 \<le> i \<and> i < int (length xs) then Some (xs ! nat i) else None)"

definition slice_range :: "'a list \<Rightarrow> int \<Rightarrow> int \<Rightarrow> 'a list option" where
  "slice_range xs lo hi =
     (if 0 \<le> lo \<and> lo \<le> hi \<and> hi \<le> int (length xs) then Some (drop (nat lo) (take (nat hi) xs)) else None)"

end
