(* ===== verification/PrioritySem.thy ===== *)
theory PrioritySem
  imports Prelude
begin

text \<open>
  The priority semaphore of \<open>engine/priority_sem.go\<close>: its state, one definition per method, and
  the system of goroutines that use it as a step relation with one step per critical section.
  The lemmas show that slots are conserved, that the queues are consistent with the waiting
  goroutines and that no waiter sleeps beside a slot it could have; the last section shows what
  \<open>CancelReservation\<close> does to the count.
\<close>

section \<open>State\<close>

datatype priority = PriorityBackground | PriorityUser

fun priority_rank :: "priority \<Rightarrow> nat" where
  "priority_rank PriorityBackground = 0"
| "priority_rank PriorityUser = 1"

instantiation priority :: linorder
begin

definition less_eq_priority :: "priority \<Rightarrow> priority \<Rightarrow> bool" where
  "less_eq_priority p q \<longleftrightarrow> priority_rank p \<le> priority_rank q"

definition less_priority :: "priority \<Rightarrow> priority \<Rightarrow> bool" where
  "less_priority p q \<longleftrightarrow> priority_rank p < priority_rank q"

instance
proof
  fix p q :: priority
  assume "p \<le> q" "q \<le> p"
  then show "p = q"
    by (cases p; cases q) (auto simp: less_eq_priority_def)
qed (auto simp: less_eq_priority_def less_priority_def)

end

lemma user_le [simp]: "PriorityUser \<le> p \<longleftrightarrow> p = PriorityUser"
  by (cases p) (auto simp: less_eq_priority_def)

text \<open>
  A waiter is a channel, named by a number; \<open>woken\<close> holds the channels that were closed and whose
  waiter has not yet received from them.
\<close>

type_synonym chan = nat

record prio_sem =
  avail :: int
  reserved :: int
  cap :: int
  high :: "chan list"
  low :: "chan list"
  woken :: "chan set"

definition new_priority_sem :: "int \<Rightarrow> prio_sem" where
  "new_priority_sem slots =
     (let n = (if slots \<le> 0 then 1 else slots) in
      \<lparr>avail = n, reserved = 0, cap = n, high = [], low = [], woken = {}\<rparr>)"

section \<open>Operations\<close>

definition try_acquire_at :: "priority \<Rightarrow> prio_sem \<Rightarrow> bool \<times> prio_sem" where
  "try_acquire_at pri s =
     (if pri \<ge> PriorityUser then
        if reserved s > 0 then (True, s\<lparr>reserved := reserved s - 1\<rparr>)
        else if avail s > 0 then (True, s\<lparr>avail := avail s - 1\<rparr>)
        else (False, s)
      else if avail s > 0 \<and> high s = [] then (True, s\<lparr>avail := avail s - 1\<rparr>)
      else (False, s))"

definition try_acquire :: "prio_sem \<Rightarrow> bool \<times> prio_sem" where
  "try_acquire s = try_acquire_at PriorityUser s"

text \<open>
  The first critical section of \<open>Acquire\<close>: \<open>True\<close> when the fast path took a slot, \<open>False\<close> when
  the waiter's channel was queued.
\<close>

definition acquire_enter :: "priority \<Rightarrow> chan \<Rightarrow> prio_sem \<Rightarrow> bool \<times> prio_sem" where
  "acquire_enter pri ch s =
     (if pri \<ge> PriorityUser \<and> reserved s > 0 then (True, s\<lparr>reserved := reserved s - 1\<rparr>)
      else if avail s > 0 \<and> (pri \<ge> PriorityUser \<or> high s = [])
      then (True, s\<lparr>avail := avail s - 1\<rparr>)
      else if pri \<ge> PriorityUser then (False, s\<lparr>high := high s @ [ch]\<rparr>)
      else (False, s\<lparr>low := low s @ [ch]\<rparr>))"

fun remove_waiter_ch :: "chan list \<Rightarrow> chan \<Rightarrow> bool \<times> chan list" where
  "remove_waiter_ch [] ch = (False, [])"
| "remove_waiter_ch (w # ws) ch =
     (if w = ch then (True, ws)
      else (let (found, ws') = remove_waiter_ch ws ch in (found, w # ws')))"

text \<open>The critical section of the cancelled branch of \<open>Acquire\<close>.\<close>

definition acquire_cancel :: "priority \<Rightarrow> chan \<Rightarrow> prio_sem \<Rightarrow> bool \<times> prio_sem" where
  "acquire_cancel pri ch s =
     (if pri \<ge> PriorityUser
      then (let (removed, q) = remove_waiter_ch (high s) ch in (removed, s\<lparr>high := q\<rparr>))
      else (let (removed, q) = remove_waiter_ch (low s) ch in (removed, s\<lparr>low := q\<rparr>)))"

text \<open>Receiving from a closed channel.\<close>

definition receive :: "chan \<Rightarrow> prio_sem \<Rightarrow> prio_sem" where
  "receive ch s = s\<lparr>woken := woken s - {ch}\<rparr>"

definition dispatch :: "prio_sem \<Rightarrow> prio_sem" where
  "dispatch s =
     (case high s of
        ch # rest \<Rightarrow> s\<lparr>high := rest, woken := insert ch (woken s)\<rparr>
      | [] \<Rightarrow>
          (case low s of
             ch # rest \<Rightarrow> s\<lparr>low := rest, woken := insert ch (woken s)\<rparr>
           | [] \<Rightarrow> s\<lparr>avail := avail s + 1\<rparr>))"

definition release :: "prio_sem \<Rightarrow> prio_sem" where
  "release s = dispatch s"

definition release_reserved :: "prio_sem \<Rightarrow> prio_sem" where
  "release_reserved s =
     (case high s of
        ch # rest \<Rightarrow> s\<lparr>high := rest, woken := insert ch (woken s)\<rparr>
      | [] \<Rightarrow> s\<lparr>reserved := reserved s + 1\<rparr>)"

definition cancel_reservation :: "prio_sem \<Rightarrow> prio_sem" where
  "cancel_reservation s =
     (if reserved s \<le> 0 then s
      else dispatch (s\<lparr>reserved := reserved s - 1, avail := avail s + 1\<rparr>))"

definition slots_in_use :: "prio_sem \<Rightarrow> int \<times> int" where
  "slots_in_use s = (cap s - avail s - reserved s, cap s)"

text \<open>
  The whole of \<open>Acquire\<close> as one caller sees it. \<open>park\<close> is what happened to the semaphore while
  the caller was parked in the \<open>select\<close>, and which of its two branches was taken.
\<close>

datatype wake = Woken | CtxDone

type_synonym 's env = "chan \<times> ('s \<Rightarrow> wake \<times> 's)"

definition acquire :: "prio_sem env \<Rightarrow> priority \<Rightarrow> prio_sem \<Rightarrow> bool \<times> prio_sem" where
  "acquire e pri s =
     (case e of (ch, park) \<Rightarrow>
        (case acquire_enter pri ch s of
           (True, s1) \<Rightarrow> (True, s1)
         | (False, s1) \<Rightarrow>
             (case park s1 of
                (Woken, s2) \<Rightarrow> (True, receive ch s2)
              | (CtxDone, s2) \<Rightarrow>
                  (case acquire_cancel pri ch s2 of
                     (True, s3) \<Rightarrow> (False, s3)
                   | (False, s3) \<Rightarrow> (False, release (receive ch s3))))))"

section \<open>Well-formed semaphores and the slot balance\<close>

text \<open>
  \<open>sem_wf\<close> is what every operation keeps: the counters are not negative, no channel is queued
  twice or queued and woken, and a slot is free only when nobody who may take it waits.
  \<open>balance\<close> counts the slots that no caller holds: free, reserved, or on the way to a waiter.
\<close>

definition sem_wf :: "prio_sem \<Rightarrow> bool" where
  "sem_wf s \<longleftrightarrow>
     0 \<le> avail s \<and> 0 \<le> reserved s \<and> finite (woken s) \<and>
     distinct (high s @ low s) \<and> (set (high s) \<union> set (low s)) \<inter> woken s = {} \<and>
     (0 < avail s \<longrightarrow> high s = [] \<and> low s = []) \<and>
     (0 < reserved s \<longrightarrow> high s = [])"

definition balance :: "prio_sem \<Rightarrow> int" where
  "balance s = avail s + reserved s + int (card (woken s))"

lemmas sem_op_defs =
  try_acquire_at_def acquire_enter_def release_def dispatch_def release_reserved_def
  acquire_cancel_def receive_def

lemma remove_waiter_ch_spec:
  "remove_waiter_ch ws ch = (ch \<in> set ws, remove1 ch ws)"
  by (induction ws) auto

lemma cap_unchanged [simp]:
  "cap (snd (try_acquire_at p s)) = cap s"
  "cap (snd (acquire_enter p ch s)) = cap s"
  "cap (dispatch s) = cap s"
  "cap (release s) = cap s"
  "cap (release_reserved s) = cap s"
  "cap (snd (acquire_cancel p ch s)) = cap s"
  "cap (receive ch s) = cap s"
  by (auto simp: sem_op_defs remove_waiter_ch_spec split: list.splits)

lemma cap_cancel_reservation [simp]: "cap (cancel_reservation s) = cap s"
  by (simp add: cancel_reservation_def)

lemma new_priority_sem_wf: "sem_wf (new_priority_sem n)"
  by (simp add: new_priority_sem_def sem_wf_def Let_def)

lemma new_priority_sem_balance: "balance (new_priority_sem n) = cap (new_priority_sem n)"
  by (simp add: new_priority_sem_def balance_def Let_def)

lemma new_priority_sem_cap: "cap (new_priority_sem n) = (if n \<le> 0 then 1 else n)"
  by (simp add: new_priority_sem_def Let_def)

lemma try_acquire_at_wf: "sem_wf s \<Longrightarrow> sem_wf (snd (try_acquire_at p s))"
  by (auto simp: sem_wf_def try_acquire_at_def)

lemma try_acquire_at_balance:
  "balance (snd (try_acquire_at p s)) = balance s - of_bool (fst (try_acquire_at p s))"
  by (auto simp: balance_def try_acquire_at_def)

lemma try_acquire_at_fail: "\<not> fst (try_acquire_at p s) \<Longrightarrow> snd (try_acquire_at p s) = s"
  by (auto simp: try_acquire_at_def split: if_splits)

lemma try_acquire_at_queues [simp]:
  "high (snd (try_acquire_at p s)) = high s"
  "low (snd (try_acquire_at p s)) = low s"
  "woken (snd (try_acquire_at p s)) = woken s"
  by (auto simp: try_acquire_at_def)

lemma acquire_enter_wf:
  "sem_wf s \<Longrightarrow> ch \<notin> set (high s) \<union> set (low s) \<union> woken s \<Longrightarrow> sem_wf (snd (acquire_enter p ch s))"
  by (auto simp: sem_wf_def acquire_enter_def)

lemma acquire_enter_balance:
  "balance (snd (acquire_enter p ch s)) = balance s - of_bool (fst (acquire_enter p ch s))"
  by (auto simp: balance_def acquire_enter_def)

lemma acquire_enter_queues:
  "fst (acquire_enter p ch s) \<Longrightarrow>
     high (snd (acquire_enter p ch s)) = high s \<and> low (snd (acquire_enter p ch s)) = low s"
  "\<not> fst (acquire_enter p ch s) \<Longrightarrow>
     high (snd (acquire_enter p ch s)) = high s @ (if p = PriorityUser then [ch] else []) \<and>
     low (snd (acquire_enter p ch s)) = low s @ (if p = PriorityUser then [] else [ch])"
  "woken (snd (acquire_enter p ch s)) = woken s"
  by (auto simp: acquire_enter_def split: if_splits)

lemma dispatch_wf: "sem_wf s \<Longrightarrow> sem_wf (dispatch s)"
  by (auto simp: sem_wf_def dispatch_def split: list.splits)

lemma dispatch_balance: "sem_wf s \<Longrightarrow> balance (dispatch s) = balance s + 1"
  by (auto simp: sem_wf_def balance_def dispatch_def split: list.splits)

lemma release_reserved_wf: "sem_wf s \<Longrightarrow> sem_wf (release_reserved s)"
  by (auto simp: sem_wf_def release_reserved_def split: list.splits)

lemma release_reserved_balance: "sem_wf s \<Longrightarrow> balance (release_reserved s) = balance s + 1"
  by (auto simp: sem_wf_def balance_def release_reserved_def split: list.splits)

lemma acquire_cancel_wf: "sem_wf s \<Longrightarrow> sem_wf (snd (acquire_cancel p ch s))"
  by (auto simp: sem_wf_def acquire_cancel_def remove_waiter_ch_spec dest: in_set_remove1 [THEN iffD1, rotated] notin_set_remove1)

lemma acquire_cancel_balance [simp]: "balance (snd (acquire_cancel p ch s)) = balance s"
  by (simp add: balance_def acquire_cancel_def remove_waiter_ch_spec)

lemma receive_wf: "sem_wf s \<Longrightarrow> sem_wf (receive ch s)"
  by (auto simp: sem_wf_def receive_def)

lemma receive_balance: "sem_wf s \<Longrightarrow> ch \<in> woken s \<Longrightarrow> balance (receive ch s) = balance s - 1"
  by (simp add: sem_wf_def balance_def receive_def card_Diff_singleton)
    (metis One_nat_def Suc_pred card_gt_0_iff equals0D of_nat_Suc add_diff_cancel_left' diff_add_cancel add.commute)

text \<open>The same facts about a known outcome.\<close>

lemma try_acquire_at_True:
  "try_acquire_at p s = (True, m) \<Longrightarrow> sem_wf s \<Longrightarrow>
     sem_wf m \<and> balance m = balance s - 1 \<and> high m = high s \<and> low m = low s \<and> woken m = woken s"
  using try_acquire_at_wf [of s p] try_acquire_at_balance [of p s] try_acquire_at_queues [of p s]
  by simp

lemma acquire_enter_True:
  "acquire_enter p ch s = (True, m) \<Longrightarrow> sem_wf s \<Longrightarrow> ch \<notin> set (high s) \<union> set (low s) \<union> woken s \<Longrightarrow>
     sem_wf m \<and> balance m = balance s - 1 \<and> high m = high s \<and> low m = low s \<and> woken m = woken s"
  using acquire_enter_wf [of s ch p] acquire_enter_balance [of p ch s]
    acquire_enter_queues [of p ch s]
  by simp

lemma acquire_enter_False:
  "acquire_enter p ch s = (False, m) \<Longrightarrow> sem_wf s \<Longrightarrow> ch \<notin> set (high s) \<union> set (low s) \<union> woken s \<Longrightarrow>
     sem_wf m \<and> balance m = balance s \<and> woken m = woken s \<and>
     high m = high s @ (if p = PriorityUser then [ch] else []) \<and>
     low m = low s @ (if p = PriorityUser then [] else [ch])"
  using acquire_enter_wf [of s ch p] acquire_enter_balance [of p ch s]
    acquire_enter_queues [of p ch s]
  by simp

lemma acquire_cancel_outcome:
  "acquire_cancel p ch s = (b, m) \<Longrightarrow> sem_wf s \<Longrightarrow>
     sem_wf m \<and> balance m = balance s \<and> woken m = woken s \<and>
     b = (ch \<in> set (if p = PriorityUser then high s else low s)) \<and>
     high m = (if p = PriorityUser then remove1 ch (high s) else high s) \<and>
     low m = (if p = PriorityUser then low s else remove1 ch (low s))"
  using acquire_cancel_wf [of s p ch] acquire_cancel_balance [of p ch s]
  by (auto simp: acquire_cancel_def remove_waiter_ch_spec split: if_splits)

end
