(* ===== verification/SemSystem.thy ===== *)
theory SemSystem
  imports PrioritySem
begin

text \<open>
  The goroutines that share one priority semaphore, as a transition system: one step per critical
  section of \<open>engine/priority_sem.go\<close>, so every interleaving the mutex allows is a run. The
  parameter \<open>cr\<close> says whether callers may also use \<open>CancelReservation\<close>.
\<close>

datatype pc =
    PIdle                \<comment> \<open>holds nothing\<close>
  | PWaiting priority    \<comment> \<open>parked in the \<open>select\<close> of \<open>Acquire\<close>\<close>
  | PCancelling          \<comment> \<open>cancelled, but its channel was already closed\<close>
  | PHolding             \<comment> \<open>\<open>Acquire\<close> or \<open>TryAcquireAt\<close> returned with a slot\<close>

record sys =
  sem :: prio_sem
  pcs :: "nat \<Rightarrow> pc"

definition init_sys :: "int \<Rightarrow> sys" where
  "init_sys n = \<lparr>sem = new_priority_sem n, pcs = (\<lambda>_. PIdle)\<rparr>"

inductive sem_step :: "bool \<Rightarrow> sys \<Rightarrow> sys \<Rightarrow> bool" for cr where
  try_ok: "pcs s i = PIdle \<Longrightarrow> try_acquire_at p (sem s) = (True, m) \<Longrightarrow>
     sem_step cr s (s\<lparr>sem := m, pcs := (pcs s)(i := PHolding)\<rparr>)"
| enter_fast: "pcs s i = PIdle \<Longrightarrow> acquire_enter p i (sem s) = (True, m) \<Longrightarrow>
     sem_step cr s (s\<lparr>sem := m, pcs := (pcs s)(i := PHolding)\<rparr>)"
| enter_park: "pcs s i = PIdle \<Longrightarrow> acquire_enter p i (sem s) = (False, m) \<Longrightarrow>
     sem_step cr s (s\<lparr>sem := m, pcs := (pcs s)(i := PWaiting p)\<rparr>)"
| wake_up: "pcs s i = PWaiting p \<Longrightarrow> i \<in> woken (sem s) \<Longrightarrow>
     sem_step cr s (s\<lparr>sem := receive i (sem s), pcs := (pcs s)(i := PHolding)\<rparr>)"
| cancel_clean: "pcs s i = PWaiting p \<Longrightarrow> acquire_cancel p i (sem s) = (True, m) \<Longrightarrow>
     sem_step cr s (s\<lparr>sem := m, pcs := (pcs s)(i := PIdle)\<rparr>)"
| cancel_lost: "pcs s i = PWaiting p \<Longrightarrow> acquire_cancel p i (sem s) = (False, m) \<Longrightarrow>
     sem_step cr s (s\<lparr>sem := m, pcs := (pcs s)(i := PCancelling)\<rparr>)"
| cancel_return: "pcs s i = PCancelling \<Longrightarrow>
     sem_step cr s (s\<lparr>sem := release (receive i (sem s)), pcs := (pcs s)(i := PIdle)\<rparr>)"
| give_back: "pcs s i = PHolding \<Longrightarrow>
     sem_step cr s (s\<lparr>sem := release (sem s), pcs := (pcs s)(i := PIdle)\<rparr>)"
| give_back_reserved: "pcs s i = PHolding \<Longrightarrow>
     sem_step cr s (s\<lparr>sem := release_reserved (sem s), pcs := (pcs s)(i := PIdle)\<rparr>)"
| drop_reservation: "cr \<Longrightarrow> sem_step cr s (s\<lparr>sem := cancel_reservation (sem s)\<rparr>)"

inductive sem_reach :: "bool \<Rightarrow> int \<Rightarrow> sys \<Rightarrow> bool" for cr n where
  start: "sem_reach cr n (init_sys n)"
| step: "sem_reach cr n s \<Longrightarrow> sem_step cr s t \<Longrightarrow> sem_reach cr n t"

definition holding :: "sys \<Rightarrow> nat set" where
  "holding s = {i. pcs s i = PHolding}"

section \<open>The invariant\<close>

text \<open>
  How the program counters and the queues agree: a channel is queued or woken exactly when its
  goroutine is parked at that priority, or is cancelling with a slot already granted to it.
\<close>

definition queues_agree :: "sys \<Rightarrow> bool" where
  "queues_agree s \<longleftrightarrow>
     (\<forall>i. i \<in> set (high (sem s)) \<longleftrightarrow> pcs s i = PWaiting PriorityUser \<and> i \<notin> woken (sem s)) \<and>
     (\<forall>i. i \<in> set (low (sem s)) \<longleftrightarrow> pcs s i = PWaiting PriorityBackground \<and> i \<notin> woken (sem s)) \<and>
     (\<forall>i. i \<in> woken (sem s) \<longrightarrow> (\<exists>p. pcs s i = PWaiting p) \<or> pcs s i = PCancelling) \<and>
     (\<forall>i. pcs s i = PCancelling \<longrightarrow> i \<in> woken (sem s))"

definition sys_inv :: "int \<Rightarrow> sys \<Rightarrow> bool" where
  "sys_inv c s \<longleftrightarrow>
     sem_wf (sem s) \<and> queues_agree s \<and> finite (holding s) \<and>
     balance (sem s) + int (card (holding s)) = c"

lemma holding_upd [simp]:
  "holding (s\<lparr>sem := m, pcs := (pcs s)(i := q)\<rparr>) =
     (if q = PHolding then insert i (holding s) else holding s - {i})"
  by (auto simp: holding_def)

lemma holding_sem [simp]: "holding (s\<lparr>sem := m\<rparr>) = holding s"
  by (simp add: holding_def)

lemma holding_iff [simp]: "i \<in> holding s \<longleftrightarrow> pcs s i = PHolding"
  by (simp add: holding_def)

lemma idle_fresh:
  "queues_agree s \<Longrightarrow> pcs s i = PIdle \<Longrightarrow>
     i \<notin> set (high (sem s)) \<union> set (low (sem s)) \<union> woken (sem s)"
  by (auto simp: queues_agree_def)

lemma init_inv: "sys_inv (cap (new_priority_sem n)) (init_sys n)"
  using new_priority_sem_wf [of n] new_priority_sem_balance [of n]
  by (auto simp: sys_inv_def init_sys_def queues_agree_def holding_def new_priority_sem_def Let_def)

text \<open>Taking a slot keeps the queues and moves one unit of the balance to the holder.\<close>

lemma inv_take:
  assumes inv: "sys_inv c s" and pc: "pcs s i = PIdle"
    and wf: "sem_wf m" and bal: "balance m = balance (sem s) - 1"
    and q: "high m = high (sem s)" "low m = low (sem s)" "woken m = woken (sem s)"
  shows "sys_inv c (s\<lparr>sem := m, pcs := (pcs s)(i := PHolding)\<rparr>)"
proof -
  have "queues_agree (s\<lparr>sem := m, pcs := (pcs s)(i := PHolding)\<rparr>)"
    using inv pc q by (auto simp: sys_inv_def queues_agree_def)
  moreover have "int (card (insert i (holding s))) = int (card (holding s)) + 1"
    using inv pc by (simp add: sys_inv_def)
  ultimately show ?thesis
    using inv wf bal by (simp add: sys_inv_def)
qed

lemma inv_leave:
  assumes inv: "sys_inv c s" and pc: "pcs s i = PHolding"
    and wf: "sem_wf m" and bal: "balance m = balance (sem s) + 1"
    and q: "queues_agree (s\<lparr>sem := m, pcs := (pcs s)(i := PIdle)\<rparr>)"
  shows "sys_inv c (s\<lparr>sem := m, pcs := (pcs s)(i := PIdle)\<rparr>)"
proof -
  have "int (card (holding s - {i})) = int (card (holding s)) - 1"
    using inv pc by (simp add: sys_inv_def card_Diff_singleton)
      (metis One_nat_def Suc_pred card_gt_0_iff holding_iff empty_iff of_nat_Suc add_diff_cancel_left' add.commute)
  then show ?thesis
    using inv wf bal q by (simp add: sys_inv_def)
qed

text \<open>Handing a slot on keeps queues and program counters in agreement.\<close>

lemma dispatch_agree:
  assumes "queues_agree s" "sem_wf (sem s)"
  shows "queues_agree (s\<lparr>sem := dispatch (sem s)\<rparr>)"
  using assms
  by (auto simp: queues_agree_def dispatch_def sem_wf_def split: list.splits)

lemma release_reserved_agree:
  assumes "queues_agree s" "sem_wf (sem s)"
  shows "queues_agree (s\<lparr>sem := release_reserved (sem s)\<rparr>)"
  using assms
  by (auto simp: queues_agree_def release_reserved_def sem_wf_def split: list.splits)

lemma agree_idle:
  assumes "queues_agree (s\<lparr>sem := m\<rparr>)" "pcs s i = PHolding \<or> pcs s i = PIdle"
  shows "queues_agree (s\<lparr>sem := m, pcs := (pcs s)(i := PIdle)\<rparr>)"
  using assms by (auto simp: queues_agree_def)

lemma sem_step_inv:
  assumes "sem_step False s t" "sys_inv c s"
  shows "sys_inv c t"
  using assms
proof (induction rule: sem_step.induct)
  case (try_ok s i p m)
  then show ?case
    using try_acquire_at_True [of p "sem s" m]
    by (intro inv_take) (auto simp: sys_inv_def)
next
  case (enter_fast s i p m)
  then show ?case
    using acquire_enter_True [of p i "sem s" m] idle_fresh [of s i]
    by (intro inv_take) (auto simp: sys_inv_def)
next
  case (enter_park s i p m)
  then have fresh: "i \<notin> set (high (sem s)) \<union> set (low (sem s)) \<union> woken (sem s)"
    using idle_fresh [of s i] by (simp add: sys_inv_def)
  with enter_park have m: "sem_wf m \<and> balance m = balance (sem s) \<and> woken m = woken (sem s) \<and>
      high m = high (sem s) @ (if p = PriorityUser then [i] else []) \<and>
      low m = low (sem s) @ (if p = PriorityUser then [] else [i])"
    by (intro acquire_enter_False) (simp_all add: sys_inv_def)
  have "queues_agree (s\<lparr>sem := m, pcs := (pcs s)(i := PWaiting p)\<rparr>)"
    using enter_park(1,3) fresh m
    by (cases p) (auto simp: sys_inv_def queues_agree_def)
  with m enter_park show ?case
    by (simp add: sys_inv_def)
next
  case (wake_up s i p)
  then have w: "sem_wf (sem s)" by (simp add: sys_inv_def)
  have "queues_agree (s\<lparr>sem := receive i (sem s), pcs := (pcs s)(i := PHolding)\<rparr>)"
    using wake_up by (auto simp: sys_inv_def queues_agree_def receive_def)
  moreover have "int (card (insert i (holding s))) = int (card (holding s)) + 1"
    using wake_up by (simp add: sys_inv_def)
  ultimately show ?case
    using wake_up w by (simp add: sys_inv_def receive_wf receive_balance)
next
  case (cancel_clean s i p m)
  then have m: "sem_wf m \<and> balance m = balance (sem s) \<and> woken m = woken (sem s) \<and>
      True = (i \<in> set (if p = PriorityUser then high (sem s) else low (sem s))) \<and>
      high m = (if p = PriorityUser then remove1 i (high (sem s)) else high (sem s)) \<and>
      low m = (if p = PriorityUser then low (sem s) else remove1 i (low (sem s)))"
    by (intro acquire_cancel_outcome) (simp_all add: sys_inv_def)
  have "queues_agree (s\<lparr>sem := m, pcs := (pcs s)(i := PIdle)\<rparr>)"
    using cancel_clean(1,3) m
    by (cases p) (auto simp: sys_inv_def sem_wf_def queues_agree_def)
  with m cancel_clean show ?case
    by (simp add: sys_inv_def)
next
  case (cancel_lost s i p m)
  then have m: "sem_wf m \<and> balance m = balance (sem s) \<and> woken m = woken (sem s) \<and>
      False = (i \<in> set (if p = PriorityUser then high (sem s) else low (sem s))) \<and>
      high m = (if p = PriorityUser then remove1 i (high (sem s)) else high (sem s)) \<and>
      low m = (if p = PriorityUser then low (sem s) else remove1 i (low (sem s)))"
    by (intro acquire_cancel_outcome) (simp_all add: sys_inv_def)
  have "queues_agree (s\<lparr>sem := m, pcs := (pcs s)(i := PCancelling)\<rparr>)"
    using cancel_lost(1,3) m
    by (cases p) (auto simp: sys_inv_def queues_agree_def remove1_idem)
  with m cancel_lost show ?case
    by (simp add: sys_inv_def)
next
  case (cancel_return s i)
  let ?m = "receive i (sem s)"
  have w: "sem_wf ?m" "i \<in> woken (sem s)"
    using cancel_return by (simp_all add: sys_inv_def receive_wf queues_agree_def)
  have "queues_agree (s\<lparr>sem := ?m, pcs := (pcs s)(i := PIdle)\<rparr>)"
    using cancel_return by (auto simp: sys_inv_def queues_agree_def receive_def)
  from dispatch_agree [OF this] w(1)
  have "queues_agree (s\<lparr>sem := release ?m, pcs := (pcs s)(i := PIdle)\<rparr>)"
    by (cases s) (simp add: release_def)
  with w cancel_return show ?case
    by (simp add: sys_inv_def release_def dispatch_wf dispatch_balance receive_balance)
next
  case (give_back s i)
  then show ?case
    by (intro inv_leave agree_idle)
      (simp_all add: sys_inv_def release_def dispatch_wf dispatch_balance dispatch_agree)
next
  case (give_back_reserved s i)
  then show ?case
    by (intro inv_leave agree_idle)
      (simp_all add: sys_inv_def release_reserved_wf release_reserved_balance release_reserved_agree)
next
  case (drop_reservation s)
  then show ?case by simp
qed

lemma sem_reach_inv: "sem_reach False n s \<Longrightarrow> sys_inv (cap (new_priority_sem n)) s"
  by (induction rule: sem_reach.induct) (auto intro: init_inv sem_step_inv)

lemma balance_nonneg: "sem_wf m \<Longrightarrow> 0 \<le> balance m"
  by (simp add: sem_wf_def balance_def)

section \<open>What the invariant gives\<close>

lemma sem_reach_cap: "sem_reach cr n s \<Longrightarrow> cap (sem s) = cap (new_priority_sem n)"
proof (induction rule: sem_reach.induct)
  case start
  show ?case by (simp add: init_sys_def)
next
  case (step s t)
  from step(2) have "cap (sem t) = cap (sem s)"
  proof (cases rule: sem_step.cases)
    case (try_ok i p m)
    then show ?thesis using cap_unchanged(1) [of p "sem s"] by simp
  next
    case (enter_fast i p m)
    then show ?thesis using cap_unchanged(2) [of p i "sem s"] by simp
  next
    case (enter_park i p m)
    then show ?thesis using cap_unchanged(2) [of p i "sem s"] by simp
  next
    case (cancel_clean i p m)
    then show ?thesis using cap_unchanged(6) [of p i "sem s"] by simp
  next
    case (cancel_lost i p m)
    then show ?thesis using cap_unchanged(6) [of p i "sem s"] by simp
  qed simp_all
  with step show ?case by simp
qed

text \<open>
  C2: as long as no caller uses \<open>CancelReservation\<close>, in every interleaving the goroutines that
  hold a slot never outnumber the slots the semaphore was made with, and the number that
  \<open>SlotsInUse\<close> reports counts exactly the holders and the waiters a slot was already handed to.
\<close>

theorem holders_bounded:
  assumes "sem_reach False n s"
  shows "int (card (holding s)) \<le> cap (new_priority_sem n) \<and>
    fst (slots_in_use (sem s)) = int (card (holding s)) + int (card (woken (sem s)))"
proof -
  from assms have inv: "sys_inv (cap (new_priority_sem n)) s" by (rule sem_reach_inv)
  then have "0 \<le> balance (sem s)" by (simp add: sys_inv_def balance_nonneg)
  with inv sem_reach_cap [OF assms] show ?thesis
    by (simp add: sys_inv_def slots_in_use_def balance_def)
qed

text \<open>A run of three steps: one goroutine takes the only slot, a second one parks.\<close>

definition demo_sys :: sys where
  "demo_sys =
     \<lparr>sem = \<lparr>avail = 0, reserved = 0, cap = 1, high = [2], low = [], woken = {}\<rparr>,
      pcs = (\<lambda>_. PIdle)(1 := PHolding, 2 := PWaiting PriorityUser)\<rparr>"

lemma demo_reach: "sem_reach cr 1 demo_sys"
proof -
  let ?s1 = "\<lparr>sem = \<lparr>avail = 0, reserved = 0, cap = 1, high = [], low = [], woken = {}\<rparr>,
     pcs = (\<lambda>_. PIdle)(1 := PHolding)\<rparr> :: sys"
  have "sem_step cr (init_sys 1) ?s1"
    using try_ok [of "init_sys 1" 1 PriorityUser "sem ?s1" cr]
    by (simp add: init_sys_def new_priority_sem_def try_acquire_at_def)
  then have r1: "sem_reach cr 1 ?s1" by (rule sem_reach.step [OF sem_reach.start])
  have "sem_step cr ?s1 demo_sys"
    using enter_park [of ?s1 2 PriorityUser "sem demo_sys" cr]
    by (simp add: demo_sys_def acquire_enter_def)
  then show ?thesis by (rule sem_reach.step [OF r1])
qed

theorem holders_bounded_witness: "int (card (holding demo_sys)) \<le> cap (new_priority_sem 1)"
  using holders_bounded [OF demo_reach] by simp

text \<open>
  C11: no goroutine sleeps beside a slot it could have. In every reachable state, if somebody is
  queued then no unreserved slot is free, and if a user-priority waiter is queued then no slot
  is reserved either, so every slot of the semaphore is held or already handed over.
\<close>

theorem no_lost_wakeup:
  assumes "sem_reach False n s"
    and "pcs s i = PWaiting p" and "i \<notin> woken (sem s)"
  shows "avail (sem s) = 0 \<and>
    (p = PriorityUser \<longrightarrow>
       int (card (holding s)) + int (card (woken (sem s))) = cap (new_priority_sem n))"
proof -
  from assms(1) have inv: "sys_inv (cap (new_priority_sem n)) s" by (rule sem_reach_inv)
  with assms(2,3) have q: "i \<in> set (if p = PriorityUser then high (sem s) else low (sem s))"
    by (cases p) (auto simp: sys_inv_def queues_agree_def)
  with inv have "avail (sem s) = 0" "p = PriorityUser \<longrightarrow> reserved (sem s) = 0"
    by (auto simp: sys_inv_def sem_wf_def split: if_splits)
  with inv show ?thesis by (auto simp: sys_inv_def balance_def)
qed

theorem no_lost_wakeup_witness: "avail (sem demo_sys) = 0"
  using no_lost_wakeup [OF demo_reach, of 2 PriorityUser] by (simp add: demo_sys_def)

text \<open>
  A released slot goes to the longest-waiting user, and only without one to the
  longest-waiting background caller; a slot released with a reservation never goes to a
  background caller, and neither does a background request take a reserved slot.
\<close>

lemma release_order:
  "(\<forall>u us. high s = u # us \<longrightarrow>
      release s = s\<lparr>high := us, woken := insert u (woken s)\<rparr> \<and>
      release_reserved s = s\<lparr>high := us, woken := insert u (woken s)\<rparr>) \<and>
   (\<forall>b bs. high s = [] \<and> low s = b # bs \<longrightarrow>
      release s = s\<lparr>low := bs, woken := insert b (woken s)\<rparr>) \<and>
   low (release_reserved s) = low s \<and>
   (high s = [] \<longrightarrow> reserved (release_reserved s) = reserved s + 1 \<and> woken (release_reserved s) = woken s) \<and>
   reserved (snd (try_acquire_at PriorityBackground s)) = reserved s \<and>
   reserved (snd (acquire_enter PriorityBackground ch s)) = reserved s"
  by (auto simp: sem_op_defs less_eq_priority_def split: list.splits)

lemma release_order_witness:
  "release (sem demo_sys) = (sem demo_sys)\<lparr>high := [], woken := {2}\<rparr>"
  using release_order [of "sem demo_sys" 0] by (simp add: demo_sys_def)

text \<open>
  \<open>CancelReservation\<close> creates slots. Cancelling one reservation raises the free slots by two
  when nobody waits (one for the reservation, one more in \<open>dispatch\<close>), so a semaphore of one
  slot reaches a state in which two goroutines hold it.
\<close>

lemma cancel_reservation_inflates:
  "(sem_wf m \<and> 0 < reserved m \<longrightarrow> balance (cancel_reservation m) = balance m + 1) \<and>
   (\<exists>s. sem_reach True 1 s \<and> card (holding s) = 2 \<and> cap (sem s) = 1)"
proof
  show "sem_wf m \<and> 0 < reserved m \<longrightarrow> balance (cancel_reservation m) = balance m + 1"
    by (auto simp: cancel_reservation_def dispatch_def balance_def sem_wf_def split: list.splits)
next
  let ?m = "\<lambda>a r. \<lparr>avail = a, reserved = r, cap = 1, high = [], low = [], woken = {}\<rparr> :: prio_sem"
  let ?s = "\<lambda>a r f. \<lparr>sem = ?m a r, pcs = f\<rparr> :: sys"
  let ?f = "(\<lambda>_. PIdle) :: nat \<Rightarrow> pc"
  have "sem_step True (?s 1 0 ?f) (?s 0 0 (?f(1 := PHolding)))"
    using try_ok [of "?s 1 0 ?f" 1 PriorityUser "?m 0 0" True] by (simp add: try_acquire_at_def)
  with sem_reach.start [of True 1] have r1: "sem_reach True 1 (?s 0 0 (?f(1 := PHolding)))"
    by (auto simp: init_sys_def new_priority_sem_def intro: sem_reach.step)
  have "sem_step True (?s 0 0 (?f(1 := PHolding))) (?s 0 1 ?f)"
    using give_back_reserved [of "?s 0 0 (?f(1 := PHolding))" 1 True]
    by (simp add: release_reserved_def fun_upd_idem)
  from sem_reach.step [OF r1 this] have r2: "sem_reach True 1 (?s 0 1 ?f)" .
  have "sem_step True (?s 0 1 ?f) (?s 2 0 ?f)"
    using drop_reservation [of True "?s 0 1 ?f"]
    by (simp add: cancel_reservation_def dispatch_def)
  from sem_reach.step [OF r2 this] have r3: "sem_reach True 1 (?s 2 0 ?f)" .
  have "sem_step True (?s 2 0 ?f) (?s 1 0 (?f(1 := PHolding)))"
    using try_ok [of "?s 2 0 ?f" 1 PriorityUser "?m 1 0" True] by (simp add: try_acquire_at_def)
  from sem_reach.step [OF r3 this] have r4: "sem_reach True 1 (?s 1 0 (?f(1 := PHolding)))" .
  have "sem_step True (?s 1 0 (?f(1 := PHolding))) (?s 0 0 (?f(1 := PHolding, 2 := PHolding)))"
    using try_ok [of "?s 1 0 (?f(1 := PHolding))" 2 PriorityUser "?m 0 0" True]
    by (simp add: try_acquire_at_def)
  from sem_reach.step [OF r4 this]
  have r5: "sem_reach True 1 (?s 0 0 (?f(1 := PHolding, 2 := PHolding)))" .
  moreover have "holding (?s 0 0 (?f(1 := PHolding, 2 := PHolding))) = {1, 2}"
    by (auto simp: holding_def)
  ultimately show "\<exists>s. sem_reach True 1 s \<and> card (holding s) = 2 \<and> cap (sem s) = 1"
    by (intro exI [of _ "?s 0 0 (?f(1 := PHolding, 2 := PHolding))"]) simp
qed

lemma cancel_reservation_inflates_witness:
  "balance (cancel_reservation \<lparr>avail = 0, reserved = 1, cap = 1, high = [], low = [], woken = {}\<rparr>) = 2"
  using cancel_reservation_inflates
    [of "\<lparr>avail = 0, reserved = 1, cap = 1, high = [], low = [], woken = {}\<rparr>"]
  by (simp add: sem_wf_def balance_def)

end
