(* ===== verification/SlotRouter.thy ===== *)
theory SlotRouter
  imports SemSystem
begin

text \<open>
  The slot router of \<open>engine/slot_router.go\<close> and the slot protocol of an orchestrator call
  (\<open>runOrchestrator\<close> in \<open>engine/engine.go\<close>). The router reaches its two semaphores through the
  interface \<open>SlotChecker\<close>: a record of operations here, whose laws are the locale
  \<open>slot_checker_laws\<close>; the priority semaphore of \<open>PrioritySem\<close> is the provider.
\<close>

section \<open>The interface SlotChecker\<close>

record 's slot_checker =
  sc_try_acquire :: "'s \<Rightarrow> bool \<times> 's"
  sc_try_acquire_at :: "priority \<Rightarrow> 's \<Rightarrow> bool \<times> 's"
  sc_acquire :: "'s env \<Rightarrow> priority \<Rightarrow> 's \<Rightarrow> bool \<times> 's"   \<comment> \<open>\<open>True\<close> for a nil error\<close>
  sc_release :: "'s \<Rightarrow> 's"
  sc_release_reserved :: "'s \<Rightarrow> 's"
  sc_cancel_reservation :: "'s \<Rightarrow> 's"

definition prio_ops :: "prio_sem slot_checker" where
  "prio_ops =
     \<lparr>sc_try_acquire = try_acquire, sc_try_acquire_at = try_acquire_at, sc_acquire = acquire,
      sc_release = release, sc_release_reserved = release_reserved,
      sc_cancel_reservation = cancel_reservation\<rparr>"

section \<open>The router\<close>

text \<open>
  The state a router call works on: the two semaphores and the metric events it emitted, each
  with its backend, strategy and result tags.
\<close>

type_synonym metric = "string \<times> string \<times> string"

record 's rstate =
  primary_slots :: 's
  fallback_slots :: 's
  emitted :: "metric list"

record router_cfg =
  primary :: nat            \<comment> \<open>the client, by identity\<close>
  primary_model :: string
  fallback :: nat
  fallback_model :: string

record 's choice =
  client :: nat
  model :: string
  c_release :: "'s rstate \<Rightarrow> 's rstate"
  c_release_reserved :: "'s rstate \<Rightarrow> 's rstate"
  c_reacquire :: "'s env \<Rightarrow> 's rstate \<Rightarrow> bool \<times> 's rstate"

definition since_metric :: "string \<Rightarrow> string \<Rightarrow> string \<Rightarrow> 's rstate \<Rightarrow> 's rstate" where
  "since_metric backend strategy res st = st\<lparr>emitted := emitted st @ [(backend, strategy, res)]\<rparr>"

definition brain_choice :: "'s slot_checker \<Rightarrow> router_cfg \<Rightarrow> priority \<Rightarrow> 's choice" where
  "brain_choice ops r pri =
     \<lparr>client = fallback r, model = fallback_model r,
      c_release = (\<lambda>st. st\<lparr>fallback_slots := sc_release ops (fallback_slots st)\<rparr>),
      c_release_reserved = (\<lambda>st. st\<lparr>fallback_slots := sc_release_reserved ops (fallback_slots st)\<rparr>),
      c_reacquire = (\<lambda>e st.
        case sc_acquire ops e pri (fallback_slots st) of
          (True, m) \<Rightarrow> (True, st\<lparr>fallback_slots := m\<rparr>)
        | (False, m) \<Rightarrow> (False, st\<lparr>fallback_slots := sc_cancel_reservation ops m\<rparr>))\<rparr>"

definition primary_choice :: "'s slot_checker \<Rightarrow> router_cfg \<Rightarrow> priority \<Rightarrow> 's choice" where
  "primary_choice ops r pri =
     \<lparr>client = primary r, model = primary_model r,
      c_release = (\<lambda>st. st\<lparr>primary_slots := sc_release ops (primary_slots st)\<rparr>),
      c_release_reserved = (\<lambda>st. st\<lparr>primary_slots := sc_release_reserved ops (primary_slots st)\<rparr>),
      c_reacquire = (\<lambda>e st.
        case sc_acquire ops e pri (primary_slots st) of
          (True, m) \<Rightarrow> (True, st\<lparr>primary_slots := m\<rparr>)
        | (False, m) \<Rightarrow> (False, st\<lparr>primary_slots := sc_cancel_reservation ops m\<rparr>))\<rparr>"

definition uncoordinated_choice :: "router_cfg \<Rightarrow> 's choice" where
  "uncoordinated_choice r =
     \<lparr>client = fallback r, model = fallback_model r,
      c_release = (\<lambda>st. st), c_release_reserved = (\<lambda>st. st), c_reacquire = (\<lambda>e st. (True, st))\<rparr>"

definition try_acquire_primary ::
  "'s slot_checker \<Rightarrow> router_cfg \<Rightarrow> 's rstate \<Rightarrow> 's choice option \<times> 's rstate" where
  "try_acquire_primary ops r st =
     (case sc_try_acquire ops (primary_slots st) of
        (True, m) \<Rightarrow>
          (Some (primary_choice ops r PriorityUser),
           since_metric ''9b'' ''try_primary'' ''ok'' (st\<lparr>primary_slots := m\<rparr>))
      | (False, m) \<Rightarrow>
          (None, since_metric ''9b'' ''try_primary'' ''busy'' (st\<lparr>primary_slots := m\<rparr>)))"

definition acquire_prefer_brain ::
  "'s slot_checker \<Rightarrow> router_cfg \<Rightarrow> 's env \<Rightarrow> priority \<Rightarrow> 's rstate \<Rightarrow> 's choice \<times> 's rstate" where
  "acquire_prefer_brain ops r e pri st =
     (case sc_try_acquire_at ops pri (fallback_slots st) of
        (True, m) \<Rightarrow>
          (brain_choice ops r pri,
           since_metric ''brain'' ''prefer_brain'' ''ok'' (st\<lparr>fallback_slots := m\<rparr>))
      | (False, m) \<Rightarrow>
          (let st1 = st\<lparr>fallback_slots := m\<rparr> in
           case sc_try_acquire_at ops pri (primary_slots st1) of
             (True, m1) \<Rightarrow>
               (primary_choice ops r pri,
                since_metric ''9b'' ''prefer_brain'' ''fallback'' (st1\<lparr>primary_slots := m1\<rparr>))
           | (False, m1) \<Rightarrow>
               (let st2 = st1\<lparr>primary_slots := m1\<rparr> in
                case sc_acquire ops e pri (fallback_slots st2) of
                  (False, m2) \<Rightarrow>
                    (uncoordinated_choice r,
                     since_metric ''brain'' ''prefer_brain'' ''cancelled'' (st2\<lparr>fallback_slots := m2\<rparr>))
                | (True, m2) \<Rightarrow>
                    (brain_choice ops r pri,
                     since_metric ''brain'' ''prefer_brain'' ''ok'' (st2\<lparr>fallback_slots := m2\<rparr>)))))"

definition acquire_prefer_primary ::
  "'s slot_checker \<Rightarrow> router_cfg \<Rightarrow> 's env \<Rightarrow> priority \<Rightarrow> 's rstate \<Rightarrow> 's choice \<times> 's rstate" where
  "acquire_prefer_primary ops r e pri st =
     (case sc_try_acquire_at ops pri (primary_slots st) of
        (True, m) \<Rightarrow>
          (primary_choice ops r pri,
           since_metric ''9b'' ''prefer_primary'' ''ok'' (st\<lparr>primary_slots := m\<rparr>))
      | (False, m) \<Rightarrow>
          (let st1 = st\<lparr>primary_slots := m\<rparr> in
           case sc_acquire ops e pri (fallback_slots st1) of
             (False, m1) \<Rightarrow>
               (uncoordinated_choice r,
                since_metric ''brain'' ''prefer_primary'' ''cancelled'' (st1\<lparr>fallback_slots := m1\<rparr>))
           | (True, m1) \<Rightarrow>
               (brain_choice ops r pri,
                since_metric ''brain'' ''prefer_primary'' ''fallback'' (st1\<lparr>fallback_slots := m1\<rparr>))))"

definition acquire_or_fallback ::
  "'s slot_checker \<Rightarrow> router_cfg \<Rightarrow> 's env \<Rightarrow> bool \<Rightarrow> priority \<Rightarrow> 's rstate \<Rightarrow> 's choice \<times> 's rstate" where
  "acquire_or_fallback ops r e prefer_brain pri st =
     (if prefer_brain then acquire_prefer_brain ops r e pri st
      else acquire_prefer_primary ops r e pri st)"

text \<open>The router without a second model: always the same client, nothing to release.\<close>

definition noop_choice :: "nat \<Rightarrow> string \<Rightarrow> 's choice" where
  "noop_choice c m =
     \<lparr>client = c, model = m,
      c_release = (\<lambda>st. st), c_release_reserved = (\<lambda>st. st), c_reacquire = (\<lambda>e st. (True, st))\<rparr>"

definition passthrough_try_acquire_primary :: "nat \<Rightarrow> string \<Rightarrow> 's rstate \<Rightarrow> 's choice option \<times> 's rstate" where
  "passthrough_try_acquire_primary c m st = (Some (noop_choice c m), st)"

definition passthrough_acquire_or_fallback :: "nat \<Rightarrow> string \<Rightarrow> 's rstate \<Rightarrow> 's choice \<times> 's rstate" where
  "passthrough_acquire_or_fallback c m st = (noop_choice c m, st)"

section \<open>An orchestrator call\<close>

text \<open>
  \<open>runOrchestrator\<close>: before each tool the slot is released and the flag \<open>acquired\<close> cleared, after
  it the slot is reacquired and the flag set on success; the deferred function releases when the
  flag is set. A call is given by its tools: what the other goroutines do while the tool runs, and
  the environment of the reacquisition after it.
\<close>

type_synonym 's tool_run = "('s rstate \<Rightarrow> 's rstate) \<times> 's env"

definition on_tool_start :: "'s choice \<Rightarrow> bool \<times> 's rstate \<Rightarrow> bool \<times> 's rstate" where
  "on_tool_start c = (\<lambda>(acquired, st). (False, c_release c st))"

definition on_tool_end :: "'s choice \<Rightarrow> 's env \<Rightarrow> bool \<times> 's rstate \<Rightarrow> bool \<times> 's rstate" where
  "on_tool_end c e = (\<lambda>(acquired, st).
     case c_reacquire c e st of
       (True, st') \<Rightarrow> (True, st')
     | (False, st') \<Rightarrow> (acquired, st'))"

fun tool_calls :: "'s choice \<Rightarrow> 's tool_run list \<Rightarrow> bool \<times> 's rstate \<Rightarrow> bool \<times> 's rstate" where
  "tool_calls c [] a = a"
| "tool_calls c ((others, e) # ts) a =
     tool_calls c ts (on_tool_end c e (apsnd others (on_tool_start c a)))"

definition finish_call :: "'s choice \<Rightarrow> bool \<times> 's rstate \<Rightarrow> 's rstate" where
  "finish_call c = (\<lambda>(acquired, st). if acquired then c_release c st else st)"

definition run_call :: "'s choice \<Rightarrow> 's tool_run list \<Rightarrow> 's rstate \<Rightarrow> 's rstate" where
  "run_call c es st = finish_call c (tool_calls c es (True, st))"

section \<open>What the router may rely on\<close>

text \<open>
  \<open>free s\<close> counts the slots nobody holds; \<open>after e p s\<close> is the state an \<open>Acquire\<close> finally acts on
  (\<open>s\<close> itself on the fast path, what the others left behind when it was parked); \<open>env_ok\<close> says
  that the environment is one the mutex allows.
\<close>

locale slot_checker_laws =
  fixes ops :: "'s slot_checker"
    and sok :: "'s \<Rightarrow> bool"
    and free :: "'s \<Rightarrow> int"
    and after :: "'s env \<Rightarrow> priority \<Rightarrow> 's \<Rightarrow> 's"
    and env_ok :: "'s env \<Rightarrow> priority \<Rightarrow> 's \<Rightarrow> bool"
  assumes try_user: "sc_try_acquire ops s = sc_try_acquire_at ops PriorityUser s"
    and try_true: "sok s \<Longrightarrow> sc_try_acquire_at ops p s = (True, t) \<Longrightarrow> sok t \<and> free t = free s - 1"
    and try_false: "sc_try_acquire_at ops p s = (False, t) \<Longrightarrow> t = s"
    and release_law: "sok s \<Longrightarrow> sok (sc_release ops s) \<and> free (sc_release ops s) = free s + 1"
    and reserve_law: "sok s \<Longrightarrow> sok (sc_release_reserved ops s) \<and> free (sc_release_reserved ops s) = free s + 1"
    and acquire_law: "sok s \<Longrightarrow> env_ok e p s \<Longrightarrow> sc_acquire ops e p s = (ok, t) \<Longrightarrow>
      sok t \<and> free t = free (after e p s) - of_bool ok"

text \<open>The two semaphores of the router together.\<close>

definition st_wf :: "('s \<Rightarrow> bool) \<Rightarrow> 's rstate \<Rightarrow> bool" where
  "st_wf sok st \<longleftrightarrow> sok (primary_slots st) \<and> sok (fallback_slots st)"

definition st_free :: "('s \<Rightarrow> int) \<Rightarrow> 's rstate \<Rightarrow> int" where
  "st_free free st = free (primary_slots st) + free (fallback_slots st)"

lemma since_metric_slots [simp]:
  "primary_slots (since_metric b k x st) = primary_slots st"
  "fallback_slots (since_metric b k x st) = fallback_slots st"
  by (simp_all add: since_metric_def)

lemma choice_release_slots [simp]:
  "primary_slots (c_release (brain_choice ops r p) st) = primary_slots st"
  "fallback_slots (c_release (brain_choice ops r p) st) = sc_release ops (fallback_slots st)"
  "primary_slots (c_release (primary_choice ops r p) st) = sc_release ops (primary_slots st)"
  "fallback_slots (c_release (primary_choice ops r p) st) = fallback_slots st"
  "c_release (uncoordinated_choice r) st = st"
  by (simp_all add: brain_choice_def primary_choice_def uncoordinated_choice_def)

text \<open>The decision table of the router, one line per branch.\<close>

lemma acquire_prefer_brain_cases:
  "sc_try_acquire_at ops p (fallback_slots st) = (True, m) \<Longrightarrow>
     acquire_prefer_brain ops r e p st =
       (brain_choice ops r p, since_metric ''brain'' ''prefer_brain'' ''ok'' (st\<lparr>fallback_slots := m\<rparr>))"
  "sc_try_acquire_at ops p (fallback_slots st) = (False, m) \<Longrightarrow>
   sc_try_acquire_at ops p (primary_slots st) = (True, m1) \<Longrightarrow>
     acquire_prefer_brain ops r e p st =
       (primary_choice ops r p,
        since_metric ''9b'' ''prefer_brain'' ''fallback'' (st\<lparr>fallback_slots := m, primary_slots := m1\<rparr>))"
  "sc_try_acquire_at ops p (fallback_slots st) = (False, m) \<Longrightarrow>
   sc_try_acquire_at ops p (primary_slots st) = (False, m1) \<Longrightarrow>
   sc_acquire ops e p m = (True, m2) \<Longrightarrow>
     acquire_prefer_brain ops r e p st =
       (brain_choice ops r p,
        since_metric ''brain'' ''prefer_brain'' ''ok''
          (st\<lparr>primary_slots := m1, fallback_slots := m2\<rparr>))"
  "sc_try_acquire_at ops p (fallback_slots st) = (False, m) \<Longrightarrow>
   sc_try_acquire_at ops p (primary_slots st) = (False, m1) \<Longrightarrow>
   sc_acquire ops e p m = (False, m2) \<Longrightarrow>
     acquire_prefer_brain ops r e p st =
       (uncoordinated_choice r,
        since_metric ''brain'' ''prefer_brain'' ''cancelled''
          (st\<lparr>primary_slots := m1, fallback_slots := m2\<rparr>))"
  by (cases st; simp add: acquire_prefer_brain_def)+

lemma acquire_prefer_primary_cases:
  "sc_try_acquire_at ops p (primary_slots st) = (True, m) \<Longrightarrow>
     acquire_prefer_primary ops r e p st =
       (primary_choice ops r p, since_metric ''9b'' ''prefer_primary'' ''ok'' (st\<lparr>primary_slots := m\<rparr>))"
  "sc_try_acquire_at ops p (primary_slots st) = (False, m) \<Longrightarrow>
   sc_acquire ops e p (fallback_slots st) = (True, m1) \<Longrightarrow>
     acquire_prefer_primary ops r e p st =
       (brain_choice ops r p,
        since_metric ''brain'' ''prefer_primary'' ''fallback''
          (st\<lparr>primary_slots := m, fallback_slots := m1\<rparr>))"
  "sc_try_acquire_at ops p (primary_slots st) = (False, m) \<Longrightarrow>
   sc_acquire ops e p (fallback_slots st) = (False, m1) \<Longrightarrow>
     acquire_prefer_primary ops r e p st =
       (uncoordinated_choice r,
        since_metric ''brain'' ''prefer_primary'' ''cancelled''
          (st\<lparr>primary_slots := m, fallback_slots := m1\<rparr>))"
  by (cases st; simp add: acquire_prefer_primary_def)+

text \<open>
  Where one call of the router ends up: it took a slot of the semaphore its choice releases, or
  none at all.
\<close>

lemma acquire_or_fallback_cases:
  assumes "acquire_or_fallback ops r e b p st = (c, st')"
  obtains
    (fallback_try) m where "sc_try_acquire_at ops p (fallback_slots st) = (True, m)"
      "c = brain_choice ops r p" "primary_slots st' = primary_slots st" "fallback_slots st' = m"
  | (primary_try) m n where "sc_try_acquire_at ops p (primary_slots st) = (True, m)"
      "c = primary_choice ops r p" "primary_slots st' = m" "fallback_slots st' = n"
      "n = fallback_slots st \<or> sc_try_acquire_at ops p (fallback_slots st) = (False, n)"
  | (blocked) m n k ok where "sc_try_acquire_at ops p (primary_slots st) = (False, n)"
      "k = fallback_slots st \<or> sc_try_acquire_at ops p (fallback_slots st) = (False, k)"
      "sc_acquire ops e p k = (ok, m)"
      "c = (if ok then brain_choice ops r p else uncoordinated_choice r)"
      "primary_slots st' = n" "fallback_slots st' = m"
proof -
  obtain fok fm where f: "sc_try_acquire_at ops p (fallback_slots st) = (fok, fm)" by fastforce
  obtain pok pm where q: "sc_try_acquire_at ops p (primary_slots st) = (pok, pm)" by fastforce
  obtain aok am where a: "sc_acquire ops e p (fallback_slots st) = (aok, am)" by fastforce
  obtain bok bm where b': "sc_acquire ops e p fm = (bok, bm)" by fastforce
  show thesis
  proof (cases b)
    case True
    then have eq: "acquire_prefer_brain ops r e p st = (c, st')"
      using assms by (simp add: acquire_or_fallback_def)
    consider "fok" | "\<not> fok" "pok" | "\<not> fok" "\<not> pok" by blast
    then show ?thesis
    proof cases
      case 1
      with eq f show ?thesis by (intro fallback_try [of fm]) (auto simp: acquire_prefer_brain_cases(1))
    next
      case 2
      with eq f q show ?thesis by (intro primary_try [of pm fm]) (auto simp: acquire_prefer_brain_cases(2))
    next
      case 3
      with eq f q b' show ?thesis
        by (cases bok; intro blocked [of pm fm bok bm])
          (auto simp: acquire_prefer_brain_cases(3,4))
    qed
  next
    case False
    then have eq: "acquire_prefer_primary ops r e p st = (c, st')"
      using assms by (simp add: acquire_or_fallback_def)
    show ?thesis
    proof (cases pok)
      case True
      with eq q show ?thesis
        by (intro primary_try [of pm "fallback_slots st"]) (auto simp: acquire_prefer_primary_cases(1))
    next
      case False
      with eq q a show ?thesis
        by (cases aok; intro blocked [of pm "fallback_slots st" aok am])
          (auto simp: acquire_prefer_primary_cases(2,3))
    qed
  qed
qed

context slot_checker_laws
begin

text \<open>
  Whatever the router hands out, releasing it brings the slots back to where the other
  goroutines left them: nothing leaks and nothing is created.
\<close>

lemma acquire_then_release:
  assumes wfs: "sok (primary_slots st)" "sok (fallback_slots st)"
    and env: "env_ok e p (fallback_slots st)"
    and acq: "acquire_or_fallback ops r e b p st = (c, st')"
  shows "st_wf sok (c_release c st') \<and>
    (st_free free (c_release c st') = st_free free st \<or>
     st_free free (c_release c st') =
       st_free free (st\<lparr>fallback_slots := after e p (fallback_slots st)\<rparr>))"
  using acq
proof (cases rule: acquire_or_fallback_cases)
  case (fallback_try m)
  then show ?thesis
    using wfs try_true [OF wfs(2)] release_law [of m] by (simp add: st_wf_def st_free_def)
next
  case (primary_try m n)
  then have "n = fallback_slots st" by (auto dest: try_false)
  with primary_try show ?thesis
    using wfs try_true [OF wfs(1)] release_law [of m] by (simp add: st_wf_def st_free_def)
next
  case (blocked m n k ok)
  then have "n = primary_slots st" "k = fallback_slots st" by (auto dest: try_false)
  with blocked show ?thesis
    using wfs acquire_law [OF wfs(2) env, of ok m] release_law [of m]
    by (cases ok) (simp_all add: st_wf_def st_free_def)
qed

end

text \<open>
  A call on the Brain slot is smooth when its reacquisitions all succeed and what the other
  goroutines do meanwhile leaves the number of free slots alone.
\<close>

fun smooth ::
  "'s slot_checker \<Rightarrow> ('s \<Rightarrow> bool) \<Rightarrow> ('s \<Rightarrow> int) \<Rightarrow> ('s env \<Rightarrow> priority \<Rightarrow> 's \<Rightarrow> 's) \<Rightarrow>
   ('s env \<Rightarrow> priority \<Rightarrow> 's \<Rightarrow> bool) \<Rightarrow> priority \<Rightarrow> 's tool_run list \<Rightarrow> 's rstate \<Rightarrow> bool" where
  "smooth ops sok free after env_ok p [] st = True"
| "smooth ops sok free after env_ok p ((others, e) # ts) st =
     (let st1 = others (st\<lparr>fallback_slots := sc_release ops (fallback_slots st)\<rparr>);
          s1 = fallback_slots st1
      in sok s1 \<and> free s1 = free (fallback_slots st) + 1 \<and>
         env_ok e p s1 \<and> free (after e p s1) = free s1 \<and>
         fst (sc_acquire ops e p s1) \<and>
         smooth ops sok free after env_ok p ts
           (st1\<lparr>fallback_slots := snd (sc_acquire ops e p s1)\<rparr>))"

context slot_checker_laws
begin

lemma tool_calls_smooth:
  assumes "sok (fallback_slots st)" "smooth ops sok free after env_ok p ts st"
  shows "\<exists>st'. tool_calls (brain_choice ops r p) ts (True, st) = (True, st') \<and>
     sok (fallback_slots st') \<and> free (fallback_slots st') = free (fallback_slots st)"
  using assms
proof (induction ts arbitrary: st)
  case Nil
  then show ?case by simp
next
  case (Cons t ts)
  obtain others e where t: "t = (others, e)" by (cases t)
  define st1 where "st1 = others (st\<lparr>fallback_slots := sc_release ops (fallback_slots st)\<rparr>)"
  obtain m where m: "sc_acquire ops e p (fallback_slots st1) = (True, m)"
    using Cons.prems(2) by (cases "sc_acquire ops e p (fallback_slots st1)") (auto simp: t st1_def Let_def)
  have s1: "sok (fallback_slots st1)" "env_ok e p (fallback_slots st1)"
      "free (after e p (fallback_slots st1)) = free (fallback_slots st) + 1"
      "smooth ops sok free after env_ok p ts (st1\<lparr>fallback_slots := m\<rparr>)"
    using Cons.prems(2) m by (auto simp: t st1_def Let_def)
  from acquire_law [OF s1(1,2) m] s1(3)
  have wm: "sok m" "free m = free (fallback_slots st)" by simp_all
  have "tool_calls (brain_choice ops r p) (t # ts) (True, st) =
      tool_calls (brain_choice ops r p) ts (True, st1\<lparr>fallback_slots := m\<rparr>)"
    using m by (simp add: t st1_def on_tool_start_def on_tool_end_def brain_choice_def)
  then show ?case
    using Cons.IH [of "st1\<lparr>fallback_slots := m\<rparr>"] wm s1(4) by simp
qed

lemma run_call_neutral:
  assumes "sok (fallback_slots st)" "smooth ops sok free after env_ok p ts st"
  shows "free (fallback_slots (run_call (brain_choice ops r p) ts st)) = free (fallback_slots st) + 1"
  using tool_calls_smooth [OF assms, of r]
  by (auto simp: run_call_def finish_call_def release_law)

end

section \<open>The priority semaphore provides the interface\<close>

definition sem_after :: "prio_sem env \<Rightarrow> priority \<Rightarrow> prio_sem \<Rightarrow> prio_sem" where
  "sem_after e p s =
     (case e of (ch, park) \<Rightarrow>
        (case acquire_enter p ch s of
           (True, s1) \<Rightarrow> s
         | (False, s1) \<Rightarrow> snd (park s1)))"

text \<open>
  An environment the mutex allows: the channel is fresh, the semaphore is well-formed when the
  caller wakes, its channel is closed when that is why it woke, and a cancelled caller's channel
  is still queued or was closed.
\<close>

definition sem_env_ok :: "prio_sem env \<Rightarrow> priority \<Rightarrow> prio_sem \<Rightarrow> bool" where
  "sem_env_ok e p s =
     (case e of (ch, park) \<Rightarrow>
        ch \<notin> set (high s) \<union> set (low s) \<union> woken s \<and>
        (case acquire_enter p ch s of
           (True, s1) \<Rightarrow> True
         | (False, s1) \<Rightarrow>
             sem_wf (snd (park s1)) \<and>
             (ch \<in> woken (snd (park s1)) \<or>
              fst (park s1) = CtxDone \<and>
              ch \<in> set (if p = PriorityUser then high (snd (park s1)) else low (snd (park s1))))))"

lemma acquire_balance:
  assumes "sem_wf s" "sem_env_ok e p s" "acquire e p s = (ok, t)"
  shows "sem_wf t \<and> balance t = balance (sem_after e p s) - of_bool ok"
proof -
  obtain ch park where e: "e = (ch, park)" by fastforce
  obtain b s1 where en: "acquire_enter p ch s = (b, s1)" by fastforce
  have fresh: "ch \<notin> set (high s) \<union> set (low s) \<union> woken s"
    using assms(2) by (simp add: sem_env_ok_def e)
  show ?thesis
  proof (cases b)
    case True
    with acquire_enter_True [OF _ assms(1) fresh] en assms(3) show ?thesis
      by (auto simp: acquire_def sem_after_def e)
  next
    case False
    obtain w s2 where pk: "park s1 = (w, s2)" by fastforce
    have s2: "sem_wf s2" "ch \<in> woken s2 \<or> w = CtxDone \<and> ch \<in> set (if p = PriorityUser then high s2 else low s2)"
      using assms(2) en False pk by (auto simp: sem_env_ok_def e)
    obtain r s3 where ca: "acquire_cancel p ch s2 = (r, s3)" by fastforce
    note c = acquire_cancel_outcome [OF ca s2(1)]
    have "w = Woken \<Longrightarrow> ?thesis"
      using assms(3) en False pk s2 receive_wf [of s2 ch] receive_balance [of s2 ch]
      by (auto simp: acquire_def sem_after_def e)
    moreover have "w = CtxDone \<Longrightarrow> r \<Longrightarrow> ?thesis"
      using assms(3) en False pk ca c by (auto simp: acquire_def sem_after_def e)
    moreover have "w = CtxDone \<Longrightarrow> \<not> r \<Longrightarrow> ?thesis"
    proof -
      assume *: "w = CtxDone" "\<not> r"
      with c s2(2) have "ch \<in> woken s3" by auto
      with c have "sem_wf (receive ch s3)" "balance (receive ch s3) = balance s2 - 1"
        by (auto simp: receive_wf receive_balance)
      with * assms(3) en False pk ca show ?thesis
        by (auto simp: acquire_def sem_after_def e release_def dispatch_wf dispatch_balance)
    qed
    ultimately show ?thesis by (cases w; cases r) simp_all
  qed
qed

interpretation ps: slot_checker_laws prio_ops sem_wf balance sem_after sem_env_ok
proof unfold_locales
  show "sc_try_acquire prio_ops s = sc_try_acquire_at prio_ops PriorityUser s" for s
    by (simp add: prio_ops_def try_acquire_def)
  show "sem_wf t \<and> balance t = balance s - 1"
    if "sem_wf s" "sc_try_acquire_at prio_ops p s = (True, t)" for s p t
    using try_acquire_at_True [of p s t] that by (simp add: prio_ops_def)
  show "t = s" if "sc_try_acquire_at prio_ops p s = (False, t)" for s p t
    using try_acquire_at_fail [of p s] that by (simp add: prio_ops_def)
  show "sem_wf (sc_release prio_ops s) \<and> balance (sc_release prio_ops s) = balance s + 1"
    if "sem_wf s" for s
    using that by (simp add: prio_ops_def release_def dispatch_wf dispatch_balance)
  show "sem_wf (sc_release_reserved prio_ops s) \<and> balance (sc_release_reserved prio_ops s) = balance s + 1"
    if "sem_wf s" for s
    using that by (simp add: prio_ops_def release_reserved_wf release_reserved_balance)
  show "sem_wf t \<and> balance t = balance (sem_after e p s) - of_bool ok"
    if "sem_wf s" "sem_env_ok e p s" "sc_acquire prio_ops e p s = (ok, t)" for s e p ok t
    using acquire_balance [of s e p ok t] that by (simp add: prio_ops_def)
qed

section \<open>Properties of the router on the real semaphore\<close>

definition idle_sem :: prio_sem where
  "idle_sem = \<lparr>avail = 1, reserved = 0, cap = 1, high = [], low = [], woken = {}\<rparr>"

definition busy_sem :: prio_sem where
  "busy_sem = \<lparr>avail = 0, reserved = 0, cap = 1, high = [], low = [], woken = {}\<rparr>"

definition demo_cfg :: router_cfg where
  "demo_cfg = \<lparr>primary = 1, primary_model = ''9b'', fallback = 2, fallback_model = ''brain''\<rparr>"

text \<open>The environment in which a parked caller's context ends while nothing else happens.\<close>

definition ctx_done_env :: "prio_sem env" where
  "ctx_done_env = (7, \<lambda>s. (CtxDone, s))"

text \<open>
  Acquiring an orchestrator through the router and then calling the choice's \<open>Release\<close> is
  neutral: the semaphores stay well-formed and the number of free slots of the two together is
  what it was before the call, or, when the caller had to park, what the other goroutines made
  of it meanwhile. It holds for both preferences, both priorities and every outcome, the
  uncoordinated one after a cancelled wait included.
\<close>

lemma router_release_neutral:
  assumes "sem_wf (primary_slots st)" and "sem_wf (fallback_slots st)"
    and "sem_env_ok e p (fallback_slots st)"
    and "acquire_or_fallback prio_ops r e b p st = (c, st')"
  shows "st_wf sem_wf (c_release c st') \<and>
    (st_free balance (c_release c st') = st_free balance st \<or>
     st_free balance (c_release c st') =
       st_free balance (st\<lparr>fallback_slots := sem_after e p (fallback_slots st)\<rparr>))"
  using assms by (rule ps.acquire_then_release)

definition demo_rstate :: "prio_sem rstate" where
  "demo_rstate = \<lparr>primary_slots = busy_sem, fallback_slots = busy_sem, emitted = []\<rparr>"

lemma router_release_neutral_witness:
  "st_wf sem_wf
     (c_release (fst (acquire_or_fallback prio_ops demo_cfg ctx_done_env True PriorityUser demo_rstate))
       (snd (acquire_or_fallback prio_ops demo_cfg ctx_done_env True PriorityUser demo_rstate)))"
  by (rule router_release_neutral [THEN conjunct1, of demo_rstate ctx_done_env PriorityUser demo_cfg True])
    (simp_all add: demo_rstate_def busy_sem_def sem_wf_def sem_env_ok_def ctx_done_env_def acquire_enter_def)





definition steal :: "prio_sem rstate \<Rightarrow> prio_sem rstate" where
  "steal st = st\<lparr>fallback_slots := snd (try_acquire_at PriorityBackground (fallback_slots st))\<rparr>"

text \<open>
  A failed reacquisition is not remembered: the next tool releases a slot the call no longer
  holds. On a one-slot Brain, if another goroutine takes the slot while the first tool runs and
  the call's context ends, so the reacquisition fails, then starting a second tool (the
  auto-fallback of the tool loop does so at once) frees a slot while the other goroutine still
  holds it: a further acquire succeeds and two goroutines hold the one slot.
\<close>

lemma double_release_after_failed_reacquire:
  "\<exists>st'. tool_calls (brain_choice prio_ops demo_cfg PriorityBackground)
       [(steal, ctx_done_env)] (True, demo_rstate) = (False, st') \<and>
     fallback_slots st' = busy_sem \<and>
     on_tool_start (brain_choice prio_ops demo_cfg PriorityBackground) (False, st') =
       (False, st'\<lparr>fallback_slots := idle_sem\<rparr>) \<and>
     fst (try_acquire_at PriorityBackground idle_sem)"
  by (simp add: demo_rstate_def busy_sem_def idle_sem_def steal_def on_tool_start_def on_tool_end_def
      brain_choice_def prio_ops_def release_def dispatch_def acquire_def acquire_enter_def
      try_acquire_at_def ctx_done_env_def acquire_cancel_def cancel_reservation_def
      less_eq_priority_def)

end
