(* ===== verification/CircuitBreaker.thy ===== *)
theory CircuitBreaker
  imports SlotRouter
begin

text \<open>
  The circuit breaker of \<open>clients/circuit_breaker.go\<close> and the two request paths guarded by it:
  \<open>exec\<close> of \<open>clients/subagent_client.go\<close> and \<open>complete\<close> of \<open>clients/deep_thinker_client.go\<close>. The
  HTTP exchange is the environment: its outcome is a parameter of the call.
\<close>

section \<open>The breaker\<close>

definition cb_fail_threshold :: int where "cb_fail_threshold = 3"
definition cb_open_duration :: duration where "cb_open_duration = 2 * minute"
definition cb_max_open :: duration where "cb_max_open = 10 * minute"

datatype circuit_state = CircuitClosed | CircuitOpen | CircuitHalfOpen

record breaker =
  cb_state :: circuit_state
  fail_count :: int
  open_until :: gotime
  open_dur :: duration

definition new_circuit_breaker :: breaker where
  "new_circuit_breaker =
     \<lparr>cb_state = CircuitClosed, fail_count = 0, open_until = 0, open_dur = cb_open_duration\<rparr>"

datatype cb_error = BreakerOpen duration | BreakerHalfOpen

text \<open>\<open>check\<close>: an error, or \<open>None\<close> when the request may go out.\<close>

definition cb_check :: "gotime \<Rightarrow> breaker \<Rightarrow> cb_error option \<times> breaker" where
  "cb_check now cb =
     (case cb_state cb of
        CircuitClosed \<Rightarrow> (None, cb)
      | CircuitOpen \<Rightarrow>
          if now > open_until cb then (None, cb\<lparr>cb_state := CircuitHalfOpen\<rparr>)
          else (Some (BreakerOpen (time_sub (open_until cb) now)), cb)
      | CircuitHalfOpen \<Rightarrow> (Some BreakerHalfOpen, cb))"

definition record_success :: "breaker \<Rightarrow> breaker" where
  "record_success cb =
     cb\<lparr>fail_count := 0, cb_state := CircuitClosed, open_dur := cb_open_duration\<rparr>"

definition record_failure :: "gotime \<Rightarrow> breaker \<Rightarrow> breaker" where
  "record_failure now cb =
     (let cb1 = cb\<lparr>fail_count := fail_count cb + 1\<rparr> in
      if fail_count cb1 \<ge> cb_fail_threshold
      then (let d = open_dur cb1 * 2 in
            cb1\<lparr>cb_state := CircuitOpen, open_until := now + open_dur cb1,
                open_dur := (if d > cb_max_open then cb_max_open else d)\<rparr>)
      else cb1)"

text \<open>An error of the exchange: one that wraps a context error, or any other.\<close>

datatype api_error = CtxError string | ServerError string

definition record_failure_if_server :: "gotime \<Rightarrow> api_error \<Rightarrow> breaker \<Rightarrow> breaker" where
  "record_failure_if_server now err cb =
     (case err of CtxError _ \<Rightarrow> cb | ServerError _ \<Rightarrow> record_failure now cb)"

lemmas cb_defs =
  cb_check_def record_success_def record_failure_def record_failure_if_server_def
  cb_fail_threshold_def cb_open_duration_def cb_max_open_def

section \<open>The invariant of the breaker\<close>

text \<open>What can happen to a breaker, in any interleaving of its callers.\<close>

datatype cb_event = EvCheck gotime | EvSuccess | EvFailure gotime api_error

fun cb_step :: "breaker \<Rightarrow> cb_event \<Rightarrow> breaker" where
  "cb_step cb (EvCheck t) = snd (cb_check t cb)"
| "cb_step cb EvSuccess = record_success cb"
| "cb_step cb (EvFailure t err) = record_failure_if_server t err cb"

definition cb_run :: "breaker \<Rightarrow> cb_event list \<Rightarrow> breaker" where
  "cb_run = foldl cb_step"

definition cb_inv :: "breaker \<Rightarrow> bool" where
  "cb_inv cb \<longleftrightarrow>
     0 \<le> fail_count cb \<and>
     (cb_state cb = CircuitClosed \<longleftrightarrow> fail_count cb < cb_fail_threshold) \<and>
     open_dur cb = min cb_max_open (cb_open_duration * 2 ^ nat (fail_count cb - 2))"

lemma new_breaker_inv: "cb_inv new_circuit_breaker"
  by (simp add: cb_inv_def new_circuit_breaker_def cb_defs dur_defs)

lemma check_inv: "cb_inv cb \<Longrightarrow> cb_inv (snd (cb_check t cb))"
  by (auto simp: cb_inv_def cb_check_def split: circuit_state.splits)

lemma success_inv: "cb_inv (record_success cb)"
  by (simp add: cb_inv_def cb_defs dur_defs)

lemma double_capped: "(if min m (a * 2 ^ k) * 2 > m then m else min m (a * 2 ^ k) * 2) = min m (a * 2 ^ Suc k)"
  if "0 \<le> m" for m a :: int
  using that by (auto simp: min_def)

lemma failure_inv: "cb_inv cb \<Longrightarrow> cb_inv (record_failure t cb)"
proof -
  assume inv: "cb_inv cb"
  show ?thesis
  proof (cases "fail_count cb + 1 \<ge> cb_fail_threshold")
    case True
    then have "nat (fail_count cb + 1 - 2) = Suc (nat (fail_count cb - 2))"
      by (simp add: cb_fail_threshold_def)
    moreover have "0 \<le> cb_max_open" by (simp add: cb_defs dur_defs)
    ultimately show ?thesis
      using inv True double_capped [of cb_max_open cb_open_duration "nat (fail_count cb - 2)"]
      by (auto simp: cb_inv_def record_failure_def Let_def)
  next
    case False
    then have "nat (fail_count cb + 1 - 2) = nat (fail_count cb - 2)"
      by (simp add: cb_fail_threshold_def)
    with inv False show ?thesis
      by (auto simp: cb_inv_def record_failure_def Let_def)
  qed
qed

lemma cb_step_inv: "cb_inv cb \<Longrightarrow> cb_inv (cb_step cb ev)"
  by (cases ev) (auto simp: check_inv success_inv failure_inv record_failure_if_server_def split: api_error.splits)

lemma cb_run_inv: "cb_inv cb \<Longrightarrow> cb_inv (cb_run cb evs)"
  unfolding cb_run_def by (induction evs arbitrary: cb) (auto intro: cb_step_inv)

text \<open>
  C12: in every interleaving of its callers the breaker is closed exactly while fewer than three
  failures are on record since the last success, and its open window is
  two minutes doubled once per failure from the third on, never more than ten minutes.
\<close>

theorem breaker_invariant:
  "(cb_state (cb_run new_circuit_breaker evs) = CircuitClosed \<longleftrightarrow>
      fail_count (cb_run new_circuit_breaker evs) < 3) \<and>
   open_dur (cb_run new_circuit_breaker evs) =
     min (10 * minute) (2 * minute * 2 ^ nat (fail_count (cb_run new_circuit_breaker evs) - 2)) \<and>
   2 * minute \<le> open_dur (cb_run new_circuit_breaker evs)"
proof -
  let ?cb = "cb_run new_circuit_breaker evs"
  have inv: "cb_inv ?cb" by (rule cb_run_inv [OF new_breaker_inv])
  have "(1::int) \<le> 2 ^ nat (fail_count ?cb - 2)" by simp
  with inv show ?thesis
    by (auto simp: cb_inv_def cb_fail_threshold_def cb_open_duration_def cb_max_open_def dur_defs min_def)
qed

section \<open>One probe at a time, and the probe that never ends\<close>

definition silent :: "cb_event \<Rightarrow> bool" where
  "silent ev = (case ev of EvCheck _ \<Rightarrow> True | EvSuccess \<Rightarrow> False | EvFailure _ err \<Rightarrow> (\<exists>m. err = CtxError m))"

lemma half_open_silent:
  "cb_state cb = CircuitHalfOpen \<Longrightarrow> list_all silent evs \<Longrightarrow> cb_run cb evs = cb"
proof (induction evs)
  case (Cons ev evs)
  then have "cb_step cb ev = cb"
    by (cases ev) (auto simp: silent_def cb_check_def record_failure_if_server_def)
  with Cons show ?case by (simp add: cb_run_def)
qed (simp add: cb_run_def)

text \<open>
  After the window a single request is let through: when \<open>check\<close> admits a request of a breaker
  that is not closed, the window had passed and the breaker is half-open afterwards, and from then
  on every \<open>check\<close> is refused until some outcome is recorded. An outcome that is a context error
  is not recorded, so checks and context errors, in any number and at any times, leave the
  breaker half-open and refuse everybody for ever.
\<close>

lemma single_probe_until_recorded:
  assumes "cb_check t cb = (None, cb')" and "cb_state cb \<noteq> CircuitClosed"
    and "list_all silent evs"
  shows "open_until cb < t \<and> cb_state cb' = CircuitHalfOpen \<and> cb_run cb' evs = cb' \<and>
    fst (cb_check u (cb_run cb' evs)) = Some BreakerHalfOpen"
proof -
  have h: "open_until cb < t" "cb_state cb' = CircuitHalfOpen"
    using assms(1,2) by (auto simp: cb_check_def split: circuit_state.splits if_splits)
  with assms(3) have "cb_run cb' evs = cb'" by (simp add: half_open_silent)
  with h show ?thesis by (simp add: cb_check_def)
qed

definition tripped :: breaker where
  "tripped = \<lparr>cb_state = CircuitOpen, fail_count = 3, open_until = 100, open_dur = 4 * minute\<rparr>"

lemma single_probe_until_recorded_witness:
  "fst (cb_check 900 (cb_run (tripped\<lparr>cb_state := CircuitHalfOpen\<rparr>)
     [EvCheck 300, EvFailure 400 (CtxError ''deadline''), EvCheck 500])) = Some BreakerHalfOpen"
proof -
  have "list_all silent [EvCheck 300, EvFailure 400 (CtxError ''deadline''), EvCheck 500]"
    by (simp add: silent_def)
  then show ?thesis
    using single_probe_until_recorded [of 200 tripped "tripped\<lparr>cb_state := CircuitHalfOpen\<rparr>"]
    by (simp add: cb_check_def tripped_def)
qed

section \<open>The request paths\<close>

record client_state =
  cb :: breaker
  csem :: prio_sem

text \<open>
  What the world contributes to one request: the two clock readings, what happens to the
  semaphore while the caller is parked and while it holds the slot, and the outcomes of the
  health check, of marshalling and of the HTTP exchange.
\<close>

record exec_world =
  w_check_time :: gotime
  w_env :: "prio_sem env"
  w_load :: "api_error option"
  w_marshal_ok :: bool
  w_reply :: "api_error + string"
  w_record_time :: gotime
  w_others :: "prio_sem \<Rightarrow> prio_sem"

datatype exec_error =
    BreakerRefused cb_error
  | SlotsBusy
  | SemaphoreCancelled
  | NotAvailable api_error
  | MarshalFailed
  | RequestFailed api_error
  | EmptyResponse

text \<open>The part of \<open>exec\<close> after the slot is held: \<open>defer sc.release()\<close> is the caller's.\<close>

definition exec_held :: "exec_world \<Rightarrow> breaker \<Rightarrow> (exec_error + string) \<times> breaker" where
  "exec_held w b =
     (case w_load w of
        Some err \<Rightarrow> (Inl (NotAvailable err), record_failure_if_server (w_record_time w) err b)
      | None \<Rightarrow>
          if \<not> w_marshal_ok w then (Inl MarshalFailed, b)
          else (case w_reply w of
                  Inl err \<Rightarrow> (Inl (RequestFailed err), record_failure_if_server (w_record_time w) err b)
                | Inr res \<Rightarrow>
                    if res = [] then (Inl EmptyResponse, record_failure (w_record_time w) b)
                    else (Inr res, record_success b)))"

definition subagent_exec ::
  "bool \<Rightarrow> exec_world \<Rightarrow> client_state \<Rightarrow> (exec_error + string) \<times> client_state" where
  "subagent_exec try_only w s =
     (case cb_check (w_check_time w) (cb s) of
        (Some err, b) \<Rightarrow> (Inl (BreakerRefused err), s\<lparr>cb := b\<rparr>)
      | (None, b) \<Rightarrow>
          (let (ok, m) = (if try_only then try_acquire_at PriorityBackground (csem s)
                          else acquire (w_env w) PriorityBackground (csem s))
           in if \<not> ok
              then (Inl (if try_only then SlotsBusy else SemaphoreCancelled), s\<lparr>cb := b, csem := m\<rparr>)
              else (let (res, b') = exec_held w b
                    in (res, s\<lparr>cb := b', csem := release (w_others w m)\<rparr>))))"

text \<open>
  \<open>complete\<close> of the deep thinker: always blocking, and an empty reply counts as a success.
\<close>

definition dtc_complete ::
  "exec_world \<Rightarrow> client_state \<Rightarrow> (exec_error + string) \<times> client_state" where
  "dtc_complete w s =
     (case cb_check (w_check_time w) (cb s) of
        (Some err, b) \<Rightarrow> (Inl (BreakerRefused err), s\<lparr>cb := b\<rparr>)
      | (None, b) \<Rightarrow>
          (case acquire (w_env w) PriorityBackground (csem s) of
             (False, m) \<Rightarrow> (Inl SemaphoreCancelled, s\<lparr>cb := b, csem := m\<rparr>)
           | (True, m) \<Rightarrow>
               (let (res, b') =
                  (case w_load w of
                     Some err \<Rightarrow> (Inl (NotAvailable err), record_failure_if_server (w_record_time w) err b)
                   | None \<Rightarrow>
                       if \<not> w_marshal_ok w then (Inl MarshalFailed, b)
                       else (case w_reply w of
                               Inl err \<Rightarrow> (Inl (RequestFailed err), record_failure_if_server (w_record_time w) err b)
                             | Inr res \<Rightarrow> (Inr res, record_success b)))
                in (res, s\<lparr>cb := b', csem := release (w_others w m)\<rparr>))))"

definition exec_env_ok :: "bool \<Rightarrow> exec_world \<Rightarrow> prio_sem \<Rightarrow> bool" where
  "exec_env_ok try_only w m =
     ((try_only \<or> sem_env_ok (w_env w) PriorityBackground m) \<and>
      (let t = snd (if try_only then try_acquire_at PriorityBackground m
                    else acquire (w_env w) PriorityBackground m)
       in sem_wf (w_others w t) \<and> balance (w_others w t) = balance t))"

text \<open>
  \<open>exec\<close> conserves slots on every path: refused by the breaker, busy, cancelled while parked,
  failed or successful, it leaves the semaphore well-formed and the free slots as the other
  goroutines alone made them.
\<close>

lemma exec_conserves_slots:
  assumes "sem_wf (csem s)" and "exec_env_ok try_only w (csem s)"
    and "subagent_exec try_only w s = (res, s')"
  shows "sem_wf (csem s') \<and>
    (balance (csem s') = balance (csem s) \<or>
     \<not> try_only \<and> balance (csem s') = balance (sem_after (w_env w) PriorityBackground (csem s)))"
proof -
  obtain err b where ck: "cb_check (w_check_time w) (cb s) = (err, b)" by (rule prod.exhaust)
  obtain ok m where aq: "(if try_only then try_acquire_at PriorityBackground (csem s)
      else acquire (w_env w) PriorityBackground (csem s)) = (ok, m)" by (rule prod.exhaust)
  obtain r b' where h: "exec_held w b = (r, b')" by (rule prod.exhaust)
  have m: "sem_wf m \<and> balance m = balance
      (if try_only then csem s else sem_after (w_env w) PriorityBackground (csem s)) - of_bool ok"
  proof (cases try_only)
    case True
    with aq assms(1) show ?thesis
      using try_acquire_at_wf [of "csem s" PriorityBackground]
        try_acquire_at_balance [of PriorityBackground "csem s"] by simp
  next
    case False
    with aq assms(1,2) show ?thesis
      using acquire_balance [of "csem s" "w_env w" PriorityBackground ok m]
      by (simp add: exec_env_ok_def)
  qed
  have o: "sem_wf (w_others w m)" "balance (w_others w m) = balance m"
    using assms(2) aq by (auto simp: exec_env_ok_def Let_def)
  show ?thesis
  proof (cases err)
    case None
    then show ?thesis
      using assms(3) ck aq h m o dispatch_balance [of "w_others w m"] dispatch_wf [of "w_others w m"]
      by (cases ok) (auto simp: subagent_exec_def release_def split: if_splits)
  next
    case (Some e)
    with assms(1,3) ck show ?thesis by (auto simp: subagent_exec_def)
  qed
qed

definition demo_world :: exec_world where
  "demo_world = \<lparr>w_check_time = 200, w_env = ctx_done_env, w_load = None, w_marshal_ok = True,
     w_reply = Inr ''ok'', w_record_time = 300, w_others = (\<lambda>m. m)\<rparr>"

lemma exec_conserves_slots_witness:
  "balance (csem (snd (subagent_exec True demo_world \<lparr>cb = new_circuit_breaker, csem = idle_sem\<rparr>))) = 1"
proof -
  obtain res s' where e: "subagent_exec True demo_world \<lparr>cb = new_circuit_breaker, csem = idle_sem\<rparr> = (res, s')"
    by (rule prod.exhaust)
  have "sem_wf idle_sem" "exec_env_ok True demo_world idle_sem"
    by (simp_all add: idle_sem_def sem_wf_def exec_env_ok_def demo_world_def try_acquire_at_def less_eq_priority_def)
  then have "balance (csem s') = balance idle_sem"
    using exec_conserves_slots [OF _ _ e] by simp
  then show ?thesis by (simp add: e) (simp add: idle_sem_def balance_def)
qed

text \<open>
  A probe that finds every slot busy shuts the backend off for good. If the breaker is open
  and its window has passed, a non-blocking \<open>exec\<close> on a semaphore without a free slot returns
  "busy" and leaves the breaker half-open; from then on every request of every kind, at any
  time and whatever the server would answer, is refused by the breaker, and the breaker does
  not change any more.
\<close>

lemma busy_probe_wedges_breaker:
  assumes "cb_state (cb s) = CircuitOpen" and "open_until (cb s) < w_check_time w"
    and "avail (csem s) = 0"
    and "subagent_exec True w s = (res, s')"
  shows "res = Inl SlotsBusy \<and> cb_state (cb s') = CircuitHalfOpen \<and>
    (\<forall>try_only w' m.
       subagent_exec try_only w' (s'\<lparr>csem := m\<rparr>) =
         (Inl (BreakerRefused BreakerHalfOpen), s'\<lparr>csem := m\<rparr>))"
proof -
  have "res = Inl SlotsBusy \<and> cb_state (cb s') = CircuitHalfOpen"
    using assms by (auto simp: subagent_exec_def cb_check_def try_acquire_at_def less_eq_priority_def)
  then show ?thesis
    by (cases s') (auto simp: subagent_exec_def cb_check_def)
qed

lemma busy_probe_wedges_breaker_witness:
  "fst (subagent_exec True demo_world \<lparr>cb = tripped, csem = busy_sem\<rparr>) = Inl SlotsBusy"
proof -
  obtain res s' where e: "subagent_exec True demo_world \<lparr>cb = tripped, csem = busy_sem\<rparr> = (res, s')"
    by (rule prod.exhaust)
  have "cb_state tripped = CircuitOpen" "open_until tripped < w_check_time demo_world" "avail busy_sem = 0"
    by (simp_all add: tripped_def demo_world_def busy_sem_def)
  then have "res = Inl SlotsBusy"
    using busy_probe_wedges_breaker [OF _ _ _ e] by simp
  then show ?thesis by (simp add: e)
qed

text \<open>
  What \<open>exec\<close> records. It returns a result exactly when the breaker admitted it, a slot was
  acquired, the health check passed and the reply was not empty, and then the breaker is closed
  with no failures on record; a server error adds one failure, a context error none.
\<close>

lemma exec_outcome:
  assumes "cb_check (w_check_time w) (cb s) = (None, b)"
    and "try_acquire_at PriorityBackground (csem s) = (True, m)"
  shows "(fst (subagent_exec True w s) = Inr res \<longleftrightarrow>
      w_load w = None \<and> w_marshal_ok w \<and> w_reply w = Inr res \<and> res \<noteq> []) \<and>
    (fst (subagent_exec True w s) = Inr res \<longrightarrow>
      cb_state (cb (snd (subagent_exec True w s))) = CircuitClosed \<and>
      fail_count (cb (snd (subagent_exec True w s))) = 0) \<and>
    (w_load w = None \<and> w_marshal_ok w \<and> w_reply w = Inl (ServerError e) \<longrightarrow>
      fail_count (cb (snd (subagent_exec True w s))) = fail_count b + 1) \<and>
    (w_load w = None \<and> w_marshal_ok w \<and> w_reply w = Inl (CtxError e) \<longrightarrow>
      cb (snd (subagent_exec True w s)) = b)"
  using assms
  by (auto simp: subagent_exec_def exec_held_def record_success_def record_failure_if_server_def
      record_failure_def Let_def split: option.splits sum.splits if_splits api_error.splits)

lemma exec_outcome_witness:
  "fst (subagent_exec True demo_world \<lparr>cb = new_circuit_breaker, csem = idle_sem\<rparr>) = Inr ''ok''"
  using exec_outcome [of demo_world "\<lparr>cb = new_circuit_breaker, csem = idle_sem\<rparr>" new_circuit_breaker busy_sem "''ok''"]
  by (simp add: demo_world_def cb_check_def new_circuit_breaker_def idle_sem_def busy_sem_def
      try_acquire_at_def less_eq_priority_def)

end
