(* ===== verification/WorkQueue.thy ===== *)
theory WorkQueue
  imports Prelude "HOL-Library.Multiset"
begin

text \<open>
  The background work queue of \<open>clients/workqueue.go\<close> with the requests of \<open>memory/save.go\<close>: the
  buffered channel, the goroutines that sleep on deferred items, the workers with the item each
  of them executes and the retry backoff. A run is a list of events, one per channel operation,
  so producers, workers and timers interleave freely. The lemmas show that the buffer stays
  within its capacity, that no request is lost or answered twice and that retries are bounded.
\<close>

section \<open>Requests and state\<close>

definition priority_low :: int where "priority_low = 1"
definition priority_normal :: int where "priority_normal = 2"
definition priority_high :: int where "priority_high = 3"

record work_request =
  label :: string
  system_prompt :: string
  user_prompt :: string
  grammar :: string
  max_tokens :: int
  timeout :: duration
  retries :: int
  wr_priority :: int
  on_complete :: bool     \<comment> \<open>whether a callback is set\<close>
  ticket :: nat           \<comment> \<open>which submission it is; the code has the pointer identity\<close>

text \<open>An outcome of the exec function: the result, and the error if there was one.\<close>

type_synonym outcome = "string \<times> string option"

definition queue_full_outcome :: outcome where
  "queue_full_outcome = ([], Some ''work queue full'')"

text \<open>
  \<open>answers\<close> records each request that left the queue, with the outcome passed to its callback or
  \<open>None\<close> when it has no callback.
\<close>

record work_queue =
  ch :: "work_request list"
  ch_cap :: nat
  deferred :: "work_request list"
  in_flight :: "work_request list"
  backing_off :: "(work_request \<times> outcome) list"
  answers :: "(work_request \<times> outcome option) list"

definition low_priority_retry_delay :: duration where
  "low_priority_retry_delay = 1 * hour"

definition new_work_queue :: "nat \<Rightarrow> work_queue" where
  "new_work_queue capacity =
     \<lparr>ch = [], ch_cap = capacity, deferred = [], in_flight = [], backing_off = [], answers = []\<rparr>"

section \<open>Operations\<close>

definition deliver :: "work_request \<Rightarrow> outcome \<Rightarrow> work_queue \<Rightarrow> work_queue" where
  "deliver item out wq =
     wq\<lparr>answers := answers wq @ [(item, if on_complete item then Some out else None)]\<rparr>"

definition queue_work :: "work_request \<Rightarrow> work_queue \<Rightarrow> work_queue" where
  "queue_work item wq =
     (let pri = (if wr_priority item = 0 then priority_normal else wr_priority item);
          depth = length (ch wq);
          threshold = ch_cap wq * 3 div 4
      in if threshold \<le> depth \<and> pri \<le> priority_low
         then wq\<lparr>deferred := deferred wq @ [item\<lparr>wr_priority := priority_normal\<rparr>]\<rparr>
         else if depth < ch_cap wq then wq\<lparr>ch := ch wq @ [item]\<rparr>
         else deliver item queue_full_outcome wq)"

text \<open>A worker receives an item; it has executed it; its retry backoff is over.\<close>

definition take_item :: "work_queue \<Rightarrow> work_queue option" where
  "take_item wq =
     (case ch wq of
        [] \<Rightarrow> None
      | item # rest \<Rightarrow> Some (wq\<lparr>ch := rest, in_flight := in_flight wq @ [item]\<rparr>))"

definition finish_item :: "nat \<Rightarrow> outcome \<Rightarrow> work_queue \<Rightarrow> work_queue option" where
  "finish_item i out wq =
     (if i < length (in_flight wq) then
        let item = in_flight wq ! i;
            wq1 = wq\<lparr>in_flight := take i (in_flight wq) @ drop (Suc i) (in_flight wq)\<rparr>
        in if snd out \<noteq> None \<and> retries item > 0
           then Some (wq1\<lparr>backing_off :=
                  backing_off wq1 @ [(item\<lparr>retries := retries item - 1\<rparr>, out)]\<rparr>)
           else Some (deliver item out wq1)
      else None)"

definition backoff_over :: "nat \<Rightarrow> work_queue \<Rightarrow> work_queue option" where
  "backoff_over i wq =
     (if i < length (backing_off wq) then
        let (item, out) = backing_off wq ! i;
            wq1 = wq\<lparr>backing_off := take i (backing_off wq) @ drop (Suc i) (backing_off wq)\<rparr>
        in if length (ch wq1) < ch_cap wq1 then Some (wq1\<lparr>ch := ch wq1 @ [item]\<rparr>)
           else Some (deliver item out wq1)
      else None)"

text \<open>The goroutine of a deferred item wakes after an hour and queues it again.\<close>

definition timer_fires :: "nat \<Rightarrow> work_queue \<Rightarrow> work_queue option" where
  "timer_fires i wq =
     (if i < length (deferred wq)
      then Some (queue_work (deferred wq ! i)
             (wq\<lparr>deferred := take i (deferred wq) @ drop (Suc i) (deferred wq)\<rparr>))
      else None)"

datatype wq_event =
    Submit work_request
  | Take
  | Finish nat outcome
  | BackoffOver nat
  | TimerFires nat

fun wq_step :: "work_queue \<Rightarrow> wq_event \<Rightarrow> work_queue option" where
  "wq_step wq (Submit item) = Some (queue_work item wq)"
| "wq_step wq Take = take_item wq"
| "wq_step wq (Finish i out) = finish_item i out wq"
| "wq_step wq (BackoffOver i) = backoff_over i wq"
| "wq_step wq (TimerFires i) = timer_fires i wq"

fun wq_run :: "work_queue \<Rightarrow> wq_event list \<Rightarrow> work_queue option" where
  "wq_run wq [] = Some wq"
| "wq_run wq (ev # evs) = (case wq_step wq ev of None \<Rightarrow> None | Some wq' \<Rightarrow> wq_run wq' evs)"

section \<open>Every request is in exactly one place\<close>

definition live :: "work_queue \<Rightarrow> work_request multiset" where
  "live wq = mset (ch wq) + mset (deferred wq) + mset (in_flight wq) + mset (map fst (backing_off wq))"

definition tickets :: "work_queue \<Rightarrow> nat multiset" where
  "tickets wq = image_mset ticket (live wq) + mset (map (\<lambda>(item, out). ticket item) (answers wq))"

definition work_left :: "work_queue \<Rightarrow> nat" where
  "work_left wq = (\<Sum>item \<in># live wq. Suc (nat (retries item)))"

fun submitted :: "wq_event list \<Rightarrow> nat multiset" where
  "submitted [] = {#}"
| "submitted (Submit item # evs) = add_mset (ticket item) (submitted evs)"
| "submitted (ev # evs) = submitted evs"

fun executions :: "wq_event list \<Rightarrow> nat" where
  "executions [] = 0"
| "executions (Finish i out # evs) = Suc (executions evs)"
| "executions (ev # evs) = executions evs"

fun budget :: "wq_event list \<Rightarrow> nat" where
  "budget [] = 0"
| "budget (Submit item # evs) = Suc (nat (retries item)) + budget evs"
| "budget (ev # evs) = budget evs"

lemma mset_remove_nth:
  "i < length xs \<Longrightarrow> mset xs = add_mset (xs ! i) (mset (take i xs @ drop (Suc i) xs))"
  by (metis id_take_nth_drop mset.simps(2) mset_append union_mset_add_mset_right)

lemma mset_map_remove_nth:
  "i < length xs \<Longrightarrow> mset (map f xs) = add_mset (f (xs ! i)) (mset (map f (take i xs @ drop (Suc i) xs)))"
  by (simp only: mset_map mset_remove_nth [of i xs]) simp

lemma queue_work_tickets: "tickets (queue_work item wq) = add_mset (ticket item) (tickets wq)"
  by (simp add: queue_work_def Let_def tickets_def live_def deliver_def)

lemma deliver_tickets: "tickets (deliver item out wq) = add_mset (ticket item) (tickets wq)"
  by (simp add: tickets_def live_def deliver_def)

lemma wq_step_tickets:
  "wq_step wq ev = Some wq' \<Longrightarrow> tickets wq' = tickets wq + submitted [ev]"
proof (cases ev)
  case (Submit item)
  then show "wq_step wq ev = Some wq' \<Longrightarrow> ?thesis" by (auto simp: queue_work_tickets)
next
  case Take
  then show "wq_step wq ev = Some wq' \<Longrightarrow> ?thesis"
    by (auto simp: take_item_def tickets_def live_def split: list.splits)
next
  case (Finish i out)
  then show "wq_step wq ev = Some wq' \<Longrightarrow> ?thesis"
    using mset_remove_nth [of i "in_flight wq"]
    by (auto simp: finish_item_def Let_def tickets_def live_def deliver_def split: if_splits)
next
  case (BackoffOver i)
  then show "wq_step wq ev = Some wq' \<Longrightarrow> ?thesis"
    using mset_map_remove_nth [of i "backing_off wq" fst]
    by (auto simp: backoff_over_def Let_def tickets_def live_def deliver_def
        split: if_splits prod.splits)
next
  case (TimerFires i)
  then show "wq_step wq ev = Some wq' \<Longrightarrow> ?thesis"
    using mset_remove_nth [of i "deferred wq"]
    by (auto simp: timer_fires_def queue_work_tickets split: if_splits)
      (simp add: tickets_def live_def)
qed

lemma submitted_Cons: "submitted (ev # evs) = submitted [ev] + submitted evs"
  by (cases ev) auto

lemma wq_run_tickets:
  "wq_run wq evs = Some wq' \<Longrightarrow> tickets wq' = tickets wq + submitted evs"
proof (induction evs arbitrary: wq)
  case (Cons ev evs)
  then show ?case
    using submitted_Cons [of ev evs]
    by (auto split: option.splits dest!: wq_step_tickets simp: add.assoc)
qed simp

lemma queue_work_work:
  "work_left (queue_work item wq) \<le> work_left wq + Suc (nat (retries item))"
  by (simp add: queue_work_def Let_def work_left_def live_def deliver_def)

lemma wq_step_work:
  "wq_step wq ev = Some wq' \<Longrightarrow> executions [ev] + work_left wq' \<le> work_left wq + budget [ev]"
proof (cases ev)
  case (Submit item)
  then show "wq_step wq ev = Some wq' \<Longrightarrow> ?thesis" using queue_work_work [of item wq] by auto
next
  case Take
  then show "wq_step wq ev = Some wq' \<Longrightarrow> ?thesis"
    by (auto simp: take_item_def work_left_def live_def split: list.splits)
next
  case (Finish i out)
  then show "wq_step wq ev = Some wq' \<Longrightarrow> ?thesis"
    using mset_remove_nth [of i "in_flight wq"]
    by (auto simp: finish_item_def Let_def work_left_def live_def deliver_def split: if_splits)
next
  case (BackoffOver i)
  then show "wq_step wq ev = Some wq' \<Longrightarrow> ?thesis"
    using mset_map_remove_nth [of i "backing_off wq" fst]
    by (auto simp: backoff_over_def Let_def work_left_def live_def deliver_def
        split: if_splits prod.splits)
next
  case (TimerFires i)
  let ?wq1 = "wq\<lparr>deferred := take i (deferred wq) @ drop (Suc i) (deferred wq)\<rparr>"
  show "wq_step wq ev = Some wq' \<Longrightarrow> ?thesis"
    using TimerFires queue_work_work [of "deferred wq ! i" ?wq1] mset_remove_nth [of i "deferred wq"]
    by (auto simp: timer_fires_def split: if_splits) (simp add: work_left_def live_def)
qed

lemma wq_run_work:
  "wq_run wq evs = Some wq' \<Longrightarrow> executions evs + work_left wq' \<le> work_left wq + budget evs"
proof (induction evs arbitrary: wq)
  case (Cons ev evs)
  then obtain wq1 where w: "wq_step wq ev = Some wq1" "wq_run wq1 evs = Some wq'"
    by (auto split: option.splits)
  have "executions (ev # evs) = executions [ev] + executions evs" "budget (ev # evs) = budget [ev] + budget evs"
    by (cases ev; simp)+
  with wq_step_work [OF w(1)] Cons.IH [OF w(2)] show ?case by simp
qed simp

lemma wq_step_cap:
  "wq_step wq ev = Some wq' \<Longrightarrow> length (ch wq) \<le> ch_cap wq \<Longrightarrow>
     length (ch wq') \<le> ch_cap wq' \<and> ch_cap wq' = ch_cap wq"
  by (cases ev)
    (auto simp: queue_work_def deliver_def take_item_def finish_item_def backoff_over_def timer_fires_def
      Let_def split: if_splits list.splits prod.splits)

lemma wq_run_cap:
  "wq_run wq evs = Some wq' \<Longrightarrow> length (ch wq) \<le> ch_cap wq \<Longrightarrow>
     length (ch wq') \<le> ch_cap wq' \<and> ch_cap wq' = ch_cap wq"
proof (induction evs arbitrary: wq)
  case (Cons ev evs)
  then show ?case by (auto split: option.splits dest!: wq_step_cap)
qed simp

text \<open>
  C15: in every interleaving of producers, workers, retry backoffs and deferral timers, each
  submitted request is in exactly one place: in the buffer, deferred, being executed, backing
  off, or answered; none is lost, none is answered twice, and the buffer never exceeds its
  capacity.
\<close>

theorem queue_conserves_requests:
  assumes "wq_run (new_work_queue n) evs = Some wq"
  shows "submitted evs =
      image_mset ticket (mset (ch wq) + mset (deferred wq) + mset (in_flight wq) + mset (map fst (backing_off wq)))
      + mset (map (\<lambda>(item, out). ticket item) (answers wq)) \<and>
    length (ch wq) \<le> n"
proof -
  have "tickets (new_work_queue n) = {#}"
    by (simp add: tickets_def live_def new_work_queue_def)
  with wq_run_tickets [OF assms] wq_run_cap [OF assms] show ?thesis
    by (simp add: tickets_def live_def new_work_queue_def)
qed

definition demo_request :: "nat \<Rightarrow> int \<Rightarrow> int \<Rightarrow> work_request" where
  "demo_request t r p =
     \<lparr>label = ''demo'', system_prompt = [], user_prompt = [], grammar = [], max_tokens = 512,
      timeout = minute, retries = r, wr_priority = p, on_complete = True, ticket = t\<rparr>"

definition demo_events :: "wq_event list" where
  "demo_events =
     [Submit (demo_request 1 1 3), Submit (demo_request 2 0 1), Take, Finish 0 ([], Some ''boom''),
      BackoffOver 0, Take, Finish 0 (''ok'', None)]"

lemma demo_run: "\<exists>wq. wq_run (new_work_queue 1) demo_events = Some wq"
  by (simp add: demo_events_def new_work_queue_def queue_work_def take_item_def finish_item_def
      backoff_over_def deliver_def demo_request_def priority_low_def priority_normal_def)

theorem queue_conserves_requests_witness:
  "\<exists>wq. wq_run (new_work_queue 1) demo_events = Some wq \<and> length (ch wq) \<le> 1"
  using demo_run queue_conserves_requests [of 1 demo_events] by blast

text \<open>
  Retries are bounded: however the events interleave, the exec function runs at most
  retries + 1 times per submitted request in total, so a failing backend cannot keep the workers
  busy for ever.
\<close>

lemma executions_bounded:
  assumes "wq_run (new_work_queue n) evs = Some wq"
  shows "executions evs \<le> budget evs"
proof -
  have "work_left (new_work_queue n) = 0"
    by (simp add: work_left_def live_def new_work_queue_def)
  with wq_run_work [OF assms] show ?thesis by simp
qed

lemma executions_bounded_witness: "executions demo_events \<le> budget demo_events"
  using demo_run executions_bounded [of 1 demo_events] by blast

text \<open>
  Admission control. A request above low priority (or of priority zero) is never deferred: it
  enters the buffer as long as there is room and is otherwise answered with the queue-full
  error. A low-priority one is deferred once the buffer is three quarters full, and comes back
  with normal priority, so the same request is never deferred a second time.
\<close>

lemma admission_control:
  "(wr_priority item = 0 \<or> priority_low < wr_priority item \<longrightarrow>
      deferred (queue_work item wq) = deferred wq \<and>
      (length (ch wq) < ch_cap wq \<longrightarrow> ch (queue_work item wq) = ch wq @ [item]) \<and>
      (ch_cap wq \<le> length (ch wq) \<longrightarrow> ch (queue_work item wq) = ch wq \<and>
        answers (queue_work item wq) =
          answers wq @ [(item, if on_complete item then Some queue_full_outcome else None)])) \<and>
   (wr_priority item = 1 \<and> 3 * ch_cap wq < 4 * (length (ch wq) + 1) \<longrightarrow>
      ch (queue_work item wq) = ch wq \<and>
      deferred (queue_work item wq) = deferred wq @ [item\<lparr>wr_priority := priority_normal\<rparr>] \<and>
      (\<forall>wq'. deferred (queue_work (item\<lparr>wr_priority := priority_normal\<rparr>) wq') = deferred wq'))"
proof -
  have "3 * c < 4 * (d + 1) \<longleftrightarrow> c * 3 div 4 \<le> d" for c d :: nat
    by (simp add: less_Suc_eq_le flip: less_Suc_eq_le) presburger
  then show ?thesis
    by (auto simp: queue_work_def Let_def deliver_def priority_low_def priority_normal_def)
qed

lemma admission_control_witness:
  "deferred (queue_work (demo_request 1 0 1) (new_work_queue 1)) = [demo_request 1 0 2]"
  using admission_control [of "demo_request 1 0 1" "new_work_queue 1"]
  by (simp add: demo_request_def new_work_queue_def priority_normal_def)

end
