(* ===== verification/Retry.thy ===== *)
theory Retry
  imports Prelude
begin

text \<open>
  The retry machinery of \<open>pipelines/\<close>: the bounded retry queue (\<open>retry_queue.go\<close>), the retry loop
  with exponential backoff (\<open>retry.go\<close>) and the table of processed items (\<open>processed_tracker.go\<close>).
\<close>

section \<open>The retry queue\<close>

text \<open>
  A work item; the closure is the name \<open>ri_fn\<close> of a job, and whether it succeeds is decided by
  the environment each time it is called.
\<close>

record retry_item =
  ri_fn :: nat
  ri_label :: string
  ri_retries :: nat
  ri_added :: gotime

text \<open>
  The queue, with the local variables of the one goroutine that runs \<open>drain\<close>: the rest of the
  batch it took and the items to put back; \<open>None\<close> when it waits for the ticker. The last two
  fields are ghosts: the jobs in the order their closures were called, and the items given up.
\<close>

record retry_queue =
  rq_items :: "retry_item list"
  rq_max_items :: nat
  rq_max_retries :: nat
  rq_interval :: duration
  rq_drain :: "(retry_item list \<times> retry_item list) option"
  rq_calls :: "nat list"
  rq_done :: "nat list"
  rq_lost :: "nat list"

definition new_retry_queue :: "int \<Rightarrow> int \<Rightarrow> duration \<Rightarrow> retry_queue" where
  "new_retry_queue mx mr iv =
     \<lparr>rq_items = [],
      rq_max_items = (if mx \<le> 0 then 50 else nat mx),
      rq_max_retries = (if mr \<le> 0 then 3 else nat mr),
      rq_interval = (if iv \<le> 0 then 30 * second else iv),
      rq_drain = None, rq_calls = [], rq_done = [], rq_lost = []\<rparr>"

definition rq_enqueue :: "nat \<Rightarrow> string \<Rightarrow> gotime \<Rightarrow> retry_queue \<Rightarrow> retry_queue" where
  "rq_enqueue f lbl now q =
     (let q1 = (if rq_max_items q \<le> length (rq_items q)
                then q\<lparr>rq_items := drop 1 (rq_items q),
                       rq_lost := rq_lost q @ map ri_fn (take 1 (rq_items q))\<rparr>
                else q)
      in q1\<lparr>rq_items := rq_items q1 @ [\<lparr>ri_fn = f, ri_label = lbl, ri_retries = 0, ri_added = now\<rparr>]\<rparr>)"

definition rq_len :: "retry_queue \<Rightarrow> nat" where
  "rq_len q = length (rq_items q)"

text \<open>
  \<open>drain\<close> in three kinds of atomic steps, with the lock released between them: taking the batch,
  calling the next closure (\<open>err\<close>: it returned an error), putting the failed items back.
\<close>

definition drain_take :: "retry_queue \<Rightarrow> retry_queue" where
  "drain_take q =
     (if rq_items q = [] then q
      else q\<lparr>rq_items := [], rq_drain := Some (rq_items q, [])\<rparr>)"

definition drain_call :: "bool \<Rightarrow> retry_queue \<Rightarrow> retry_queue" where
  "drain_call err q =
     (case rq_drain q of
        Some (item # batch, requeue) \<Rightarrow>
          (let q1 = q\<lparr>rq_calls := rq_calls q @ [ri_fn item]\<rparr>;
               item' = item\<lparr>ri_retries := ri_retries item + 1\<rparr>
           in if err then
                (if ri_retries item' \<ge> rq_max_retries q
                 then q1\<lparr>rq_drain := Some (batch, requeue), rq_lost := rq_lost q1 @ [ri_fn item]\<rparr>
                 else q1\<lparr>rq_drain := Some (batch, requeue @ [item'])\<rparr>)
              else q1\<lparr>rq_drain := Some (batch, requeue), rq_done := rq_done q1 @ [ri_fn item]\<rparr>)
      | _ \<Rightarrow> q)"

definition drain_finish :: "retry_queue \<Rightarrow> retry_queue" where
  "drain_finish q =
     (case rq_drain q of
        Some ([], requeue) \<Rightarrow> q\<lparr>rq_items := requeue @ rq_items q, rq_drain := None\<rparr>
      | _ \<Rightarrow> q)"

text \<open>What can happen: an \<open>Enqueue\<close> by any goroutine, a tick of the loop, its next step.\<close>

datatype rq_event = RqEnqueue nat string gotime | RqTick | RqCall bool | RqFinish

fun rq_step :: "retry_queue \<Rightarrow> rq_event \<Rightarrow> retry_queue" where
  "rq_step q (RqEnqueue f lbl now) = rq_enqueue f lbl now q"
| "rq_step q RqTick = (if rq_drain q = None then drain_take q else q)"
| "rq_step q (RqCall err) = drain_call err q"
| "rq_step q RqFinish = drain_finish q"

definition rq_run :: "retry_queue \<Rightarrow> rq_event list \<Rightarrow> retry_queue" where
  "rq_run q evs = foldl rq_step q evs"

definition rq_held :: "retry_queue \<Rightarrow> retry_item list" where
  "rq_held q = (case rq_drain q of None \<Rightarrow> [] | Some (b, r) \<Rightarrow> r @ b) @ rq_items q"

fun rq_enqueued :: "rq_event list \<Rightarrow> nat list" where
  "rq_enqueued [] = []"
| "rq_enqueued (RqEnqueue f lbl now # evs) = f # rq_enqueued evs"
| "rq_enqueued (e # evs) = rq_enqueued evs"

definition tokens_of :: "retry_queue \<Rightarrow> nat \<Rightarrow> nat" where
  "tokens_of q f = count_list (map ri_fn (rq_held q)) f + count_list (rq_done q) f + count_list (rq_lost q) f"

text \<open>
  The invariant of a queue that job \<open>f\<close> entered once: its items have retries left, and it was
  called as often as its item says, or at most \<open>maxRetries\<close> times once it has left.
\<close>

definition rq_inv :: "retry_queue \<Rightarrow> bool" where
  "rq_inv q \<longleftrightarrow> 0 < rq_max_items q \<and> 0 < rq_max_retries q \<and>
     (\<forall>it \<in> set (rq_held q). ri_retries it < rq_max_retries q) \<and>
     (\<forall>f. count_list (rq_calls q) f \<le>
        sum_list (map ri_retries (filter (\<lambda>it. ri_fn it = f) (rq_held q)))
        + rq_max_retries q * (count_list (rq_done q) f + count_list (rq_lost q) f))"

lemma count_list_append [simp]: "count_list (xs @ ys) x = count_list xs x + count_list ys x"
  by (induction xs) auto

lemma new_retry_queue_inv: "rq_inv (new_retry_queue mx mr iv)"
  by (auto simp: rq_inv_def new_retry_queue_def rq_held_def)

lemma rq_step_limits [simp]:
  "rq_max_items (rq_step q e) = rq_max_items q" "rq_max_retries (rq_step q e) = rq_max_retries q"
  by (cases e; auto simp: rq_enqueue_def drain_take_def drain_call_def drain_finish_def Let_def
      split: option.splits list.splits)+

lemma rq_run_limits [simp]:
  "rq_max_items (rq_run q evs) = rq_max_items q" "rq_max_retries (rq_run q evs) = rq_max_retries q"
  unfolding rq_run_def by (induction evs arbitrary: q) auto

lemma rq_enqueue_tokens:
  "tokens_of (rq_enqueue f lbl now q) g = tokens_of q g + (if f = g then 1 else 0)"
  by (cases "rq_items q") (auto simp: tokens_of_def rq_held_def rq_enqueue_def Let_def)

lemma rq_step_tokens:
  "tokens_of (rq_step q e) g =
     tokens_of q g + (case e of RqEnqueue f lbl now \<Rightarrow> if f = g then 1 else 0 | _ \<Rightarrow> 0)"
proof (cases e)
  case (RqEnqueue f lbl now)
  then show ?thesis by (simp add: rq_enqueue_tokens)
qed (auto simp: tokens_of_def rq_held_def drain_take_def drain_call_def drain_finish_def Let_def
    split: option.splits list.splits)

lemma rq_run_tokens: "tokens_of (rq_run q evs) f = tokens_of q f + count_list (rq_enqueued evs) f"
proof (induction evs arbitrary: q)
  case Nil
  then show ?case by (simp add: rq_run_def)
next
  case (Cons e evs)
  have "rq_run q (e # evs) = rq_run (rq_step q e) evs" by (simp add: rq_run_def)
  with Cons.IH [of "rq_step q e"] rq_step_tokens [of q e f] show ?case
    by (cases e) (simp_all del: rq_step.simps)
qed

definition rq_credit :: "retry_queue \<Rightarrow> nat \<Rightarrow> nat" where
  "rq_credit q f = sum_list (map ri_retries (filter (\<lambda>it. ri_fn it = f) (rq_held q)))
     + rq_max_retries q * (count_list (rq_done q) f + count_list (rq_lost q) f)"

lemma rq_inv_alt:
  "rq_inv q \<longleftrightarrow> 0 < rq_max_items q \<and> 0 < rq_max_retries q \<and>
     (\<forall>it \<in> set (rq_held q). ri_retries it < rq_max_retries q) \<and>
     (\<forall>f. count_list (rq_calls q) f \<le> rq_credit q f)"
  by (simp add: rq_inv_def rq_credit_def)

definition rq_live :: "retry_queue \<Rightarrow> bool" where
  "rq_live q \<longleftrightarrow> list_all (\<lambda>it. ri_retries it < rq_max_retries q) (rq_held q)"

lemma rq_inv_live:
  "rq_inv q \<longleftrightarrow> 0 < rq_max_items q \<and> 0 < rq_max_retries q \<and> rq_live q \<and>
     (\<forall>f. count_list (rq_calls q) f \<le> rq_credit q f)"
  by (simp add: rq_inv_alt rq_live_def list_all_iff)

lemma enqueue_credit:
  assumes "rq_live q"
  shows "rq_credit q f \<le> rq_credit (rq_enqueue g lbl now q) f"
  using assms
  by (cases "rq_items q")
    (auto simp: rq_credit_def rq_live_def rq_held_def rq_enqueue_def Let_def algebra_simps)

lemma call_credit:
  assumes "rq_live q"
  shows "count_list (rq_calls (drain_call err q)) f + rq_credit q f
     \<le> count_list (rq_calls q) f + rq_credit (drain_call err q) f"
  using assms
  by (auto simp: rq_credit_def rq_live_def rq_held_def drain_call_def Let_def not_le algebra_simps
      split: option.splits list.splits)

lemma enqueue_live: "rq_live q \<Longrightarrow> 0 < rq_max_retries q \<Longrightarrow> rq_live (rq_enqueue g lbl now q)"
  by (cases "rq_items q") (auto simp: rq_live_def rq_held_def rq_enqueue_def Let_def)

lemma call_live: "rq_live q \<Longrightarrow> rq_live (drain_call err q)"
  by (auto simp: rq_live_def rq_held_def drain_call_def Let_def not_le split: option.splits list.splits)

lemma take_live: "rq_drain q = None \<Longrightarrow> rq_live (drain_take q) = rq_live q"
  by (auto simp: rq_live_def rq_held_def drain_take_def)

lemma finish_live: "rq_live (drain_finish q) = rq_live q"
  by (auto simp: rq_live_def rq_held_def drain_finish_def split: option.splits list.splits)

lemma rq_step_calls_simps [simp]:
  "rq_calls (rq_enqueue g lbl now q) = rq_calls q"
  "rq_calls (drain_take q) = rq_calls q"
  "rq_calls (drain_finish q) = rq_calls q"
  by (auto simp: rq_enqueue_def drain_take_def drain_finish_def Let_def split: option.splits list.splits)

lemma take_credit: "rq_drain q = None \<Longrightarrow> rq_credit (drain_take q) f = rq_credit q f"
  by (auto simp: rq_credit_def rq_held_def drain_take_def)

lemma finish_credit: "rq_credit (drain_finish q) f = rq_credit q f"
  by (auto simp: rq_credit_def rq_held_def drain_finish_def split: option.splits list.splits)

lemma rq_step_inv:
  assumes "rq_inv q"
  shows "rq_inv (rq_step q e)"
proof -
  have "rq_live (rq_step q e)"
    using assms by (cases e) (auto simp: rq_inv_live enqueue_live call_live take_live finish_live)
  moreover have "count_list (rq_calls (rq_step q e)) f \<le> rq_credit (rq_step q e) f" for f
  proof (cases e)
    case (RqEnqueue g lbl now)
    with assms enqueue_credit [of q f g lbl now] show ?thesis
      by (simp add: rq_inv_live) (meson le_trans)
  next
    case (RqCall err)
    with assms call_credit [of q err f] show ?thesis
      by (simp add: rq_inv_live) (metis add.commute add_le_mono nat_add_left_cancel_le le_trans)
  qed (use assms in \<open>auto simp: rq_inv_live take_credit finish_credit\<close>)
  ultimately show ?thesis using assms by (simp add: rq_inv_live)
qed

lemma rq_run_inv: "rq_inv q \<Longrightarrow> rq_inv (rq_run q evs)"
  unfolding rq_run_def by (induction evs arbitrary: q) (auto simp: rq_step_inv)

lemma rq_credit_tokens: "rq_live q \<Longrightarrow> rq_credit q f \<le> rq_max_retries q * tokens_of q f"
proof -
  have "list_all (\<lambda>it. ri_retries it < R) its \<Longrightarrow>
      sum_list (map ri_retries (filter (\<lambda>it. ri_fn it = f) its)) \<le> R * count_list (map ri_fn its) f" for its R
    by (induction its) auto
  then show "rq_live q \<Longrightarrow> rq_credit q f \<le> rq_max_retries q * tokens_of q f"
    by (simp add: rq_live_def rq_credit_def tokens_of_def distrib_left)
qed


text \<open>An outage: every call fails, and jobs keep arriving, before the drain ends and after it.\<close>

definition fresh_items :: "retry_queue \<Rightarrow> bool" where
  "fresh_items q \<longleftrightarrow> rq_drain q = None \<and> rq_items q \<noteq> [] \<and> (\<forall>it \<in> set (rq_items q). ri_retries it = 0)"

definition outage :: "nat \<Rightarrow> nat \<Rightarrow> rq_event list" where
  "outage n mx = [RqTick] @ replicate mx (RqEnqueue 0 [] 0) @ replicate n (RqCall True) @ [RqFinish]
     @ replicate (n + mx) (RqEnqueue 0 [] 0)"

definition fresh_item :: retry_item where
  "fresh_item = \<lparr>ri_fn = 0, ri_label = [], ri_retries = 0, ri_added = 0\<rparr>"

lemma rq_run_append: "rq_run q (xs @ ys) = rq_run (rq_run q xs) ys"
  by (simp add: rq_run_def)

lemma enqueues_fill:
  "length (rq_items q) + k \<le> rq_max_items q \<Longrightarrow>
     rq_items (rq_run q (replicate k (RqEnqueue 0 [] 0))) = rq_items q @ replicate k fresh_item \<and>
     rq_drain (rq_run q (replicate k (RqEnqueue 0 [] 0))) = rq_drain q"
  by (induction k arbitrary: q)
    (auto simp: rq_run_def rq_enqueue_def Let_def fresh_item_def)

lemma enqueues_shift:
  "rq_max_items q \<le> length (rq_items q) \<Longrightarrow> 0 < rq_max_items q \<Longrightarrow>
     rq_items (rq_run q (replicate k (RqEnqueue 0 [] 0))) = drop k (rq_items q @ replicate k fresh_item) \<and>
     rq_drain (rq_run q (replicate k (RqEnqueue 0 [] 0))) = rq_drain q"
proof (induction k arbitrary: q)
  case 0
  then show ?case by (simp add: rq_run_def)
next
  case (Suc k)
  let ?q = "rq_enqueue 0 [] 0 q"
  have i: "rq_items ?q = drop 1 (rq_items q) @ [fresh_item]" "rq_drain ?q = rq_drain q"
    "rq_max_items ?q = rq_max_items q"
    using Suc.prems by (auto simp: rq_enqueue_def Let_def fresh_item_def)
  have "rq_run q (replicate (Suc k) (RqEnqueue 0 [] 0)) = rq_run ?q (replicate k (RqEnqueue 0 [] 0))"
    by (simp add: rq_run_def)
  moreover have "drop k ((drop 1 (rq_items q) @ [fresh_item]) @ replicate k fresh_item)
      = drop (Suc k) (rq_items q @ replicate (Suc k) fresh_item)"
    using Suc.prems by (cases "rq_items q") (simp_all add: replicate_app_Cons_same)
  moreover have "length (rq_items ?q) = length (rq_items q)" using i Suc.prems by simp
  ultimately show ?case using Suc.IH [of ?q] Suc.prems i by simp
qed

lemma calls_fail:
  "rq_drain q = Some (b, r) \<Longrightarrow> \<forall>it \<in> set b. ri_retries it = 0 \<Longrightarrow> 1 < rq_max_retries q \<Longrightarrow>
     rq_items (rq_run q (replicate (length b) (RqCall True))) = rq_items q \<and>
     (\<exists>r'. rq_drain (rq_run q (replicate (length b) (RqCall True))) = Some ([], r') \<and>
        length r' = length r + length b)"
proof (induction b arbitrary: q r)
  case Nil
  then show ?case by (simp add: rq_run_def)
next
  case (Cons it b)
  let ?q = "drain_call True q"
  have "rq_drain ?q = Some (b, r @ [it\<lparr>ri_retries := 1\<rparr>])" "rq_items ?q = rq_items q"
    "rq_max_retries ?q = rq_max_retries q"
    using Cons.prems by (simp_all add: drain_call_def Let_def)
  with Cons.IH [of ?q "r @ [it\<lparr>ri_retries := 1\<rparr>]"] Cons.prems show ?case
    by (simp add: rq_run_def)
qed

lemma outage_round:
  assumes "fresh_items q" "1 < rq_max_retries q" "0 < rq_max_items q" "n = rq_len q"
  shows "fresh_items (rq_run q (outage n (rq_max_items q))) \<and>
    rq_len (rq_run q (outage n (rq_max_items q))) = n + rq_max_items q"
proof -
  let ?m = "rq_max_items q"
  define q1 where "q1 = rq_run q [RqTick]"
  define q2 where "q2 = rq_run q1 (replicate ?m (RqEnqueue 0 [] 0))"
  define q3 where "q3 = rq_run q2 (replicate n (RqCall True))"
  define q4 where "q4 = rq_run q3 [RqFinish]"
  define q5 where "q5 = rq_run q4 (replicate (n + ?m) (RqEnqueue 0 [] 0))"
  have lim: "rq_max_items q1 = ?m" "rq_max_items q4 = ?m" "rq_max_retries q2 = rq_max_retries q"
    by (simp_all add: q1_def q2_def q3_def q4_def)
  have 1: "rq_drain q1 = Some (rq_items q, [])" "rq_items q1 = []"
    using assms(1) by (auto simp: q1_def rq_run_def drain_take_def fresh_items_def)
  have 2: "rq_items q2 = replicate ?m fresh_item" "rq_drain q2 = Some (rq_items q, [])"
    using enqueues_fill [of q1 ?m] 1 lim by (simp_all add: q2_def)
  obtain r where 3: "rq_items q3 = replicate ?m fresh_item" "rq_drain q3 = Some ([], r)" "length r = n"
    using calls_fail [OF 2(2)] assms 2(1) lim by (auto simp: q3_def fresh_items_def rq_len_def)
  have 4: "rq_items q4 = r @ replicate ?m fresh_item" "rq_drain q4 = None"
    using 3 by (simp_all add: q4_def rq_run_def drain_finish_def)
  have 5: "rq_items q5 = replicate (n + ?m) fresh_item" "rq_drain q5 = None"
    using enqueues_shift [of q4 "n + ?m"] 3 4 lim assms(3) by (simp_all add: q5_def)
  have "rq_run q (outage n ?m) = q5"
    by (simp add: outage_def rq_run_append q5_def q4_def q3_def q2_def q1_def del: append_Cons)
  with 5 assms(3) show ?thesis by (auto simp: fresh_items_def rq_len_def fresh_item_def)
qed

lemma outage_grows:
  assumes "1 < rq_max_retries q" "0 < rq_max_items q" "fresh_items q"
  shows "\<exists>evs. fresh_items (rq_run q evs) \<and> rq_len (rq_run q evs) = rq_len q + k * rq_max_items q"
proof (induction k)
  case 0
  show ?case using assms(3) by (intro exI [of _ "[]"]) (simp add: rq_run_def)
next
  case (Suc k)
  then obtain evs where e: "fresh_items (rq_run q evs)" "rq_len (rq_run q evs) = rq_len q + k * rq_max_items q"
    by blast
  from outage_round [OF e(1) _ _ refl] assms e(2) show ?case
    by (intro exI [of _ "evs @ outage (rq_len (rq_run q evs)) (rq_max_items q)"])
      (simp add: rq_run_append)
qed

text \<open>
  The queue is not bounded by \<open>MaxItems\<close>. \<open>drain\<close> empties the buffer while it works, so a
  full load can be enqueued behind its back, and then it puts every failed item in front; in an
  outage that lasts long enough the buffer passes any bound, for any limits but \<open>MaxRetries = 1\<close>.
\<close>

lemma retry_queue_unbounded:
  assumes "mr \<noteq> 1"
  shows "\<exists>evs. N < rq_len (rq_run (new_retry_queue mx mr iv) evs)"
proof -
  let ?init = "new_retry_queue mx mr iv"
  let ?q = "rq_run ?init [RqEnqueue 0 [] 0]"
  have q: "1 < rq_max_retries ?q" "0 < rq_max_items ?q" "fresh_items ?q" "rq_len ?q = 1"
    using assms by (auto simp: rq_run_def rq_enqueue_def new_retry_queue_def fresh_items_def rq_len_def Let_def)
  from outage_grows [OF q(1,2,3), of N] obtain evs
    where "rq_len (rq_run ?q evs) = 1 + N * rq_max_items ?q" using q(4) by auto
  moreover have "N \<le> N * rq_max_items ?q" using q(2) by simp
  moreover have "rq_run ?init (RqEnqueue 0 [] 0 # evs) = rq_run ?q evs" by (simp add: rq_run_def)
  ultimately have "N < rq_len (rq_run ?init (RqEnqueue 0 [] 0 # evs))" by (metis less_add_one order_le_less_trans add.commute nat_add_left_cancel_le order_less_le_trans)
  then show ?thesis by blast
qed

lemma retry_queue_unbounded_witness:
  "\<exists>evs. 1000000 < rq_len (rq_run (new_retry_queue 0 0 0) evs)"
  by (rule retry_queue_unbounded) simp

section \<open>The retry loop with backoff\<close>

record 'e retry_config =
  max_attempts :: int
  initial_backoff :: duration
  is_retryable :: "'e \<Rightarrow> bool \<times> duration"

datatype retry_trace = Attempt int | Wait duration

text \<open>
  \<open>RetryWithBackoff\<close>: \<open>fn\<close> is the operation, given the attempt number, and \<open>ctx n\<close> the error of
  the context if it ends before the timer of attempt \<open>n\<close>. The result is an error, a value, or
  \<open>Inr None\<close> for the zero value with no error after the loop. The second component is the ghost
  trace of attempts and waits. \<open>backoff *= 2\<close> is arithmetic on \<open>int64\<close>.
\<close>

function retry_loop ::
  "'e retry_config \<Rightarrow> (int \<Rightarrow> 'e + 'a) \<Rightarrow> (int \<Rightarrow> 'e option) \<Rightarrow> int \<Rightarrow> duration \<Rightarrow> ('e + 'a option) \<times> retry_trace list"
where
  "retry_loop cfg fn ctx attempt backoff =
     (if \<not> attempt \<le> max_attempts cfg then (Inr None, [])
      else (case fn attempt of
          Inr result \<Rightarrow> (Inr (Some result), [Attempt attempt])
        | Inl err \<Rightarrow>
            (let (retry, override) = is_retryable cfg err
             in if \<not> retry \<or> attempt = max_attempts cfg then (Inl err, [Attempt attempt])
                else if override = 0
                then (let (r, tr) = retry_loop cfg fn ctx (attempt + 1) backoff
                      in (r, Attempt attempt # tr))
                else (case ctx attempt of
                    Some e \<Rightarrow> (Inl e, [Attempt attempt])
                  | None \<Rightarrow>
                      (let (r, tr) = retry_loop cfg fn ctx (attempt + 1) (wrap64 (backoff * 2))
                       in (r, Attempt attempt # Wait backoff # tr))))))"
  by pat_completeness auto
termination
  by (relation "measure (\<lambda>(cfg, fn, ctx, attempt, backoff). nat (max_attempts cfg + 1 - attempt))") auto

declare retry_loop.simps [simp del]

definition retry_with_backoff ::
  "'e retry_config \<Rightarrow> (int \<Rightarrow> 'e + 'a) \<Rightarrow> (int \<Rightarrow> 'e option) \<Rightarrow> ('e + 'a option) \<times> retry_trace list"
where
  "retry_with_backoff cfg fn ctx = retry_loop cfg fn ctx 1 (initial_backoff cfg)"

fun attempts_of :: "retry_trace list \<Rightarrow> int list" where
  "attempts_of [] = []"
| "attempts_of (Attempt n # tr) = n # attempts_of tr"
| "attempts_of (Wait d # tr) = attempts_of tr"

fun waits_of :: "retry_trace list \<Rightarrow> duration list" where
  "waits_of [] = []"
| "waits_of (Attempt n # tr) = waits_of tr"
| "waits_of (Wait d # tr) = d # waits_of tr"

definition retry_outcome ::
  "'e retry_config \<Rightarrow> (int \<Rightarrow> 'e + 'a) \<Rightarrow> (int \<Rightarrow> 'e option) \<Rightarrow> int \<Rightarrow> ('e + 'a option) \<Rightarrow> bool"
where
  "retry_outcome cfg fn ctx k r =
     (case r of
        Inr (Some a) \<Rightarrow> fn k = Inr a
      | Inr None \<Rightarrow> False
      | Inl e \<Rightarrow> fn k = Inl e \<and> (\<not> fst (is_retryable cfg e) \<or> k = max_attempts cfg)
          \<or> (\<exists>e'. fn k = Inl e' \<and> fst (is_retryable cfg e')) \<and> ctx k = Some e)"

lemma wrap64_double: "wrap64 (wrap64 x * 2) = wrap64 (x * 2)"
proof -
  define k where "k = (x + 9223372036854775808) div 18446744073709551616"
  have "wrap64 x = x + 18446744073709551616 * (- k)"
    using minus_div_mult_eq_mod [of "x + 9223372036854775808" 18446744073709551616]
    by (simp add: wrap64_def k_def)
  then have "wrap64 x * 2 + 9223372036854775808 = x * 2 + 9223372036854775808 + 18446744073709551616 * (- 2 * k)"
    by simp
  then have "(wrap64 x * 2 + 9223372036854775808) mod 18446744073709551616
      = (x * 2 + 9223372036854775808) mod 18446744073709551616"
    by (metis mod_mult_self2)
  then show ?thesis by (simp add: wrap64_def)
qed

lemma waits_shift:
  assumes "ws = map (\<lambda>i. wrap64 (b * 2 * 2 ^ i)) [0..<length ws]"
  shows "wrap64 b # ws = map (\<lambda>i. wrap64 (b * 2 ^ i)) [0..<length (wrap64 b # ws)]"
proof -
  have "map (\<lambda>i. wrap64 (b * 2 ^ i)) [0..<Suc (length ws)] =
      wrap64 (b * 2 ^ 0) # map (\<lambda>i. wrap64 (b * 2 ^ i)) (map Suc [0..<length ws])"
    by (simp add: map_Suc_upt upt_conv_Cons del: upt_Suc)
  also have "map (\<lambda>i. wrap64 (b * 2 ^ i)) (map Suc [0..<length ws])
      = map (\<lambda>i. wrap64 (b * 2 * 2 ^ i)) [0..<length ws]"
    by (simp add: mult.assoc o_def)
  also have "\<dots> = ws" by (rule assms [symmetric])
  finally show ?thesis by simp
qed

definition retry_post ::
  "'e retry_config \<Rightarrow> (int \<Rightarrow> 'e + 'a) \<Rightarrow> (int \<Rightarrow> 'e option) \<Rightarrow> int \<Rightarrow> duration \<Rightarrow>
     ('e + 'a option) \<times> retry_trace list \<Rightarrow> bool"
where
  "retry_post cfg fn ctx attempt b res \<longleftrightarrow>
     (\<exists>k. attempt \<le> k \<and> k \<le> max_attempts cfg \<and> attempts_of (snd res) = [attempt..k] \<and>
        (\<forall>j \<in> {attempt..<k}. \<exists>e. fn j = Inl e \<and> fst (is_retryable cfg e)) \<and>
        retry_outcome cfg fn ctx k (fst res) \<and>
        waits_of (snd res) = map (\<lambda>i. wrap64 (b * 2 ^ i)) [0..<length (waits_of (snd res))])"

lemma retry_post_stop:
  assumes "attempt \<le> max_attempts cfg" "retry_outcome cfg fn ctx attempt r"
  shows "retry_post cfg fn ctx attempt b (r, [Attempt attempt])"
  using assms unfolding retry_post_def by (intro exI [of _ attempt]) auto

lemma retry_post_again:
  assumes "retry_post cfg fn ctx (attempt + 1) b' (r, tr)"
    and "fn attempt = Inl e" "fst (is_retryable cfg e)"
    and "pre = [Attempt attempt] \<and> b' = b \<or> pre = [Attempt attempt, Wait (wrap64 b)] \<and> b' = b * 2"
  shows "retry_post cfg fn ctx attempt b (r, pre @ tr)"
proof -
  from assms(1) obtain k where k: "attempt + 1 \<le> k" "k \<le> max_attempts cfg"
    "attempts_of tr = [attempt + 1..k]"
    "\<forall>j \<in> {attempt + 1..<k}. \<exists>e. fn j = Inl e \<and> fst (is_retryable cfg e)"
    "retry_outcome cfg fn ctx k r"
    "waits_of tr = map (\<lambda>i. wrap64 (b' * 2 ^ i)) [0..<length (waits_of tr)]"
    by (auto simp: retry_post_def)
  have "attempts_of (pre @ tr) = [attempt..k]"
    using assms(4) k(1,3) by (auto simp: upto_rec1 [of attempt k])
  moreover have "\<forall>j \<in> {attempt..<k}. \<exists>e. fn j = Inl e \<and> fst (is_retryable cfg e)"
  proof
    fix j assume "j \<in> {attempt..<k}"
    then have "j = attempt \<or> j \<in> {attempt + 1..<k}" by auto
    then show "\<exists>e. fn j = Inl e \<and> fst (is_retryable cfg e)" using assms(2,3) k(4) by auto
  qed
  moreover have "waits_of (pre @ tr) = map (\<lambda>i. wrap64 (b * 2 ^ i)) [0..<length (waits_of (pre @ tr))]"
    using assms(4) k(6) waits_shift [of "waits_of tr" b] by auto
  ultimately show ?thesis
    using k(1,2,5) unfolding retry_post_def by (intro exI [of _ k]) auto
qed

lemma retry_loop_spec:
  "attempt \<le> max_attempts cfg \<Longrightarrow> retry_post cfg fn ctx attempt b (retry_loop cfg fn ctx attempt (wrap64 b))"
proof (induction "nat (max_attempts cfg - attempt)" arbitrary: attempt b)
  case 0
  then have "attempt = max_attempts cfg" by simp
  then show ?case
    by (subst retry_loop.simps)
      (auto simp: retry_outcome_def intro!: retry_post_stop split: sum.splits prod.splits)
next
  case (Suc n)
  then have m: "attempt + 1 \<le> max_attempts cfg" "n = nat (max_attempts cfg - (attempt + 1))"
    "attempt \<noteq> max_attempts cfg" "attempt \<le> max_attempts cfg" by auto
  note IH = Suc.hyps(1) [OF m(2,1)]
  show ?case
  proof (cases "fn attempt")
    case (Inr a)
    with m show ?thesis
      by (subst retry_loop.simps) (auto simp: retry_outcome_def intro!: retry_post_stop)
  next
    case (Inl e)
    obtain retry ov where ro: "is_retryable cfg e = (retry, ov)" by (rule prod.exhaust)
    obtain r0 tr0 where now: "retry_loop cfg fn ctx (attempt + 1) (wrap64 b) = (r0, tr0)" by (rule prod.exhaust)
    obtain r1 tr1 where later: "retry_loop cfg fn ctx (attempt + 1) (wrap64 (wrap64 b * 2)) = (r1, tr1)"
      by (rule prod.exhaust)
    have 0: "retry \<Longrightarrow> retry_post cfg fn ctx attempt b (r0, [Attempt attempt] @ tr0)"
      using retry_post_again [of cfg fn ctx attempt b r0 tr0 e "[Attempt attempt]" b] IH [of b] now Inl ro by simp
    have 1: "retry \<Longrightarrow> retry_post cfg fn ctx attempt b (r1, [Attempt attempt, Wait (wrap64 b)] @ tr1)"
      using retry_post_again [of cfg fn ctx attempt "b * 2" r1 tr1 e "[Attempt attempt, Wait (wrap64 b)]" b]
        IH [of "b * 2"] later Inl ro by (simp add: wrap64_double)
    show ?thesis
      using m 0 1 now later Inl ro
      by (subst retry_loop.simps)
        (auto simp: retry_outcome_def intro!: retry_post_stop split: option.splits)
  qed
qed


definition demo_retry :: "nat retry_config" where
  "demo_retry = \<lparr>max_attempts = 3, initial_backoff = 5, is_retryable = (\<lambda>e. (e < 500, int e))\<rparr>"

definition demo_fn :: "int \<Rightarrow> nat + string" where
  "demo_fn n = (if n = 3 then Inr ''ok'' else Inl (nat n))"


section \<open>Processed items\<close>

text \<open>
  The table of processed identifiers is a set; a query or a statement may fail. The rows of
  \<open>SELECT ... WHERE id = ANY($1)\<close> come in some order, so only the set they form matters; \<open>bad\<close>
  are the rows whose \<open>Scan\<close> fails.
\<close>

definition filter_new :: "string set \<Rightarrow> bool \<Rightarrow> (string \<Rightarrow> bool) \<Rightarrow> string list \<Rightarrow> string list" where
  "filter_new table query_err bad ids =
     (if ids = [] then []
      else if query_err then ids
      else (let existing = {id. id \<in> set ids \<and> id \<in> table \<and> \<not> bad id}
            in filter (\<lambda>id. id \<notin> existing) ids))"

definition mark_processed :: "bool \<Rightarrow> string list \<Rightarrow> string set \<Rightarrow> string set" where
  "mark_processed exec_err ids table =
     (if ids = [] then table else if exec_err then table else table \<union> set ids)"

text \<open>One run of a pipeline: filter the batch, process what is new, mark it.\<close>

definition tracked_batch :: "string set \<Rightarrow> string list \<Rightarrow> string list \<times> string set" where
  "tracked_batch table ids =
     (let new = filter_new table False (\<lambda>_. False) ids
      in (new, mark_processed False new table))"

lemma filter_new_fail_open: "set (filter_new table True bad ids) = set ids"
  by (simp add: filter_new_def)

lemma filter_new_ok: "filter_new table False (\<lambda>_. False) ids = filter (\<lambda>id. id \<notin> table) ids"
  by (auto simp: filter_new_def intro: filter_cong)

lemma tracked_batch_disjoint:
  "tracked_batch table ids = (new, table') \<Longrightarrow> set new \<inter> table = {} \<and> table' = table \<union> set ids"
  by (auto simp: tracked_batch_def Let_def filter_new_ok mark_processed_def filter_empty_conv split: if_splits)

fun tracked_runs :: "string set \<Rightarrow> string list list \<Rightarrow> string list list" where
  "tracked_runs table [] = []"
| "tracked_runs table (ids # rest) =
     (let (new, table') = tracked_batch table ids in new # tracked_runs table' rest)"

lemma tracked_runs_new:
  "\<Union> (set ` set (tracked_runs table batches)) = \<Union> (set ` set batches) - table"
proof (induction batches arbitrary: table)
  case Nil
  then show ?case by simp
next
  case (Cons ids rest)
  obtain new table' where tb: "tracked_batch table ids = (new, table')" by (rule prod.exhaust)
  then have "set new = set ids - table" "table' = table \<union> set ids"
    using tracked_batch_disjoint [OF tb]
    by (auto simp: tracked_batch_def Let_def filter_new_ok)
  with Cons.IH [of table'] tb show ?case by auto
qed

text \<open>
  The pipelines process an item once. Over any number of runs on a working database, whose
  batches may overlap, the identifiers of different runs are disjoint, and together they are all
  the identifiers that were not recorded before.
\<close>

lemma processed_once:
  "sorted_wrt (\<lambda>xs ys. set xs \<inter> set ys = {}) (tracked_runs table batches) \<and>
   \<Union> (set ` set (tracked_runs table batches)) = \<Union> (set ` set batches) - table"
proof (induction batches arbitrary: table)
  case Nil
  then show ?case by simp
next
  case (Cons ids rest)
  obtain new table' where tb: "tracked_batch table ids = (new, table')" by (rule prod.exhaust)
  have "set new \<subseteq> table'"
    using tb by (auto simp: tracked_batch_def Let_def filter_new_ok mark_processed_def split: if_splits)
  with Cons.IH [of table'] tb tracked_runs_new [of table "ids # rest"] show ?case by fastforce
qed

end
