(* ===== verification/Limiters.thy ===== *)
theory Limiters
  imports Prelude
begin

text \<open>
  Rate limits and approvals: the limiter of proactive messages (\<open>engine/share_limiter.go\<close>) and the
  time-limited approval cache (\<open>toolreg/approval_cache.go\<close>), whose contract towards the tools
  that ask for confirmation is the locale \<open>approval_store\<close>.
\<close>

section \<open>The share limiter\<close>

record share_limiter =
  daily :: int
  last_sent :: gotime
  day_start :: gotime
  max_daily :: int
  min_interval :: duration

definition new_share_limiter :: "duration \<Rightarrow> int \<Rightarrow> gotime \<Rightarrow> share_limiter" where
  "new_share_limiter off mx now =
     \<lparr>daily = 0, last_sent = 0, day_start = start_of_day off now,
      max_daily = (if mx \<le> 0 then 3 else mx), min_interval = 30 * minute\<rparr>"

definition allow :: "duration \<Rightarrow> gotime \<Rightarrow> share_limiter \<Rightarrow> bool \<times> share_limiter" where
  "allow off now sl =
     (let today = start_of_day off now;
          sl1 = (if today > day_start sl then sl\<lparr>daily := 0, day_start := today\<rparr> else sl)
      in if daily sl1 \<ge> max_daily sl1 then (False, sl1)
         else if \<not> is_zero (last_sent sl1) \<and> time_sub now (last_sent sl1) < min_interval sl1
         then (False, sl1)
         else (True, sl1\<lparr>daily := daily sl1 + 1, last_sent := now\<rparr>))"

text \<open>The times at which messages were let through, for a sequence of requests.\<close>

fun shares :: "duration \<Rightarrow> share_limiter \<Rightarrow> gotime list \<Rightarrow> gotime list" where
  "shares off sl [] = []"
| "shares off sl (t # ts) =
     (case allow off t sl of
        (True, sl') \<Rightarrow> t # shares off sl' ts
      | (False, sl') \<Rightarrow> shares off sl' ts)"

lemma allow_fields:
  "max_daily (snd (allow off t sl)) = max_daily sl"
  "min_interval (snd (allow off t sl)) = min_interval sl"
  "day_start (snd (allow off t sl)) = max (day_start sl) (start_of_day off t)"
  by (auto simp: allow_def Let_def)

lemma allow_True:
  "allow off t sl = (True, sl') \<Longrightarrow> 
     last_sent sl' = t \<and>
     daily sl' = (if start_of_day off t > day_start sl then 1 else daily sl + 1) \<and>
     daily sl' \<le> max_daily sl \<and>
     (last_sent sl \<noteq> 0 \<longrightarrow> \<not> time_sub t (last_sent sl) < min_interval sl)"
  by (auto simp: allow_def Let_def is_zero_def split: if_splits)

lemma allow_False:
  "allow off t sl = (False, sl') \<Longrightarrow>
     last_sent sl' = last_sent sl \<and>
     daily sl' = (if start_of_day off t > day_start sl then 0 else daily sl)"
  by (auto simp: allow_def Let_def split: if_splits)

lemma shares_subset: "set (shares off sl ts) \<subseteq> set ts"
  by (induction ts arbitrary: sl) (auto split: prod.splits bool.splits)

lemma shares_per_day:
  assumes "sorted ts" "\<forall>t \<in> set ts. day_start sl \<le> start_of_day off t" "0 \<le> daily sl" "daily sl \<le> max_daily sl"
  shows "int (length (filter (\<lambda>t. start_of_day off t = d) (shares off sl ts)))
     \<le> (if d = day_start sl then max_daily sl - daily sl else max_daily sl)"
  using assms
proof (induction ts arbitrary: sl)
  case Nil
  then show ?case by simp
next
  case (Cons t ts)
  obtain b sl' where al: "allow off t sl = (b, sl')" by (rule prod.exhaust)
  have f: "max_daily sl' = max_daily sl" "day_start sl' = start_of_day off t"
    using allow_fields [of off t sl] al Cons.prems(2) by auto
  have later: "\<forall>u \<in> set ts. day_start sl' \<le> start_of_day off u"
    using Cons.prems(1) f(2) by (auto intro: start_of_day_mono)
  have rng: "0 \<le> daily sl' \<and> daily sl' \<le> max_daily sl'"
    using allow_True [of off t sl sl'] allow_False [of off t sl sl'] al Cons.prems f(1)
    by (cases b) (auto split: if_splits)
  have IH: "int (length (filter (\<lambda>t. start_of_day off t = d) (shares off sl' ts)))
      \<le> (if d = day_start sl' then max_daily sl' - daily sl' else max_daily sl')"
    using Cons.IH [of sl'] Cons.prems(1) later rng by simp
  have old: "filter (\<lambda>t. start_of_day off t = d) (shares off sl' ts) = []" if "d < day_start sl'"
    using that later shares_subset [of off sl' ts] by (force simp: filter_empty_conv)
  show ?case
  proof (cases b)
    case b: True
    have a: "daily sl' = (if start_of_day off t > day_start sl then 1 else daily sl + 1)"
      "daily sl' \<le> max_daily sl"
      using al b allow_True [of off t sl sl'] by auto
    show ?thesis
    proof (cases "d < day_start sl'")
      case True
      with old a al b f Cons.prems(2,3,4) show ?thesis by (auto split: if_splits)
    next
      case False
      with IH a al b f Cons.prems(2,3,4) show ?thesis by (auto split: if_splits)
    qed
  next
    case False
    then have a: "daily sl' = (if start_of_day off t > day_start sl then 0 else daily sl)"
      using al allow_False [of off t sl sl'] by simp
    show ?thesis
    proof (cases "d < day_start sl'")
      case True
      with old al False Cons.prems(2,3,4) show ?thesis by (auto split: if_splits)
    next
      case nd: False
      with IH a al f False Cons.prems(2,3,4) show ?thesis by (auto split: if_splits)
    qed
  qed
qed

lemma shares_spaced:
  assumes "sorted ts" "\<forall>t \<in> set ts. 0 < t" "0 \<le> last_sent sl"
    and "0 < min_interval sl" "min_interval sl \<le> max_dur"
  shows "sorted_wrt (\<lambda>t u. t + min_interval sl \<le> u) (shares off sl ts) \<and>
    (last_sent sl \<noteq> 0 \<longrightarrow> (\<forall>u \<in> set (shares off sl ts). last_sent sl + min_interval sl \<le> u))"
  using assms
proof (induction ts arbitrary: sl)
  case Nil
  then show ?case by simp
next
  case (Cons t ts)
  obtain b sl' where al: "allow off t sl = (b, sl')" by (rule prod.exhaust)
  have f: "min_interval sl' = min_interval sl"
    using allow_fields(2) [of off t sl] al by simp
  show ?case
  proof (cases b)
    case True
    with al have tr: "last_sent sl' = t" "last_sent sl \<noteq> 0 \<longrightarrow> \<not> time_sub t (last_sent sl) < min_interval sl"
      using allow_True [of off t sl sl'] by auto
    have gap: "last_sent sl \<noteq> 0 \<longrightarrow> last_sent sl + min_interval sl \<le> t"
      using tr(2) Cons.prems(4,5) time_sub_less_iff [of "min_interval sl" t "last_sent sl"]
      by (auto simp: min_dur_def)
    have IH: "sorted_wrt (\<lambda>t u. t + min_interval sl \<le> u) (shares off sl' ts) \<and>
        (\<forall>u \<in> set (shares off sl' ts). t + min_interval sl \<le> u)"
      using Cons.IH [of sl'] Cons.prems tr(1) f by simp
    with gap Cons.prems(4) al True show ?thesis by fastforce
  next
    case False
    with al have "last_sent sl' = last_sent sl" using allow_False [of off t sl sl'] by simp
    with Cons.IH [of sl'] Cons.prems f al False show ?thesis by simp
  qed
qed

text \<open>
  Whatever requests arrive, in clock order, a limiter never lets more than its daily maximum
  of proactive messages through on one local day, and any two messages it lets through are at
  least thirty minutes apart, over midnight too.
\<close>

lemma share_limits:
  assumes "sorted ts" and "\<forall>t \<in> set ts. now \<le> t" and "0 < now"
  shows "int (length (filter (\<lambda>t. start_of_day off t = d) (shares off (new_share_limiter off mx now) ts)))
      \<le> (if mx \<le> 0 then 3 else mx) \<and>
    sorted_wrt (\<lambda>t u. t + 30 * minute \<le> u) (shares off (new_share_limiter off mx now) ts)"
proof -
  let ?sl = "new_share_limiter off mx now"
  have "int (length (filter (\<lambda>t. start_of_day off t = d) (shares off ?sl ts)))
      \<le> (if d = day_start ?sl then max_daily ?sl - daily ?sl else max_daily ?sl)"
    using assms by (intro shares_per_day) (auto simp: new_share_limiter_def intro: start_of_day_mono)
  moreover have "sorted_wrt (\<lambda>t u. t + min_interval ?sl \<le> u) (shares off ?sl ts)"
    using assms by (intro shares_spaced [THEN conjunct1])
      (force simp: new_share_limiter_def dur_defs max_dur_def)+
  ultimately show ?thesis by (simp add: new_share_limiter_def split: if_splits)
qed

lemma share_limits_witness:
  "int (length (filter (\<lambda>t. start_of_day 0 t = 0)
     (shares 0 (new_share_limiter 0 1 5) [10, 20, 2 * hour]))) \<le> 1"
  using share_limits [of "[10, 20, 2 * hour]" 5 0 0 1] by (simp add: dur_defs)

section \<open>The approval cache\<close>

record approval_cache =
  approvals_map :: "string \<rightharpoonup> gotime"
  ttl :: duration

definition new_approval_cache :: "duration \<Rightarrow> approval_cache" where
  "new_approval_cache d = \<lparr>approvals_map = Map.empty, ttl = d\<rparr>"

definition ac_check :: "approval_cache \<Rightarrow> gotime \<Rightarrow> string \<Rightarrow> bool" where
  "ac_check c now key =
     (case approvals_map c key of None \<Rightarrow> False | Some t \<Rightarrow> time_sub now t < ttl c)"

definition ac_record :: "approval_cache \<Rightarrow> gotime \<Rightarrow> string \<Rightarrow> approval_cache" where
  "ac_record c now key = c\<lparr>approvals_map := (approvals_map c)(key \<mapsto> now)\<rparr>"

text \<open>
  The contract of an approval store: nothing is approved at first; an approval covers its own
  key, from the moment it was recorded until the window \<open>window c\<close> has passed, and no other key.
\<close>

locale approval_store =
  fixes check :: "'c \<Rightarrow> gotime \<Rightarrow> string \<Rightarrow> bool"
    and record_ok :: "'c \<Rightarrow> gotime \<Rightarrow> string \<Rightarrow> 'c"
    and empty_store :: "'c \<Rightarrow> bool"
    and window :: "'c \<Rightarrow> duration"
  assumes empty_check: "empty_store c \<Longrightarrow> \<not> check c now k"
    and window_record: "window (record_ok c t k) = window c"
    and check_same: "0 < window c \<Longrightarrow> window c \<le> max_dur \<Longrightarrow>
      check (record_ok c t k) now k \<longleftrightarrow> now < t + window c"
    and check_other: "k' \<noteq> k \<Longrightarrow> check (record_ok c t k) now k' = check c now k'"

context approval_store
begin

text \<open>After any sequence of approvals a key passes only because of one of its own.\<close>

lemma check_records:
  assumes "empty_store c" "0 < window c" "window c \<le> max_dur"
  shows "check (foldl (\<lambda>c (t, k). record_ok c t k) c rs) now k \<longrightarrow>
    (\<exists>t. (t, k) \<in> set rs \<and> now < t + window c)"
proof (induction rs rule: rev_induct)
  case Nil
  with assms(1) show ?case by (simp add: empty_check)
next
  case (snoc r rs)
  obtain t k' where r: "r = (t, k')" by (cases r)
  let ?c = "foldl (\<lambda>c (t, k). record_ok c t k) c rs"
  have w: "window ?c = window c"
    by (induction rs rule: rev_induct) (auto simp: window_record)
  show ?case
  proof (cases "k' = k")
    case True
    then show ?thesis using assms(2,3) by (auto simp: r check_same w)
  next
    case False
    with snoc.IH show ?thesis by (auto simp: r check_other)
  qed
qed

end

interpretation ac: approval_store ac_check ac_record "\<lambda>c. approvals_map c = Map.empty" ttl
proof unfold_locales
  show "ac_check (ac_record c t k) now k \<longleftrightarrow> now < t + ttl c"
    if "0 < ttl c" "ttl c \<le> max_dur" for c t k now
    using that time_sub_less_iff [of "ttl c" now t]
    by (auto simp: ac_check_def ac_record_def min_dur_def)
qed (auto simp: ac_check_def ac_record_def split: option.splits)

text \<open>
  An approval is never granted by accident: after any sequence of recorded approvals, a
  check succeeds only if the very same key was approved less than the time-to-live ago.
\<close>

lemma approvals_expire:
  assumes "0 < d" and "d \<le> max_dur"
    and "ac_check (foldl (\<lambda>c (t, k). ac_record c t k) (new_approval_cache d) rs) now k"
  shows "\<exists>t. (t, k) \<in> set rs \<and> now < t + d"
  using ac.check_records [of "new_approval_cache d" rs now k] assms
  by (simp add: new_approval_cache_def)

lemma approvals_expire_witness:
  "\<exists>t. (t, ''/etc'') \<in> set [(10, ''/tmp''), (20, ''/etc'')] \<and> 30 < t + 5 * minute"
  by (rule approvals_expire)
    (simp_all add: dur_defs max_dur_def ac_check_def ac_record_def new_approval_cache_def time_sub_def min_dur_def)

end
