(* ===== verification/Paths.thy ===== *)
theory Paths
  imports Prelude
begin

text \<open>
  The part of Go's package \<open>path/filepath\<close> (on Unix) that the tools use: \<open>Clean\<close>, \<open>Join\<close>, \<open>Base\<close>,
  \<open>Dir\<close>, \<open>Abs\<close> and \<open>IsAbs\<close>, all lexical, and the shape of a cleaned absolute path: a list of
  plain components.
\<close>

section \<open>Operations\<close>

definition slash :: char where "slash = CHR 0x2F"

definition is_abs :: "string \<Rightarrow> bool" where
  "is_abs p \<longleftrightarrow> has_prefix p [slash]"

text \<open>The components that \<open>Clean\<close> keeps; \<open>st\<close> holds those of the output so far, the last first.\<close>

fun clean_comps :: "bool \<Rightarrow> string list \<Rightarrow> string list \<Rightarrow> string list" where
  "clean_comps rooted st [] = rev st"
| "clean_comps rooted st (c # cs) =
     (if c = [] \<or> c = ''.'' then clean_comps rooted st cs
      else if c = ''..'' then
        (case st of
           [] \<Rightarrow> clean_comps rooted (if rooted then [] else [''..'']) cs
         | s # st' \<Rightarrow> clean_comps rooted (if s = ''..'' then ''..'' # st else st') cs)
      else clean_comps rooted (c # st) cs)"

definition abs_of :: "string list \<Rightarrow> string" where
  "abs_of cs = slash # str_join [slash] cs"

definition path_clean :: "string \<Rightarrow> string" where
  "path_clean p =
     (let cs = clean_comps (is_abs p) [] (split_char slash p) in
      if is_abs p then abs_of cs else if cs = [] then ''.'' else str_join [slash] cs)"

definition path_join :: "string \<Rightarrow> string \<Rightarrow> string" where
  "path_join a b =
     (if a \<noteq> [] then path_clean (a @ slash # b) else if b \<noteq> [] then path_clean b else [])"

definition path_base :: "string \<Rightarrow> string" where
  "path_base p =
     (if p = [] then ''.''
      else (let r = dropWhile (\<lambda>c. c = slash) (rev p) in
            if r = [] then [slash] else rev (takeWhile (\<lambda>c. c \<noteq> slash) r)))"

definition path_dir :: "string \<Rightarrow> string" where
  "path_dir p = path_clean (rev (dropWhile (\<lambda>c. c \<noteq> slash) (rev p)))"

text \<open>\<open>Abs\<close>: \<open>cwd\<close> is the working directory, \<open>None\<close> when it cannot be told.\<close>

definition path_abs :: "string option \<Rightarrow> string \<Rightarrow> string option" where
  "path_abs cwd p = (if is_abs p then Some (path_clean p) else map_option (\<lambda>d. path_join d p) cwd)"

section \<open>Cleaned absolute paths\<close>

definition plain_comp :: "string \<Rightarrow> bool" where
  "plain_comp c \<longleftrightarrow> c \<noteq> [] \<and> slash \<notin> set c \<and> c \<noteq> ''.'' \<and> c \<noteq> ''..''"

definition clean_abs :: "string \<Rightarrow> bool" where
  "clean_abs p \<longleftrightarrow> (\<exists>cs. list_all plain_comp cs \<and> p = abs_of cs)"

lemma clean_comps_plain:
  "list_all plain_comp st \<Longrightarrow> \<forall>c \<in> set cs. slash \<notin> set c \<Longrightarrow> list_all plain_comp (clean_comps True st cs)"
proof (induction cs arbitrary: st)
  case Nil
  then show ?case by (simp add: list_all_iff)
next
  case (Cons c cs)
  show ?case
  proof (cases "c = [] \<or> c = ''.'' \<or> c = ''..''")
    case True
    then show ?thesis using Cons by (cases st) (auto simp: plain_comp_def)
  next
    case False
    with Cons.prems have "plain_comp c" by (simp add: plain_comp_def)
    with False Cons show ?thesis by simp
  qed
qed

lemma split_slash_free: "\<forall>c \<in> set (split_char slash p). slash \<notin> set c"
  using split_char_no_sep by blast

lemma clean_abs_of: "list_all plain_comp cs \<Longrightarrow> clean_abs (abs_of cs)"
  by (auto simp: clean_abs_def)

lemma path_clean_abs: "is_abs p \<Longrightarrow> clean_abs (path_clean p)"
  unfolding clean_abs_def path_clean_def
  using clean_comps_plain [of "[]" "split_char slash p"] split_slash_free by auto

lemma clean_comps_append_plain:
  "list_all plain_comp cs \<Longrightarrow> clean_comps rooted st (cs @ ds) = clean_comps rooted (rev cs @ st) ds"
  by (induction cs arbitrary: st) (auto simp: plain_comp_def)

lemma split_join_slash: "list_all plain_comp cs \<Longrightarrow> cs \<noteq> [] \<Longrightarrow> split_char slash (str_join [slash] cs) = cs"
  by (rule split_join) (auto simp: list_all_iff plain_comp_def)

lemma is_abs_of [simp]: "is_abs (abs_of cs)" "is_abs (slash # p)"
  by (simp_all add: is_abs_def abs_of_def)

lemma abs_of_comps: "list_all plain_comp cs \<Longrightarrow>
    split_char slash (abs_of cs) = [] # (if cs = [] then [[]] else cs)"
  by (simp add: abs_of_def split_join_slash)

lemma abs_of_inj:
  assumes "list_all plain_comp cs" "list_all plain_comp ds" "abs_of cs = abs_of ds"
  shows "cs = ds"
proof -
  have "(if cs = [] then [[]] else cs) = (if ds = [] then [[]] else ds)"
    using abs_of_comps [OF assms(1)] abs_of_comps [OF assms(2)] assms(3) by simp
  then show ?thesis
    using assms(1,2) by (auto simp: plain_comp_def split: if_splits)
qed

lemma path_clean_abs_of: "list_all plain_comp cs \<Longrightarrow> path_clean (abs_of cs) = abs_of cs"
  using clean_comps_append_plain [of cs True "[]" "[]"]
  by (simp add: path_clean_def abs_of_comps)

lemma path_clean_idem: "is_abs p \<Longrightarrow> path_clean (path_clean p) = path_clean p"
  using path_clean_abs path_clean_abs_of unfolding clean_abs_def by metis

text \<open>Joining a relative path to a cleaned absolute one.\<close>

lemma split_char_app:
  "split_char c (a @ c # b) = split_char c a @ split_char c b"
  by (induction a) (auto split: list.splits)

lemma path_join_abs_of:
  assumes "list_all plain_comp cs"
  shows "path_join (abs_of cs) p = abs_of (clean_comps True (rev cs) (split_char slash p))"
proof -
  have "split_char slash (abs_of cs @ slash # p) = split_char slash (abs_of cs) @ split_char slash p"
    by (rule split_char_app)
  moreover have "is_abs (abs_of cs @ slash # p)" by (simp add: abs_of_def)
  moreover have "abs_of cs \<noteq> []" by (simp add: abs_of_def)
  ultimately show ?thesis
    using clean_comps_append_plain [OF assms, of True "[]" "split_char slash p"]
    by (simp add: path_join_def path_clean_def abs_of_comps [OF assms])
qed

lemma clean_comps_no_dotdot:
  "''..'' \<notin> set cs \<Longrightarrow> \<exists>ds. clean_comps True st cs = rev st @ ds"
proof (induction cs arbitrary: st)
  case (Cons c cs)
  then have IH: "\<exists>ds. clean_comps True s cs = rev s @ ds" for s by simp
  show ?case using IH [of st] IH [of "c # st"] Cons.prems by auto
qed simp

text \<open>The literal prefix of a cleaned absolute path: the same components, but for the end of one.\<close>

lemma str_join_snoc:
  "str_join s (xs @ [x]) = (if xs = [] then x else str_join s xs @ s @ x)"
  by (induction s xs rule: str_join.induct) auto

lemma str_join_append:
  "xs \<noteq> [] \<Longrightarrow> ys \<noteq> [] \<Longrightarrow> str_join s (xs @ ys) = str_join s xs @ s @ str_join s ys"
proof (induction s xs rule: str_join.induct)
  case (2 s x)
  then show ?case by (cases ys) auto
qed auto

lemma str_join_extend_last:
  "str_join s (xs @ (y @ x) # rest) = str_join s (xs @ [y]) @ x @ (if rest = [] then [] else s @ str_join s rest)"
proof (cases "xs = []")
  case True
  then show ?thesis by (cases rest) auto
next
  case False
  then show ?thesis
    by (cases rest) (auto simp: str_join_snoc str_join_append)
qed

lemma abs_prefix_iff:
  assumes ws: "list_all plain_comp (ws @ [w])" and cs: "list_all plain_comp cs"
  shows "has_prefix (abs_of cs) (abs_of (ws @ [w])) \<longleftrightarrow> (\<exists>x rest. cs = ws @ (w @ x) # rest)"
    (is "?l \<longleftrightarrow> ?r")
proof
  assume ?r
  then obtain x rest where "cs = ws @ (w @ x) # rest" by blast
  then show ?l
    by (auto simp: abs_of_def has_prefix_iff str_join_extend_last)
next
  assume ?l
  then obtain t where "abs_of cs = abs_of (ws @ [w]) @ t" by (auto simp: has_prefix_iff)
  then have t: "str_join [slash] cs = str_join [slash] (ws @ [w]) @ t" by (simp add: abs_of_def)
  define x where "x = takeWhile (\<lambda>c. c \<noteq> slash) t"
  define u where "u = dropWhile (\<lambda>c. c \<noteq> slash) t"
  have xu: "t = x @ u" "slash \<notin> set x" unfolding x_def u_def by (auto dest: set_takeWhileD)
  have wf: "slash \<notin> set w" "slash \<notin> \<Union> (set ` set ws)" using ws by (auto simp: plain_comp_def list_all_iff)
  have "cs \<noteq> []" using t ws
    by (cases "ws = []") (auto simp: str_join_snoc plain_comp_def)
  then have split: "split_char slash (str_join [slash] cs) = cs" using split_join_slash [OF cs] by simp
  have pre: "split_char slash (str_join [slash] (ws @ [w @ x])) = ws @ [w @ x]"
    by (rule split_join) (use wf xu(2) in auto)
  have eq: "str_join [slash] (ws @ [w]) @ t = str_join [slash] (ws @ [w @ x]) @ u"
    using str_join_extend_last [of "[slash]" ws w x "[]"] xu(1) by simp
  show ?r
  proof (cases u)
    case Nil
    then have "str_join [slash] cs = str_join [slash] (ws @ [w @ x])" using t eq by simp
    then have "split_char slash (str_join [slash] cs) = ws @ [w @ x]" by (simp only: pre)
    then have "cs = ws @ [w @ x]" by (simp only: split)
    then show ?thesis by blast
  next
    case (Cons c u')
    then have "c = slash" using u_def dropWhile_eq_Cons_conv [of "\<lambda>c. c \<noteq> slash" t c u'] by simp
    have "cs = split_char slash (str_join [slash] (ws @ [w @ x]) @ slash # u')"
      using split t eq Cons \<open>c = slash\<close> by simp
    also have "\<dots> = (ws @ [w @ x]) @ split_char slash u'"
      by (simp only: split_char_app pre)
    finally show ?thesis by auto
  qed
qed

end
