(* ===== verification/Json.thy ===== *)
theory Json
  imports Prelude
begin

text \<open>
  The part of Go's \<open>encoding/json\<close> and \<open>unicode/utf8\<close> that the program relies on: the decoder
  into values and into structs, the encoder of strings and the compaction of raw messages. An
  object keeps its members in order, each with its key, the raw text of its value, and the value.
\<close>

section \<open>UTF-8\<close>

definition is_cont :: "char \<Rightarrow> bool" where
  "is_cont c \<longleftrightarrow> byte_of c div 64 = 2"

definition byte_in :: "nat \<Rightarrow> nat \<Rightarrow> char \<Rightarrow> bool" where
  "byte_in lo hi c \<longleftrightarrow> lo \<le> byte_of c \<and> byte_of c \<le> hi"

text \<open>The length of the valid encoding of a rune at the head of a string, 0 if there is none.\<close>

fun utf8_len :: "string \<Rightarrow> nat" where
  "utf8_len [] = 0"
| "utf8_len (a # s) =
     (if byte_in 0 127 a then 1
      else case s of
        [] \<Rightarrow> 0
      | b # s' \<Rightarrow>
          if byte_in 0xC2 0xDF a then (if is_cont b then 2 else 0)
          else (case s' of
              [] \<Rightarrow> 0
            | c # s'' \<Rightarrow>
                if byte_in 0xE0 0xEF a
                then (if is_cont b \<and> is_cont c \<and> (byte_of a = 0xE0 \<longrightarrow> byte_in 0xA0 0xBF b)
                          \<and> (byte_of a = 0xED \<longrightarrow> byte_in 0x80 0x9F b)
                      then 3 else 0)
                else (case s'' of
                    [] \<Rightarrow> 0
                  | d # _ \<Rightarrow>
                      if byte_in 0xF0 0xF4 a \<and> is_cont b \<and> is_cont c \<and> is_cont d
                         \<and> (byte_of a = 0xF0 \<longrightarrow> byte_in 0x90 0xBF b)
                         \<and> (byte_of a = 0xF4 \<longrightarrow> byte_in 0x80 0x8F b)
                      then 4 else 0)))"

definition replacement :: string where
  "replacement = [CHR 0xEF, CHR 0xBF, CHR 0xBD]"

definition encode_rune :: "nat \<Rightarrow> string" where
  "encode_rune r =
     (if r < 0x80 then [char_of r]
      else if r < 0x800 then [char_of (0xC0 + r div 64), char_of (0x80 + r mod 64)]
      else if 0xD800 \<le> r \<and> r < 0xE000 then replacement
      else if r < 0x10000
        then [char_of (0xE0 + r div 4096), char_of (0x80 + r div 64 mod 64), char_of (0x80 + r mod 64)]
      else if r < 0x110000
        then [char_of (0xF0 + r div 262144), char_of (0x80 + r div 4096 mod 64),
              char_of (0x80 + r div 64 mod 64), char_of (0x80 + r mod 64)]
      else replacement)"

section \<open>Well-formed UTF-8\<close>

function utf8_valid :: "string \<Rightarrow> bool" where
  "utf8_valid s =
     (if s = [] then True
      else if utf8_len s = 0 then False
      else utf8_valid (drop (utf8_len s) s))"
  by pat_completeness auto
termination
  by (relation "measure length") (auto simp: length_greater_0_conv [symmetric] simp del: length_greater_0_conv)

declare utf8_valid.simps [simp del]

lemma utf8_valid_Nil [simp]: "utf8_valid []"
  by (subst utf8_valid.simps) simp

lemma utf8_valid_step: "s \<noteq> [] \<Longrightarrow> utf8_valid s \<longleftrightarrow> utf8_len s \<noteq> 0 \<and> utf8_valid (drop (utf8_len s) s)"
  by (subst utf8_valid.simps) simp

lemma utf8_valid_ascii: "byte_in 0 127 c \<Longrightarrow> utf8_valid (c # s) = utf8_valid s"
  by (subst utf8_valid_step) simp_all

lemma utf8_len_bounds: "utf8_len s \<le> length s"
  by (cases s rule: utf8_len.cases) (auto split: list.splits)

lemma utf8_len_conts: "0 < k \<Longrightarrow> k < utf8_len s \<Longrightarrow> is_cont (s ! k)"
  by (cases s rule: utf8_len.cases)
    (auto simp: less_Suc_eq nth_Cons numeral_eq_Suc split: list.splits if_splits nat.splits)

lemma utf8_len_append: "utf8_len s \<noteq> 0 \<Longrightarrow> utf8_len (take (utf8_len s) s @ t) = utf8_len s"
  by (cases s rule: utf8_len.cases) (auto split: list.splits if_splits)

lemma utf8_valid_chunk:
  assumes "utf8_len s \<noteq> 0" "utf8_valid t"
  shows "utf8_valid (take (utf8_len s) s @ t)"
  using assms utf8_len_append [OF assms(1), of t] utf8_len_bounds [of s]
  by (subst utf8_valid_step) (auto simp del: utf8_len.simps)

lemma utf8_valid_take:
  "utf8_valid s \<Longrightarrow> k < length s \<Longrightarrow> k = 0 \<or> rune_start (s ! k) \<Longrightarrow> utf8_valid (take k s)"
proof (induction s arbitrary: k rule: utf8_valid.induct)
  case (1 s)
  show ?case
  proof (cases "k = 0")
    case False
    from "1.prems" have m: "utf8_len s \<noteq> 0" "utf8_valid (drop (utf8_len s) s)"
      using utf8_valid_step [of s] by (cases "s = []"; simp)+
    have "\<not> k < utf8_len s"
      using utf8_len_conts [of k s] False "1.prems"(3) by (auto simp: rune_start_def is_cont_def)
    then have le: "utf8_len s \<le> k" by simp
    have "utf8_valid (take (k - utf8_len s) (drop (utf8_len s) s))"
      using "1.IH" [of "k - utf8_len s"] "1.prems" m le False by fastforce
    moreover have "take k s = take (utf8_len s) s @ take (k - utf8_len s) (drop (utf8_len s) s)"
      using le by (metis take_add le_add_diff_inverse)
    ultimately show ?thesis using utf8_valid_chunk [OF m(1)] by simp
  qed simp
qed

lemma utf8_valid_append: "utf8_valid a \<Longrightarrow> utf8_valid b \<Longrightarrow> utf8_valid (a @ b)"
proof (induction a rule: utf8_valid.induct)
  case (1 a)
  show ?case
  proof (cases "a = []")
    case False
    with "1.prems" have m: "utf8_len a \<noteq> 0" "utf8_valid (drop (utf8_len a) a)"
      using utf8_valid_step [of a] by simp_all
    from utf8_valid_chunk [OF m(1) "1.IH" [OF False m(1) m(2) "1.prems"(2)]] show ?thesis
      by (metis append_assoc append_take_drop_id)
  qed (use "1.prems" in simp)
qed

section \<open>Strings\<close>

definition hex_digit :: "char \<Rightarrow> nat option" where
  "hex_digit c =
     (if byte_in 48 57 c then Some (byte_of c - 48)
      else if byte_in 97 102 c then Some (byte_of c - 87)
      else if byte_in 65 70 c then Some (byte_of c - 55)
      else None)"

text \<open>\<open>getu4\<close>: the code unit of an escape \<open>\uXXXX\<close> at the head of a string.\<close>

fun getu4 :: "string \<Rightarrow> nat option" where
  "getu4 (bs # u # a # b # c # d # s) =
     (if bs = CHR 0x5C \<and> u = CHR ''u'' then
        (case (hex_digit a, hex_digit b, hex_digit c, hex_digit d) of
           (Some w, Some x, Some y, Some z) \<Rightarrow> Some (w * 4096 + x * 256 + y * 16 + z)
         | _ \<Rightarrow> None)
      else None)"
| "getu4 _ = None"

definition utf16_pair :: "nat \<Rightarrow> nat \<Rightarrow> nat option" where
  "utf16_pair r1 r2 =
     (if 0xD800 \<le> r1 \<and> r1 < 0xDC00 \<and> 0xDC00 \<le> r2 \<and> r2 < 0xE000
      then Some ((r1 - 0xD800) * 1024 + (r2 - 0xDC00) + 0x10000) else None)"

definition simple_escape :: "char \<Rightarrow> char option" where
  "simple_escape c =
     (if c = CHR 0x22 \<or> c = CHR 0x5C \<or> c = CHR 0x2F then Some c
      else if c = CHR ''b'' then Some (CHR 0x08)
      else if c = CHR ''f'' then Some (CHR 0x0C)
      else if c = CHR ''n'' then Some (CHR 0x0A)
      else if c = CHR ''r'' then Some (CHR 0x0D)
      else if c = CHR ''t'' then Some (CHR 0x09)
      else None)"

definition cons_fst :: "string \<Rightarrow> (string \<times> string) option \<Rightarrow> (string \<times> string) option" where
  "cons_fst p r = map_option (\<lambda>(a, rest). (p @ a, rest)) r"

text \<open>The rest of a string literal after its opening quote: the decoded string and what follows.\<close>

function json_string :: "string \<Rightarrow> (string \<times> string) option" where
  "json_string s =
     (case s of
        [] \<Rightarrow> None
      | c # cs \<Rightarrow>
          if c = CHR 0x22 then Some ([], cs)
          else if c = CHR 0x5C then
            (case getu4 s of
               Some u \<Rightarrow>
                 if 0xD800 \<le> u \<and> u < 0xE000 then
                   (case Option.bind (getu4 (drop 6 s)) (utf16_pair u) of
                      Some r \<Rightarrow> cons_fst (encode_rune r) (json_string (drop 12 s))
                    | None \<Rightarrow> cons_fst replacement (json_string (drop 6 s)))
                 else cons_fst (encode_rune u) (json_string (drop 6 s))
             | None \<Rightarrow>
                 (case cs of
                    [] \<Rightarrow> None
                  | e # r \<Rightarrow>
                      (case simple_escape e of
                         None \<Rightarrow> None
                       | Some x \<Rightarrow> cons_fst [x] (json_string r))))
          else if byte_of c < 0x20 then None
          else if utf8_len s = 0 then cons_fst replacement (json_string cs)
          else cons_fst (take (utf8_len s) s) (json_string (drop (utf8_len s) s)))"
  by pat_completeness auto
termination
  by (relation "measure length") auto

declare json_string.simps [simp del]

section \<open>Values\<close>

datatype json =
    JNull
  | JBool bool
  | JNum string
  | JStr string
  | JArr "json list"
  | JObj "(string \<times> string \<times> json) list"

fun skip_ws :: "string \<Rightarrow> string" where
  "skip_ws [] = []"
| "skip_ws (c # cs) =
     (if c = CHR 0x20 \<or> c = CHR 0x09 \<or> c = CHR 0x0A \<or> c = CHR 0x0D then skip_ws cs else c # cs)"

definition is_digit :: "char \<Rightarrow> bool" where
  "is_digit c \<longleftrightarrow> byte_in 48 57 c"

definition digits_of :: "string \<Rightarrow> string \<times> string" where
  "digits_of s = (takeWhile is_digit s, dropWhile is_digit s)"

text \<open>A number literal: its text and what follows.\<close>

definition json_int :: "string \<Rightarrow> (string \<times> string) option" where
  "json_int s =
     (let (sg, r) = (if has_prefix s ''-'' then (''-'', drop 1 s) else ([], s));
          (ds, r') = digits_of r
      in if ds = [] then None
         else if has_prefix ds ''0'' then Some (sg @ ''0'', drop 1 r)
         else Some (sg @ ds, r'))"

definition json_frac :: "string \<Rightarrow> (string \<times> string) option" where
  "json_frac s =
     (if has_prefix s ''.'' then
        (let (ds, r) = digits_of (drop 1 s) in if ds = [] then None else Some (''.'' @ ds, r))
      else Some ([], s))"

definition json_exp :: "string \<Rightarrow> (string \<times> string) option" where
  "json_exp s =
     (if has_prefix s ''e'' \<or> has_prefix s ''E'' then
        (let (sg, r) = (if has_prefix (drop 1 s) ''+'' \<or> has_prefix (drop 1 s) ''-''
                        then (take 1 (drop 1 s), drop 2 s) else ([], drop 1 s));
             (ds, r') = digits_of r
         in if ds = [] then None else Some (take 1 s @ sg @ ds, r'))
      else Some ([], s))"

definition json_number :: "string \<Rightarrow> (string \<times> string) option" where
  "json_number s =
     (case json_int s of None \<Rightarrow> None
      | Some (i, r) \<Rightarrow>
          (case json_frac r of None \<Rightarrow> None
           | Some (f, r') \<Rightarrow>
               (case json_exp r' of None \<Rightarrow> None
                | Some (e, r'') \<Rightarrow> Some (i @ f @ e, r''))))"

definition json_scalar :: "string \<Rightarrow> (json \<times> string) option" where
  "json_scalar s =
     (if has_prefix s ''null'' then Some (JNull, drop 4 s)
      else if has_prefix s ''true'' then Some (JBool True, drop 4 s)
      else if has_prefix s ''false'' then Some (JBool False, drop 5 s)
      else if has_prefix s [CHR 0x22] then map_option (\<lambda>(t, r). (JStr t, r)) (json_string (drop 1 s))
      else map_option (\<lambda>(t, r). (JNum t, r)) (json_number s))"

text \<open>
  The elements of an array after its bracket, and the members of an object after its brace, with
  the parser \<open>p\<close> of the values. Each one consumes a byte or more, so that as many rounds as the
  input has bytes are enough.
\<close>

fun json_elems :: "(string \<Rightarrow> (json \<times> string) option) \<Rightarrow> nat \<Rightarrow> string \<Rightarrow> (json list \<times> string) option" where
  "json_elems p 0 s = None"
| "json_elems p (Suc n) s =
     (case p (skip_ws s) of
        None \<Rightarrow> None
      | Some (v, r) \<Rightarrow>
          (case skip_ws r of
             [] \<Rightarrow> None
           | c # r' \<Rightarrow>
               if c = CHR '']'' then Some ([v], r')
               else if c = CHR '','' then map_option (\<lambda>(vs, r''). (v # vs, r'')) (json_elems p n r')
               else None))"

fun json_members ::
  "(string \<Rightarrow> (json \<times> string) option) \<Rightarrow> nat \<Rightarrow> string \<Rightarrow> ((string \<times> string \<times> json) list \<times> string) option"
where
  "json_members p 0 s = None"
| "json_members p (Suc n) s =
     (if \<not> has_prefix (skip_ws s) [CHR 0x22] then None
      else case json_string (drop 1 (skip_ws s)) of
        None \<Rightarrow> None
      | Some (k, r0) \<Rightarrow>
          (if \<not> has_prefix (skip_ws r0) '':'' then None
           else let t = skip_ws (drop 1 (skip_ws r0)) in
             case p t of
               None \<Rightarrow> None
             | Some (v, r) \<Rightarrow>
                 (let m = (k, take (length t - length r) t, v) in
                  case skip_ws r of
                    [] \<Rightarrow> None
                  | c # r' \<Rightarrow>
                      if c = CHR ''}'' then Some ([m], r')
                      else if c = CHR '','' then map_option (\<lambda>(ms, r''). (m # ms, r'')) (json_members p n r')
                      else None)))"

text \<open>A value that starts at the head of a string, nested at most \<open>d\<close> deep.\<close>

function json_value :: "nat \<Rightarrow> string \<Rightarrow> (json \<times> string) option" where
  "json_value d s =
     (if has_prefix s ''['' then
        (if d = 0 then None
         else if has_prefix (skip_ws (drop 1 s)) '']'' then Some (JArr [], drop 1 (skip_ws (drop 1 s)))
         else map_option (\<lambda>(vs, r). (JArr vs, r)) (json_elems (json_value (d - 1)) (length s) (drop 1 s)))
      else if has_prefix s ''{'' then
        (if d = 0 then None
         else if has_prefix (skip_ws (drop 1 s)) ''}'' then Some (JObj [], drop 1 (skip_ws (drop 1 s)))
         else map_option (\<lambda>(ms, r). (JObj ms, r)) (json_members (json_value (d - 1)) (length s) (drop 1 s)))
      else json_scalar s)"
  by pat_completeness auto
termination
  by (relation "measure fst") auto

declare json_value.simps [simp del]

text \<open>A whole document: the decoder allows 10000 levels of nesting.\<close>

definition json_parse :: "string \<Rightarrow> json option" where
  "json_parse s =
     (case json_value 10000 (skip_ws s) of
        Some (v, r) \<Rightarrow> if skip_ws r = [] then Some v else None
      | None \<Rightarrow> None)"

text \<open>Decoding into \<open>any\<close> also rejects numbers that round to an infinite \<open>float64\<close>.\<close>

fun dec_int :: "int \<Rightarrow> string \<Rightarrow> int" where
  "dec_int acc [] = acc"
| "dec_int acc (c # cs) = dec_int (acc * 10 + int (byte_of c - 48)) cs"

definition float_overflows :: "string \<Rightarrow> bool" where
  "float_overflows t =
     (let t1 = (if has_prefix t ''-'' then drop 1 t else t);
          (i, r) = digits_of t1;
          (f, r') = (if has_prefix r ''.'' then digits_of (drop 1 r) else ([], r));
          neg = has_prefix (drop 1 r') ''-'';
          x = dec_int 0 (filter is_digit r');
          e = (if neg then - x else x) - int (length f);
          m = dec_int 0 (i @ f);
          bound = 2 ^ 1024 - 2 ^ 970
      in if m = 0 then False
         else if 0 \<le> e then bound \<le> m * 10 ^ nat e else bound * 10 ^ nat (- e) \<le> m)"

fun floats_ok :: "json \<Rightarrow> bool" where
  "floats_ok (JNum t) = (\<not> float_overflows t)"
| "floats_ok (JArr vs) = list_all floats_ok vs"
| "floats_ok (JObj ms) = list_all (\<lambda>(k, raw, v). floats_ok v) ms"
| "floats_ok _ = True"

text \<open>\<open>json.Unmarshal\<close> into a \<open>map[string]any\<close>; of equal keys the last one counts.\<close>

definition unmarshal_map :: "string \<Rightarrow> (string \<rightharpoonup> json) option" where
  "unmarshal_map s =
     (case json_parse s of
        Some (JObj ms) \<Rightarrow>
          if floats_ok (JObj ms) then Some (map_of (rev (map (\<lambda>(k, raw, v). (k, v)) ms))) else None
      | Some JNull \<Rightarrow> Some Map.empty
      | _ \<Rightarrow> None)"

section \<open>Struct fields\<close>

text \<open>
  The field a key names: the field of exactly that name, else the one that is equal up to simple
  case folding (the long s and the Kelvin sign fold to ASCII letters).
\<close>

definition fold_key :: "string \<Rightarrow> string" where
  "fold_key k = to_lower (replace_all [CHR 0xC5, CHR 0xBF] ''s'' (replace_all [CHR 0xE2, CHR 0x84, CHR 0xAA] ''k'' k))"

definition field_of :: "string list \<Rightarrow> string \<Rightarrow> string option" where
  "field_of names k =
     (if k \<in> set names then Some k else find (\<lambda>n. fold_key n = fold_key k) names)"

text \<open>A field of type \<open>string\<close>: the new value and whether the type was wrong.\<close>

fun set_string :: "json \<Rightarrow> string \<Rightarrow> string \<times> bool" where
  "set_string (JStr t) old = (t, False)"
| "set_string JNull old = (old, False)"
| "set_string _ old = (old, True)"

section \<open>Encoding\<close>

definition hex_char :: "nat \<Rightarrow> char" where
  "hex_char n = (if n < 10 then char_of (48 + n) else char_of (87 + n))"

definition esc_u00 :: "char \<Rightarrow> string" where
  "esc_u00 c = CHR 0x5C # ''u00'' @ [hex_char (byte_of c div 16), hex_char (byte_of c mod 16)]"

definition quote_ascii :: "char \<Rightarrow> string" where
  "quote_ascii c =
     (if c = CHR 0x22 \<or> c = CHR 0x5C then [CHR 0x5C, c]
      else if c = CHR 0x08 then [CHR 0x5C, CHR ''b'']
      else if c = CHR 0x0C then [CHR 0x5C, CHR ''f'']
      else if c = CHR 0x0A then [CHR 0x5C, CHR ''n'']
      else if c = CHR 0x0D then [CHR 0x5C, CHR ''r'']
      else if c = CHR 0x09 then [CHR 0x5C, CHR ''t'']
      else if byte_of c < 0x20 \<or> c = CHR ''<'' \<or> c = CHR ''>'' \<or> c = CHR ''&'' then esc_u00 c
      else [c])"

text \<open>U+2028 and U+2029, the line and paragraph separators, at the head of a string.\<close>

fun line_sep :: "string \<Rightarrow> string option" where
  "line_sep (a # b # c # s) =
     (if a = CHR 0xE2 \<and> b = CHR 0x80 \<and> (c = CHR 0xA8 \<or> c = CHR 0xA9)
      then Some (CHR 0x5C # ''u202'' @ [hex_char (byte_of c mod 16)]) else None)"
| "line_sep _ = None"

function quote_body :: "string \<Rightarrow> string" where
  "quote_body s =
     (case s of
        [] \<Rightarrow> []
      | c # cs \<Rightarrow>
          if byte_of c < 0x80 then quote_ascii c @ quote_body cs
          else if utf8_len s = 0 then CHR 0x5C # ''ufffd'' @ quote_body cs
          else (case line_sep s of
              Some e \<Rightarrow> e @ quote_body (drop 3 s)
            | None \<Rightarrow> take (utf8_len s) s @ quote_body (drop (utf8_len s) s)))"
  by pat_completeness auto
termination
  by (relation "measure length") auto

declare quote_body.simps [simp del]

definition json_quote :: "string \<Rightarrow> string" where
  "json_quote s = [CHR 0x22] @ quote_body s @ [CHR 0x22]"

text \<open>
  \<open>compact\<close>, which the encoder applies to a \<open>json.RawMessage\<close>: white space between tokens goes,
  and the characters that matter to HTML are escaped. \<open>q\<close>: inside a string literal.
\<close>

function compact_json :: "bool \<Rightarrow> string \<Rightarrow> string" where
  "compact_json q s =
     (case s of
        [] \<Rightarrow> []
      | c # cs \<Rightarrow>
          if c = CHR ''<'' \<or> c = CHR ''>'' \<or> c = CHR ''&'' then esc_u00 c @ compact_json q cs
          else (case line_sep s of
              Some e \<Rightarrow> e @ compact_json q (drop 3 s)
            | None \<Rightarrow>
                if q \<and> c = CHR 0x5C \<and> cs \<noteq> [] then c # hd cs # compact_json q (tl cs)
                else if c = CHR 0x22 then c # compact_json (\<not> q) cs
                else if \<not> q \<and> skip_ws [c] = [] then compact_json q cs
                else c # compact_json q cs))"
  by pat_completeness auto
termination
  by (relation "measure (\<lambda>(q, s). length s)") auto

declare compact_json.simps [simp del]

text \<open>\<open>RawMessage.MarshalJSON\<close>: nothing at all is encoded as \<open>null\<close>.\<close>

definition marshal_raw :: "string option \<Rightarrow> string" where
  "marshal_raw raw = (case raw of None \<Rightarrow> ''null'' | Some r \<Rightarrow> compact_json False r)"

section \<open>Encoded strings decode to themselves\<close>

lemma hex_digit_char: "n < 16 \<Longrightarrow> hex_digit (hex_char n) = Some n"
  by (cases "n < 10") (auto simp: hex_digit_def hex_char_def byte_in_def byte_of_def)

lemma hex_digit_consts [simp]:
  "hex_digit (CHR ''0'') = Some 0" "hex_digit (CHR ''2'') = Some 2"
  by (simp_all add: hex_digit_def byte_in_def byte_of_def)

lemma byte_of_less: "byte_of c < 256"
  by (simp add: byte_of_def)

lemma getu4_u00: "byte_of c < 128 \<Longrightarrow> getu4 (esc_u00 c @ r) = Some (byte_of c)"
  by (simp add: esc_u00_def hex_digit_char)

lemma char_of_byte_of [simp]: "char_of (byte_of c) = c"
  by (simp add: byte_of_def)

lemma getu4_simple: "simple_escape e = Some x \<Longrightarrow> getu4 (CHR 0x5C # e # r) = None"
  by (cases "CHR 0x5C # e # r" rule: getu4.cases) (auto simp: simple_escape_def split: if_splits)

lemma json_string_escape:
  "simple_escape e = Some x \<Longrightarrow> json_string (CHR 0x5C # e # r) = cons_fst [x] (json_string r)"
  by (subst json_string.simps) (simp add: getu4_simple)

lemma json_string_unit:
  assumes "getu4 s = Some u" "u < 0xD800" "drop 6 s = r"
  shows "json_string s = cons_fst (encode_rune u) (json_string r)"
proof -
  from assms(1) obtain cs where "s = CHR 0x5C # cs"
    by (cases s rule: getu4.cases) (auto split: if_splits)
  with assms show ?thesis by (subst json_string.simps) (auto simp del: getu4.simps)
qed

lemma json_string_rune:
  "c \<noteq> CHR 0x22 \<Longrightarrow> c \<noteq> CHR 0x5C \<Longrightarrow> \<not> byte_of c < 0x20 \<Longrightarrow> utf8_len (c # t) \<noteq> 0 \<Longrightarrow>
     json_string (c # t) =
       cons_fst (take (utf8_len (c # t)) (c # t)) (json_string (drop (utf8_len (c # t)) (c # t)))"
  by (subst json_string.simps) (simp del: utf8_len.simps)

lemma json_string_chunk:
  assumes "utf8_len s \<noteq> 0" "\<not> byte_of (hd s) < 0x20" "hd s \<noteq> CHR 0x22" "hd s \<noteq> CHR 0x5C"
  shows "json_string (take (utf8_len s) s @ r) = cons_fst (take (utf8_len s) s) (json_string r)"
proof -
  obtain c cs where s: "s = c # cs" using assms(1) by (cases s) auto
  let ?t = "take (utf8_len s) s @ r"
  have len: "utf8_len ?t = utf8_len s" by (rule utf8_len_append [OF assms(1)])
  have t: "?t = c # tl ?t" using s assms(1) by (cases "utf8_len s") simp_all
  have k: "length (take (utf8_len s) s) = utf8_len s" using utf8_len_bounds [of s] by simp
  have c: "c \<noteq> CHR 0x22" "c \<noteq> CHR 0x5C" "\<not> byte_of c < 0x20" using assms(2-4) s by simp_all
  have "json_string ?t = cons_fst (take (utf8_len ?t) ?t) (json_string (drop (utf8_len ?t) ?t))"
    using json_string_rune [OF c, of "tl ?t"] len assms(1) unfolding t [symmetric] by simp
  then show ?thesis using len k by simp
qed

lemma quote_ascii_cases:
  obtains (esc) e where "quote_ascii c = [CHR 0x5C, e]" "simple_escape e = Some c"
  | (unit) "quote_ascii c = esc_u00 c"
  | (plain) "quote_ascii c = [c]" "c \<noteq> CHR 0x22" "c \<noteq> CHR 0x5C" "\<not> byte_of c < 0x20"
proof (cases "c \<in> {CHR 0x22, CHR 0x5C, CHR 0x08, CHR 0x0C, CHR 0x0A, CHR 0x0D, CHR 0x09}")
  case True
  then have "\<exists>e. quote_ascii c = [CHR 0x5C, e] \<and> simple_escape e = Some c"
    by (auto simp: quote_ascii_def simple_escape_def)
  then show ?thesis using that(1) by blast
next
  case False
  then have "quote_ascii c = esc_u00 c \<or>
      quote_ascii c = [c] \<and> c \<noteq> CHR 0x22 \<and> c \<noteq> CHR 0x5C \<and> \<not> byte_of c < 0x20"
    by (auto simp: quote_ascii_def)
  then show ?thesis using that(2,3) by blast
qed

lemma json_string_ascii:
  "byte_of c < 0x80 \<Longrightarrow> json_string (quote_ascii c @ r) = cons_fst [c] (json_string r)"
proof -
  assume a: "byte_of c < 0x80"
  show "json_string (quote_ascii c @ r) = cons_fst [c] (json_string r)"
  proof (cases c rule: quote_ascii_cases)
    case (esc e)
    then show ?thesis by (simp add: json_string_escape)
  next
    case unit
    have "drop 6 (esc_u00 c @ r) = r" by (simp add: esc_u00_def)
    with json_string_unit [OF getu4_u00 [OF a]] a unit show ?thesis by (simp add: encode_rune_def)
  next
    case plain
    have "utf8_len [c] = 1" using a by (simp add: byte_in_def)
    with json_string_chunk [of "[c]" r] plain show ?thesis by simp
  qed
qed

lemma sep_bytes: "char_of (226::nat) = CHR 0xE2" "char_of (128::nat) = CHR 0x80"
  "char_of (168::nat) = CHR 0xA8" "char_of (169::nat) = CHR 0xA9"
  by code_simp+

lemma line_sep_Some:
  assumes "line_sep s = Some e"
  shows "json_string (e @ r) = cons_fst (take 3 s) (json_string r) \<and> utf8_len s = 3"
proof -
  from assms obtain c t where s: "s = CHR 0xE2 # CHR 0x80 # c # t" "c = CHR 0xA8 \<or> c = CHR 0xA9"
    "e = CHR 0x5C # ''u202'' @ [hex_char (byte_of c mod 16)]"
    by (cases s rule: line_sep.cases) (auto split: if_splits)
  have 1: "getu4 (e @ r) = Some (0x2020 + byte_of c mod 16)"
    using s(2,3) by (auto simp: hex_digit_char byte_of_def)
  have 2: "drop 6 (e @ r) = r" using s(3) by simp
  have 3: "encode_rune (0x2020 + byte_of c mod 16) = take 3 s"
    using s(1,2) by (auto simp: encode_rune_def byte_of_def sep_bytes)
  have "0x2020 + byte_of c mod 16 < 0xD800" by (simp add: byte_of_def)
  from json_string_unit [OF 1 this 2] 3 s(1,2) show ?thesis
    by (auto simp: byte_in_def is_cont_def byte_of_def)
qed

lemma json_string_quote:
  "utf8_valid s \<Longrightarrow> json_string (quote_body s @ CHR 0x22 # r) = Some (s, r)"
proof (induction "length s" arbitrary: s rule: less_induct)
  case less
  show ?case
  proof (cases s)
    case Nil
    then show ?thesis by (subst quote_body.simps, subst json_string.simps) simp
  next
    case (Cons c cs)
    from less.prems Cons have v: "utf8_len s \<noteq> 0" "utf8_valid (drop (utf8_len s) s)"
      using utf8_valid_step [of s] by simp_all
    have IH: "json_string (quote_body (drop (utf8_len s) s) @ CHR 0x22 # r) = Some (drop (utf8_len s) s, r)"
      using less.hyps [OF _ v(2)] v(1) Cons by (simp del: utf8_len.simps)
    have split: "take (utf8_len s) s @ drop (utf8_len s) s = s" by simp
    show ?thesis
    proof (cases "byte_of c < 0x80")
      case True
      then have 1: "utf8_len s = 1" using Cons by (simp add: byte_in_def)
      have "quote_body s = quote_ascii c @ quote_body cs"
        using True Cons by (subst quote_body.simps) simp
      with IH 1 Cons True show ?thesis by (simp add: json_string_ascii cons_fst_def)
    next
      case False
      show ?thesis
      proof (cases "line_sep s")
        case (Some e)
        with v(1) False Cons have "quote_body s = e @ quote_body (drop 3 s)"
          by (subst quote_body.simps) (simp del: utf8_len.simps)
        with IH line_sep_Some [OF Some] split show ?thesis by (simp add: cons_fst_def)
      next
        case None
        with v(1) False Cons have "quote_body s = take (utf8_len s) s @ quote_body (drop (utf8_len s) s)"
          by (subst quote_body.simps) (simp del: utf8_len.simps)
        moreover have "\<not> byte_of (hd s) < 0x20" "hd s \<noteq> CHR 0x22" "hd s \<noteq> CHR 0x5C"
          using False Cons by (auto simp: byte_of_def)
        ultimately show ?thesis
          using json_string_chunk [OF v(1)] IH split by (simp add: cons_fst_def)
      qed
    qed
  qed
qed

end
