(* ===== verification/ToolArgs.thy ===== *)
theory ToolArgs
  imports Json
begin

text \<open>
  The arguments of a tool call: \<open>json.Unmarshal\<close> of the raw arguments into a struct with fields of
  type \<open>string\<close>, \<open>int\<close> and \<open>bool\<close>, as every tool function does first (\<open>ParseArgs\<close> of
  \<open>toolreg/registry.go\<close>). A field that occurs twice takes the last value, a missing or null one
  stays zero, one of the wrong type makes the call fail. Also \<open>strconv.Quote\<close>, the verb \<open>%q\<close>.
\<close>

section \<open>Fields\<close>

text \<open>The members of the object; \<open>None\<close> when the text is no JSON or no object.\<close>

definition struct_members :: "string option \<Rightarrow> (string \<times> string \<times> json) list option" where
  "struct_members raw =
     (case raw of None \<Rightarrow> None
      | Some s \<Rightarrow> (case json_parse s of
            Some (JObj ms) \<Rightarrow> Some ms
          | Some JNull \<Rightarrow> Some []
          | _ \<Rightarrow> None))"

definition arg_values :: "string list \<Rightarrow> string \<Rightarrow> (string \<times> string \<times> json) list \<Rightarrow> json list" where
  "arg_values names k ms = map (\<lambda>(k', raw, v). v) (filter (\<lambda>(k', raw, v). field_of names k' = Some k) ms)"

definition set_all :: "(json \<Rightarrow> 'a \<Rightarrow> 'a \<times> bool) \<Rightarrow> 'a \<Rightarrow> json list \<Rightarrow> 'a \<times> bool" where
  "set_all setter z vs = foldl (\<lambda>(x, e) v. (let (x', b) = setter v x in (x', e \<or> b))) (z, False) vs"

definition parse_int64 :: "string \<Rightarrow> int option" where
  "parse_int64 t =
     (let ds = (if has_prefix t ''-'' then drop 1 t else t);
          n = (if has_prefix t ''-'' then - dec_int 0 ds else dec_int 0 ds)
      in if ds \<noteq> [] \<and> list_all is_digit ds \<and> - 9223372036854775808 \<le> n \<and> n \<le> 9223372036854775807
         then Some n else None)"

fun set_int :: "json \<Rightarrow> int \<Rightarrow> int \<times> bool" where
  "set_int (JNum t) old = (case parse_int64 t of Some n \<Rightarrow> (n, False) | None \<Rightarrow> (old, True))"
| "set_int JNull old = (old, False)"
| "set_int _ old = (old, True)"

fun set_bool :: "json \<Rightarrow> bool \<Rightarrow> bool \<times> bool" where
  "set_bool (JBool b) old = (b, False)"
| "set_bool JNull old = (old, False)"
| "set_bool _ old = (old, True)"

definition arg_string :: "string list \<Rightarrow> string \<Rightarrow> (string \<times> string \<times> json) list \<Rightarrow> string \<times> bool" where
  "arg_string names k ms = set_all set_string [] (arg_values names k ms)"

definition arg_int :: "string list \<Rightarrow> string \<Rightarrow> (string \<times> string \<times> json) list \<Rightarrow> int \<times> bool" where
  "arg_int names k ms = set_all set_int 0 (arg_values names k ms)"

definition arg_bool :: "string list \<Rightarrow> string \<Rightarrow> (string \<times> string \<times> json) list \<Rightarrow> bool \<times> bool" where
  "arg_bool names k ms = set_all set_bool False (arg_values names k ms)"

section \<open>Quoting\<close>

text \<open>\<open>%q\<close> on ASCII; the bytes above 127 are kept, as Go keeps printable runes.\<close>

definition q_char :: "char \<Rightarrow> string" where
  "q_char c =
     (if c = CHR 0x22 then [CHR 0x5C, CHR 0x22]
      else if c = CHR 0x5C then [CHR 0x5C, CHR 0x5C]
      else if c = CHR 0x07 then [CHR 0x5C] @ ''a''
      else if c = CHR 0x08 then [CHR 0x5C] @ ''b''
      else if c = CHR 0x0C then [CHR 0x5C] @ ''f''
      else if c = CHR 0x0A then [CHR 0x5C] @ ''n''
      else if c = CHR 0x0D then [CHR 0x5C] @ ''r''
      else if c = CHR 0x09 then [CHR 0x5C] @ ''t''
      else if c = CHR 0x0B then [CHR 0x5C] @ ''v''
      else if byte_of c < 32 \<or> byte_of c = 127
      then [CHR 0x5C] @ ''x'' @ [hex_char (byte_of c div 16), hex_char (byte_of c mod 16)]
      else [c])"

definition go_quote :: "string \<Rightarrow> string" where
  "go_quote s = [CHR 0x22] @ concat (map q_char s) @ [CHR 0x22]"

end
