(* ===== verification/TextUtil.thy ===== *)
theory TextUtil
  imports Json
begin

text \<open>
  The text helpers of \<open>textutil/textutil.go\<close>: truncation, the removal of reasoning blocks, code
  fences and tool-intent tags, the extraction and repair of JSON in the output of a model, and
  the rewriting of a grammar's root rule. The regular expressions are written out as the
  searches they stand for: leftmost match, \<open>*?\<close> shortest first, \<open>*\<close> longest first.
\<close>

section \<open>Truncation\<close>

text \<open>\<open>Truncate\<close>; \<open>back_off s n\<close> is the loop that moves \<open>n\<close> to the start of a rune.\<close>

fun back_off :: "string \<Rightarrow> nat \<Rightarrow> nat" where
  "back_off s 0 = 0"
| "back_off s (Suc n) = (if rune_start (s ! Suc n) then Suc n else back_off s n)"

definition truncate_str :: "string \<Rightarrow> nat \<Rightarrow> string" where
  "truncate_str s n = (if length s \<le> n then s else take (back_off s n) s @ ''...'')"

definition truncate_tool_result :: "string \<Rightarrow> nat \<Rightarrow> string \<Rightarrow> string" where
  "truncate_tool_result s maxLen hint =
     (if length s \<le> maxLen then s
      else take maxLen s
        @ CHR 0x0A # ''... (truncated: showing '' @ nat_dec maxLen @ '' of '' @ nat_dec (length s) @ '' chars''
        @ (if hint \<noteq> [] then ''. '' @ hint else []) @ '')'')"

section \<open>Reasoning blocks\<close>

text \<open>The class \<open>\s\<close> of a regular expression: ASCII only.\<close>

definition re_space :: "char \<Rightarrow> bool" where
  "re_space c \<longleftrightarrow> c = CHR 0x20 \<or> c = CHR 0x09 \<or> c = CHR 0x0A \<or> c = CHR 0x0C \<or> c = CHR 0x0D"

text \<open>
  The first span \<open>open .*? close\<close> of a string: what precedes it, what is between the tags, and
  what follows.
\<close>

definition find_span :: "string \<Rightarrow> string \<Rightarrow> string \<Rightarrow> (string \<times> string \<times> string) option" where
  "find_span op cl s =
     (case str_index s op of
        None \<Rightarrow> None
      | Some i \<Rightarrow>
          (let t = drop (i + length op) s in
           case str_index t cl of
             None \<Rightarrow> None
           | Some j \<Rightarrow> Some (take i s, take j t, drop (j + length cl) t)))"

lemma find_span_Some:
  assumes "find_span op cl s = Some (a, b, c)"
  shows "s = a @ op @ b @ cl @ c"
proof -
  from assms obtain i where i: "str_index s op = Some i"
    by (auto simp: find_span_def split: option.splits)
  define t where "t = drop (i + length op) s"
  from assms i obtain j where j: "str_index t cl = Some j" "a = take i s" "b = take j t"
    "c = drop (j + length cl) t"
    by (auto simp: find_span_def t_def [symmetric] split: option.splits)
  have "s = take i s @ op @ t" using str_index_Some [OF i] by (simp add: t_def)
  moreover have "t = take j t @ cl @ drop (j + length cl) t" using str_index_Some [OF j(1)] by simp
  ultimately show ?thesis using j(2-4) by simp
qed

lemma find_span_shorter:
  "find_span op cl s = Some (a, b, c) \<Longrightarrow> op \<noteq> [] \<Longrightarrow> length c < length s"
  by (drule find_span_Some) (simp add: length_greater_0_conv [symmetric] del: length_greater_0_conv)

text \<open>\<open>thinkTagRe.ReplaceAllString(s, "")\<close>.\<close>

function drop_think :: "string \<Rightarrow> string" where
  "drop_think s =
     (case find_span ''<think>'' ''</think>'' s of
        None \<Rightarrow> s
      | Some (a, b, c) \<Rightarrow> a @ drop_think (dropWhile re_space c))"
  by pat_completeness auto
termination
  by (relation "measure length")
    (auto dest: find_span_shorter intro: le_less_trans [OF length_dropWhile_le])

declare drop_think.simps [simp del]

definition think_close :: string where "think_close = ''</think>''"

definition strip_think_tags :: "string \<Rightarrow> string" where
  "strip_think_tags s =
     (let result = drop_think s in
      trim_space (case str_last_index result think_close of
          Some idx \<Rightarrow> drop (idx + length think_close) result
        | None \<Rightarrow> result))"

function think_parts :: "string \<Rightarrow> string list" where
  "think_parts s =
     (case find_span ''<think>'' ''</think>'' s of
        None \<Rightarrow> []
      | Some (a, b, c) \<Rightarrow> (if trim_space b \<noteq> [] then [trim_space b] else []) @ think_parts c)"
  by pat_completeness auto
termination
  by (relation "measure length") (auto dest: find_span_shorter)

declare think_parts.simps [simp del]

definition extract_think_content :: "string \<Rightarrow> string" where
  "extract_think_content s = str_join [CHR 0x0A, CHR 0x0A] (think_parts s)"

section \<open>Code fences and tool-intent tags\<close>

definition fence :: string where "fence = ''```''"

definition is_letter :: "char \<Rightarrow> bool" where
  "is_letter c \<longleftrightarrow> byte_in 65 90 c \<or> byte_in 97 122 c"

text \<open>
  \<open>codeFenceRe\<close> at the head of a string: the fence, letters, white space up to its last newline,
  and the shortest content before the next fence.
\<close>

definition fence_here :: "string \<Rightarrow> string option" where
  "fence_here s =
     (if \<not> has_prefix s fence then None
      else (let t = dropWhile is_letter (drop 3 s);
                ws = takeWhile re_space t
            in if CHR 0x0A \<notin> set ws then None
               else (let trailing = takeWhile (\<lambda>c. c \<noteq> CHR 0x0A) (rev ws);
                         body = rev trailing @ dropWhile re_space t
                     in map_option (\<lambda>j. take j body) (str_index body fence))))"

fun find_fence :: "string \<Rightarrow> string option" where
  "find_fence [] = None"
| "find_fence (c # cs) =
     (case fence_here (c # cs) of Some b \<Rightarrow> Some b | None \<Rightarrow> find_fence cs)"

definition strip_code_fences :: "string \<Rightarrow> string" where
  "strip_code_fences s =
     (if has_prefix s fence then
        (let inner = (case str_index s [CHR 0x0A] of Some nl \<Rightarrow> drop (nl + 1) s | None \<Rightarrow> s);
             inner' = (case str_last_index inner fence of Some idx \<Rightarrow> take idx inner | None \<Rightarrow> inner)
         in trim_space inner')
      else (case find_fence s of Some m \<Rightarrow> trim_space m | None \<Rightarrow> s))"

function drop_intent_code :: "string \<Rightarrow> string" where
  "drop_intent_code s =
     (case find_span ''<TOOL_INTENT>'' ''</CODE>'' s of
        None \<Rightarrow> s
      | Some (a, b, c) \<Rightarrow> a @ drop_intent_code (trim_prefix (dropWhile re_space c) ''</TOOL_INTENT>''))"
  by pat_completeness auto
termination
proof (relation "measure length", goal_cases)
  case (2 s z a y b c)
  then have "length c < length s" by (auto dest: find_span_shorter)
  moreover have "length (trim_prefix (dropWhile re_space c) ''</TOOL_INTENT>'') \<le> length c"
    using length_dropWhile_le [of re_space c]
    by (auto simp: trim_prefix_def simp del: list.size intro: le_trans [OF diff_le_self])
  ultimately show ?case by simp
qed simp

function drop_intent :: "string \<Rightarrow> string" where
  "drop_intent s =
     (case find_span ''<TOOL_INTENT>'' ''</TOOL_INTENT>'' s of
        None \<Rightarrow> s
      | Some (a, b, c) \<Rightarrow> a @ drop_intent c)"
  by pat_completeness auto
termination
  by (relation "measure length") (auto dest: find_span_shorter)

declare drop_intent_code.simps [simp del] drop_intent.simps [simp del]

definition strip_tool_intent_tags :: "string \<Rightarrow> string" where
  "strip_tool_intent_tags s = trim_space (drop_intent (drop_intent_code s))"

section \<open>The JSON object in a text\<close>

text \<open>
  The loop of \<open>ExtractJSON\<close>: the number of bytes up to the brace that closes the object, \<open>None\<close>
  when the text ends first. The depth is Go's \<open>int\<close>, negative values included.
\<close>

fun close_at :: "int \<Rightarrow> bool \<Rightarrow> bool \<Rightarrow> string \<Rightarrow> nat option" where
  "close_at depth inString escaped [] = None"
| "close_at depth inString escaped (c # cs) =
     (if escaped then map_option Suc (close_at depth inString False cs)
      else if inString then
        map_option Suc
          (if c = CHR 0x5C then close_at depth True True cs
           else if c = CHR 0x22 then close_at depth False False cs
           else close_at depth True False cs)
      else if c = CHR 0x22 then map_option Suc (close_at depth True False cs)
      else if c = CHR ''{'' then map_option Suc (close_at (depth + 1) False False cs)
      else if c = CHR ''}'' then
        (if depth - 1 = 0 then Some 1 else map_option Suc (close_at (depth - 1) False False cs))
      else map_option Suc (close_at depth False False cs))"

definition extract_json :: "string \<Rightarrow> string" where
  "extract_json s =
     (case str_index s ''{'' of
        None \<Rightarrow> s
      | Some start \<Rightarrow>
          (let t = drop start s in
           case close_at 0 False False t of Some n \<Rightarrow> take n t | None \<Rightarrow> t))"

section \<open>Repairing the JSON of a model\<close>

text \<open>
  The three replacements of \<open>CleanLLMJSON\<close>, each from left to right over the text:
  \<open>(\d\.)\s+(\d)\<close> to \<open>$1$2\<close>, \<open>(\d)\.\s*([,\]}])\<close> to \<open>$1$2\<close>, and \<open>,\s*([\]}])\<close> to \<open>$1\<close>.
\<close>

definition head_is :: "(char \<Rightarrow> bool) \<Rightarrow> string \<Rightarrow> bool" where
  "head_is P s = (case s of [] \<Rightarrow> False | c # _ \<Rightarrow> P c)"

function join_decimals :: "string \<Rightarrow> string" where
  "join_decimals s =
     (case s of
        c # p # w # r \<Rightarrow>
          if is_digit c \<and> p = CHR ''.'' \<and> re_space w \<and> head_is is_digit (dropWhile re_space r)
          then c # p # hd (dropWhile re_space r) # join_decimals (tl (dropWhile re_space r))
          else c # join_decimals (p # w # r)
      | _ \<Rightarrow> s)"
  by pat_completeness auto
termination
  by (relation "measure length") (auto intro: le_less_trans [OF length_dropWhile_le] simp: less_Suc_eq_le
      intro!: le_trans [OF diff_le_self] le_trans [OF length_dropWhile_le])

definition is_sep_close :: "char \<Rightarrow> bool" where
  "is_sep_close c \<longleftrightarrow> c = CHR '','' \<or> c = CHR '']'' \<or> c = CHR ''}''"

function drop_trailing_dots :: "string \<Rightarrow> string" where
  "drop_trailing_dots s =
     (case s of
        c # p # r \<Rightarrow>
          if is_digit c \<and> p = CHR ''.'' \<and> head_is is_sep_close (dropWhile re_space r)
          then c # hd (dropWhile re_space r) # drop_trailing_dots (tl (dropWhile re_space r))
          else c # drop_trailing_dots (p # r)
      | _ \<Rightarrow> s)"
  by pat_completeness auto
termination
  by (relation "measure length") (auto simp: less_Suc_eq_le
      intro!: le_trans [OF diff_le_self] le_trans [OF length_dropWhile_le])

lemma dropWhile_shorter [termination_simp]: "length (dropWhile P r) < Suc (length r)"
  by (simp add: less_Suc_eq_le length_dropWhile_le)

fun drop_trailing_commas :: "string \<Rightarrow> string" where
  "drop_trailing_commas [] = []"
| "drop_trailing_commas (c # r) =
     (if c = CHR '','' \<and> head_is (\<lambda>x. x = CHR '']'' \<or> x = CHR ''}'') (dropWhile re_space r)
      then drop_trailing_commas (dropWhile re_space r)
      else c # drop_trailing_commas r)"

declare join_decimals.simps [simp del] drop_trailing_dots.simps [simp del] drop_trailing_commas.simps [simp del]

definition clean_llm_json :: "string \<Rightarrow> string" where
  "clean_llm_json s =
     drop_trailing_commas (drop_trailing_dots (join_decimals
       (extract_json (strip_code_fences (strip_think_tags s)))))"

section \<open>The root rule of a grammar\<close>

text \<open>
  \<open>rootRuleRe\<close> at the start of a line: the length of what precedes the rule's body, and the body,
  which extends to the end of its line. When nothing but line ends follow the white space after
  \<open>::=\<close>, the match gives the white space back until a body is left.
\<close>

fun body_after :: "nat \<Rightarrow> string \<Rightarrow> (nat \<times> string) option" where
  "body_after k t =
     (let r = drop k t in
      if r \<noteq> [] \<and> hd r \<noteq> CHR 0x0A then Some (k, takeWhile (\<lambda>c. c \<noteq> CHR 0x0A) r)
      else (case k of 0 \<Rightarrow> None | Suc k' \<Rightarrow> body_after k' t))"

declare body_after.simps [simp del]

definition root_here :: "string \<Rightarrow> (nat \<times> string) option" where
  "root_here s =
     (if \<not> has_prefix s ''root'' then None
      else (let ws = takeWhile re_space (drop 4 s);
                t = dropWhile re_space (drop 4 s)
            in if \<not> has_prefix t ''::='' then None
               else (let u = drop 3 t in
                     map_option (\<lambda>(k, b). (4 + length ws + 3 + k, b))
                       (body_after (length (takeWhile re_space u)) u))))"

text \<open>The first match: its offset, the offset of the body from there, and the body.\<close>

fun find_root :: "bool \<Rightarrow> string \<Rightarrow> (nat \<times> nat \<times> string) option" where
  "find_root line_start [] = None"
| "find_root line_start (c # cs) =
     (case (if line_start then root_here (c # cs) else None) of
        Some (k, b) \<Rightarrow> Some (0, k, b)
      | None \<Rightarrow> map_option (\<lambda>(i, k, b). (Suc i, k, b)) (find_root (c = CHR 0x0A) cs))"

definition think_rules :: string where
  "think_rules = CHR 0x0A # ''# Mandatory chain-of-thought block'' @ [CHR 0x0A]
     @ ''think-char ::= [^<] | '' @ [CHR 0x22] @ ''<'' @ [CHR 0x22] @ '' [^/] | '' @ [CHR 0x22] @ ''</'' @ [CHR 0x22]
     @ '' [^t] | '' @ [CHR 0x22] @ ''</t'' @ [CHR 0x22] @ '' [^h] | '' @ [CHR 0x22] @ ''</th'' @ [CHR 0x22]
     @ '' [^i] | '' @ [CHR 0x22] @ ''</thi'' @ [CHR 0x22] @ '' [^n] | '' @ [CHR 0x22] @ ''</thin'' @ [CHR 0x22]
     @ '' [^k] | '' @ [CHR 0x22] @ ''</think'' @ [CHR 0x22] @ '' [^>]'' @ [CHR 0x0A]
     @ ''think-block ::= '' @ [CHR 0x22] @ ''<think>'' @ [CHR 0x22] @ '' think-char* '' @ [CHR 0x22]
     @ ''</think>'' @ [CHR 0x22] @ '' ws'' @ [CHR 0x0A]"

definition wrap_grammar :: "string \<Rightarrow> string" where
  "wrap_grammar g =
     (case find_root True g of
        None \<Rightarrow> g
      | Some (i, k, b) \<Rightarrow>
          take i g @ ''inner-root ::= '' @ b @ [CHR 0x0A] @ ''root ::= think-block ws inner-root''
          @ drop (i + k + length b) g @ think_rules)"

section \<open>The extracted text is the object\<close>

definition skips :: "string \<Rightarrow> bool" where
  "skips p \<longleftrightarrow> (\<forall>k rest. 1 \<le> k \<longrightarrow>
     close_at k False False (p @ rest) = map_option (\<lambda>n. n + length p) (close_at k False False rest))"

definition skips_string :: "string \<Rightarrow> bool" where
  "skips_string p \<longleftrightarrow> (\<forall>k rest.
     close_at k True False (p @ rest) = map_option (\<lambda>n. n + length p) (close_at k False False rest))"

lemma skips_Nil [simp]: "skips []"
  by (simp add: skips_def option.map_ident)

lemma skips_append: "skips p \<Longrightarrow> skips q \<Longrightarrow> skips (p @ q)"
  by (simp add: skips_def option.map_comp o_def add_ac)

lemma skips_plain: "c \<noteq> CHR 0x22 \<Longrightarrow> c \<noteq> CHR ''{'' \<Longrightarrow> c \<noteq> CHR ''}'' \<Longrightarrow> skips [c]"
  by (simp add: skips_def)

lemma skips_plain_list:
  "list_all (\<lambda>c. c \<noteq> CHR 0x22 \<and> c \<noteq> CHR ''{'' \<and> c \<noteq> CHR ''}'') p \<Longrightarrow> skips p"
proof (induction p)
  case (Cons c p)
  then show ?case using skips_append [OF skips_plain, of c p] by simp
qed simp

lemma skips_quote: "skips_string p \<Longrightarrow> skips (CHR 0x22 # p)"
  by (simp add: skips_def skips_string_def option.map_comp o_def)

lemma skips_string_end: "skips_string [CHR 0x22]"
  by (simp add: skips_string_def)

lemma close_at_in_string:
  "list_all (\<lambda>c. c \<noteq> CHR 0x22 \<and> c \<noteq> CHR 0x5C) q \<Longrightarrow>
     close_at k True False (q @ s) = map_option (\<lambda>n. n + length q) (close_at k True False s)"
  by (induction q) (auto simp: option.map_ident option.map_comp o_def)

lemma skips_string_plain:
  "list_all (\<lambda>c. c \<noteq> CHR 0x22 \<and> c \<noteq> CHR 0x5C) q \<Longrightarrow> skips_string p \<Longrightarrow> skips_string (q @ p)"
  by (simp add: skips_string_def close_at_in_string option.map_comp o_def add_ac)

lemma skips_string_escape: "skips_string p \<Longrightarrow> skips_string (CHR 0x5C # e # p)"
  by (simp add: skips_string_def option.map_comp o_def)

lemma hex_digit_plain: "hex_digit c = Some x \<Longrightarrow> c \<noteq> CHR 0x22 \<and> c \<noteq> CHR 0x5C"
  by (auto simp: hex_digit_def byte_in_def byte_of_def split: if_splits)

lemma getu4_Some:
  assumes "getu4 s = Some u"
  obtains h r where "s = CHR 0x5C # CHR ''u'' # h @ r" "drop 6 s = r" "length h = 4"
    "list_all (\<lambda>c. c \<noteq> CHR 0x22 \<and> c \<noteq> CHR 0x5C) h"
  using assms
proof (cases s rule: getu4.cases)
  case (1 bs u' a b c d s')
  have "s = CHR 0x5C # CHR ''u'' # [a, b, c, d] @ s'"
    using assms 1 by (auto split: if_splits)
  moreover have "list_all (\<lambda>c. c \<noteq> CHR 0x22 \<and> c \<noteq> CHR 0x5C) [a, b, c, d]"
    using assms 1 by (auto split: if_splits option.splits dest: hex_digit_plain)
  ultimately show ?thesis using that [of "[a, b, c, d]" s'] 1 by simp
qed auto

lemma skips_string_getu4:
  assumes "getu4 s = Some u" "drop 6 s = p @ r" "skips_string p"
  shows "\<exists>p'. s = p' @ r \<and> skips_string p'"
proof -
  obtain h r' where h: "s = CHR 0x5C # CHR ''u'' # h @ r'" "drop 6 s = r'"
    "list_all (\<lambda>c. c \<noteq> CHR 0x22 \<and> c \<noteq> CHR 0x5C) h"
    by (rule getu4_Some [OF assms(1)])
  with assms have "s = (CHR 0x5C # CHR ''u'' # h @ p) @ r" by simp
  with h(3) assms(3) show ?thesis
    by (intro exI [of _ "CHR 0x5C # CHR ''u'' # h @ p"])
      (simp add: skips_string_escape skips_string_plain)
qed

lemma byte_ge_plain: "127 < byte_of c \<Longrightarrow> c \<noteq> CHR 0x22 \<and> c \<noteq> CHR 0x5C"
  by (auto simp: byte_of_def)

lemma is_cont_plain: "is_cont c \<Longrightarrow> c \<noteq> CHR 0x22 \<and> c \<noteq> CHR 0x5C"
  by (auto simp: is_cont_def byte_of_def)

lemma utf8_chunk_plain:
  assumes "s \<noteq> []" "hd s \<noteq> CHR 0x22" "hd s \<noteq> CHR 0x5C"
  shows "list_all (\<lambda>c. c \<noteq> CHR 0x22 \<and> c \<noteq> CHR 0x5C) (take (utf8_len s) s)"
  using assms
  by (cases s rule: utf8_len.cases) (auto dest: is_cont_plain split: list.splits)

lemma cons_fst_Some: "cons_fst p x = Some (t, r) \<Longrightarrow> \<exists>a. x = Some (a, r)"
  by (auto simp: cons_fst_def)

lemma json_string_other:
  assumes "json_string (c # cs) = Some (t, r)" "c \<noteq> CHR 0x22" "c \<noteq> CHR 0x5C"
  obtains a where "utf8_len (c # cs) = 0" "json_string cs = Some (a, r)"
  | a where "utf8_len (c # cs) \<noteq> 0" "json_string (drop (utf8_len (c # cs)) (c # cs)) = Some (a, r)"
  using assms
  by (subst (asm) json_string.simps) (auto simp del: utf8_len.simps dest!: cons_fst_Some split: if_splits)

lemma json_string_skips:
  "json_string s = Some (t, r) \<Longrightarrow> \<exists>p. s = p @ r \<and> skips_string p"
proof (induction "length s" arbitrary: s t rule: less_induct)
  case less
  have IH: "\<exists>p. s' = p @ r \<and> skips_string p"
    if "length s' < length s" "json_string s' = Some (t', r)" for s' t'
    using less.hyps [OF that(1)] that(2) by blast
  show ?case
  proof (cases s)
    case Nil
    with less.prems show ?thesis by (simp add: json_string.simps)
  next
    case (Cons c cs)
    consider (quote) "c = CHR 0x22" | (esc) u where "c = CHR 0x5C" "getu4 s = Some u"
      | (simple) "c = CHR 0x5C" "getu4 s = None" | (other) "c \<noteq> CHR 0x22" "c \<noteq> CHR 0x5C"
      by (cases "getu4 s") auto
    then show ?thesis
    proof cases
      case quote
      with less.prems Cons show ?thesis
        by (intro exI [of _ "[c]"]) (auto simp: json_string.simps [of "CHR 0x22 # cs"] skips_string_end)
    next
      case (esc u)
      show ?thesis
      proof (cases "(0xD800 \<le> u \<and> u < 0xE000) \<and> Option.bind (getu4 (drop 6 s)) (utf16_pair u) \<noteq> None")
        case True
        then obtain x y where x: "Option.bind (getu4 (drop 6 s)) (utf16_pair u) = Some x" "getu4 (drop 6 s) = Some y"
          by (cases "getu4 (drop 6 s)") auto
        obtain a where "json_string (drop 12 s) = Some (a, r)"
          using less.prems Cons esc True x
          by (auto simp: json_string.simps [of "CHR 0x5C # cs"] dest!: cons_fst_Some)
        then obtain p where "drop 6 (drop 6 s) = p @ r" "skips_string p"
          using IH [of "drop 12 s" a] Cons by (auto simp: less_Suc_eq_le)
        then obtain p' where "drop 6 s = p' @ r" "skips_string p'"
          using skips_string_getu4 [OF x(2)] by blast
        then show ?thesis using skips_string_getu4 [OF esc(2)] by blast
      next
        case False
        then obtain a where a: "json_string (drop 6 s) = Some (a, r)"
          using less.prems Cons esc
          by (auto simp: json_string.simps [of "CHR 0x5C # cs"] dest!: cons_fst_Some split: if_splits)
        obtain p where "drop 6 s = p @ r" "skips_string p"
          using IH [of "drop 6 s" a] Cons a by (auto simp: less_Suc_eq_le)
        then show ?thesis using skips_string_getu4 [OF esc(2)] by blast
      qed
    next
      case simple
      with less.prems Cons obtain e r' x where e: "cs = e # r'" "simple_escape e = Some x"
        by (auto simp: json_string.simps [of "CHR 0x5C # cs"] split: list.splits option.splits)
      with less.prems Cons simple obtain a where "json_string r' = Some (a, r)"
        by (auto simp: json_string.simps [of "CHR 0x5C # e # r'"] dest!: cons_fst_Some)
      with IH [of r' a] Cons e obtain p where "r' = p @ r" "skips_string p" by auto
      with Cons simple e show ?thesis
        by (intro exI [of _ "CHR 0x5C # e # p"]) (simp add: skips_string_escape)
    next
      case other
      from less.prems Cons have "json_string (c # cs) = Some (t, r)" by simp
      then consider (bad) a where "json_string cs = Some (a, r)"
        | (rune) a where "utf8_len (c # cs) \<noteq> 0" "json_string (drop (utf8_len (c # cs)) (c # cs)) = Some (a, r)"
        by (rule json_string_other [OF _ other]) blast+
      then show ?thesis
      proof cases
        case (bad a)
        with IH [of cs a] Cons obtain p where "cs = p @ r" "skips_string p" by auto
        with Cons other show ?thesis
          using skips_string_plain [of "[c]" p] by (intro exI [of _ "c # p"]) simp
      next
        case (rune a)
        then obtain p where p: "drop (utf8_len s) s = p @ r" "skips_string p"
          using IH [of "drop (utf8_len s) s" a] Cons by (auto simp del: utf8_len.simps)
        have "s = (take (utf8_len s) s @ p) @ r" using p(1) by (metis append_assoc append_take_drop_id)
        moreover have "skips_string (take (utf8_len s) s @ p)"
          using utf8_chunk_plain [of s] Cons other p(2) by (intro skips_string_plain) auto
        ultimately show ?thesis by blast
      qed
    qed
  qed
qed

lemma skip_ws_skips: "\<exists>p. s = p @ skip_ws s \<and> skips p"
proof (induction s)
  case (Cons c s)
  then obtain p where "s = p @ skip_ws s" "skips p" by blast
  then show ?case
    using skips_append [OF skips_plain, of c p]
    by (cases "skip_ws (c # s) = c # s") (auto intro: exI [of _ "c # p"] exI [of _ "[]"] split: if_splits)
qed simp

lemma digits_of_app: "digits_of s = (ds, r) \<Longrightarrow> s = ds @ r \<and> list_all is_digit ds"
  by (auto simp: digits_of_def list_all_iff dest: set_takeWhileD)

definition plain_num :: "string \<Rightarrow> bool" where
  "plain_num p \<longleftrightarrow> list_all (\<lambda>c. c \<noteq> CHR 0x22 \<and> c \<noteq> CHR ''{'' \<and> c \<noteq> CHR ''}'') p"

lemma plain_num_append [simp]: "plain_num (p @ q) \<longleftrightarrow> plain_num p \<and> plain_num q"
  by (simp add: plain_num_def)

lemma plain_num_Cons [simp]:
  "plain_num (c # p) \<longleftrightarrow> c \<noteq> CHR 0x22 \<and> c \<noteq> CHR ''{'' \<and> c \<noteq> CHR ''}'' \<and> plain_num p"
  by (simp add: plain_num_def)

lemma plain_num_Nil [simp]: "plain_num []"
  by (simp add: plain_num_def)

lemma plain_num_digits: "list_all is_digit ds \<Longrightarrow> plain_num ds"
  by (auto simp: plain_num_def list_all_iff is_digit_def byte_in_def byte_of_def)

lemma json_int_app: "json_int s = Some (t, r) \<Longrightarrow> s = t @ r \<and> plain_num t \<and> t \<noteq> []"
  by (auto simp: json_int_def Let_def has_prefix_iff plain_num_digits
      split: if_splits prod.splits dest!: digits_of_app)

lemma json_frac_app: "json_frac s = Some (t, r) \<Longrightarrow> s = t @ r \<and> plain_num t"
  by (auto simp: json_frac_def has_prefix_iff plain_num_digits
      split: if_splits prod.splits dest!: digits_of_app)

lemma json_exp_app: "json_exp s = Some (t, r) \<Longrightarrow> s = t @ r \<and> plain_num t"
  by (auto simp: json_exp_def has_prefix_iff plain_num_digits
      split: if_splits prod.splits dest!: digits_of_app)

lemma json_number_skips:
  assumes "json_number s = Some (t, r)"
  shows "\<exists>p. s = p @ r \<and> p \<noteq> [] \<and> skips p"
proof -
  from assms obtain i r1 f r2 e where
    "json_int s = Some (i, r1)" "json_frac r1 = Some (f, r2)" "json_exp r2 = Some (e, r)"
    by (auto simp: json_number_def split: option.splits)
  then have "s = (i @ f @ e) @ r" "plain_num (i @ f @ e)" "i \<noteq> []"
    by (auto dest!: json_int_app json_frac_app json_exp_app)
  then show ?thesis by (intro exI [of _ "i @ f @ e"]) (auto simp: plain_num_def skips_plain_list)
qed

lemma skips_literal:
  "has_prefix s l \<Longrightarrow> plain_num l \<Longrightarrow> l \<noteq> [] \<Longrightarrow> \<exists>p. s = p @ drop (length l) s \<and> p \<noteq> [] \<and> skips p"
  by (intro exI [of _ l]) (auto simp: has_prefix_iff plain_num_def skips_plain_list)

lemma json_scalar_skips:
  assumes "json_scalar s = Some (v, r)"
  shows "\<exists>p. s = p @ r \<and> p \<noteq> [] \<and> skips p"
proof -
  consider (0) "has_prefix s ''null''" "r = drop 4 s"
    | (01) "has_prefix s ''true''" "r = drop 4 s"
    | (1) "has_prefix s ''false''" "r = drop 5 s"
    | (2) t where "has_prefix s [CHR 0x22]" "json_string (drop 1 s) = Some (t, r)"
    | (3) t where "json_number s = Some (t, r)"
    using assms by (auto simp: json_scalar_def split: if_splits)
  then show ?thesis
  proof cases
    case 0
    then show ?thesis using skips_literal [of s "''null''"] by (simp add: eval_nat_numeral)
  next
    case 01
    then show ?thesis using skips_literal [of s "''true''"] by (simp add: eval_nat_numeral)
  next
    case 1
    then show ?thesis using skips_literal [of s "''false''"] by (simp add: eval_nat_numeral)
  next
    case 2
    obtain p where "drop 1 s = p @ r" "skips_string p" using json_string_skips [OF 2(2)] by blast
    with 2(1) show ?thesis
      by (intro exI [of _ "CHR 0x22 # p"]) (auto simp: has_prefix_iff skips_quote)
  next
    case 3
    then show ?thesis by (rule json_number_skips)
  qed
qed

text \<open>The property of a value parser that the loops over elements and members keep.\<close>

definition skipping :: "(string \<Rightarrow> (json \<times> string) option) \<Rightarrow> bool" where
  "skipping p \<longleftrightarrow> (\<forall>s v r. p s = Some (v, r) \<longrightarrow> (\<exists>q. s = q @ r \<and> q \<noteq> [] \<and> skips q))"

lemma skip_comma: "skips p \<Longrightarrow> skips ('','' @ p)" "skips p \<Longrightarrow> skips ('':'' @ p)"
  by (rule skips_append [OF skips_plain]; simp)+

lemma json_elems_skips:
  assumes "skipping p"
  shows "json_elems p n s = Some (vs, r) \<Longrightarrow> \<exists>q. s = q @ '']'' @ r \<and> skips q"
proof (induction n arbitrary: s vs)
  case (Suc n)
  then obtain v r1 c r2 where v: "p (skip_ws s) = Some (v, r1)" "skip_ws r1 = c # r2"
    by (auto split: option.splits list.splits)
  obtain a b d where parts: "s = a @ skip_ws s" "skips a" "skip_ws s = b @ r1" "skips b"
    "r1 = d @ c # r2" "skips d"
    using skip_ws_skips [of s] skip_ws_skips [of r1] assms v unfolding skipping_def by metis
  then have s: "s = (a @ b @ d) @ c # r2" "skips (a @ b @ d)"
    by (metis append_assoc) (simp add: parts skips_append)
  show ?case
  proof (cases "c = CHR '']''")
    case True
    with Suc.prems v s show ?thesis by (intro exI [of _ "a @ b @ d"]) auto
  next
    case False
    with Suc.prems v obtain vs' where "c = CHR '',''" "json_elems p n r2 = Some (vs', r)"
      by (auto split: if_splits)
    moreover from Suc.IH [OF this(2)] obtain q where "r2 = q @ '']'' @ r" "skips q" by blast
    ultimately show ?thesis
      using s skips_append [OF s(2) skip_comma(1)] by (intro exI [of _ "(a @ b @ d) @ '','' @ q"]) auto
  qed
qed simp

lemma json_members_skips:
  assumes "skipping p"
  shows "json_members p n s = Some (ms, r) \<Longrightarrow> \<exists>q. s = q @ ''}'' @ r \<and> skips q"
proof (induction n arbitrary: s ms)
  case (Suc n)
  from Suc.prems obtain k r0 where k: "has_prefix (skip_ws s) [CHR 0x22]"
    "json_string (drop 1 (skip_ws s)) = Some (k, r0)" "has_prefix (skip_ws r0) '':''"
    by (auto split: option.splits if_splits)
  define t where "t = skip_ws (drop 1 (skip_ws r0))"
  from Suc.prems k obtain v r1 c r2 where v: "p t = Some (v, r1)" "skip_ws r1 = c # r2"
    and next_m: "c = CHR ''}'' \<and> r2 = r \<or> c = CHR '','' \<and> (\<exists>ms'. json_members p n r2 = Some (ms', r))"
    by (auto simp: t_def Let_def split: option.splits list.splits if_splits)
  obtain a where a: "s = a @ skip_ws s" "skips a" using skip_ws_skips by blast
  obtain b where b: "drop 1 (skip_ws s) = b @ r0" "skips_string b" using json_string_skips [OF k(2)] by blast
  obtain d where d: "r0 = d @ skip_ws r0" "skips d" using skip_ws_skips by blast
  obtain e where e: "drop 1 (skip_ws r0) = e @ t" "skips e" using skip_ws_skips unfolding t_def by blast
  obtain f where f: "t = f @ r1" "skips f" using assms v unfolding skipping_def by blast
  obtain g where g: "r1 = g @ c # r2" "skips g" using skip_ws_skips [of r1] v by auto
  let ?m = "a @ (CHR 0x22 # b) @ d @ ('':'' @ e) @ f @ g"
  have "skip_ws s = CHR 0x22 # b @ r0" "skip_ws r0 = CHR '':'' # e @ t"
    using k(1,3) b(1) e(1) by (auto simp: has_prefix_iff)
  then have s: "s = ?m @ c # r2" using a(1) d(1) f(1) g(1) by (metis append.assoc append_Cons append_Nil)
  have m: "skips ?m"
    using a b d e f g by (intro skips_append skips_quote skip_comma)
  show ?case
  proof (cases "c = CHR ''}''")
    case True
    with next_m s m show ?thesis by (intro exI [of _ ?m]) auto
  next
    case False
    with next_m obtain ms' where "c = CHR '',''" "json_members p n r2 = Some (ms', r)" by auto
    moreover from Suc.IH [OF this(2)] obtain q where "r2 = q @ ''}'' @ r" "skips q" by blast
    ultimately show ?thesis
      using s skips_append [OF m skip_comma(1)] by (intro exI [of _ "?m @ '','' @ q"]) auto
  qed
qed simp

lemma skips_braces:
  assumes "skips p"
  shows "skips (''{'' @ p @ ''}'')"
  using assms by (simp add: skips_def option.map_comp o_def add_ac)

lemma json_object_skips:
  assumes "skipping (json_value (d - 1))" "has_prefix s ''{''" "json_value d s = Some (v, r)"
  shows "\<exists>q. s = ''{'' @ q @ ''}'' @ r \<and> skips q"
proof -
  from assms(2) obtain t where t: "s = CHR ''{'' # t" by (auto simp: has_prefix_iff)
  show ?thesis
  proof (cases "has_prefix (skip_ws t) ''}''")
    case True
    with assms(3) t have "skip_ws t = CHR ''}'' # r"
      by (subst (asm) json_value.simps) (auto simp: has_prefix_iff split: if_splits)
    with t skip_ws_skips [of t] show ?thesis by auto
  next
    case False
    with assms(3) t obtain ms where "json_members (json_value (d - 1)) (length s) t = Some (ms, r)"
      by (subst (asm) json_value.simps) (auto split: if_splits)
    from json_members_skips [OF assms(1) this] t show ?thesis by auto
  qed
qed

lemma json_array_skips:
  assumes "skipping (json_value (d - 1))" "has_prefix s ''[''" "json_value d s = Some (v, r)"
  shows "\<exists>q. s = ''['' @ q @ '']'' @ r \<and> skips q"
proof -
  from assms(2) obtain t where t: "s = CHR ''['' # t" by (auto simp: has_prefix_iff)
  show ?thesis
  proof (cases "has_prefix (skip_ws t) '']''")
    case True
    with assms(3) t have "skip_ws t = CHR '']'' # r"
      by (subst (asm) json_value.simps) (auto simp: has_prefix_iff split: if_splits)
    with t skip_ws_skips [of t] show ?thesis by auto
  next
    case False
    with assms(3) t obtain vs where "json_elems (json_value (d - 1)) (length s) t = Some (vs, r)"
      by (subst (asm) json_value.simps) (auto split: if_splits)
    from json_elems_skips [OF assms(1) this] t show ?thesis by auto
  qed
qed

lemma json_value_skipping: "skipping (json_value d)"
proof (induction d rule: less_induct)
  case (less d)
  show ?case unfolding skipping_def
  proof (intro allI impI)
    fix s v r assume a: "json_value d s = Some (v, r)"
    consider (arr) "has_prefix s ''[''" | (obj) "has_prefix s ''{''" | (scalar) "json_scalar s = Some (v, r)"
      using a by (subst (asm) json_value.simps) (auto split: if_splits)
    then show "\<exists>q. s = q @ r \<and> q \<noteq> [] \<and> skips q"
    proof cases
      case arr
      with a have "d \<noteq> 0" by (subst (asm) json_value.simps) (auto simp: has_prefix_iff split: if_splits)
      with json_array_skips [OF less.IH [of "d - 1"] arr a] obtain q where q: "s = ''['' @ q @ '']'' @ r" "skips q"
        by auto
      have "skips ([CHR ''[''] @ q @ [CHR '']''])" by (intro skips_append skips_plain q(2)) simp_all
      with q show ?thesis by (intro exI [of _ "''['' @ q @ '']''"]) auto
    next
      case obj
      with a have "d \<noteq> 0" by (subst (asm) json_value.simps) (auto simp: has_prefix_iff split: if_splits)
      with json_object_skips [OF less.IH [of "d - 1"] obj a] obtain q where "s = ''{'' @ q @ ''}'' @ r" "skips q"
        by auto
      with skips_braces [of q] show ?thesis by (intro exI [of _ "''{'' @ q @ ''}''"]) auto
    next
      case scalar
      then show ?thesis by (rule json_scalar_skips)
    qed
  qed
qed

lemma close_at_object: "skips q \<Longrightarrow> close_at 0 False False (''{'' @ q @ ''}'' @ r) = Some (length q + 2)"
  by (simp add: skips_def)

lemma str_index_brace: "CHR ''{'' \<notin> set prose \<Longrightarrow> str_index (prose @ CHR ''{'' # s) ''{'' = Some (length prose)"
  by (induction prose) auto

text \<open>
  The scan for the first JSON object agrees with the JSON parser: when a text is prose
  without a brace, an object the parser accepts, and anything at all after it, the extraction
  returns exactly the object, whatever quotes, escapes and braces its strings hold.
\<close>

lemma extract_json_object:
  assumes "CHR ''{'' \<notin> set prose" and "has_prefix obj ''{''"
    and "json_value 10000 (obj @ rest) = Some (v, rest)"
  shows "extract_json (prose @ obj @ rest) = obj"
proof -
  have p: "has_prefix (obj @ rest) ''{''" using assms(2) by (auto simp: has_prefix_iff)
  from json_object_skips [OF json_value_skipping p assms(3)]
  obtain q where q: "obj @ rest = ''{'' @ q @ ''}'' @ rest" "skips q" by blast
  then have o: "obj = ''{'' @ q @ ''}''" by (metis append.assoc append_same_eq)
  have "str_index (prose @ obj @ rest) ''{'' = Some (length prose)"
    using str_index_brace [OF assms(1), of "q @ ''}'' @ rest"] o by simp
  with o close_at_object [OF q(2), of rest] show ?thesis
    by (simp add: extract_json_def)
qed

definition demo_object :: string where
  "demo_object = ''{'' @ [CHR 0x22] @ ''a}'' @ [CHR 0x22] @ '': [1, {}]}''"

lemma extract_json_object_witness:
  "extract_json (''Sure: '' @ demo_object @ '' } done'') = demo_object"
  by (rule extract_json_object [of _ _ _ "JObj [(''a}'', ''[1, {}]'', JArr [JNum ''1'', JObj []])]"])
    (simp_all add: demo_object_def json_value.simps json_string.simps json_scalar_def json_number_def
      json_int_def json_frac_def json_exp_def digits_of_def is_digit_def byte_in_def byte_of_def cons_fst_def)

section \<open>Truncation and UTF-8\<close>

lemma back_off_bounds: "back_off s n \<le> n \<and> (back_off s n = 0 \<or> rune_start (s ! back_off s n))"
  by (induction s n rule: back_off.induct) auto

text \<open>
  Cutting a text keeps it readable: the truncation of well-formed UTF-8 is well-formed UTF-8,
  a prefix of at most \<open>n\<close> bytes and the dots. The truncation of tool results does not have this
  property: it counts bytes where its comment says characters, and can cut a rune in two.
\<close>

lemma truncate_keeps_utf8:
  assumes "utf8_valid s"
  shows "utf8_valid (truncate_str s n) \<and> length (truncate_str s n) \<le> max (length s) (n + 3) \<and>
    (length s \<le> n \<or> (\<exists>k \<le> n. truncate_str s n = take k s @ ''...'')) \<and>
    \<not> utf8_valid (truncate_tool_result [CHR 0xC3, CHR 0xA9] 1 [])"
proof -
  have dots: "utf8_valid ''...''" by (simp add: utf8_valid_ascii byte_in_def byte_of_def)
  have bad: "\<not> utf8_valid (truncate_tool_result [CHR 0xC3, CHR 0xA9] 1 [])"
    by (subst utf8_valid_step)
      (simp_all add: truncate_tool_result_def byte_in_def byte_of_def is_cont_def)
  show ?thesis
  proof (cases "length s \<le> n")
    case True
    with assms bad show ?thesis by (simp add: truncate_str_def)
  next
    case False
    then have v: "utf8_valid (take (back_off s n) s)"
      using utf8_valid_take [OF assms, of "back_off s n"] back_off_bounds [of s n] by auto
    show ?thesis
      using False bad utf8_valid_append [OF v dots] back_off_bounds [of s n]
      by (auto simp: truncate_str_def)
  qed
qed

lemma truncate_keeps_utf8_witness:
  "utf8_valid (truncate_str [CHR 0xC3, CHR 0xA9, CHR 0xC3, CHR 0xA9] 3) \<and>
   truncate_str [CHR 0xC3, CHR 0xA9, CHR 0xC3, CHR 0xA9] 3 = [CHR 0xC3, CHR 0xA9] @ ''...''"
proof -
  have "utf8_valid [CHR 0xC3, CHR 0xA9, CHR 0xC3, CHR 0xA9]"
    by (subst utf8_valid_step; simp add: byte_in_def byte_of_def is_cont_def)+
  note valid = truncate_keeps_utf8 [OF this, of 3, THEN conjunct1]
  have "back_off s 3 = (if rune_start (s ! 3) then 3 else if rune_start (s ! 2) then 2
      else if rune_start (s ! 1) then 1 else 0)" for s
    by (simp add: numeral_3_eq_3 numeral_2_eq_2)
  then have "back_off [CHR 0xC3, CHR 0xA9, CHR 0xC3, CHR 0xA9] 3 = 2"
    by (simp add: rune_start_def byte_of_def)
  then have "truncate_str [CHR 0xC3, CHR 0xA9, CHR 0xC3, CHR 0xA9] 3 = [CHR 0xC3, CHR 0xA9] @ ''...''"
    by (simp add: truncate_str_def)
  with valid show ?thesis by (intro conjI)
qed

end
