(* ===== verification/FileOps.thy ===== *)
theory FileOps
  imports Limiters Paths ToolArgs TextUtil
begin

text \<open>
  The file tools (\<open>tools/file_ops.go\<close>): the resolution of paths against the workspace, the approval
  of accesses outside it (a client of the \<open>approval_store\<close> of \<open>Limiters\<close>), atomic writes, and the
  tools \<open>read_file\<close>, \<open>write_file\<close> and \<open>patch_file\<close> over a file system of files and directories.
  Symbolic links are not modelled.
\<close>

section \<open>The file system\<close>

datatype node = FileN string | DirN

datatype os_err = NotExist | Permission | OtherErr string

text \<open>The operations that fail for a reason of the system's; a failed write has written some bytes.\<close>

record faults =
  f_stat :: "string \<Rightarrow> os_err option"
  f_read :: "string \<Rightarrow> os_err option"
  f_mkdir :: "string \<Rightarrow> os_err option"
  f_create :: "string \<Rightarrow> os_err option"
  f_write :: "string \<Rightarrow> (os_err \<times> nat) option"
  f_close :: "string \<Rightarrow> os_err option"
  f_rename :: "string \<Rightarrow> os_err option"
  f_remove :: "string \<Rightarrow> os_err option"

type_synonym fsys = "string \<rightharpoonup> node"

definition fs_remove :: "faults \<Rightarrow> string \<Rightarrow> fsys \<Rightarrow> fsys" where
  "fs_remove fl p fs = (if f_remove fl p = None then fs(p := None) else fs)"

definition fs_read :: "faults \<Rightarrow> string \<Rightarrow> fsys \<Rightarrow> os_err + string" where
  "fs_read fl p fs =
     (case f_read fl p of
        Some e \<Rightarrow> Inl e
      | None \<Rightarrow> (case fs p of None \<Rightarrow> Inl NotExist | Some DirN \<Rightarrow> Inl (OtherErr ''is a directory'')
          | Some (FileN c) \<Rightarrow> Inr c))"

text \<open>\<open>MkdirAll\<close>: the directory and its ancestors, unless one of them is a file.\<close>

definition dir_chain :: "string \<Rightarrow> string list" where
  "dir_chain p = map (\<lambda>i. abs_of (take i (filter (\<lambda>c. c \<noteq> []) (split_char slash p))))
     [0..<Suc (length (filter (\<lambda>c. c \<noteq> []) (split_char slash p)))]"

definition mkdir_all :: "faults \<Rightarrow> string \<Rightarrow> fsys \<Rightarrow> os_err option \<times> fsys" where
  "mkdir_all fl p fs =
     (case f_mkdir fl p of
        Some e \<Rightarrow> (Some e, fs)
      | None \<Rightarrow>
          if list_ex (\<lambda>d. fs d \<noteq> None \<and> fs d \<noteq> Some DirN) (dir_chain p)
          then (Some (OtherErr ''not a directory''), fs)
          else (None, foldl (\<lambda>g d. g(d \<mapsto> DirN)) fs (dir_chain p)))"

section \<open>Atomic writes\<close>

datatype write_error = CreateFailed os_err | WriteFailed os_err | CloseFailed os_err | RenameFailed os_err

text \<open>\<open>rnd\<close> is the random part of the name that \<open>CreateTemp\<close> settles on.\<close>

definition temp_name :: "string \<Rightarrow> string \<Rightarrow> string" where
  "temp_name rnd path = path_join (path_dir path) (''.sokratos-'' @ rnd)"

definition atomic_write_file ::
  "faults \<Rightarrow> string \<Rightarrow> string \<Rightarrow> string \<Rightarrow> fsys \<Rightarrow> write_error option \<times> fsys" where
  "atomic_write_file fl rnd path c fs =
     (let dir = path_dir path; tmpName = temp_name rnd path in
      case f_create fl dir of
        Some e \<Rightarrow> (Some (CreateFailed e), fs)
      | None \<Rightarrow>
          if fs dir \<noteq> Some DirN then (Some (CreateFailed NotExist), fs)
          else
            (let fs1 = fs(tmpName \<mapsto> FileN (case f_write fl tmpName of None \<Rightarrow> c | Some (e, n) \<Rightarrow> take n c)) in
             case f_write fl tmpName of
               Some (e, n) \<Rightarrow> (Some (WriteFailed e), fs_remove fl tmpName fs1)
             | None \<Rightarrow>
                 (case f_close fl tmpName of
                    Some e \<Rightarrow> (Some (CloseFailed e), fs_remove fl tmpName fs1)
                  | None \<Rightarrow>
                      (case f_rename fl path of
                         Some e \<Rightarrow> (Some (RenameFailed e), fs_remove fl tmpName fs1)
                       | None \<Rightarrow>
                           if fs path = Some DirN
                           then (Some (RenameFailed (OtherErr ''file exists'')), fs_remove fl tmpName fs1)
                           else (None, fs1(tmpName := None, path \<mapsto> FileN c))))))"

section \<open>Paths and approvals\<close>

text \<open>
  \<open>FileOpsConfig\<close>. What surrounds one call: the home and working directories, the confirmer (nil,
  or what the user answers to a question: an error or a decision), the clock before and after the
  question, the faults of the file system and the random name.
\<close>

record file_ops_config =
  workspace_dir :: string
  approvals :: approval_cache

record file_env =
  fe_home :: "string option"
  fe_cwd :: "string option"
  fe_confirm :: "(string \<Rightarrow> string + bool) option"
  fe_now :: gotime
  fe_answered :: gotime
  fe_faults :: faults
  fe_rnd :: string

datatype tool_fail =
    InvalidArguments
  | PathRequired
  | ResolveFailed
  | OutsideWorkspace string string
  | ConfirmationError string
  | AccessDenied string
  | StatFailed os_err
  | ReadFailed os_err
  | MkdirFailed os_err
  | WriteError write_error
  | OldStringRequired

definition new_file_ops_config :: "string option \<Rightarrow> string \<Rightarrow> file_ops_config" where
  "new_file_ops_config cwd dir =
     \<lparr>workspace_dir = (case path_abs cwd dir of Some a \<Rightarrow> a | None \<Rightarrow> dir),
      approvals = new_approval_cache (5 * minute)\<rparr>"

definition expand_tilde :: "string option \<Rightarrow> string \<Rightarrow> string" where
  "expand_tilde home path =
     (if path = ''~'' \<or> has_prefix path ''~/''
      then (case home of Some h \<Rightarrow> path_join h (drop 1 path) | None \<Rightarrow> path)
      else path)"

definition resolve_path ::
  "string option \<Rightarrow> string option \<Rightarrow> string \<Rightarrow> string \<Rightarrow> tool_fail + (string \<times> bool)" where
  "resolve_path home cwd workspaceDir path0 =
     (if trim_space path0 = [] then Inl PathRequired
      else (let path = expand_tilde home path0;
                raw = (if is_abs path then path_clean path else path_join workspaceDir path)
            in case path_abs cwd raw of
                 None \<Rightarrow> Inl ResolveFailed
               | Some a \<Rightarrow> Inr (a, has_prefix a workspaceDir)))"

definition access_question :: "string \<Rightarrow> string" where
  "access_question resolved =
     [CHR 0xE2, CHR 0x9A, CHR 0xA0, CHR 0xEF, CHR 0xB8, CHR 0x8F] @ '' Access file outside workspace''
       @ [CHR 0x0A] @ ''Path: '' @ resolved"

definition check_external_access ::
  "file_env \<Rightarrow> string \<Rightarrow> string \<Rightarrow> file_ops_config \<Rightarrow> (tool_fail + string) \<times> file_ops_config" where
  "check_external_access env resolved userPath foc =
     (case fe_confirm env of
        None \<Rightarrow> (Inl (OutsideWorkspace userPath (workspace_dir foc)), foc)
      | Some confirm \<Rightarrow>
          if ac_check (approvals foc) (fe_now env) (path_dir resolved) then (Inr resolved, foc)
          else (case confirm (access_question resolved) of
                  Inl err \<Rightarrow> (Inl (ConfirmationError err), foc)
                | Inr approved \<Rightarrow>
                    if \<not> approved then (Inl (AccessDenied userPath), foc)
                    else (Inr resolved,
                      foc\<lparr>approvals := ac_record (approvals foc) (fe_answered env) (path_dir resolved)\<rparr>)))"

definition resolve_and_check ::
  "file_env \<Rightarrow> string \<Rightarrow> file_ops_config \<Rightarrow> (tool_fail + string) \<times> file_ops_config" where
  "resolve_and_check env path foc =
     (case resolve_path (fe_home env) (fe_cwd env) (workspace_dir foc) path of
        Inl e \<Rightarrow> (Inl e, foc)
      | Inr (resolved, inWorkspace) \<Rightarrow>
          if inWorkspace then (Inr resolved, foc) else check_external_access env resolved path foc)"

section \<open>What the workspace check lets through\<close>

lemma clean_abs_join: "clean_abs ws \<Longrightarrow> clean_abs (path_join ws p)"
  using clean_comps_plain [OF _ split_slash_free]
  by (auto simp: clean_abs_def [of ws] path_join_abs_of intro!: clean_abs_of)

lemma clean_abs_is_abs: "clean_abs p \<Longrightarrow> is_abs p \<and> path_clean p = p"
  by (auto simp: clean_abs_def path_clean_abs_of)

lemma resolve_path_Inr:
  assumes "clean_abs ws" "resolve_path home cwd ws p = Inr (r, b)"
  shows "clean_abs r \<and> b = has_prefix r ws \<and>
    r = (if is_abs (expand_tilde home p) then path_clean (expand_tilde home p) else path_join ws (expand_tilde home p))"
proof -
  let ?q = "expand_tilde home p"
  define raw where "raw = (if is_abs ?q then path_clean ?q else path_join ws ?q)"
  have c: "clean_abs raw" unfolding raw_def using path_clean_abs clean_abs_join [OF assms(1)] by simp
  then have "path_abs cwd raw = Some raw" using clean_abs_is_abs by (auto simp: path_abs_def)
  then have "r = raw" "b = has_prefix r ws"
    using assms(2) by (auto simp: resolve_path_def raw_def [symmetric] Let_def split: if_splits)
  with c show ?thesis by (simp add: raw_def)
qed

text \<open>
  What counts as inside the workspace. Every resolved path is absolute and clean. A relative
  path without a ".." stays below the workspace directory. In general the check accepts exactly the
  paths below a directory whose name begins with the name of the workspace directory: the workspace
  itself, and every sibling whose name continues its name.
\<close>

lemma workspace_check_exact:
  assumes "list_all plain_comp (ws @ [w])" and "resolve_path home cwd (abs_of (ws @ [w])) p = Inr (r, b)"
  shows "\<exists>cs. list_all plain_comp cs \<and> r = abs_of cs \<and> (b \<longleftrightarrow> (\<exists>x rest. cs = ws @ (w @ x) # rest)) \<and>
    (\<not> is_abs (expand_tilde home p) \<and> ''..'' \<notin> set (split_char slash (expand_tilde home p)) \<longrightarrow>
       b \<and> (\<exists>rest. cs = ws @ w # rest))"
proof -
  let ?W = "abs_of (ws @ [w])" and ?q = "expand_tilde home p"
  have W: "clean_abs ?W" using assms(1) by (rule clean_abs_of)
  note r = resolve_path_Inr [OF W assms(2)]
  then obtain cs where cs: "list_all plain_comp cs" "r = abs_of cs" by (auto simp: clean_abs_def)
  have b: "b \<longleftrightarrow> (\<exists>x rest. cs = ws @ (w @ x) # rest)"
    using r cs abs_prefix_iff [OF assms(1) cs(1)] by simp
  have "\<exists>rest. cs = ws @ w # rest" if "\<not> is_abs ?q" "''..'' \<notin> set (split_char slash ?q)"
  proof -
    note rel = that
    obtain ds where "clean_comps True (rev (ws @ [w])) (split_char slash ?q) = ws @ w # ds"
      using clean_comps_no_dotdot [OF rel(2), of "rev (ws @ [w])"] by auto
    moreover have "list_all plain_comp (clean_comps True (rev (ws @ [w])) (split_char slash ?q))"
      using assms(1) split_slash_free by (intro clean_comps_plain) (auto simp: list_all_iff)
    ultimately have "cs = ws @ w # ds"
      using r cs rel(1) path_join_abs_of [OF assms(1)] abs_of_inj by simp
    then show ?thesis by blast
  qed
  with b cs show ?thesis by (metis append_Nil2)
qed

lemma workspace_check_exact_witness:
  "\<exists>cs. list_all plain_comp cs \<and> ''/ws/a'' = abs_of cs \<and> (\<exists>x rest. cs = [] @ (''ws'' @ x) # rest)"
proof -
  have "resolve_path None None (abs_of ([] @ [''ws''])) ''a'' = Inr (''/ws/a'', True)" by code_simp
  moreover have "list_all plain_comp ([] @ [''ws''])" by (simp add: plain_comp_def slash_def)
  ultimately show ?thesis using workspace_check_exact [of "[]" "''ws''" None None "''a''" "''/ws/a''" True] by auto
qed

text \<open>
  A sibling of the workspace whose name continues the workspace's name is taken for the
  workspace: the path "../" with that name and any file in it is granted at once, without a question
  and even when there is no confirmer, though it does not lie below the workspace.
\<close>

lemma sibling_taken_for_workspace:
  assumes "list_all plain_comp (ws @ [w])" and "workspace_dir foc = abs_of (ws @ [w])"
    and "x \<noteq> []" and "plain_comp (w @ x)" and "plain_comp f"
  shows "resolve_and_check env (''../'' @ w @ x @ slash # f) foc = (Inr (abs_of (ws @ [w @ x, f])), foc) \<and>
    \<not> (\<exists>rest. list_all plain_comp rest \<and> abs_of (ws @ [w @ x, f]) = abs_of (ws @ w # rest))"
proof -
  let ?p = "''../'' @ w @ x @ slash # f" and ?W = "abs_of (ws @ [w])"
  have e: "expand_tilde h ?p = ?p" for h by (simp add: expand_tilde_def)
  have "CHR ''.'' \<in> set (trim_space ?p)"
    by (rule trim_space_keeps) (simp_all add: space_seqs_def)
  then have t: "trim_space ?p \<noteq> []" by auto
  have a: "\<not> is_abs ?p" by (simp add: is_abs_def slash_def)
  have pl: "list_all plain_comp (ws @ [w @ x, f])" using assms by simp
  have sf: "slash \<notin> set w" "slash \<notin> set x" "slash \<notin> set f" using assms by (auto simp: plain_comp_def)
  have "split_char slash ?p = split_char slash (''..'' @ slash # (w @ x) @ slash # f)"
    by (simp add: slash_def)
  also have "\<dots> = [''..'', w @ x, f]"
    using sf by (simp only: split_char_app) (simp add: split_char_single, simp add: slash_def)
  finally have "path_join ?W ?p = abs_of (ws @ [w @ x, f])"
    using path_join_abs_of [OF assms(1)] assms(1,4,5) by (simp add: plain_comp_def)
  moreover have "has_prefix (abs_of (ws @ [w @ x, f])) ?W"
    using abs_prefix_iff [OF assms(1) pl] by blast
  moreover have "path_abs c (abs_of (ws @ [w @ x, f])) = Some (abs_of (ws @ [w @ x, f]))" for c
    using path_clean_abs_of [OF pl] by (simp add: path_abs_def)
  ultimately have "resolve_path h c ?W ?p = Inr (abs_of (ws @ [w @ x, f]), True)" for h c
    using t a unfolding resolve_path_def e by (simp add: Let_def)
  then have "resolve_and_check env ?p foc = (Inr (abs_of (ws @ [w @ x, f])), foc)"
    by (simp add: resolve_and_check_def assms(2))
  moreover have "abs_of (ws @ [w @ x, f]) \<noteq> abs_of (ws @ w # rest)" if "list_all plain_comp rest" for rest
    using abs_of_inj [OF pl, of "ws @ w # rest"] that assms(1,3) by auto
  ultimately show ?thesis by blast
qed

definition demo_faults :: faults where
  "demo_faults = \<lparr>f_stat = (\<lambda>_. None), f_read = (\<lambda>_. None), f_mkdir = (\<lambda>_. None), f_create = (\<lambda>_. None),
     f_write = (\<lambda>_. None), f_close = (\<lambda>_. None), f_rename = (\<lambda>_. None), f_remove = (\<lambda>_. None)\<rparr>"

definition demo_file_env :: "(string \<Rightarrow> string + bool) option \<Rightarrow> gotime \<Rightarrow> file_env" where
  "demo_file_env c t = \<lparr>fe_home = None, fe_cwd = Some ''/'', fe_confirm = c, fe_now = t, fe_answered = t + 1,
     fe_faults = demo_faults, fe_rnd = ''1''\<rparr>"

lemma sibling_taken_for_workspace_witness:
  "resolve_and_check (demo_file_env None 0) ''../ws-secret/key'' (new_file_ops_config None ''/home/ws'')
     = (Inr ''/home/ws-secret/key'', new_file_ops_config None ''/home/ws'')"
proof -
  have w: "workspace_dir (new_file_ops_config None ''/home/ws'') = abs_of ([''home''] @ [''ws''])" by code_simp
  have p: "list_all plain_comp ([''home''] @ [''ws''])" "plain_comp (''ws'' @ ''-secret'')" "plain_comp ''key''"
    by (simp_all add: plain_comp_def slash_def)
  show ?thesis
    using sibling_taken_for_workspace [OF p(1) w _ p(2,3), of "demo_file_env None 0"]
    by (simp add: slash_def abs_of_def)
qed

section \<open>Accesses outside the workspace\<close>

fun file_accesses :: "file_ops_config \<Rightarrow> (file_env \<times> string) list \<Rightarrow> (tool_fail + string) list" where
  "file_accesses foc [] = []"
| "file_accesses foc ((env, p) # calls) =
     (let (res, foc') = resolve_and_check env p foc in res # file_accesses foc' calls)"

text \<open>The user said yes to the question about the path \<open>q\<close> during the call of \<open>env\<close>.\<close>

definition user_approved :: "file_env \<Rightarrow> string \<Rightarrow> bool" where
  "user_approved env q \<longleftrightarrow> (\<exists>confirm. fe_confirm env = Some confirm \<and> confirm (access_question q) = Inr True)"

lemma resolve_and_check_step:
  assumes "resolve_and_check env p foc = (res, foc')"
  shows "workspace_dir foc' = workspace_dir foc"
    and "approvals foc' = approvals foc \<or> (\<exists>q. user_approved env q \<and>
      approvals foc' = ac_record (approvals foc) (fe_answered env) (path_dir q))"
    and "res = Inr r \<Longrightarrow> has_prefix r (workspace_dir foc) \<or>
      ac_check (approvals foc) (fe_now env) (path_dir r) \<or> user_approved env r"
proof -
  have ext: "workspace_dir f = workspace_dir foc \<and>
      (approvals f = approvals foc \<or> (\<exists>q. user_approved env q \<and>
         approvals f = ac_record (approvals foc) (fe_answered env) (path_dir q))) \<and>
      (e = Inr r \<longrightarrow> ac_check (approvals foc) (fe_now env) (path_dir r) \<or> user_approved env r)"
    if "check_external_access env a p foc = (e, f)" for a e f
    using that
    by (auto simp: check_external_access_def user_approved_def split: option.splits sum.splits if_splits)
  have "has_prefix a (workspace_dir foc)" if "resolve_path h c (workspace_dir foc) p = Inr (a, True)" for h c a
    using that by (auto simp: resolve_path_def Let_def split: if_splits option.splits)
  with assms ext show "workspace_dir foc' = workspace_dir foc"
    and "approvals foc' = approvals foc \<or> (\<exists>q. user_approved env q \<and>
      approvals foc' = ac_record (approvals foc) (fe_answered env) (path_dir q))"
    and "res = Inr r \<Longrightarrow> has_prefix r (workspace_dir foc) \<or>
      ac_check (approvals foc) (fe_now env) (path_dir r) \<or> user_approved env r"
    unfolding resolve_and_check_def by (auto split: sum.splits if_splits prod.splits)
qed

lemma file_accesses_approved:
  assumes "approvals foc = foldl (\<lambda>c (t, k). ac_record c t k) (new_approval_cache (5 * minute)) rs"
    and "i < length calls" and "file_accesses foc calls ! i = Inr r" and "\<not> has_prefix r (workspace_dir foc)"
  shows "(\<exists>t. (t, path_dir r) \<in> set rs \<and> fe_now (fst (calls ! i)) < t + 5 * minute) \<or>
    user_approved (fst (calls ! i)) r \<or>
    (\<exists>j q. j < i \<and> user_approved (fst (calls ! j)) q \<and> path_dir q = path_dir r \<and>
       fe_now (fst (calls ! i)) < fe_answered (fst (calls ! j)) + 5 * minute)"
  using assms
proof (induction calls arbitrary: foc rs i)
  case (Cons call calls)
  obtain env p where call: "call = (env, p)" by (rule prod.exhaust)
  obtain res foc' where r: "resolve_and_check env p foc = (res, foc')" by (rule prod.exhaust)
  note step = resolve_and_check_step [OF r]
  show ?case
  proof (cases i)
    case 0
    then have "res = Inr r" using Cons.prems(3) by (simp add: call r)
    with step(3) Cons.prems(4) consider "ac_check (approvals foc) (fe_now env) (path_dir r)" | "user_approved env r" by blast
    then show ?thesis
    proof cases
      case 1
      then show ?thesis
        using ac.check_records [of "new_approval_cache (5 * minute)" rs "fe_now env" "path_dir r"] Cons.prems(1) 0
        by (simp add: call new_approval_cache_def dur_defs max_dur_def)
    next
      case 2
      then show ?thesis by (simp add: call 0)
    qed
  next
    case (Suc k)
    have k: "k < length calls" "file_accesses foc' calls ! k = Inr r" "\<not> has_prefix r (workspace_dir foc')"
      using Cons.prems(2-4) Suc step(1) by (auto simp: call r)
    show ?thesis
    proof (cases "approvals foc' = approvals foc")
      case True
      from Cons.IH [OF _ k] True Cons.prems(1) show ?thesis
        unfolding Suc by (metis Suc_less_eq nth_Cons_Suc)
    next
      case False
      then obtain q where q: "user_approved env q" "approvals foc' = ac_record (approvals foc) (fe_answered env) (path_dir q)"
        using step(2) by blast
      then have "approvals foc' = foldl (\<lambda>c (t, k). ac_record c t k) (new_approval_cache (5 * minute))
          (rs @ [(fe_answered env, path_dir q)])" using Cons.prems(1) by simp
      from Cons.IH [OF this k] show ?thesis
      proof (elim disjE)
        assume "\<exists>t. (t, path_dir r) \<in> set (rs @ [(fe_answered env, path_dir q)]) \<and> fe_now (fst (calls ! k)) < t + 5 * minute"
        then show ?thesis using q(1) unfolding Suc call by fastforce
      qed (auto simp: Suc, metis Suc_less_eq nth_Cons_Suc)
    qed
  qed
qed simp


definition demo_calls :: "(file_env \<times> string) list" where
  "demo_calls = [(demo_file_env (Some (\<lambda>q. Inr True)) 10, ''/etc/hosts''),
     (demo_file_env (Some (\<lambda>q. Inr False)) 20, ''/etc/passwd'')]"


section \<open>The tools\<close>

definition max_read_file_size :: nat where "max_read_file_size = 51200"

text \<open>A tool ends with an error, or with the text it returns.\<close>

definition pad_left :: "nat \<Rightarrow> string \<Rightarrow> string" where
  "pad_left n s = replicate (n - length s) (CHR 0x20) @ s"

definition numbered_line :: "string list \<Rightarrow> int \<Rightarrow> string" where
  "numbered_line lines i =
     pad_left 4 (itoa (i + 1)) @ [CHR 0x20, CHR 0xE2, CHR 0x94, CHR 0x82, CHR 0x20] @ lines ! nat i @ [CHR 0x0A]"

text \<open>The window of lines; \<open>startLine - 1 + limit\<close> is arithmetic on \<open>int64\<close>.\<close>

definition read_window :: "string list \<Rightarrow> int \<Rightarrow> int \<Rightarrow> (int \<times> int) option" where
  "read_window lines offset limit =
     (let n = int (length lines);
          startLine = (if offset > 0 then offset else 1)
      in if startLine > n then None
         else (let e = wrap64 (startLine - 1 + limit)
               in Some (startLine - 1, if limit > 0 then (if e > n then n else e) else n)))"

definition read_file ::
  "file_env \<Rightarrow> string option \<Rightarrow> file_ops_config \<times> fsys \<Rightarrow> (tool_fail + string) \<times> file_ops_config" where
  "read_file env args = (\<lambda>(foc, fs).
     (let names = [''path'', ''offset'', ''limit'']; fl = fe_faults env in
      case struct_members args of
        None \<Rightarrow> (Inl InvalidArguments, foc)
      | Some ms \<Rightarrow>
          (let (path, e1) = arg_string names ''path'' ms;
               (offset, e2) = arg_int names ''offset'' ms;
               (limit, e3) = arg_int names ''limit'' ms
           in if e1 \<or> e2 \<or> e3 then (Inl InvalidArguments, foc)
              else (case resolve_and_check env path foc of
                 (Inl e, foc') \<Rightarrow> (Inl e, foc')
               | (Inr resolved, foc') \<Rightarrow>
                   (case (case f_stat fl resolved of Some e \<Rightarrow> Inl e
                          | None \<Rightarrow> (case fs resolved of None \<Rightarrow> Inl NotExist | Some nd \<Rightarrow> Inr nd)) of
                      Inl NotExist \<Rightarrow> (Inr (''File not found: '' @ path), foc')
                    | Inl Permission \<Rightarrow> (Inr (''Permission denied: '' @ path), foc')
                    | Inl e \<Rightarrow> (Inl (StatFailed e), foc')
                    | Inr DirN \<Rightarrow> (Inr (path @ '' is a directory, not a file''), foc')
                    | Inr (FileN c) \<Rightarrow>
                        if length c > max_read_file_size \<and> offset = 0 \<and> limit = 0
                        then (Inr (''File too large ('' @ nat_dec (length c) @ '' bytes, max '' @ nat_dec max_read_file_size
                               @ ''). Use offset/limit to read a portion.''), foc')
                        else (case fs_read fl resolved fs of
                            Inl Permission \<Rightarrow> (Inr (''Permission denied: '' @ path), foc')
                          | Inl e \<Rightarrow> (Inl (ReadFailed e), foc')
                          | Inr d \<Rightarrow>
                              (let lines = split_char (CHR 0x0A) d in
                               case read_window lines offset limit of
                                 None \<Rightarrow> (Inr (''Offset '' @ itoa offset @ '' exceeds file length (''
                                    @ nat_dec (length lines) @ '' lines)''), foc')
                               | Some (a, b) \<Rightarrow>
                                   (let result = concat (map (numbered_line lines) [a..b - 1]) in
                                    (Inr (if length result > max_read_file_size
                                      then take max_read_file_size result @ [CHR 0x0A] @ ''... (truncated)''
                                      else result), foc')))))))))"

definition write_file ::
  "file_env \<Rightarrow> string option \<Rightarrow> file_ops_config \<times> fsys \<Rightarrow> (tool_fail + string) \<times> file_ops_config \<times> fsys" where
  "write_file env args = (\<lambda>(foc, fs).
     (let names = [''path'', ''content''] in
      case struct_members args of
        None \<Rightarrow> (Inl InvalidArguments, foc, fs)
      | Some ms \<Rightarrow>
          (let (path, e1) = arg_string names ''path'' ms;
               (c, e2) = arg_string names ''content'' ms
           in if e1 \<or> e2 then (Inl InvalidArguments, foc, fs)
              else (case resolve_and_check env path foc of
                 (Inl e, foc') \<Rightarrow> (Inl e, foc', fs)
               | (Inr resolved, foc') \<Rightarrow>
                   (case mkdir_all (fe_faults env) (path_dir resolved) fs of
                      (Some Permission, fs1) \<Rightarrow>
                        (Inr (''Permission denied creating directory: '' @ path_dir resolved), foc', fs1)
                    | (Some e, fs1) \<Rightarrow> (Inl (MkdirFailed e), foc', fs1)
                    | (None, fs1) \<Rightarrow>
                        (case atomic_write_file (fe_faults env) (fe_rnd env) resolved c fs1 of
                           (Some e, fs2) \<Rightarrow> (Inl (WriteError e), foc', fs2)
                         | (None, fs2) \<Rightarrow>
                             (Inr (''Wrote '' @ nat_dec (length c) @ '' bytes to '' @ path), foc', fs2)))))))"

text \<open>\<open>strings.Count\<close> of a non-empty pattern: the occurrences that do not overlap, from the left.\<close>

function str_count :: "string \<Rightarrow> string \<Rightarrow> nat" where
  "str_count s sub =
     (if sub = [] then 0
      else (case str_index s sub of None \<Rightarrow> 0 | Some i \<Rightarrow> Suc (str_count (drop (i + length sub) s) sub)))"
  by pat_completeness auto
termination
  by (relation "measure (\<lambda>(s, sub). length s)") (auto dest!: str_index_Some simp: neq_Nil_conv)

declare str_count.simps [simp del]

text \<open>
  \<open>os.IsPermission\<close> on the error of \<open>atomicWriteFile\<close>: it looks through \<open>PathError\<close> and \<open>LinkError\<close>
  only, so the errors wrapped with \<open>%w\<close> do not count; only that of the rename is bare.
\<close>

definition patch_file ::
  "file_env \<Rightarrow> string option \<Rightarrow> file_ops_config \<times> fsys \<Rightarrow> (tool_fail + string) \<times> file_ops_config \<times> fsys" where
  "patch_file env args = (\<lambda>(foc, fs).
     (let names = [''path'', ''old_string'', ''new_string''] in
      case struct_members args of
        None \<Rightarrow> (Inl InvalidArguments, foc, fs)
      | Some ms \<Rightarrow>
          (let (path, e1) = arg_string names ''path'' ms;
               (old, e2) = arg_string names ''old_string'' ms;
               (new, e3) = arg_string names ''new_string'' ms
           in if e1 \<or> e2 \<or> e3 then (Inl InvalidArguments, foc, fs)
              else if old = [] then (Inl OldStringRequired, foc, fs)
              else (case resolve_and_check env path foc of
                 (Inl e, foc') \<Rightarrow> (Inl e, foc', fs)
               | (Inr resolved, foc') \<Rightarrow>
                   (case fs_read (fe_faults env) resolved fs of
                      Inl NotExist \<Rightarrow> (Inr (''File not found: '' @ path), foc', fs)
                    | Inl Permission \<Rightarrow> (Inr (''Permission denied: '' @ path), foc', fs)
                    | Inl e \<Rightarrow> (Inl (ReadFailed e), foc', fs)
                    | Inr c \<Rightarrow>
                        if str_count c old = 0 then (Inr (''old_string not found in '' @ path), foc', fs)
                        else if str_count c old > 1
                        then (Inr (''old_string matches '' @ nat_dec (str_count c old) @ '' times in '' @ path
                               @ '' (ambiguous '' @ [CHR 0xE2, CHR 0x80, CHR 0x94]
                               @ '' provide more context to make it unique)''), foc', fs)
                        else (case atomic_write_file (fe_faults env) (fe_rnd env) resolved (replace_first c old new) fs of
                            (Some (RenameFailed Permission), fs2) \<Rightarrow> (Inr (''Permission denied writing: '' @ path), foc', fs2)
                          | (Some e, fs2) \<Rightarrow> (Inl (WriteError e), foc', fs2)
                          | (None, fs2) \<Rightarrow> (Inr (''Patched '' @ path @ '' (replaced 1 occurrence)''), foc', fs2)))))))"

section \<open>Writes are all or nothing\<close>

lemma atomic_write_file_cases:
  assumes "fs (temp_name rnd path) = None" and "temp_name rnd path \<noteq> path"
    and "atomic_write_file fl rnd path c fs = (err, fs')"
  shows "if err = None then fs' = fs(path \<mapsto> FileN c)
    else fs' path = fs path \<and> (f_remove fl (temp_name rnd path) = None \<longrightarrow> fs' = fs)"
  using assms
  by (auto simp: atomic_write_file_def fs_remove_def Let_def fun_upd_twist split: option.splits if_splits prod.splits)

lemma str_count_one:
  assumes "str_count s sub = 1" "sub \<noteq> []"
  shows "\<exists>a b. s = a @ sub @ b \<and> replace_first s sub new = a @ new @ b \<and>
    (\<forall>j < length a. \<not> has_prefix (drop j s) sub) \<and> \<not> str_contains b sub"
proof -
  obtain i where i: "str_index s sub = Some i" "str_count (drop (i + length sub) s) sub = 0"
    using assms by (subst (asm) str_count.simps) (auto split: option.splits)
  from i(2) assms(2) have "\<not> str_contains (drop (i + length sub) s) sub"
    by (subst (asm) str_count.simps) (auto simp: str_contains_def split: option.splits)
  moreover note str_index_Some [OF i(1)] str_index_take_free [OF i(1)]
  ultimately show ?thesis using i(1)
    by (intro exI [of _ "take i s"] exI [of _ "drop (i + length sub) s"]) (auto simp: replace_first_def)
qed

text \<open>
  A patch changes one thing or nothing. If \<open>patch_file\<close> changes the file system at all, and
  temporary files can be removed, then the path was granted, its file held the old string, and all
  that changed is that its first occurrence was replaced by the new string; no other occurrence
  follows it without overlapping it. In particular a failed write, close or rename leaves the file
  system as it was.
\<close>

lemma patch_replaces_only_occurrence:
  assumes "patch_file env args (foc, fs) = (res, foc', fs')" and "fs' \<noteq> fs"
    and "\<And>p c. fs p = Some (FileN c) \<Longrightarrow> fs (temp_name (fe_rnd env) p) = None"
    and "\<And>p. f_remove (fe_faults env) p = None"
  shows "\<exists>path old new resolved a b. old \<noteq> [] \<and> resolve_and_check env path foc = (Inr resolved, foc') \<and>
    fs resolved = Some (FileN (a @ old @ b)) \<and> fs' = fs(resolved \<mapsto> FileN (a @ new @ b)) \<and>
    (\<forall>j < length a. \<not> has_prefix (drop j (a @ old @ b)) old) \<and> \<not> str_contains b old"
proof -
  let ?names = "[''path'', ''old_string'', ''new_string'']"
  obtain ms where ms: "struct_members args = Some ms"
    using assms(1,2) by (cases "struct_members args") (auto simp: patch_file_def Let_def)
  obtain path e1 where a1: "arg_string ?names ''path'' ms = (path, e1)" by (rule prod.exhaust)
  obtain old e2 where a2: "arg_string ?names ''old_string'' ms = (old, e2)" by (rule prod.exhaust)
  obtain new e3 where a3: "arg_string ?names ''new_string'' ms = (new, e3)" by (rule prod.exhaust)
  obtain rc foc1 where rc: "resolve_and_check env path foc = (rc, foc1)" by (rule prod.exhaust)
  note p = assms(1) [unfolded patch_file_def prod.case Let_def ms option.case a1 a2 a3 rc]
  from p assms(2) have ok: "\<not> (e1 \<or> e2 \<or> e3)" "old \<noteq> []" by (auto split: if_splits)
  from p assms(2) ok obtain r where r: "rc = Inr r" by (cases rc) auto
  from p assms(2) ok r obtain c where c: "fs_read (fe_faults env) r fs = Inr c"
    by (cases "fs_read (fe_faults env) r fs") (auto split: os_err.splits)
  obtain err fs2 where w: "atomic_write_file (fe_faults env) (fe_rnd env) r (replace_first c old new) fs = (err, fs2)"
    by (rule prod.exhaust)
  note q = p [unfolded r sum.case c w prod.case]
  have n: "str_count c old = 1" using q ok assms(2) by (auto split: if_splits)
  have fr: "fs r = Some (FileN c)" using c by (auto simp: fs_read_def split: option.splits node.splits)
  then have "temp_name (fe_rnd env) r \<noteq> r" using assms(3) by fastforce
  note cs = atomic_write_file_cases [OF assms(3) [OF fr] this w]
  have err: "err = None"
  proof (rule ccontr)
    assume "err \<noteq> None"
    with cs assms(4) have "fs2 = fs" by (auto split: if_splits)
    moreover have "fs' = fs2" using q ok n \<open>err \<noteq> None\<close>
      by (auto split: if_splits write_error.splits os_err.splits)
    ultimately show False using assms(2) by simp
  qed
  with q ok n have f: "fs' = fs2" "foc' = foc1" by auto
  obtain a b where ab: "c = a @ old @ b" "replace_first c old new = a @ new @ b"
    "\<forall>j < length a. \<not> has_prefix (drop j c) old" "\<not> str_contains b old"
    using str_count_one [OF n ok(2)] by blast
  moreover have "fs2 = fs(r \<mapsto> FileN (replace_first c old new))"
    using cs err by simp
  ultimately show ?thesis using rc r f fr ok(2)
    by (intro exI [of _ path] exI [of _ old] exI [of _ new] exI [of _ r] exI [of _ a] exI [of _ b]) simp
qed

definition demo_patch :: "string option" where
  "demo_patch = Some (''{'' @ json_quote ''path'' @ '':'' @ json_quote ''n'' @ '','' @ json_quote ''old_string'' @ '':''
     @ json_quote ''b'' @ '','' @ json_quote ''new_string'' @ '':'' @ json_quote ''x'' @ ''}'')"

definition demo_fs :: fsys where
  "demo_fs = [''/ws'' \<mapsto> DirN, ''/ws/n'' \<mapsto> FileN ''abc'']"

lemma patch_replaces_only_occurrence_witness:
  "\<exists>path old new resolved a b. old \<noteq> [] \<and> demo_fs resolved = Some (FileN (a @ old @ b)) \<and>
     snd (snd (patch_file (demo_file_env None 0) demo_patch (new_file_ops_config None ''/ws'', demo_fs)))
       = demo_fs(resolved \<mapsto> FileN (a @ new @ b))"
proof -
  obtain res foc' fs' where p: "patch_file (demo_file_env None 0) demo_patch (new_file_ops_config None ''/ws'', demo_fs)
      = (res, foc', fs')" by (rule prod_cases3)
  have "snd (snd (patch_file (demo_file_env None 0) demo_patch (new_file_ops_config None ''/ws'', demo_fs))) ''/ws/n''
      = Some (FileN ''axc'')" by code_simp
  then have "fs' ''/ws/n'' = Some (FileN ''axc'')" by (simp add: p)
  then have ne: "fs' \<noteq> demo_fs" by (auto simp: demo_fs_def)
  have t: "demo_fs (temp_name (fe_rnd (demo_file_env None 0)) ''/ws/n'') = None" by code_simp
  have "p = ''/ws/n''" if "demo_fs p = Some (FileN c)" for p c
    using that by (simp add: demo_fs_def split: if_splits)
  with t have "demo_fs (temp_name (fe_rnd (demo_file_env None 0)) p) = None" if "demo_fs p = Some (FileN c)" for p c
    using that by metis
  moreover have "f_remove (fe_faults (demo_file_env None 0)) p = None" for p
    by (simp add: demo_file_env_def demo_faults_def)
  ultimately obtain path old new resolved a b where "old \<noteq> []" "demo_fs resolved = Some (FileN (a @ old @ b))"
    "fs' = demo_fs(resolved \<mapsto> FileN (a @ new @ b))"
    using patch_replaces_only_occurrence [OF p ne] by blast
  then show ?thesis unfolding p snd_conv by blast
qed

end
