(* ===== verification/Durations.thy ===== *)
theory Durations
  imports Json
begin

text \<open>
  \<open>time.ParseDuration\<close> and \<open>Duration.String\<close>, which the configuration and the reports of the shell
  tool use.
\<close>

text \<open>
  \<open>time.ParseDuration\<close>; a fraction is exact here, where Go rounds in floating point. \<open>leading_int\<close>
  fails above \<open>two63\<close>; a fraction stops counting before it overflows.
\<close>

definition two63 :: int where "two63 = 9223372036854775808"

fun leading_int :: "int \<Rightarrow> string \<Rightarrow> (int \<times> string) option" where
  "leading_int x [] = Some (x, [])"
| "leading_int x (c # s) =
     (if \<not> is_digit c then Some (x, c # s)
      else if x > two63 div 10 then None
      else (let y = x * 10 + int (byte_of c - 48) in if y > two63 then None else leading_int y s))"

fun leading_fraction :: "bool \<Rightarrow> int \<Rightarrow> int \<Rightarrow> string \<Rightarrow> int \<times> int \<times> string" where
  "leading_fraction full x scale [] = (x, scale, [])"
| "leading_fraction full x scale (c # s) =
     (if \<not> is_digit c then (x, scale, c # s)
      else if full \<or> x > (two63 - 1) div 10 then leading_fraction True x scale s
      else (let y = x * 10 + int (byte_of c - 48) in
            if y > two63 then leading_fraction True x scale s else leading_fraction False y (scale * 10) s))"

definition unit_of :: "string \<Rightarrow> int option" where
  "unit_of u = map_of [(''ns'', 1), (''us'', 1000), ([CHR 0xC2, CHR 0xB5] @ ''s'', 1000),
     ([CHR 0xCE, CHR 0xBC] @ ''s'', 1000), (''ms'', 1000000), (''s'', second), (''m'', minute), (''h'', hour)] u"

definition unit_char :: "char \<Rightarrow> bool" where
  "unit_char c \<longleftrightarrow> c \<noteq> CHR 0x2E \<and> \<not> is_digit c"

text \<open>One number with its unit, and what follows.\<close>

definition duration_part :: "string \<Rightarrow> (int \<times> string) option" where
  "duration_part s =
     (case leading_int 0 s of
        None \<Rightarrow> None
      | Some (v, r) \<Rightarrow>
          (let (f, scale, r') = (if has_prefix r ''.'' then leading_fraction False 0 1 (drop 1 r) else (0, 1, r));
               digits = length r < length s \<or> (has_prefix r ''.'' \<and> length r' < length r - 1);
               u = takeWhile unit_char r'
           in if \<not> digits \<or> u = [] then None
              else (case unit_of u of
                 None \<Rightarrow> None
               | Some unit \<Rightarrow>
                   if v > two63 div unit then None
                   else (let w = v * unit + f * unit div scale
                         in if w > two63 then None else Some (w, dropWhile unit_char r')))))"

lemma leading_int_shorter: "leading_int x s = Some (y, r) \<Longrightarrow> length r \<le> length s"
  by (induction x s rule: leading_int.induct) (fastforce simp: Let_def split: if_splits)+

lemma leading_fraction_shorter: "leading_fraction b x sc s = (y, sc', r) \<Longrightarrow> length r \<le> length s"
  by (induction b x sc s rule: leading_fraction.induct) (fastforce simp: Let_def split: if_splits)+

lemma duration_part_shorter: "duration_part s = Some (w, r) \<Longrightarrow> length r < length s"
proof -
  assume d: "duration_part s = Some (w, r)"
  then obtain v r0 where v: "leading_int 0 s = Some (v, r0)" by (auto simp: duration_part_def split: option.splits)
  obtain f sc r' where f: "(if has_prefix r0 ''.'' then leading_fraction False 0 1 (drop 1 r0) else (0, 1, r0)) = (f, sc, r')"
    by (rule prod_cases3)
  have "length r' \<le> length r0"
    using f leading_fraction_shorter [of False 0 1 "drop 1 r0"] by (fastforce split: if_splits)
  moreover from d v f have "takeWhile unit_char r' \<noteq> []" "r = dropWhile unit_char r'"
    by (auto simp: duration_part_def Let_def split: if_splits option.splits)
  moreover have "length r' = length (takeWhile unit_char r') + length (dropWhile unit_char r')"
    by (metis length_append takeWhile_dropWhile_id)
  ultimately show ?thesis using leading_int_shorter [OF v] by (cases "takeWhile unit_char r'") auto
qed

function duration_parts :: "int \<Rightarrow> string \<Rightarrow> int option" where
  "duration_parts d s =
     (if s = [] then Some d
      else (case duration_part s of
              None \<Rightarrow> None
            | Some (v, r) \<Rightarrow> if d + v > two63 then None else duration_parts (d + v) r))"
  by pat_completeness auto
termination
  by (relation "measure (\<lambda>(d, s). length s)") (auto dest: duration_part_shorter)

declare duration_parts.simps [simp del]

definition parse_duration :: "string \<Rightarrow> duration option" where
  "parse_duration s =
     (let neg = has_prefix s ''-'';
          t = (if has_prefix s ''-'' \<or> has_prefix s ''+'' then drop 1 s else s)
      in if t = ''0'' then Some 0
         else if t = [] then None
         else (case duration_parts 0 t of
                 None \<Rightarrow> None
               | Some d \<Rightarrow> if neg then Some (- d) else if d > two63 - 1 then None else Some d))"

text \<open>\<open>Duration.String\<close>: at most nine digits of fraction, without trailing zeros.\<close>

definition trim_zeros :: "string \<Rightarrow> string" where
  "trim_zeros s = rev (dropWhile (\<lambda>c. c = CHR 0x30) (rev s))"

definition zero_pad :: "nat \<Rightarrow> string \<Rightarrow> string" where
  "zero_pad n s = replicate (n - length s) (CHR 0x30) @ s"

definition frac_digits :: "nat \<Rightarrow> int \<Rightarrow> string" where
  "frac_digits prec v = trim_zeros (zero_pad prec (nat_dec (nat (v mod 10 ^ prec))))"

definition frac_str :: "nat \<Rightarrow> int \<Rightarrow> string" where
  "frac_str prec v = itoa (v div 10 ^ prec) @ (if frac_digits prec v = [] then [] else ''.'' @ frac_digits prec v)"

definition hours_minutes :: "int \<Rightarrow> string" where
  "hours_minutes sec =
     (if sec < 60 then []
      else if sec < 3600 then itoa (sec div 60) @ ''m''
      else itoa (sec div 3600) @ ''h'' @ itoa (sec div 60 mod 60) @ ''m'')"

definition positive_str :: "int \<Rightarrow> string" where
  "positive_str u =
     (if u = 0 then ''0s''
      else if u < 1000 then frac_str 0 u @ ''ns''
      else if u < 1000000 then frac_str 3 u @ [CHR 0xC2, CHR 0xB5] @ ''s''
      else if u < second then frac_str 6 u @ ''ms''
      else hours_minutes (u div second) @ frac_str 9 (u mod minute) @ ''s'')"

definition duration_str :: "duration \<Rightarrow> string" where
  "duration_str d = (if d < 0 then ''-'' @ positive_str (- d) else positive_str d)"

lemma parse_examples:
  "parse_duration ''30s'' = Some (30 * second)"
  "parse_duration ''1h15m30.5s'' = Some (hour + 15 * minute + 30 * second + 500000000)"
  "parse_duration ''10'' = None"
  by code_simp+

lemma print_examples:
  "duration_str (90 * second) = ''1m30s''"
  "duration_str 1500 = ''1.5'' @ [CHR 0xC2, CHR 0xB5] @ ''s''"
  by code_simp+

end
