(* ===== verification/Shell.thy ===== *)
theory Shell
  imports FileOps Durations
begin

text \<open>
  The shell tool (\<open>tools/shell.go\<close>, \<open>tools/shell_config.go\<close>): the configuration, the extraction of
  the binaries of a compound command, the allowlist, the working directory and \<open>execute\<close>. The
  process is the environment: what \<open>sh -c\<close> is handed and what it reports are explicit.
\<close>

section \<open>Configuration\<close>

record shell_command_cfg =
  cc_description :: string
  cc_timeout :: string
  cc_workspace_only :: "bool option"

text \<open>The commands are listed in the order an iteration over the map takes.\<close>

record shell_config =
  sd_timeout :: string
  sd_max_output :: int
  sd_workspace_only :: bool
  sd_commands :: "(string \<times> shell_command_cfg) list"

text \<open>
  The file: missing, unreadable, or a text that the TOML package decodes over a configuration
  (\<open>None\<close>: it cannot).
\<close>

datatype toml_file = NoFile | ReadError | TomlText "shell_config \<Rightarrow> shell_config option"

definition default_shell_config :: shell_config where
  "default_shell_config = \<lparr>sd_timeout = ''30s'', sd_max_output = 10000, sd_workspace_only = True, sd_commands = []\<rparr>"

definition load_shell_config :: "toml_file \<Rightarrow> shell_config option" where
  "load_shell_config file =
     (case file of
        NoFile \<Rightarrow> Some default_shell_config
      | ReadError \<Rightarrow> None
      | TomlText decode \<Rightarrow>
          (case decode default_shell_config of
             None \<Rightarrow> None
           | Some cfg \<Rightarrow>
               (let cfg1 = (if sd_timeout cfg = [] then cfg\<lparr>sd_timeout := ''30s''\<rparr> else cfg)
                in Some (if sd_max_output cfg1 \<le> 0 then cfg1\<lparr>sd_max_output := 10000\<rparr> else cfg1))))"

definition is_allowed :: "shell_config \<Rightarrow> string \<Rightarrow> bool" where
  "is_allowed cfg cmd \<longleftrightarrow> map_of (sd_commands cfg) cmd \<noteq> None"

definition resolved_timeout :: "shell_config \<Rightarrow> string \<Rightarrow> duration" where
  "resolved_timeout cfg cmd =
     (let fallback = (case parse_duration (sd_timeout cfg) of Some d \<Rightarrow> d | None \<Rightarrow> 30 * second) in
      case map_of (sd_commands cfg) cmd of
        Some cc \<Rightarrow> if cc_timeout cc \<noteq> [] then (case parse_duration (cc_timeout cc) of Some d \<Rightarrow> d | None \<Rightarrow> fallback)
                   else fallback
      | None \<Rightarrow> fallback)"

definition resolved_workspace_only :: "shell_config \<Rightarrow> string \<Rightarrow> bool" where
  "resolved_workspace_only cfg cmd =
     (case Option.bind (map_of (sd_commands cfg) cmd) cc_workspace_only of
        Some b \<Rightarrow> b | None \<Rightarrow> sd_workspace_only cfg)"

definition resolved_max_output :: "shell_config \<Rightarrow> nat" where
  "resolved_max_output cfg = (if sd_max_output cfg > 0 then nat (sd_max_output cfg) else 10000)"

definition command_line :: "shell_config \<Rightarrow> string \<times> shell_command_cfg \<Rightarrow> string" where
  "command_line cfg = (\<lambda>(name, cc).
     name
     @ (if cc_description cc \<noteq> [] then '' ('' @ cc_description cc @ '')'' else [])
     @ (if cc_timeout cc \<noteq> [] then '' ['' @ cc_timeout cc @ '']'' else [])
     @ (if cc_workspace_only cc = Some True \<or> (cc_workspace_only cc = None \<and> sd_workspace_only cfg)
        then '' [workspace only]'' else []))"

definition command_descriptions :: "shell_config \<Rightarrow> string" where
  "command_descriptions cfg =
     (if sd_commands cfg = [] then ''No commands configured.''
      else ''Available commands: '' @ str_join '', '' (map (command_line cfg) (sd_commands cfg)))"

section \<open>The binaries of a command\<close>

definition shell_sep :: char where "shell_sep = CHR 0x00"

definition split_shell_compound :: "string \<Rightarrow> string list" where
  "split_shell_compound command =
     (let s1 = replace_all ''&&'' [shell_sep] command;
          s2 = replace_all ''||'' [shell_sep] s1;
          s3 = replace_all '';'' [shell_sep] s2;
          s4 = replace_all ''|'' [shell_sep] s3
      in filter (\<lambda>p. p \<noteq> []) (map trim_space (split_char shell_sep s4)))"

definition add_binary :: "string list \<Rightarrow> string \<Rightarrow> string list" where
  "add_binary binaries seg0 =
     (let seg = trim_space seg0 in
      if seg = [] then binaries
      else (case str_fields seg of
              [] \<Rightarrow> binaries
            | f # _ \<Rightarrow> (let b = path_base f in if b \<noteq> [] \<and> b \<notin> set binaries then binaries @ [b] else binaries)))"

definition extract_binaries :: "string \<Rightarrow> string list" where
  "extract_binaries command = foldl add_binary [] (split_shell_compound command)"

section \<open>The working directory\<close>

text \<open>An error is its text.\<close>

definition resolve_work_dir ::
  "string option \<Rightarrow> string option \<Rightarrow> string \<Rightarrow> bool \<Rightarrow> string \<Rightarrow> string + string" where
  "resolve_work_dir home cwd workspaceDir wsOnly workingDir =
     (if wsOnly then
        (let resolved = (if workingDir \<noteq> [] then path_join workspaceDir (path_clean workingDir) else workspaceDir) in
         case path_abs cwd resolved of
           None \<Rightarrow> Inl ''failed to resolve working directory''
         | Some a \<Rightarrow>
             if \<not> has_prefix a workspaceDir
             then Inl (''working directory '' @ go_quote workingDir @ '' escapes workspace (must be within ''
                    @ workspaceDir @ '')'')
             else Inr a)
      else if workingDir = [] then Inr workspaceDir
      else (let w = expand_tilde home workingDir in
            if is_abs w then Inr w
            else (case path_abs cwd w of None \<Rightarrow> Inl ''getwd'' | Some a \<Rightarrow> Inr a)))"

section \<open>Execution\<close>

record shell_exec =
  se_config :: shell_config
  se_has_pool :: bool
  se_workspace :: string
  se_mtime :: gotime

text \<open>\<open>NewShellExec\<close> and \<open>SyncIfChanged\<close>; the modification time is \<open>None\<close> when it cannot be read.\<close>

definition new_shell_exec :: "string option \<Rightarrow> bool \<Rightarrow> string \<Rightarrow> toml_file \<Rightarrow> gotime option \<Rightarrow> shell_exec option" where
  "new_shell_exec cwd pool dir file mtime =
     (case (path_abs cwd dir, load_shell_config file) of
        (Some a, Some cfg) \<Rightarrow>
          Some \<lparr>se_config = cfg, se_has_pool = pool, se_workspace = a,
                se_mtime = (case mtime of Some t \<Rightarrow> t | None \<Rightarrow> 0)\<rparr>
      | _ \<Rightarrow> None)"

definition shell_sync :: "gotime option \<Rightarrow> toml_file \<Rightarrow> shell_exec \<Rightarrow> shell_exec" where
  "shell_sync mtime file se =
     (case mtime of
        None \<Rightarrow> se
      | Some t \<Rightarrow>
          if \<not> se_mtime se < t then se
          else (case load_shell_config file of None \<Rightarrow> se | Some cfg \<Rightarrow> se\<lparr>se_config := cfg, se_mtime := t\<rparr>))"

text \<open>
  What happens to the process: it exits with a code, or the context ends first (the text of the
  error), or it cannot be started. \<open>run_ctx_over\<close> says whether the context has ended meanwhile.
\<close>

datatype run_error = ExitCode int | CtxEnded string | StartError string

record run_outcome =
  run_stdout :: string
  run_stderr :: string
  run_error :: "run_error option"
  run_time :: duration

record shell_env =
  sh_home :: "string option"
  sh_cwd :: "string option"
  sh_run :: "string \<Rightarrow> string \<Rightarrow> duration \<Rightarrow> run_outcome"   \<comment> \<open>command, directory, timeout\<close>

record audit =
  au_command :: string
  au_dir :: string
  au_exit :: int
  au_stdout :: string
  au_stderr :: string
  au_millis :: int

datatype shell_fail = InvalidShellArguments | CommandRequired | NoBinary

text \<open>What a call does: the process it starts, the audit row it writes, the text it returns.\<close>

record shell_result =
  sr_spawned :: "(string \<times> string \<times> duration) option"
  sr_audit :: "audit option"
  sr_text :: "shell_fail + string"

definition truncate_output :: "string \<Rightarrow> nat \<Rightarrow> string" where
  "truncate_output s maxLen =
     (if length s \<le> maxLen then s else take maxLen s @ [CHR 0x0A] @ ''... (truncated)'')"

definition audit_row :: "shell_exec \<Rightarrow> string \<Rightarrow> string \<Rightarrow> int \<Rightarrow> string \<Rightarrow> string \<Rightarrow> duration \<Rightarrow> audit option" where
  "audit_row se command dir code out err d =
     (if \<not> se_has_pool se then None
      else Some \<lparr>au_command = command, au_dir = dir, au_exit = code, au_stdout = out, au_stderr = err,
             au_millis = d div 1000000\<rparr>)"

definition report_run :: "nat \<Rightarrow> int \<Rightarrow> run_outcome \<Rightarrow> string" where
  "report_run maxOutput code r =
     (let out = truncate_output (run_stdout r) maxOutput;
          err = truncate_output (run_stderr r) maxOutput
      in ''Exit code: '' @ itoa code @ '' | Duration: '' @ duration_str (run_time r - run_time r mod 1000000) @ [CHR 0x0A]
         @ (if out \<noteq> [] then [CHR 0x0A] @ ''--- stdout ---'' @ [CHR 0x0A] @ out else [])
         @ (if err \<noteq> [] then [CHR 0x0A] @ ''--- stderr ---'' @ [CHR 0x0A] @ err else [])
         @ (if out = [] \<and> err = [] then [CHR 0x0A] @ ''(no output)'' else []))"

definition timeout_of :: "shell_config \<Rightarrow> string list \<Rightarrow> duration" where
  "timeout_of cfg bs = foldl (\<lambda>t b. max t (resolved_timeout cfg b)) (resolved_timeout cfg (hd bs)) (drop 1 bs)"

definition shell_execute :: "shell_env \<Rightarrow> shell_exec \<Rightarrow> string \<Rightarrow> string \<Rightarrow> shell_result" where
  "shell_execute env se command workingDir =
     (let cfg = se_config se;
          binaries = extract_binaries command;
          refuse = (\<lambda>t. \<lparr>sr_spawned = None, sr_audit = None, sr_text = t\<rparr>)
      in if binaries = [] then refuse (Inl NoBinary)
         else (case find (\<lambda>b. \<not> is_allowed cfg b) binaries of
            Some b \<Rightarrow> refuse (Inr (''Command '' @ go_quote b @ '' is not in the allowlist.'' @ [CHR 0x0A]
                @ command_descriptions cfg))
          | None \<Rightarrow>
              (let timeout = timeout_of cfg binaries;
                   wsOnly = list_ex (resolved_workspace_only cfg) binaries
               in case resolve_work_dir (sh_home env) (sh_cwd env) (se_workspace se) wsOnly workingDir of
                    Inl err \<Rightarrow> refuse (Inr err)
                  | Inr dir \<Rightarrow>
                      (let r = sh_run env command dir timeout;
                           done = (\<lambda>code. \<lparr>sr_spawned = Some (command, dir, timeout),
                             sr_audit = audit_row se command dir code (truncate_output (run_stdout r) 500)
                               (truncate_output (run_stderr r) 500) (run_time r),
                             sr_text = Inr (report_run (resolved_max_output cfg) code r)\<rparr>)
                       in case run_error r of
                            None \<Rightarrow> done 0
                          | Some (ExitCode n) \<Rightarrow> done n
                          | Some (CtxEnded e) \<Rightarrow>
                              \<lparr>sr_spawned = Some (command, dir, timeout),
                               sr_audit = audit_row se command dir (- 1) [] e (run_time r),
                               sr_text = Inr (''Command timed out after '' @ duration_str timeout @ '' (killed).''
                                 @ [CHR 0x0A, CHR 0x0A] @ ''--- stderr ---'' @ [CHR 0x0A]
                                 @ truncate_output (run_stderr r) 500)\<rparr>
                          | Some (StartError e) \<Rightarrow>
                              \<lparr>sr_spawned = Some (command, dir, timeout), sr_audit = None,
                               sr_text = Inr (''Command execution failed: '' @ e)\<rparr>))))"

text \<open>\<open>ToolFunc\<close>: the tool itself.\<close>

definition shell_tool :: "shell_env \<Rightarrow> shell_exec \<Rightarrow> string option \<Rightarrow> shell_result" where
  "shell_tool env se args =
     (let names = [''command'', ''working_dir''];
          refuse = (\<lambda>e. \<lparr>sr_spawned = None, sr_audit = None, sr_text = Inl e\<rparr>) in
      case struct_members args of
        None \<Rightarrow> refuse InvalidShellArguments
      | Some ms \<Rightarrow>
          (let (command, e1) = arg_string names ''command'' ms;
               (dir, e2) = arg_string names ''working_dir'' ms
           in if e1 \<or> e2 then refuse InvalidShellArguments
              else if trim_space command = [] then refuse CommandRequired
              else shell_execute env se command dir))"

section \<open>What the allowlist guarantees\<close>

text \<open>
  A compound command: a first segment, then operators with a segment each; \<open>f\<close> is the text of an
  operator. The segments are free of the characters of the operators and not empty.
\<close>

datatype shell_op = AndOp | OrOp | SemiOp | PipeOp

fun op_text :: "shell_op \<Rightarrow> string" where
  "op_text AndOp = ''&&''"
| "op_text OrOp = ''||''"
| "op_text SemiOp = '';''"
| "op_text PipeOp = ''|''"

fun compound :: "(shell_op \<Rightarrow> string) \<Rightarrow> string \<Rightarrow> (shell_op \<times> string) list \<Rightarrow> string" where
  "compound f s [] = s"
| "compound f s ((op, t) # r) = s @ f op @ compound f t r"

definition plain_segment :: "string \<Rightarrow> bool" where
  "plain_segment s \<longleftrightarrow> s \<noteq> [] \<and> CHR 0x26 \<notin> set s \<and> CHR 0x7C \<notin> set s \<and> CHR 0x3B \<notin> set s \<and> shell_sep \<notin> set s"

text \<open>The binary a segment runs: the base name of its first word.\<close>

definition binary_of :: "string \<Rightarrow> string option" where
  "binary_of seg = (case str_fields (trim_space seg) of [] \<Rightarrow> None | f # _ \<Rightarrow> Some (path_base f))"

lemma replace_all_Nil [simp]: "replace_all old new [] = []"
  by (simp add: replace_all.simps)

lemma replace_all_skip: "c \<notin> set u \<Longrightarrow> replace_all (c # old) new (u @ v) = u @ replace_all (c # old) new v"
proof (induction u)
  case (Cons x u)
  then show ?case by (auto simp: replace_all.simps [of _ _ "x # u @ v"])
qed simp

lemma replace_all_hit: "old \<noteq> [] \<Longrightarrow> replace_all old new (old @ v) = new @ replace_all old new v"
  by (cases old) (simp_all add: replace_all.simps [of _ _ "_ # _"])

lemma replace_all_miss:
  "\<not> has_prefix v old \<Longrightarrow> replace_all (c # old) new (c # v) = c # replace_all (c # old) new v"
  by (simp add: replace_all.simps [of _ _ "c # v"])

text \<open>One stage: the operator \<open>op\<close> becomes the separator, the others stay.\<close>

lemma replace_stage:
  assumes "\<And>s. plain_segment s \<Longrightarrow> c \<notin> set s" and "f p = c # old"
    and "\<And>q. q \<noteq> p \<Longrightarrow> c \<notin> set (f q) \<or> (f q = [c] \<and> old = [c])"
    and "plain_segment s" "list_all (\<lambda>(q, t). plain_segment t) r"
  shows "replace_all (c # old) [shell_sep] (compound f s r) = compound (f(p := [shell_sep])) s r"
  using assms(4,5)
proof (induction r arbitrary: s)
  case Nil
  then show ?case using assms(1) [of s] replace_all_skip [of c s old "[shell_sep]" "[]"] by simp
next
  case (Cons qt r)
  obtain q t where qt: "qt = (q, t)" by (rule prod.exhaust)
  have IH: "replace_all (c # old) [shell_sep] (compound f t r) = compound (f(p := [shell_sep])) t r"
    using Cons qt by (simp del: fun_upd_apply)
  have s: "replace_all (c # old) [shell_sep] (s @ w) = s @ replace_all (c # old) [shell_sep] w" for w
    using assms(1) [of s] Cons.prems(1) by (intro replace_all_skip)
  have "replace_all (c # old) [shell_sep] (f q @ compound f t r) = (f(p := [shell_sep])) q @ replace_all (c # old) [shell_sep] (compound f t r)"
  proof (cases "q = p")
    case True
    then show ?thesis using replace_all_hit [of "c # old" "[shell_sep]" "compound f t r"] assms(2) by simp
  next
    case False
    from assms(3) [OF this] show ?thesis
    proof (elim disjE conjE)
      assume "c \<notin> set (f q)"
      then show ?thesis using False by (simp add: replace_all_skip)
    next
      assume c: "f q = [c]" "old = [c]"
      have "t \<noteq> []" "c \<notin> set t" using Cons.prems(2) qt assms(1) [of t] by (auto simp: plain_segment_def)
      then have "\<not> has_prefix (compound f t r) old"
        using c by (cases t; cases r) (auto simp: has_prefix_def)
      then show ?thesis using False c replace_all_miss [of "compound f t r" old c "[shell_sep]"] by simp
    qed
  qed
  then show ?case using s IH by (simp add: qt del: fun_upd_apply)
qed

lemma split_compound:
  "plain_segment s \<Longrightarrow> list_all (\<lambda>(q, t). plain_segment t) r \<Longrightarrow>
    split_char shell_sep (compound (\<lambda>_. [shell_sep]) s r) = s # map snd r"
proof (induction r arbitrary: s)
  case Nil
  then show ?case by (simp add: plain_segment_def split_char_single)
next
  case (Cons qt r)
  obtain q t where qt: "qt = (q, t)" by (rule prod.exhaust)
  with Cons show ?case
    using split_char_append [of shell_sep s "compound (\<lambda>_. [shell_sep]) t r"] by (simp add: plain_segment_def)
qed

lemma split_shell_compound_segments:
  assumes "plain_segment s" "list_all (\<lambda>(q, t). plain_segment t) r"
  shows "split_shell_compound (compound op_text s r) = filter (\<lambda>p. p \<noteq> []) (map trim_space (s # map snd r))"
proof -
  let ?f1 = "op_text(AndOp := [shell_sep])" and ?f2 = "op_text(AndOp := [shell_sep], OrOp := [shell_sep])"
  let ?f3 = "op_text(AndOp := [shell_sep], OrOp := [shell_sep], SemiOp := [shell_sep])"
  have c1: "CHR 0x26 \<notin> set (op_text q) \<or> (op_text q = [CHR 0x26] \<and> ''&'' = [CHR 0x26])" if "q \<noteq> AndOp" for q
    using that by (cases q) (simp_all add: shell_sep_def)
  have 1: "replace_all ''&&'' [shell_sep] (compound op_text s r) = compound (?f1) s r"
    by (rule replace_stage [OF _ _ c1 assms]) (simp_all add: plain_segment_def)
  have c2: "CHR 0x7C \<notin> set (?f1 q) \<or> (?f1 q = [CHR 0x7C] \<and> ''|'' = [CHR 0x7C])" if "q \<noteq> OrOp" for q
    using that by (cases q) (simp_all add: shell_sep_def)
  have 2: "replace_all ''||'' [shell_sep] (compound (?f1) s r) = compound (?f2) s r"
    by (rule replace_stage [OF _ _ c2 assms]) (simp_all add: plain_segment_def)
  have c3: "CHR 0x3B \<notin> set (?f2 q) \<or> (?f2 q = [CHR 0x3B] \<and> '''' = [CHR 0x3B])" if "q \<noteq> SemiOp" for q
    using that by (cases q) (simp_all add: shell_sep_def)
  have 3: "replace_all '';'' [shell_sep] (compound (?f2) s r) = compound (?f3) s r"
    by (rule replace_stage [OF _ _ c3 assms]) (simp_all add: plain_segment_def)
  have c4: "CHR 0x7C \<notin> set (?f3 q) \<or> (?f3 q = [CHR 0x7C] \<and> '''' = [CHR 0x7C])" if "q \<noteq> PipeOp" for q
    using that by (cases q) (simp_all add: shell_sep_def)
  have 4: "replace_all ''|'' [shell_sep] (compound (?f3) s r) = compound (?f3(PipeOp := [shell_sep])) s r"
    by (rule replace_stage [OF _ _ c4 assms]) (simp_all add: plain_segment_def)
  have "?f3(PipeOp := [shell_sep]) = (\<lambda>_. [shell_sep])"
  proof
    fix q show "(?f3(PipeOp := [shell_sep])) q = [shell_sep]" by (cases q) auto
  qed
  then show ?thesis
    using 1 2 3 4 split_compound [OF assms] by (simp add: split_shell_compound_def Let_def)
qed

lemma path_base_nonempty [simp]: "path_base p \<noteq> []"
proof (cases "dropWhile (\<lambda>c. c = slash) (rev p)")
  case (Cons c r)
  then have "c \<noteq> slash" using dropWhile_eq_Cons_conv [of "\<lambda>c. c = slash" "rev p" c r] by simp
  with Cons show ?thesis by (simp add: path_base_def Let_def)
qed (simp add: path_base_def)

lemma add_binary_eq:
  "add_binary bs seg = (case binary_of seg of None \<Rightarrow> bs | Some b \<Rightarrow> if b \<in> set bs then bs else bs @ [b])"
  by (auto simp: add_binary_def binary_of_def Let_def str_fields_def fields_from.simps [of "[]" "[]"] split: list.splits)

lemma add_binary_trim [simp]: "add_binary bs (trim_space seg) = add_binary bs seg"
  by (simp add: add_binary_eq binary_of_def)

lemma in_map_filter: "x \<in> set xs \<Longrightarrow> f x = Some y \<Longrightarrow> y \<in> set (List.map_filter f xs)"
  by (induction xs) (auto simp: map_filter_simps split: option.splits)

text \<open>The first occurrences, in order.\<close>

definition firsts :: "'a list \<Rightarrow> 'a list" where
  "firsts xs = rev (remdups (rev xs))"

lemma firsts_snoc: "firsts (xs @ [x]) = (if x \<in> set xs then firsts xs else firsts xs @ [x])"
  by (simp add: firsts_def)

lemma set_firsts [simp]: "set (firsts xs) = set xs"
  by (simp add: firsts_def)

lemma foldl_add_binary: "foldl add_binary [] segs = firsts (List.map_filter binary_of segs)"
proof (induction segs rule: rev_induct)
  case Nil
  then show ?case by (simp add: firsts_def map_filter_def)
next
  case (snoc seg segs)
  then show ?case
    by (cases "binary_of seg") (simp_all add: add_binary_eq map_filter_def firsts_snoc)
qed

lemma foldl_add_binary_trim:
  "foldl add_binary bs (filter (\<lambda>p. p \<noteq> []) (map trim_space segs)) = foldl add_binary bs segs"
proof (induction segs arbitrary: bs)
  case (Cons seg segs)
  have "add_binary bs seg = bs" if "trim_space seg = []"
    using that by (simp add: add_binary_def)
  with Cons show ?case by simp
qed simp

lemma extract_binaries_compound:
  assumes "plain_segment s" "list_all (\<lambda>(q, t). plain_segment t) r"
  shows "extract_binaries (compound op_text s r) = firsts (List.map_filter binary_of (s # map snd r))"
  unfolding extract_binaries_def split_shell_compound_segments [OF assms] foldl_add_binary_trim
  by (rule foldl_add_binary)

lemma timeout_of_max: "b \<in> set bs \<Longrightarrow> resolved_timeout cfg b \<le> timeout_of cfg bs"
proof -
  have step: "x \<le> foldl (\<lambda>t b. max t (resolved_timeout cfg b)) x cs \<and>
      (\<forall>b \<in> set cs. resolved_timeout cfg b \<le> foldl (\<lambda>t b. max t (resolved_timeout cfg b)) x cs)" for x cs
    by (induction cs rule: rev_induct) auto
  assume "b \<in> set bs"
  then show ?thesis using step [of "resolved_timeout cfg (hd bs)" "drop 1 bs"]
    by (cases bs) (auto simp: timeout_of_def)
qed

lemma resolve_work_dir_workspace:
  assumes "clean_abs ws" "resolve_work_dir home cwd ws True dir = Inr d"
  shows "clean_abs d \<and> has_prefix d ws"
proof -
  define res where "res = (if dir \<noteq> [] then path_join ws (path_clean dir) else ws)"
  have "clean_abs res" using assms(1) clean_abs_join by (simp add: res_def)
  then have "path_abs cwd res = Some res" using clean_abs_is_abs by (auto simp: path_abs_def)
  then have "d = res \<and> has_prefix res ws"
    using assms(2) by (auto simp: resolve_work_dir_def res_def [symmetric] Let_def split: if_splits)
  with \<open>clean_abs res\<close> show ?thesis by simp
qed

lemma shell_execute_spawned:
  assumes "sr_spawned (shell_execute env se command dir) = Some (c, d, t)"
  shows "c = command \<and> (\<forall>b \<in> set (extract_binaries command). is_allowed (se_config se) b) \<and>
    t = timeout_of (se_config se) (extract_binaries command) \<and>
    resolve_work_dir (sh_home env) (sh_cwd env) (se_workspace se)
      (list_ex (resolved_workspace_only (se_config se)) (extract_binaries command)) dir = Inr d"
  using assms
  by (auto simp: shell_execute_def Let_def find_None_iff find_Some_iff split: if_splits option.splits sum.splits run_error.splits)


definition demo_shell :: shell_exec where
  "demo_shell = \<lparr>se_config = default_shell_config\<lparr>sd_commands :=
       [(''ls'', \<lparr>cc_description = [], cc_timeout = ''5s'', cc_workspace_only = None\<rparr>),
        (''wc'', \<lparr>cc_description = [], cc_timeout = [], cc_workspace_only = Some False\<rparr>)]\<rparr>,
     se_has_pool = False, se_workspace = ''/ws'', se_mtime = 0\<rparr>"

definition demo_shell_env :: shell_env where
  "demo_shell_env = \<lparr>sh_home = None, sh_cwd = Some ''/'',
     sh_run = (\<lambda>c d t. \<lparr>run_stdout = ''3'', run_stderr = [], run_error = None, run_time = 0\<rparr>)\<rparr>"

lemma demo_shell_workspace: "clean_abs (se_workspace demo_shell)"
  using clean_abs_of [of "[''ws'']"] by (simp add: demo_shell_def abs_of_def slash_def plain_comp_def)


section \<open>What the allowlist misses\<close>

text \<open>A word: no character of it occurs in a space.\<close>

definition plain_word :: "string \<Rightarrow> bool" where
  "plain_word w \<longleftrightarrow> w \<noteq> [] \<and> (\<forall>c \<in> set w. c \<noteq> shell_sep \<and> c \<noteq> CHR 0x26 \<and> c \<noteq> CHR 0x7C \<and> c \<noteq> CHR 0x3B \<and>
     (\<forall>q \<in> set space_seqs. c \<notin> set q))"

lemma lead_seq_plain: "\<forall>q \<in> set qs. c \<notin> set q \<Longrightarrow> lead_seq qs (c # s) = None"
  by (auto simp: lead_seq_def find_None_iff has_prefix_iff Cons_eq_append_conv)

lemma fields_from_word:
  "\<forall>c \<in> set w. \<forall>q \<in> set space_seqs. c \<notin> set q \<Longrightarrow> w @ rev acc \<noteq> [] \<Longrightarrow>
    \<exists>fs. fields_from acc (w @ CHR 0x20 # u) = (rev acc @ w) # fs"
proof (induction w arbitrary: acc)
  case Nil
  have "lead_seq space_seqs (CHR 0x20 # u) = Some [CHR 0x20]"
    by (simp add: lead_seq_def space_seqs_def)
  with Nil show ?case by (simp add: fields_from.simps [of acc "CHR 0x20 # u"])
next
  case (Cons c w)
  then have "fields_from acc ((c # w) @ CHR 0x20 # u) = fields_from (c # acc) (w @ CHR 0x20 # u)"
    using lead_seq_plain [of space_seqs c] by (simp add: fields_from.simps [of acc "c # w @ CHR 0x20 # u"])
  with Cons.IH [of "c # acc"] Cons.prems(1) show ?case by simp
qed

lemma trim_space_word:
  assumes "plain_word w"
  shows "\<exists>u. trim_space (w @ CHR 0x20 # CHR 0x26 # t) = w @ CHR 0x20 # u"
proof -
  let ?s = "w @ CHR 0x20 # CHR 0x26 # t"
  obtain c v where w: "w = c # v" "\<forall>q \<in> set space_seqs. c \<notin> set q"
    using assms by (cases w) (auto simp: plain_word_def)
  then have l: "trim_left ?s = ?s"
    using lead_seq_plain [of space_seqs c] by (simp add: trim_left_def strip_seqs_idle)
  then obtain q where q: "?s = trim_space ?s @ q"
    using trim_right_prefix [of ?s] by (auto simp: trim_space_def)
  have "CHR 0x26 \<in> set (trim_space ?s)"
    by (rule trim_space_keeps) (simp_all add: space_seqs_def)
  moreover have "CHR 0x26 \<notin> set (w @ [CHR 0x20])" using assms by (auto simp: plain_word_def)
  moreover have "set (trim_space ?s) \<subseteq> set (w @ [CHR 0x20])" if "length (trim_space ?s) \<le> Suc (length w)"
  proof -
    have "trim_space ?s = take (length (trim_space ?s)) ?s" using arg_cong [OF q, of "take (length (trim_space ?s))"] by simp
    also have "\<dots> = take (length (trim_space ?s)) (w @ [CHR 0x20])" using that by (simp add: take_Cons')
    finally show ?thesis by (metis set_take_subset)
  qed
  ultimately have l: "Suc (length w) < length (trim_space ?s)" by (meson leI subsetD)
  have "take (Suc (length w)) ?s = w @ [CHR 0x20]" by simp
  with l have "take (Suc (length w)) (trim_space ?s) = w @ [CHR 0x20]"
    using arg_cong [OF q, of "take (Suc (length w))"] by simp
  then have "trim_space ?s = (w @ [CHR 0x20]) @ drop (Suc (length w)) (trim_space ?s)"
    using append_take_drop_id [of "Suc (length w)" "trim_space ?s"] by simp
  then show ?thesis by auto
qed

lemma binary_of_word: "plain_word w \<Longrightarrow> binary_of (w @ CHR 0x20 # CHR 0x26 # t) = Some (path_base w)"
proof -
  assume w: "plain_word w"
  then obtain u where u: "trim_space (w @ CHR 0x20 # CHR 0x26 # t) = w @ CHR 0x20 # u"
    using trim_space_word by blast
  obtain fs where "fields_from [] (w @ CHR 0x20 # u) = (rev [] @ w) # fs"
    using fields_from_word [of w "[]" u] w by (auto simp: plain_word_def)
  with u show ?thesis by (simp add: binary_of_def str_fields_def)
qed

text \<open>
  A single "&" hides a command from the allowlist. The shell runs what stands before it in the
  background and goes on with what follows; the extraction does not split there and looks at the
  first word only. So once a single command is allowed, any further command after " & " is handed to
  the shell, whatever the allowlist says of it.
\<close>

lemma background_command_unchecked:
  assumes "plain_word w" and "is_allowed (se_config se) (path_base w)" and "clean_abs (se_workspace se)"
    and "CHR 0x26 \<notin> set t" "CHR 0x7C \<notin> set t" "CHR 0x3B \<notin> set t" "shell_sep \<notin> set t"
  shows "\<exists>timeout. sr_spawned (shell_execute env se (w @ '' & '' @ t) []) = Some (w @ '' & '' @ t, se_workspace se, timeout)"
proof -
  let ?c = "w @ '' & '' @ t"
  have w: "CHR 0x26 \<notin> set w" "CHR 0x7C \<notin> set w" "CHR 0x3B \<notin> set w" "shell_sep \<notin> set w"
    using assms(1) by (auto simp: plain_word_def)
  have "replace_all ''&&'' [shell_sep] ?c = w @ replace_all ''&&'' [shell_sep] ('' '' @ ''& '' @ t)"
    using w replace_all_skip [of "CHR 0x26" w "''&''" "[shell_sep]" "'' & '' @ t"] by simp
  also have "\<dots> = w @ '' '' @ replace_all ''&&'' [shell_sep] (''&'' @ '' '' @ t)"
    using replace_all_skip [of "CHR 0x26" "'' ''" "''&''" "[shell_sep]" "''& '' @ t"] by simp
  also have "\<dots> = w @ '' '' @ ''&'' @ replace_all ''&&'' [shell_sep] (('' '' @ t) @ [])"
    using replace_all_miss [of "'' '' @ t" "''&''" "CHR 0x26" "[shell_sep]"] by simp
  also have "\<dots> = ?c"
    using assms(4) replace_all_skip [of "CHR 0x26" "'' '' @ t" "''&''" "[shell_sep]" "[]"] by simp
  finally have 1: "replace_all ''&&'' [shell_sep] ?c = ?c" .
  have same: "replace_all (c # old) [shell_sep] ?c = ?c" if "c \<notin> set ?c" for c old
    using replace_all_skip [OF that, of old "[shell_sep]" "[]"] by simp
  have "split_char shell_sep ?c = [?c]"
    using w assms(7) by (intro split_char_single) (simp add: shell_sep_def)
  moreover have "replace_all ''||'' [shell_sep] ?c = ?c" "replace_all '';'' [shell_sep] ?c = ?c"
    "replace_all ''|'' [shell_sep] ?c = ?c"
    using w assms(5,6) by (intro same; simp)+
  ultimately have "split_shell_compound ?c = filter (\<lambda>p. p \<noteq> []) (map trim_space [?c])"
    unfolding split_shell_compound_def Let_def 1 by (simp only:)
  then have "extract_binaries ?c = foldl add_binary [] [?c]"
    using foldl_add_binary_trim [of "[]" "[?c]"] by (simp only: extract_binaries_def)
  then have b: "extract_binaries ?c = [path_base w]"
    using binary_of_word [OF assms(1), of "CHR 0x20 # t"] by (simp add: add_binary_eq)
  have "path_abs (sh_cwd env) (se_workspace se) = Some (se_workspace se)"
    using clean_abs_is_abs [OF assms(3)] by (simp add: path_abs_def)
  then have "resolve_work_dir (sh_home env) (sh_cwd env) (se_workspace se) o1 [] = Inr (se_workspace se)" for o1
    by (simp add: resolve_work_dir_def)
  then show ?thesis
    using assms(2) unfolding shell_execute_def b Let_def
    by (auto split: option.splits run_error.splits)
qed

lemma background_command_unchecked_witness:
  "\<not> is_allowed (se_config demo_shell) ''rm'' \<and>
   (\<exists>timeout. sr_spawned (shell_execute demo_shell_env demo_shell ''ls & rm -rf x'' [])
      = Some (''ls & rm -rf x'', ''/ws'', timeout))"
proof -
  have "plain_word ''ls''" by (simp add: plain_word_def shell_sep_def space_seqs_def)
  moreover have "is_allowed (se_config demo_shell) (path_base ''ls'')" by code_simp
  moreover note demo_shell_workspace
  ultimately have "\<exists>timeout. sr_spawned (shell_execute demo_shell_env demo_shell (''ls'' @ '' & '' @ ''rm -rf x'') [])
      = Some (''ls'' @ '' & '' @ ''rm -rf x'', se_workspace demo_shell, timeout)"
    by (rule background_command_unchecked) (simp_all add: shell_sep_def)
  moreover have "\<not> is_allowed (se_config demo_shell) ''rm''" by code_simp
  ultimately show ?thesis by (simp add: demo_shell_def)
qed

end
