(* ===== verification/TimeFmt.thy ===== *)
theory TimeFmt
  imports Prelude
begin

text \<open>
  Dates and times as text (\<open>timefmt/timefmt.go\<close>): the civil calendar behind \<open>time.Time\<close> in a
  location with a fixed offset from UTC, the layouts the program prints, and \<open>ParseSchedule\<close>.
\<close>

section \<open>The civil calendar\<close>

record civil =
  year :: int
  month :: int
  mday :: int
  hours :: int
  minutes :: int

text \<open>
  The proleptic Gregorian date of a day number, day 0 being January 1, year 1. The computation
  counts years from March, in eras of 400 years.
\<close>

definition civil_date :: "int \<Rightarrow> int \<times> int \<times> int" where
  "civil_date d =
     (let z = d + 306;
          era = z div 146097;
          doe = z mod 146097;
          yoe = (doe - doe div 1460 + doe div 36524 - doe div 146096) div 365;
          doy = doe - (365 * yoe + yoe div 4 - yoe div 100);
          mp = (5 * doy + 2) div 153;
          m = (if mp < 10 then mp + 3 else mp - 9)
      in (yoe + era * 400 + (if m \<le> 2 then 1 else 0), m, doy - (153 * mp + 2) div 5 + 1))"

definition day_number :: "int \<Rightarrow> int \<Rightarrow> int \<Rightarrow> int" where
  "day_number y m d =
     (let y' = (if m \<le> 2 then y - 1 else y);
          era = y' div 400;
          yoe = y' mod 400;
          mp = (if m > 2 then m - 3 else m + 9);
          doy = (153 * mp + 2) div 5 + d - 1;
          doe = yoe * 365 + yoe div 4 - yoe div 100 + doy
      in era * 146097 + doe - 306)"

text \<open>The wall clock at an instant, \<open>off\<close> nanoseconds east of UTC, and \<open>time.Date\<close> for it.\<close>

definition civil_of :: "duration \<Rightarrow> gotime \<Rightarrow> civil" where
  "civil_of off t =
     (let l = t + off; (y, m, d) = civil_date (l div day)
      in \<lparr>year = y, month = m, mday = d, hours = l mod day div hour, minutes = l mod hour div minute\<rparr>)"

definition go_date :: "duration \<Rightarrow> int \<Rightarrow> int \<Rightarrow> int \<Rightarrow> int \<Rightarrow> int \<Rightarrow> gotime" where
  "go_date off y m d h mi = day_number y m d * day + h * hour + mi * minute - off"

lemma day_number_epoch: "day_number 1 1 1 = 0" "day_number 1970 1 1 = 719162" "day_number 2024 2 29 = 738944"
  by (simp_all add: day_number_def)

section \<open>The layouts\<close>

definition pad :: "nat \<Rightarrow> int \<Rightarrow> string" where
  "pad w n =
     (let ds = nat_dec (nat \<bar>n\<bar>)
      in (if n < 0 then ''-'' else []) @ replicate (w - length ds) (CHR ''0'') @ ds)"

definition format_date :: "duration \<Rightarrow> gotime \<Rightarrow> string" where
  "format_date off t =
     (let c = civil_of off t in pad 4 (year c) @ ''-'' @ pad 2 (month c) @ ''-'' @ pad 2 (mday c))"

definition format_date_time :: "duration \<Rightarrow> gotime \<Rightarrow> string" where
  "format_date_time off t =
     (let c = civil_of off t in format_date off t @ '' '' @ pad 2 (hours c) @ '':'' @ pad 2 (minutes c))"

definition weekday_names :: "string list" where
  "weekday_names = [''Monday'', ''Tuesday'', ''Wednesday'', ''Thursday'', ''Friday'', ''Saturday'', ''Sunday'']"

definition month_names :: "string list" where
  "month_names = [''January'', ''February'', ''March'', ''April'', ''May'', ''June'', ''July'',
     ''August'', ''September'', ''October'', ''November'', ''December'']"

definition format_natural :: "duration \<Rightarrow> gotime \<Rightarrow> string" where
  "format_natural off t =
     (let c = civil_of off t;
          wd = weekday_names ! nat ((t + off) div day mod 7);
          h12 = (if hours c mod 12 = 0 then 12 else hours c mod 12)
      in wd @ '', '' @ month_names ! nat (month c - 1) @ '' '' @ itoa (mday c) @ '', '' @ pad 4 (year c)
         @ '' at '' @ itoa h12 @ '':'' @ pad 2 (minutes c) @ (if hours c < 12 then '' AM'' else '' PM''))"

text \<open>
  The layout \<open>2006-01-02T15:04:05\<close> of \<open>routines/args.go\<close>, and \<open>time.RFC3339\<close>, which adds the zone.
\<close>

definition format_iso :: "duration \<Rightarrow> gotime \<Rightarrow> string" where
  "format_iso off t =
     (let c = civil_of off t in
      format_date off t @ ''T'' @ pad 2 (hours c) @ '':'' @ pad 2 (minutes c) @ '':''
      @ pad 2 ((t + off) mod minute div second))"

definition format_rfc3339 :: "duration \<Rightarrow> gotime \<Rightarrow> string" where
  "format_rfc3339 off t =
     format_iso off t
     @ (if off = 0 then ''Z''
        else (if off < 0 then ''-'' else ''+'') @ pad 2 (\<bar>off\<bar> div hour) @ '':'' @ pad 2 (\<bar>off\<bar> mod hour div minute))"

lemma format_examples:
  "format_date_time 0 0 = ''0001-01-01 00:00''"
  "format_natural 0 (738944 * day + 13 * hour + 5 * minute) = ''Thursday, February 29, 2024 at 1:05 PM''"
  by code_simp+

section \<open>Schedules\<close>

text \<open>
  \<open>ParseSchedule\<close>. The subtraction \<open>s[0]-'0'\<close> is on bytes, so it wraps around at 256; the
  conversions to \<open>int\<close> come after it.
\<close>

definition sub_zero :: "char \<Rightarrow> int" where
  "sub_zero c = int ((byte_of c + (256 - 48)) mod 256)"

definition parse_schedule :: "string \<Rightarrow> (int \<times> int) option" where
  "parse_schedule s =
     (if length s \<noteq> 5 \<or> s ! 2 \<noteq> CHR '':'' then None
      else (let h = sub_zero (s ! 0) * 10 + sub_zero (s ! 1);
                m = sub_zero (s ! 3) * 10 + sub_zero (s ! 4)
            in if h < 0 \<or> h > 23 \<or> m < 0 \<or> m > 59 then None else Some (h, m)))"

lemma parse_schedule_range: "parse_schedule s = Some (h, m) \<Longrightarrow> 0 \<le> h \<and> h \<le> 23 \<and> 0 \<le> m \<and> m \<le> 59"
  by (auto simp: parse_schedule_def Let_def split: if_splits)

definition hhmm :: "int \<Rightarrow> int \<Rightarrow> string" where
  "hhmm h m = pad 2 h @ '':'' @ pad 2 m"

lemma sub_zero_digit: "k < 10 \<Longrightarrow> sub_zero (char_of (48 + k)) = int k"
proof -
  assume k: "k < (10::nat)"
  then have "byte_of (char_of (48 + k)) = 48 + k" by (simp add: byte_of_def)
  moreover have "(48 + k + 208) mod 256 = k" using k by (simp add: mod_if)
  ultimately show ?thesis by (simp add: sub_zero_def)
qed

lemma pad_two:
  assumes "n < 100"
  shows "pad 2 (int n) = [char_of (48 + n div 10), char_of (48 + n mod 10)]"
proof (cases "n < 10")
  case True
  have "char_of (48::nat) = CHR ''0''" by code_simp
  with True show ?thesis by (simp add: pad_def nat_dec.simps)
next
  case False
  then have "n div 10 < 10" using assms by simp
  then have "nat_dec (n div 10) = [char_of (48 + n div 10)]" by (subst nat_dec.simps) simp
  with False have "nat_dec n = [char_of (48 + n div 10), char_of (48 + n mod 10)]"
    by (subst nat_dec.simps) simp
  then show ?thesis by (simp add: pad_def)
qed

lemma parse_hhmm:
  assumes "h < 24" "m < 60"
  shows "parse_schedule (hhmm (int h) (int m)) = Some (int h, int m)"
proof -
  have s: "hhmm (int h) (int m) =
      [char_of (48 + h div 10), char_of (48 + h mod 10), CHR '':'', char_of (48 + m div 10), char_of (48 + m mod 10)]"
    using assms by (simp add: hhmm_def pad_two)
  have d: "sub_zero (char_of (48 + h div 10)) = int (h div 10)" "sub_zero (char_of (48 + h mod 10)) = int (h mod 10)"
    "sub_zero (char_of (48 + m div 10)) = int (m div 10)" "sub_zero (char_of (48 + m mod 10)) = int (m mod 10)"
    using assms by (auto intro: sub_zero_digit)
  have e: "int (h div 10) * 10 + int (h mod 10) = int h" "int (m div 10) * 10 + int (m mod 10) = int m"
    by (metis div_mult_mod_eq of_nat_add of_nat_mult of_nat_numeral)+
  show ?thesis
    unfolding s parse_schedule_def using assms by (simp add: d e Let_def)
qed

text \<open>
  Every time of day written as HH:MM is read as that hour and minute, and whatever is read is
  a time of day. The digits, though, are not checked to be digits: since the subtraction of '0'
  wraps around on bytes, \<open>0;:00\<close> is read as eleven o'clock.
\<close>

lemma schedule_reading:
  "(\<forall>h < 24. \<forall>m < 60. parse_schedule (hhmm (int h) (int m)) = Some (int h, int m)) \<and>
   (\<forall>s h m. parse_schedule s = Some (h, m) \<longrightarrow> 0 \<le> h \<and> h \<le> 23 \<and> 0 \<le> m \<and> m \<le> 59) \<and>
   parse_schedule ''0;:00'' = Some (11, 0)"
proof (intro conjI allI impI)
  show "parse_schedule ''0;:00'' = Some (11, 0)"
    by (simp add: parse_schedule_def sub_zero_def byte_of_def)
qed (use parse_hhmm parse_schedule_range in blast)+

lemma schedule_reading_witness:
  "parse_schedule (hhmm 8 30) = Some (8, 30) \<and> (0::int) \<le> 11"
  using schedule_reading [THEN conjunct1, rule_format, of 8 30]
    schedule_reading [THEN conjunct2, THEN conjunct1, rule_format, of "''0;:00''" 11 0]
  by simp

end
