(* ===== verification/Orchestrate.thy ===== *)
theory Orchestrate
  imports TextUtil TimeFmt
begin

text \<open>
  The tool loop (\<open>orchestrate/\<close>): the decision a model writes as JSON, the thinking blocks, soft
  errors, fallbacks and hints, and \<open>RunLoop\<close>, which alternates model calls and tool calls.
\<close>

section \<open>Messages, requests, configuration\<close>

record omessage =
  om_role :: string
  om_content :: string

definition omsg :: "string \<Rightarrow> string \<Rightarrow> omessage" where
  "omsg r c = \<lparr>om_role = r, om_content = c\<rparr>"

record chat_input =
  ci_messages :: "omessage list"
  ci_grammar :: string
  ci_max_tokens :: int
  ci_reasoning :: string
  ci_thinking :: bool

record background_job_request =
  bj_tool :: string
  bj_user_goal :: string
  bj_task_type :: string
  bj_problem :: string

text \<open>The error of a tool: a background job request anywhere in its chain, or its text.\<close>

datatype tool_error = ToolBackground background_job_request | ToolFailed string

text \<open>
  A raw JSON argument is \<open>None\<close> for Go's nil. A trigger is the match test of a compiled regular
  expression, \<open>None\<close> for nil.
\<close>

record fallback_def =
  fb_tool :: string
  fb_args :: "string \<Rightarrow> string option \<Rightarrow> string \<Rightarrow> string option"
  fb_trigger :: "(string \<Rightarrow> bool) option"

text \<open>
  The configuration. The callbacks act on the state \<open>'s\<close> of the caller: slots, metrics, the screen.
\<close>

record 's loop_config =
  lc_grammar :: string
  lc_max_tokens :: int
  lc_max_rounds :: int
  lc_max_tool_result :: int
  lc_overflow_hint :: string
  lc_enable_thinking :: bool
  lc_first_round_thinking :: bool
  lc_on_tool_start :: "(string \<Rightarrow> 's \<Rightarrow> 's) option"
  lc_on_tool_end :: "('s \<Rightarrow> string option \<times> 's) option"
  lc_on_tool_exec :: "(string \<Rightarrow> tool_error option \<Rightarrow> 's \<Rightarrow> 's) option"
  lc_progress :: "(string \<Rightarrow> 's \<Rightarrow> 's) option"
  lc_fallbacks :: "(string \<rightharpoonup> fallback_def) option"
  lc_mandated :: "(string \<rightharpoonup> string) option"
  lc_inject_timestamp :: bool
  lc_soft_errors :: bool
  lc_trim :: "(omessage list \<Rightarrow> omessage list) option"
  lc_user_goal :: string

text \<open>The environment: the model, the tools (\<open>None\<close>: no executor) and the clock.\<close>

record 's loop_env =
  le_chat :: "chat_input \<Rightarrow> 's \<Rightarrow> (string + string) \<times> 's"
  le_tool :: "(string \<Rightarrow> 's \<Rightarrow> (tool_error + string) \<times> 's) option"
  le_clock :: "'s \<Rightarrow> gotime"
  le_zone :: duration

definition default_max_rounds :: int where "default_max_rounds = 15"
definition default_max_tokens :: int where "default_max_tokens = 4096"
definition default_max_tool_result :: int where "default_max_tool_result = 8000"
definition default_overflow_hint :: string where
  "default_overflow_hint = ''Use specific queries or filters to narrow results''"
definition max_parse_retries :: nat where "max_parse_retries = 3"
definition max_tool_error_retries :: nat where "max_tool_error_retries = 3"

definition max_rounds_of :: "'s loop_config \<Rightarrow> nat" where
  "max_rounds_of cfg = nat (if lc_max_rounds cfg \<le> 0 then default_max_rounds else lc_max_rounds cfg)"

definition max_tool_result_of :: "'s loop_config \<Rightarrow> nat" where
  "max_tool_result_of cfg =
     nat (if lc_max_tool_result cfg \<le> 0 then default_max_tool_result else lc_max_tool_result cfg)"

section \<open>Decisions\<close>

record decision =
  d_action :: string
  d_name :: string
  d_args :: "string option"
  d_text :: string

definition empty_decision :: decision where
  "empty_decision = \<lparr>d_action = [], d_name = [], d_args = None, d_text = []\<rparr>"

definition decision_step :: "decision \<times> bool \<Rightarrow> string \<times> string \<times> json \<Rightarrow> decision \<times> bool" where
  "decision_step = (\<lambda>(d, e) (k, raw, v).
     (let f = field_of [''action'', ''name'', ''arguments'', ''text''] k in
      if f = Some ''action'' then (let (t, b) = set_string v (d_action d) in (d\<lparr>d_action := t\<rparr>, e \<or> b))
      else if f = Some ''name'' then (let (t, b) = set_string v (d_name d) in (d\<lparr>d_name := t\<rparr>, e \<or> b))
      else if f = Some ''arguments'' then (d\<lparr>d_args := Some raw\<rparr>, e)
      else if f = Some ''text'' then (let (t, b) = set_string v (d_text d) in (d\<lparr>d_text := t\<rparr>, e \<or> b))
      else (d, e)))"

text \<open>\<open>json.Unmarshal\<close> into a decision that may hold fields already; the flag is an error.\<close>

definition unmarshal_decision :: "string \<Rightarrow> decision \<Rightarrow> decision \<times> bool" where
  "unmarshal_decision s d =
     (case json_parse s of
        None \<Rightarrow> (d, True)
      | Some (JObj ms) \<Rightarrow> foldl decision_step (d, False) ms
      | Some JNull \<Rightarrow> (d, False)
      | Some _ \<Rightarrow> (d, True))"

text \<open>The parse of a round: the content as it is, then its cleaned form; \<open>None\<close> when both fail.\<close>

definition parse_decision :: "string \<Rightarrow> decision option" where
  "parse_decision c =
     (let (d, e) = unmarshal_decision c empty_decision in
      if \<not> e then Some d
      else (let (d', e') = unmarshal_decision (clean_llm_json c) d in if e' then None else Some d'))"

section \<open>Thinking, soft errors, fallbacks, hints\<close>

definition process_thinking :: "string \<Rightarrow> string \<times> string \<times> string" where
  "process_thinking raw =
     (let thinking = extract_think_content raw;
          c = strip_think_tags raw
      in (c, if thinking \<noteq> [] then ''[Reasoning: '' @ thinking @ '']'' @ [CHR 0x0A] @ c else c, thinking))"

definition prepare_thinking :: "string \<Rightarrow> bool \<Rightarrow> string \<times> string" where
  "prepare_thinking g think =
     (if \<not> think then (g, ''none'')
      else if g \<noteq> [] then (wrap_grammar g, ''none'')
      else (g, ''deepseek''))"

definition soft_error_patterns :: "string list" where
  "soft_error_patterns = [''error'', ''failed'', ''timeout'', ''deadline exceeded'', ''unavailable'',
     ''not found'', ''no results'', ''could not'']"

definition is_tool_soft_error :: "string \<Rightarrow> bool" where
  "is_tool_soft_error result =
     (let trimmed = trim_space result in
      if trimmed = [] then False
      else if hd trimmed = CHR ''{'' \<or> hd trimmed = CHR ''['' then False
      else (let lower = take 200 (to_lower trimmed) in list_ex (str_contains lower) soft_error_patterns))"

definition match_fallback :: "(string \<rightharpoonup> fallback_def) option \<Rightarrow> string \<Rightarrow> string \<Rightarrow> fallback_def option" where
  "match_fallback fallbacks toolName failureMsg =
     (case fallbacks of
        None \<Rightarrow> None
      | Some f \<Rightarrow>
          (case f toolName of
             None \<Rightarrow> None
           | Some fb \<Rightarrow>
               (case fb_trigger fb of
                  Some p \<Rightarrow> if \<not> p failureMsg then None else Some fb
                | None \<Rightarrow> Some fb)))"

text \<open>
  The JSON of a tool call. \<open>RunLoop\<close> marshals a map, whose keys come out sorted; \<open>buildToolJSON\<close>
  marshals a struct, in the order of its fields. A raw message that is not JSON makes the encoder
  fail, and the error is dropped with the text.
\<close>

definition raw_ok :: "string option \<Rightarrow> bool" where
  "raw_ok raw = (case raw of None \<Rightarrow> True | Some r \<Rightarrow> json_parse r \<noteq> None)"

definition tool_json :: "string \<Rightarrow> string option \<Rightarrow> string" where
  "tool_json name args =
     (if \<not> raw_ok args then []
      else ''{'' @ json_quote ''arguments'' @ '':'' @ marshal_raw args @ '','' @ json_quote ''name'' @ '':'' @ json_quote name @ ''}'')"

definition build_tool_json :: "string \<Rightarrow> string option \<Rightarrow> string" where
  "build_tool_json name args =
     (if \<not> raw_ok args then []
      else ''{'' @ json_quote ''name'' @ '':'' @ json_quote name @ '','' @ json_quote ''arguments'' @ '':'' @ marshal_raw args @ ''}'')"

definition tool_hint :: "string \<Rightarrow> string" where
  "tool_hint toolName =
     (if has_prefix toolName ''get-'' \<or> has_prefix toolName ''twitter-''
      then CHR 0x0A # ''Hint: consider using search_web as a fallback.''
      else if toolName = ''search_email'' \<or> toolName = ''search_calendar''
      then CHR 0x0A # ''Hint: try broadening the query or adjusting time bounds.''
      else if toolName = ''search_memory''
      then CHR 0x0A # ''Hint: try different keywords or broader terms.''
      else [])"

section \<open>One round\<close>

datatype loop_error =
    ChatFailed string
  | ParseFailed nat string
  | UnknownAction string
  | BackgroundRequested background_job_request
  | TooManyRounds

record 's loop_state =
  ls_messages :: "omessage list"
  ls_parse_retries :: nat
  ls_error_retries :: nat
  ls_world :: 's

text \<open>How a round ends: the loop goes on, or returns a text, or returns an error.\<close>

datatype 's round_end = Continue "'s loop_state" | Respond string "'s loop_state" | Fail loop_error "'s loop_state"

definition call_tool ::
  "'s loop_config \<Rightarrow> (string \<Rightarrow> 's \<Rightarrow> (tool_error + string) \<times> 's) \<Rightarrow> string \<Rightarrow> string \<Rightarrow> 's
     \<Rightarrow> (tool_error + string) \<times> 's" where
  "call_tool cfg exec toolName raw s =
     (let s1 = (case lc_on_tool_start cfg of Some f \<Rightarrow> f toolName s | None \<Rightarrow> s);
          (res, s2) = exec raw s1;
          s3 = (case lc_on_tool_exec cfg of
                  Some f \<Rightarrow> f toolName (case res of Inl e \<Rightarrow> Some e | Inr _ \<Rightarrow> None) s2 | None \<Rightarrow> s2);
          s4 = (case lc_on_tool_end cfg of Some f \<Rightarrow> snd (f s3) | None \<Rightarrow> s3)
      in (res, s4))"

definition error_text :: "tool_error \<Rightarrow> string" where
  "error_text e = (case e of ToolFailed t \<Rightarrow> t | ToolBackground b \<Rightarrow> ''background job requested for '' @ bj_tool b)"

definition add_msg :: "omessage \<Rightarrow> 's loop_state \<Rightarrow> 's loop_state" where
  "add_msg m st = st\<lparr>ls_messages := ls_messages st @ [m]\<rparr>"

text \<open>The failure of a tool: what went wrong, or the result that reads as a soft error.\<close>

definition failure_of :: "'s loop_config \<Rightarrow> tool_error + string \<Rightarrow> string option" where
  "failure_of cfg res =
     (case res of
        Inl e \<Rightarrow> Some (error_text e)
      | Inr r \<Rightarrow> if lc_soft_errors cfg \<and> is_tool_soft_error r then Some r else None)"

text \<open>The deterministic fallback: a second tool call and its message.\<close>

definition run_fallback ::
  "'s loop_config \<Rightarrow> (string \<Rightarrow> 's \<Rightarrow> (tool_error + string) \<times> 's) \<Rightarrow> fallback_def \<Rightarrow> decision \<Rightarrow> string
     \<Rightarrow> 's loop_state \<Rightarrow> 's loop_state" where
  "run_fallback cfg exec fb dec failureMsg st =
     (let fbJSON = build_tool_json (fb_tool fb) (fb_args fb (d_name dec) (d_args dec) failureMsg);
          (res, s) = call_tool cfg exec (fb_tool fb) fbJSON (ls_world st);
          st1 = st\<lparr>ls_world := s\<rparr>
      in case res of
           Inl e \<Rightarrow> add_msg (omsg ''user'' (''Tool result [auto-fallback]: '' @ d_name dec @ '' failed ('' @ failureMsg
               @ ''). Fallback to '' @ fb_tool fb @ '' also failed: '' @ error_text e)) st1
         | Inr r \<Rightarrow> add_msg (omsg ''user'' (''Tool result [auto-fallback]: '' @ d_name dec @ '' failed ('' @ failureMsg
               @ ''). Fallback to '' @ fb_tool fb @ '':'' @ [CHR 0x0A]
               @ truncate_tool_result r (max_tool_result_of cfg) [])) st1)"

text \<open>A failure without fallback: the hint, and the count of hard errors.\<close>

definition report_failure :: "'s loop_config \<Rightarrow> decision \<Rightarrow> tool_error + string \<Rightarrow> 's loop_state \<Rightarrow> 's loop_state" where
  "report_failure cfg dec res st =
     (let hint = tool_hint (d_name dec) in
      case res of
        Inl e \<Rightarrow>
          (let st1 = st\<lparr>ls_error_retries := ls_error_retries st + 1\<rparr> in
           if ls_error_retries st1 \<le> max_tool_error_retries
           then add_msg (omsg ''user'' (''Tool error (attempt '' @ nat_dec (ls_error_retries st1) @ ''/''
                  @ nat_dec max_tool_error_retries @ ''): '' @ error_text e @ hint @ [CHR 0x0A]
                  @ ''Reformulate with corrected parameters or try a different tool.'')) st1
           else add_msg (omsg ''user'' (''Tool error (retries exhausted): '' @ error_text e @ hint)) st1)
      | Inr r \<Rightarrow>
          add_msg (omsg ''user'' (''Tool result: '' @ truncate_tool_result r (max_tool_result_of cfg) [] @ hint)) st)"

definition overflow_hint_of :: "'s loop_config \<Rightarrow> string" where
  "overflow_hint_of cfg = (if lc_overflow_hint cfg = [] then default_overflow_hint else lc_overflow_hint cfg)"

text \<open>What follows a tool call, by its outcome.\<close>

definition after_tool ::
  "'s loop_config \<Rightarrow> (string \<Rightarrow> 's \<Rightarrow> (tool_error + string) \<times> 's) \<Rightarrow> decision \<Rightarrow> tool_error + string
     \<Rightarrow> 's loop_state \<Rightarrow> 's round_end" where
  "after_tool cfg exec dec res st =
     (case res of
        Inl (ToolBackground bjr) \<Rightarrow> Fail (BackgroundRequested bjr) st
      | _ \<Rightarrow>
          (case failure_of cfg res of
             Some failureMsg \<Rightarrow>
               (case match_fallback (lc_fallbacks cfg) (d_name dec) failureMsg of
                  Some fb \<Rightarrow> Continue (run_fallback cfg exec fb dec failureMsg st)
                | None \<Rightarrow> Continue (report_failure cfg dec res st))
           | None \<Rightarrow>
               (case res of
                  Inr r \<Rightarrow> Continue (add_msg (omsg ''user'' (''Tool result: ''
                      @ truncate_tool_result r (max_tool_result_of cfg) (overflow_hint_of cfg)))
                      (st\<lparr>ls_error_retries := 0\<rparr>))
                | Inl e \<Rightarrow> Continue st)))"

text \<open>The path of a tool call, after the decision has been parsed.\<close>

definition tool_round ::
  "'s loop_config \<Rightarrow> 's loop_env \<Rightarrow> nat \<Rightarrow> decision \<Rightarrow> string \<Rightarrow> 's loop_state \<Rightarrow> 's round_end" where
  "tool_round cfg env round dec stored st =
     (let name = d_name dec;
          st1 = (case lc_progress cfg of
                   Some f \<Rightarrow> st\<lparr>ls_world := f (''Step '' @ nat_dec (round + 1) @ ''/'' @ nat_dec (max_rounds_of cfg)
                        @ '': calling '' @ name) (ls_world st)\<rparr>
                 | None \<Rightarrow> st);
          st2 = add_msg (omsg ''assistant'' stored) st1
      in case le_tool env of
           None \<Rightarrow> Continue (add_msg (omsg ''user'' ''Tool result: no tool executor configured'') st2)
         | Some exec \<Rightarrow>
             (case Option.bind (lc_mandated cfg) (\<lambda>f. f name) of
                Some taskType \<Rightarrow>
                  Fail (BackgroundRequested \<lparr>bj_tool = name, bj_user_goal = lc_user_goal cfg,
                          bj_task_type = taskType, bj_problem = []\<rparr>) st2
              | None \<Rightarrow>
                  (let (res, s) = call_tool cfg exec name (tool_json name (d_args dec)) (ls_world st2);
                       st3 = st2\<lparr>ls_world := s\<rparr>
                   in after_tool cfg exec dec res st3)))"

text \<open>The request of a round: the trimmed messages, the system prompt with the current time.\<close>

definition stamp_system :: "'s loop_env \<Rightarrow> 's \<Rightarrow> omessage list \<Rightarrow> omessage list" where
  "stamp_system env s sent =
     (case sent of
        m # ms \<Rightarrow>
          if om_role m = ''system''
          then m\<lparr>om_content := om_content m @ [CHR 0x0A, CHR 0x0A] @ ''Current time: '' @ format_natural (le_zone env) (le_clock env s)\<rparr> # ms
          else sent
      | [] \<Rightarrow> [])"

definition round_request :: "'s loop_config \<Rightarrow> 's loop_env \<Rightarrow> nat \<Rightarrow> 's loop_state \<Rightarrow> chat_input" where
  "round_request cfg env round st =
     (let think = lc_enable_thinking cfg \<or> (lc_first_round_thinking cfg \<and> round = 0);
          (g, fmt) = prepare_thinking (lc_grammar cfg) think;
          sent = (case lc_trim cfg of Some f \<Rightarrow> f (ls_messages st) | None \<Rightarrow> ls_messages st);
          sent' = (if lc_inject_timestamp cfg then stamp_system env (ls_world st) sent else sent)
      in \<lparr>ci_messages = sent', ci_grammar = g,
          ci_max_tokens = (if lc_max_tokens cfg \<le> 0 then default_max_tokens else lc_max_tokens cfg),
          ci_reasoning = fmt, ci_thinking = think\<rparr>)"

definition run_round :: "'s loop_config \<Rightarrow> 's loop_env \<Rightarrow> nat \<Rightarrow> 's loop_state \<Rightarrow> 's round_end" where
  "run_round cfg env round st =
     (let (res, s) = le_chat env (round_request cfg env round st) (ls_world st);
          st0 = st\<lparr>ls_world := s\<rparr>
      in case res of
           Inl err \<Rightarrow> Fail (ChatFailed err) st0
         | Inr raw \<Rightarrow>
             (let (c, stored, thinking) = process_thinking (trim_space raw) in
              case parse_decision c of
                None \<Rightarrow>
                  (let st1 = st0\<lparr>ls_parse_retries := ls_parse_retries st0 + 1\<rparr> in
                   if ls_parse_retries st1 \<le> max_parse_retries then Continue st1
                   else Fail (ParseFailed round c) st1)
              | Some dec \<Rightarrow>
                  (let st1 = st0\<lparr>ls_parse_retries := 0\<rparr> in
                   if d_action dec = ''respond'' then Respond (d_text dec) (add_msg (omsg ''assistant'' stored) st1)
                   else if d_action dec \<noteq> ''tool'' then Fail (UnknownAction (d_action dec)) st1
                   else tool_round cfg env round dec stored st1)))"

section \<open>The loop\<close>

fun loop_rounds ::
  "'s loop_config \<Rightarrow> 's loop_env \<Rightarrow> nat \<Rightarrow> nat \<Rightarrow> 's loop_state \<Rightarrow> (loop_error + string) \<times> 's loop_state" where
  "loop_rounds cfg env round 0 st = (Inl TooManyRounds, st)"
| "loop_rounds cfg env round (Suc n) st =
     (case run_round cfg env round st of
        Continue st' \<Rightarrow> loop_rounds cfg env (round + 1) n st'
      | Respond t st' \<Rightarrow> (Inr t, st')
      | Fail e st' \<Rightarrow> (Inl e, st'))"

definition start_state :: "omessage list \<Rightarrow> 's \<Rightarrow> 's loop_state" where
  "start_state ms s = \<lparr>ls_messages = ms, ls_parse_retries = 0, ls_error_retries = 0, ls_world = s\<rparr>"

definition run_loop ::
  "'s loop_config \<Rightarrow> 's loop_env \<Rightarrow> omessage list \<Rightarrow> 's \<Rightarrow> (loop_error + string) \<times> 's loop_state" where
  "run_loop cfg env ms s = loop_rounds cfg env 0 (max_rounds_of cfg) (start_state ms s)"

section \<open>The shape of a run\<close>

text \<open>The exchanges of a run: a decision of the model, then a result or an error of a tool.\<close>

fun exchanges :: "omessage list \<Rightarrow> bool" where
  "exchanges [] = True"
| "exchanges [a] = False"
| "exchanges (a # u # ms) \<longleftrightarrow>
     om_role a = ''assistant'' \<and> om_role u = ''user'' \<and> has_prefix (om_content u) ''Tool '' \<and> exchanges ms"

lemma exchanges_append: "exchanges xs \<Longrightarrow> exchanges ys \<Longrightarrow> exchanges (xs @ ys)"
  by (induction xs rule: exchanges.induct) auto

text \<open>What a round adds to the messages, by the way it ends.\<close>

definition round_ok :: "'s loop_state \<Rightarrow> 's round_end \<Rightarrow> bool" where
  "round_ok st r =
     (case r of
        Continue st' \<Rightarrow> (\<exists>new. ls_messages st' = ls_messages st @ new \<and> exchanges new)
      | Respond t st' \<Rightarrow> (\<exists>a. ls_messages st' = ls_messages st @ [a] \<and> om_role a = ''assistant'')
      | Fail (BackgroundRequested b) st' \<Rightarrow> (\<exists>a. ls_messages st' = ls_messages st @ [a] \<and> om_role a = ''assistant'')
      | Fail e st' \<Rightarrow> ls_messages st' = ls_messages st)"

lemma add_msg_messages: "ls_messages (add_msg m st) = ls_messages st @ [m]"
  by (simp add: add_msg_def)

lemma run_fallback_grows:
  "\<exists>u. ls_messages (run_fallback cfg exec fb dec f st) = ls_messages st @ [u] \<and>
     om_role u = ''user'' \<and> has_prefix (om_content u) ''Tool ''"
  by (auto simp: run_fallback_def add_msg_def omsg_def Let_def split: prod.splits sum.splits)

lemma report_failure_grows:
  "\<exists>u. ls_messages (report_failure cfg dec res st) = ls_messages st @ [u] \<and>
     om_role u = ''user'' \<and> has_prefix (om_content u) ''Tool ''"
  by (cases res) (auto simp: report_failure_def add_msg_def omsg_def Let_def)

lemma after_tool_grows:
  "(\<exists>b. after_tool cfg exec dec res st = Fail (BackgroundRequested b) st) \<or>
   (\<exists>st' u. after_tool cfg exec dec res st = Continue st' \<and> ls_messages st' = ls_messages st @ [u] \<and>
      om_role u = ''user'' \<and> has_prefix (om_content u) ''Tool '')"
  using run_fallback_grows [of cfg exec _ dec _ st] report_failure_grows [of cfg dec res st]
  by (auto simp: after_tool_def failure_of_def add_msg_def omsg_def
      split: sum.splits tool_error.splits option.splits if_splits)

lemma tool_round_ok:
  assumes "ls_messages st = ls_messages st0"
  shows "round_ok st0 (tool_round cfg env round dec stored st)"
proof -
  define st2 where "st2 = add_msg (omsg ''assistant'' stored)
      (case lc_progress cfg of
         Some f \<Rightarrow> st\<lparr>ls_world := f (''Step '' @ nat_dec (round + 1) @ ''/'' @ nat_dec (max_rounds_of cfg)
                        @ '': calling '' @ d_name dec) (ls_world st)\<rparr>
       | None \<Rightarrow> st)"
  have 2: "ls_messages st2 = ls_messages st0 @ [omsg ''assistant'' stored]"
    using assms by (simp add: st2_def add_msg_def split: option.splits)
  have "round_ok st0 (after_tool cfg exec dec res (st2\<lparr>ls_world := w\<rparr>))" for exec res w
    using after_tool_grows [of cfg exec dec res "st2\<lparr>ls_world := w\<rparr>"] 2
    by (auto simp: round_ok_def omsg_def)
  with 2 show ?thesis
    unfolding tool_round_def st2_def [symmetric] Let_def
    by (auto simp: round_ok_def add_msg_def omsg_def split: option.splits prod.splits)
qed

lemma run_round_ok: "round_ok st (run_round cfg env round st)"
proof -
  have "round_ok st (tool_round cfg env round dec stored (st\<lparr>ls_world := s, ls_parse_retries := 0\<rparr>))" for s dec stored
    by (rule tool_round_ok) simp
  then show ?thesis
    by (auto simp: run_round_def round_ok_def Let_def add_msg_def omsg_def
        split: prod.splits sum.splits option.splits)
qed

text \<open>What a whole run adds; \<open>ends_open\<close>: it ends with a message of the model that no tool answers.\<close>

definition ends_open :: "loop_error + string \<Rightarrow> bool" where
  "ends_open r = (case r of Inr t \<Rightarrow> True | Inl (BackgroundRequested b) \<Rightarrow> True | Inl e \<Rightarrow> False)"

definition run_adds :: "omessage list \<Rightarrow> 's loop_state \<Rightarrow> (loop_error + string) \<times> 's loop_state \<Rightarrow> bool" where
  "run_adds new st res \<longleftrightarrow>
     ls_messages (snd res) = ls_messages st @ new \<and>
     (if ends_open (fst res) then (\<exists>ms a. new = ms @ [a] \<and> exchanges ms \<and> om_role a = ''assistant'')
      else exchanges new)"

lemma run_adds_step:
  assumes "ls_messages st' = ls_messages st @ new1" "exchanges new1" "run_adds new2 st' res"
  shows "run_adds (new1 @ new2) st res"
  using assms exchanges_append unfolding run_adds_def by (auto split: if_splits)

lemma loop_rounds_adds: "\<exists>new. run_adds new st (loop_rounds cfg env round n st)"
proof (induction n arbitrary: round st)
  case 0
  show ?case by (rule exI [of _ "[]"]) (simp add: run_adds_def ends_open_def)
next
  case (Suc n)
  note ok = run_round_ok [of st cfg env round]
  show ?case
  proof (cases "run_round cfg env round st")
    case (Continue st')
    with ok obtain new1 where 1: "ls_messages st' = ls_messages st @ new1" "exchanges new1"
      by (auto simp: round_ok_def)
    obtain new2 where "run_adds new2 st' (loop_rounds cfg env (round + 1) n st')"
      using Suc.IH by blast
    from run_adds_step [OF 1 this] Continue show ?thesis by auto
  next
    case (Respond t st')
    with ok show ?thesis by (auto simp: round_ok_def run_adds_def ends_open_def)
  next
    case (Fail e st')
    with ok show ?thesis
      by (cases e) (auto simp: round_ok_def run_adds_def ends_open_def)
  qed
qed

section \<open>What a run does to the outside\<close>

text \<open>
  A run that is watched: the same configuration and environment, over a state that carries a log as
  well. The model, the tools and the callbacks act on their part of the state as before and write
  into the log that they were called. The log is filled by the calls that the loop makes and by
  nothing else; erasing it gives the run that is not watched.
\<close>

datatype loop_event = EvChat | EvStart string | EvExec string | EvDone string | EvEnd

definition logged_config :: "'s loop_config \<Rightarrow> ('s \<times> loop_event list) loop_config" where
  "logged_config cfg = \<lparr>lc_grammar = lc_grammar cfg, lc_max_tokens = lc_max_tokens cfg,
     lc_max_rounds = lc_max_rounds cfg, lc_max_tool_result = lc_max_tool_result cfg,
     lc_overflow_hint = lc_overflow_hint cfg, lc_enable_thinking = lc_enable_thinking cfg,
     lc_first_round_thinking = lc_first_round_thinking cfg,
     lc_on_tool_start = Some (\<lambda>t (s, es).
       (case lc_on_tool_start cfg of Some f \<Rightarrow> f t s | None \<Rightarrow> s, es @ [EvStart t])),
     lc_on_tool_end = Some (\<lambda>(s, es).
       (let (r, s') = (case lc_on_tool_end cfg of Some f \<Rightarrow> f s | None \<Rightarrow> (None, s)) in (r, (s', es @ [EvEnd])))),
     lc_on_tool_exec = Some (\<lambda>t e (s, es).
       (case lc_on_tool_exec cfg of Some f \<Rightarrow> f t e s | None \<Rightarrow> s, es @ [EvDone t])),
     lc_progress = map_option (\<lambda>f t (s, es). (f t s, es)) (lc_progress cfg),
     lc_fallbacks = lc_fallbacks cfg, lc_mandated = lc_mandated cfg,
     lc_inject_timestamp = lc_inject_timestamp cfg, lc_soft_errors = lc_soft_errors cfg,
     lc_trim = lc_trim cfg, lc_user_goal = lc_user_goal cfg\<rparr>"

definition logged_tool ::
  "(string \<Rightarrow> 's \<Rightarrow> (tool_error + string) \<times> 's) \<Rightarrow> string \<Rightarrow> 's \<times> loop_event list
     \<Rightarrow> (tool_error + string) \<times> ('s \<times> loop_event list)" where
  "logged_tool exec j = (\<lambda>(s, es). (let (r, s') = exec j s in (r, (s', es @ [EvExec j]))))"

definition logged_env :: "'s loop_env \<Rightarrow> ('s \<times> loop_event list) loop_env" where
  "logged_env env = \<lparr>
     le_chat = (\<lambda>ci (s, es). (let (r, s') = le_chat env ci s in (r, (s', es @ [EvChat])))),
     le_tool = map_option logged_tool (le_tool env),
     le_clock = (\<lambda>x. le_clock env (fst x)), le_zone = le_zone env\<rparr>"

definition erase_log :: "('s \<times> loop_event list) loop_state \<Rightarrow> 's loop_state" where
  "erase_log st = \<lparr>ls_messages = ls_messages st, ls_parse_retries = ls_parse_retries st,
     ls_error_retries = ls_error_retries st, ls_world = fst (ls_world st)\<rparr>"

fun erase_end :: "('s \<times> loop_event list) round_end \<Rightarrow> 's round_end" where
  "erase_end (Continue st) = Continue (erase_log st)"
| "erase_end (Respond t st) = Respond t (erase_log st)"
| "erase_end (Fail e st) = Fail e (erase_log st)"

fun end_state :: "'s round_end \<Rightarrow> 's loop_state" where
  "end_state (Continue st) = st"
| "end_state (Respond t st) = st"
| "end_state (Fail e st) = st"

abbreviation log_of :: "('s \<times> loop_event list) loop_state \<Rightarrow> loop_event list" where
  "log_of st \<equiv> snd (ls_world st)"

text \<open>
  What a tool call leaves in the log: the slot is given up before it, its time is reported and the
  slot is taken back after it. A round is one call of the model and at most two tool calls, of which
  the first is not of a mandated tool.
\<close>

definition call_log :: "string \<times> string \<Rightarrow> loop_event list" where
  "call_log = (\<lambda>(t, j). [EvStart t, EvExec j, EvDone t, EvEnd])"

definition is_mandated :: "'s loop_config \<Rightarrow> string \<Rightarrow> bool" where
  "is_mandated cfg t = (Option.bind (lc_mandated cfg) (\<lambda>f. f t) \<noteq> None)"

definition calls_ok :: "'s loop_config \<Rightarrow> (string \<times> string) list \<Rightarrow> bool" where
  "calls_ok cfg calls \<longleftrightarrow> length calls \<le> 2 \<and> (calls = [] \<or> \<not> is_mandated cfg (fst (hd calls)))"

definition round_log :: "'s loop_config \<Rightarrow> loop_event list \<Rightarrow> bool" where
  "round_log cfg es \<longleftrightarrow> (\<exists>calls. es = EvChat # concat (map call_log calls) \<and> calls_ok cfg calls)"

lemma logged_config_simps [simp]:
  "max_rounds_of (logged_config cfg) = max_rounds_of cfg"
  "max_tool_result_of (logged_config cfg) = max_tool_result_of cfg"
  "overflow_hint_of (logged_config cfg) = overflow_hint_of cfg"
  "failure_of (logged_config cfg) = failure_of cfg"
  "lc_fallbacks (logged_config cfg) = lc_fallbacks cfg"
  "lc_mandated (logged_config cfg) = lc_mandated cfg"
  "lc_user_goal (logged_config cfg) = lc_user_goal cfg"
  "lc_progress (logged_config cfg) = map_option (\<lambda>f t (s, es). (f t s, es)) (lc_progress cfg)"
  by (simp_all add: logged_config_def max_rounds_of_def max_tool_result_of_def overflow_hint_of_def
      failure_of_def fun_eq_iff split: sum.splits)

lemma erase_log_simps [simp]:
  "ls_messages (erase_log st) = ls_messages st" "ls_world (erase_log st) = fst (ls_world st)"
  "ls_parse_retries (erase_log st) = ls_parse_retries st" "ls_error_retries (erase_log st) = ls_error_retries st"
  "erase_log (st\<lparr>ls_world := w\<rparr>) = (erase_log st)\<lparr>ls_world := fst w\<rparr>"
  "erase_log (st\<lparr>ls_parse_retries := n\<rparr>) = (erase_log st)\<lparr>ls_parse_retries := n\<rparr>"
  "erase_log (st\<lparr>ls_error_retries := n\<rparr>) = (erase_log st)\<lparr>ls_error_retries := n\<rparr>"
  "erase_log (add_msg m st) = add_msg m (erase_log st)"
  by (simp_all add: erase_log_def add_msg_def)

lemma add_msg_world [simp]: "ls_world (add_msg m st) = ls_world st"
  by (simp add: add_msg_def)

lemma call_tool_logged:
  "call_tool (logged_config cfg) (logged_tool exec) t j w =
     (let (r, s) = call_tool cfg exec t j (fst w) in (r, (s, snd w @ call_log (t, j))))"
  by (cases w) (simp add: call_tool_def logged_config_def logged_tool_def call_log_def Let_def
      split: prod.splits option.splits)

lemma run_fallback_logged:
  "erase_log (run_fallback (logged_config cfg) (logged_tool exec) fb dec f st)
     = run_fallback cfg exec fb dec f (erase_log st)"
  "\<exists>c. log_of (run_fallback (logged_config cfg) (logged_tool exec) fb dec f st) = log_of st @ call_log c"
  by (auto simp: run_fallback_def call_tool_logged Let_def split: prod.splits sum.splits)

lemma report_failure_logged:
  "erase_log (report_failure (logged_config cfg) dec res st) = report_failure cfg dec res (erase_log st)"
  "ls_world (report_failure c dec res st) = ls_world st"
  by (simp_all add: report_failure_def Let_def split: sum.splits)

lemma after_tool_logged:
  "erase_end (after_tool (logged_config cfg) (logged_tool exec) dec res st) = after_tool cfg exec dec res (erase_log st)"
  "\<exists>cs. log_of (end_state (after_tool (logged_config cfg) (logged_tool exec) dec res st))
       = log_of st @ concat (map call_log cs) \<and> length cs \<le> 1"
proof -
  show "erase_end (after_tool (logged_config cfg) (logged_tool exec) dec res st) = after_tool cfg exec dec res (erase_log st)"
    by (simp add: after_tool_def run_fallback_logged(1) report_failure_logged(1)
        split: sum.splits tool_error.splits option.splits)
  have fb: "\<exists>cs. log_of (run_fallback (logged_config cfg) (logged_tool exec) fb dec f st)
      = log_of st @ concat (map call_log cs) \<and> length cs \<le> 1" for fb f
    using run_fallback_logged(2) [of cfg exec fb dec f st] by (auto intro: exI [of _ "[_]"])
  have no: "\<exists>cs. log_of st = log_of st @ concat (map call_log cs) \<and> length cs \<le> 1"
    by (rule exI [of _ "[]"]) simp
  show "\<exists>cs. log_of (end_state (after_tool (logged_config cfg) (logged_tool exec) dec res st))
       = log_of st @ concat (map call_log cs) \<and> length cs \<le> 1"
    using fb no by (auto simp: after_tool_def report_failure_logged(2)
        split: sum.splits tool_error.splits option.splits)
qed

lemma tool_round_logged:
  "erase_end (tool_round (logged_config cfg) (logged_env env) round dec stored st)
     = tool_round cfg env round dec stored (erase_log st)"
  "\<exists>cs. log_of (end_state (tool_round (logged_config cfg) (logged_env env) round dec stored st))
       = log_of st @ concat (map call_log cs) \<and> calls_ok cfg cs"
proof -
  let ?n = "d_name dec" let ?j = "tool_json ?n (d_args dec)"
  let ?cfg = "logged_config cfg"
  let ?p = "''Step '' @ nat_dec (round + 1) @ ''/'' @ nat_dec (max_rounds_of cfg) @ '': calling '' @ ?n"
  define st2 where "st2 = add_msg (omsg ''assistant'' stored)
      (case lc_progress ?cfg of Some f \<Rightarrow> st\<lparr>ls_world := f ?p (ls_world st)\<rparr> | None \<Rightarrow> st)"
  have 2: "log_of st2 = log_of st" "erase_log st2 = add_msg (omsg ''assistant'' stored)
      (case lc_progress cfg of Some f \<Rightarrow> (erase_log st)\<lparr>ls_world := f ?p (ls_world (erase_log st))\<rparr> | None \<Rightarrow> erase_log st)"
    by (simp_all add: st2_def split: option.splits prod.splits)
  show "erase_end (tool_round ?cfg (logged_env env) round dec stored st) = tool_round cfg env round dec stored (erase_log st)"
    unfolding tool_round_def Let_def logged_config_simps(1) st2_def [symmetric] 2(2) [symmetric]
    by (simp add: logged_env_def call_tool_logged after_tool_logged(1) split: option.splits prod.splits)
  have no: "\<exists>cs. log_of st = log_of st @ concat (map call_log cs) \<and> calls_ok cfg cs"
    by (rule exI [of _ "[]"]) (simp add: calls_ok_def)
  have call: "\<exists>cs. log_of (end_state (after_tool ?cfg (logged_tool exec) dec r (st2\<lparr>ls_world := (s, log_of st2 @ call_log (?n, ?j))\<rparr>)))
      = log_of st @ concat (map call_log cs) \<and> calls_ok cfg cs"
    if "Option.bind (lc_mandated cfg) (\<lambda>f. f ?n) = None" for exec r s
  proof -
    obtain cs where cs: "log_of (end_state (after_tool ?cfg (logged_tool exec) dec r (st2\<lparr>ls_world := (s, log_of st2 @ call_log (?n, ?j))\<rparr>)))
        = (log_of st2 @ call_log (?n, ?j)) @ concat (map call_log cs)" "length cs \<le> 1"
      using after_tool_logged(2) [of cfg exec dec r "st2\<lparr>ls_world := (s, log_of st2 @ call_log (?n, ?j))\<rparr>"] by auto
    then show ?thesis using 2(1) that
      by (intro exI [of _ "(?n, ?j) # cs"]) (simp add: calls_ok_def is_mandated_def)
  qed
  show "\<exists>cs. log_of (end_state (tool_round ?cfg (logged_env env) round dec stored st))
       = log_of st @ concat (map call_log cs) \<and> calls_ok cfg cs"
    unfolding tool_round_def Let_def logged_config_simps(1) st2_def [symmetric]
    using no call 2(1)
    by (auto simp: logged_env_def call_tool_logged split: option.splits prod.splits)
qed

lemma stamp_system_logged: "stamp_system (logged_env env) w ms = stamp_system env (fst w) ms"
  by (simp add: stamp_system_def logged_env_def split: list.split)

lemma round_request_logged:
  "round_request (logged_config cfg) (logged_env env) round st = round_request cfg env round (erase_log st)"
  unfolding round_request_def stamp_system_logged Let_def erase_log_simps by (simp add: logged_config_def)

lemma run_round_logged:
  "erase_end (run_round (logged_config cfg) (logged_env env) round st) = run_round cfg env round (erase_log st)"
  "\<exists>es. log_of (end_state (run_round (logged_config cfg) (logged_env env) round st)) = log_of st @ es \<and> round_log cfg es"
proof -
  have chat: "le_chat (logged_env env) ci w = (let (r, s) = le_chat env ci (fst w) in (r, (s, snd w @ [EvChat])))" for ci w
    by (cases w) (simp add: logged_env_def)
  show "erase_end (run_round (logged_config cfg) (logged_env env) round st) = run_round cfg env round (erase_log st)"
    by (simp add: run_round_def chat round_request_logged tool_round_logged(1) Let_def
        split: prod.splits sum.splits option.splits)
  have one: "\<exists>es. log_of st @ [EvChat] = log_of st @ es \<and> round_log cfg es"
    by (rule exI [of _ "[EvChat]"]) (auto simp: round_log_def calls_ok_def intro!: exI [of _ "[]"])
  have tool: "\<exists>es. log_of (end_state (tool_round (logged_config cfg) (logged_env env) round dec stored st1)) = log_of st @ es \<and> round_log cfg es"
    if "log_of st1 = log_of st @ [EvChat]" for dec stored st1
    using tool_round_logged(2) [of cfg env round dec stored st1] that by (auto simp: round_log_def)
  show "\<exists>es. log_of (end_state (run_round (logged_config cfg) (logged_env env) round st)) = log_of st @ es \<and> round_log cfg es"
    using one tool
    by (simp add: run_round_def chat Let_def split: prod.splits sum.splits option.splits)
qed

lemma loop_rounds_logged:
  "fst (loop_rounds (logged_config cfg) (logged_env env) round n st) = fst (loop_rounds cfg env round n (erase_log st))
   \<and> erase_log (snd (loop_rounds (logged_config cfg) (logged_env env) round n st)) = snd (loop_rounds cfg env round n (erase_log st))
   \<and> (\<exists>rs. log_of (snd (loop_rounds (logged_config cfg) (logged_env env) round n st)) = log_of st @ concat rs \<and>
        length rs \<le> n \<and> list_all (round_log cfg) rs)"
proof (induction n arbitrary: round st)
  case 0
  show ?case by (auto intro!: exI [of _ "[]"])
next
  case (Suc n)
  obtain es where es: "log_of (end_state (run_round (logged_config cfg) (logged_env env) round st)) = log_of st @ es" "round_log cfg es"
    using run_round_logged(2) by blast
  note er = run_round_logged(1) [of cfg env round st, symmetric]
  have one: "\<exists>rs. log_of st @ es = log_of st @ concat rs \<and> length rs \<le> Suc n \<and> list_all (round_log cfg) rs"
    using es(2) by (intro exI [of _ "[es]"]) simp
  show ?case
  proof (cases "run_round (logged_config cfg) (logged_env env) round st")
    case (Continue st')
    obtain rs where "log_of (snd (loop_rounds (logged_config cfg) (logged_env env) (round + 1) n st')) = log_of st' @ concat rs"
      "length rs \<le> n" "list_all (round_log cfg) rs"
      using Suc.IH by blast
    then have "\<exists>rs. log_of (snd (loop_rounds (logged_config cfg) (logged_env env) (round + 1) n st')) = log_of st @ concat rs \<and>
        length rs \<le> Suc n \<and> list_all (round_log cfg) rs"
      using es Continue by (intro exI [of _ "es # rs"]) simp
    with Continue er Suc.IH show ?thesis by simp
  qed (use er es one in auto)
qed

section \<open>What a run does to the world\<close>

text \<open>A property of the caller's state that the model, the tools and the callbacks all keep.\<close>

definition keeps :: "('s \<Rightarrow> bool) \<Rightarrow> 's loop_config \<Rightarrow> 's loop_env \<Rightarrow> bool" where
  "keeps P cfg env \<longleftrightarrow>
     (\<forall>s. P s \<longrightarrow>
        (\<forall>ci. P (snd (le_chat env ci s))) \<and>
        (\<forall>f. le_tool env = Some f \<longrightarrow> (\<forall>j. P (snd (f j s)))) \<and>
        (\<forall>f. lc_on_tool_start cfg = Some f \<longrightarrow> (\<forall>t. P (f t s))) \<and>
        (\<forall>f. lc_on_tool_exec cfg = Some f \<longrightarrow> (\<forall>t e. P (f t e s))) \<and>
        (\<forall>f. lc_on_tool_end cfg = Some f \<longrightarrow> P (snd (f s))) \<and>
        (\<forall>f. lc_progress cfg = Some f \<longrightarrow> (\<forall>t. P (f t s))))"

lemma call_tool_keeps:
  assumes "keeps P cfg env" "le_tool env = Some exec" "P s"
  shows "P (snd (call_tool cfg exec t j s))"
  using assms
  by (auto simp: call_tool_def keeps_def Let_def split: prod.splits option.splits) (metis snd_conv)+

text \<open>It is enough that a whole tool call, between its callbacks, keeps the property.\<close>

definition keeps_calls :: "('s \<Rightarrow> bool) \<Rightarrow> 's loop_config \<Rightarrow> 's loop_env \<Rightarrow> bool" where
  "keeps_calls P cfg env \<longleftrightarrow>
     (\<forall>s. P s \<longrightarrow>
        (\<forall>ci. P (snd (le_chat env ci s))) \<and>
        (\<forall>exec t j. le_tool env = Some exec \<longrightarrow> P (snd (call_tool cfg exec t j s))) \<and>
        (\<forall>f. lc_progress cfg = Some f \<longrightarrow> (\<forall>t. P (f t s))))"

lemma keeps_keeps_calls: "keeps P cfg env \<Longrightarrow> keeps_calls P cfg env"
  using call_tool_keeps [of P cfg env] by (auto simp: keeps_calls_def keeps_def)

lemma run_fallback_keeps:
  assumes "keeps_calls P cfg env" "le_tool env = Some exec" "P (ls_world st)"
  shows "P (ls_world (run_fallback cfg exec fb dec msg st))"
proof -
  let ?j = "build_tool_json (fb_tool fb) (fb_args fb (d_name dec) (d_args dec) msg)"
  have "P (snd ((call_tool cfg exec (fb_tool fb) ?j (ls_world st))))"
    using assms unfolding keeps_calls_def by blast
  then show ?thesis by (auto simp: run_fallback_def Let_def split: prod.splits sum.splits)
qed

lemma report_failure_world [simp]: "ls_world (report_failure cfg dec res st) = ls_world st"
  by (simp add: report_failure_def Let_def split: sum.splits)

lemma after_tool_keeps:
  assumes "keeps_calls P cfg env" "le_tool env = Some exec" "P (ls_world st)"
  shows "P (ls_world (end_state (after_tool cfg exec dec res st)))"
  using assms(3) run_fallback_keeps [OF assms]
  by (simp add: after_tool_def split: sum.splits tool_error.splits option.splits)

lemma tool_round_keeps:
  assumes "keeps_calls P cfg env" "P (ls_world st)"
  shows "P (ls_world (end_state (tool_round cfg env round dec stored st)))"
proof -
  define st2 where "st2 = add_msg (omsg ''assistant'' stored)
      (case lc_progress cfg of
         Some f \<Rightarrow> st\<lparr>ls_world := f (''Step '' @ nat_dec (round + 1) @ ''/'' @ nat_dec (max_rounds_of cfg)
                        @ '': calling '' @ d_name dec) (ls_world st)\<rparr>
       | None \<Rightarrow> st)"
  have P2: "P (ls_world st2)"
    using assms by (auto simp: st2_def keeps_calls_def split: option.splits)
  have "P (ls_world (end_state (after_tool cfg exec dec r (st2\<lparr>ls_world := w\<rparr>))))"
    if "le_tool env = Some exec" "call_tool cfg exec (d_name dec) (tool_json (d_name dec) (d_args dec)) (ls_world st2) = (r, w)"
    for exec r w
  proof -
    have "P (snd ((call_tool cfg exec (d_name dec) (tool_json (d_name dec) (d_args dec)) (ls_world st2))))"
      using assms(1) that(1) P2 unfolding keeps_calls_def by blast
    then show ?thesis using that after_tool_keeps [OF assms(1) that(1)] by simp
  qed
  then show ?thesis using P2
    unfolding tool_round_def st2_def [symmetric] Let_def
    by (auto split: option.splits prod.splits)
qed

lemma run_round_keeps:
  assumes "keeps_calls P cfg env" "P (ls_world st)"
  shows "P (ls_world (end_state (run_round cfg env round st)))"
proof -
  obtain res s where c: "le_chat env (round_request cfg env round st) (ls_world st) = (res, s)"
    by (rule prod.exhaust)
  then have P: "P s" using assms unfolding keeps_calls_def by (metis snd_conv)
  then show ?thesis
    unfolding run_round_def c Let_def
    by (auto simp: tool_round_keeps [OF assms(1)] split: sum.splits prod.splits option.splits)
qed

lemma loop_rounds_keeps_calls:
  "keeps_calls P cfg env \<Longrightarrow> P (ls_world st) \<Longrightarrow> P (ls_world (snd (loop_rounds cfg env round n st)))"
proof (induction n arbitrary: round st)
  case (Suc n)
  from run_round_keeps [OF Suc.prems, of round] Suc.IH Suc.prems(1) show ?case
    by (cases "run_round cfg env round st") auto
qed simp

lemma loop_rounds_keeps:
  "keeps P cfg env \<Longrightarrow> P (ls_world st) \<Longrightarrow> P (ls_world (snd (loop_rounds cfg env round n st)))"
  by (rule loop_rounds_keeps_calls [OF keeps_keeps_calls])

text \<open>
  C1: a run of the tool loop is an orderly dialogue of bounded length. It keeps the messages it was
  given and adds exchanges, a decision of the model and the answer of a tool, and last the response
  (or the decision that asks for a background job). Watched from outside, with a log that the model,
  the tools and the callbacks fill when they are called and that changes nothing else, it is a
  sequence of at most as many rounds as configured; each round calls the model once and then at most
  two tools, and each tool call is preceded by the callback that releases the slot and followed by
  the ones that report it and reacquire the slot.
\<close>

theorem run_loop_dialogue:
  "\<exists>new rounds.
     ls_messages (snd (run_loop cfg env ms s)) = ms @ new \<and>
     (if ends_open (fst (run_loop cfg env ms s))
      then (\<exists>xs a. new = xs @ [a] \<and> exchanges xs \<and> om_role a = ''assistant'') else exchanges new) \<and>
     fst (run_loop (logged_config cfg) (logged_env env) ms (s, [])) = fst (run_loop cfg env ms s) \<and>
     erase_log (snd (run_loop (logged_config cfg) (logged_env env) ms (s, []))) = snd (run_loop cfg env ms s) \<and>
     log_of (snd (run_loop (logged_config cfg) (logged_env env) ms (s, []))) = concat rounds \<and>
     length rounds \<le> max_rounds_of cfg \<and> list_all (round_log cfg) rounds"
proof -
  have e: "erase_log (start_state ms (s, [])) = start_state ms s" by (simp add: erase_log_def start_state_def)
  have l: "log_of (start_state ms (s, [])) = []" by (simp add: start_state_def)
  from loop_rounds_adds [of "start_state ms s" cfg env 0 "max_rounds_of cfg"]
    loop_rounds_logged [of cfg env 0 "max_rounds_of cfg" "start_state ms (s, [])", unfolded e l]
  show ?thesis by (auto simp: run_adds_def run_loop_def start_state_def)
qed

text \<open>A watched run, evaluated: one round, in which the model asks for one tool.\<close>

definition demo_decision :: string where
  "demo_decision = ''{'' @ json_quote ''action'' @ '':'' @ json_quote ''tool'' @ '','' @ json_quote ''name'' @ '':''
     @ json_quote ''search'' @ ''}''"

definition demo_loop_config :: "unit loop_config" where
  "demo_loop_config = \<lparr>lc_grammar = [], lc_max_tokens = 0, lc_max_rounds = 1, lc_max_tool_result = 0,
     lc_overflow_hint = [], lc_enable_thinking = False, lc_first_round_thinking = False,
     lc_on_tool_start = None, lc_on_tool_end = None, lc_on_tool_exec = None, lc_progress = None,
     lc_fallbacks = None, lc_mandated = Some [''create_skill'' \<mapsto> ''skill''], lc_inject_timestamp = False,
     lc_soft_errors = True, lc_trim = None, lc_user_goal = []\<rparr>"

definition demo_loop_env :: "unit loop_env" where
  "demo_loop_env = \<lparr>le_chat = (\<lambda>ci s. (Inr demo_decision, s)), le_tool = Some (\<lambda>j s. (Inr ''5 hits'', s)),
     le_clock = (\<lambda>_. 0), le_zone = 0\<rparr>"

lemma demo_loop_run:
  "log_of (snd (run_loop (logged_config demo_loop_config) (logged_env demo_loop_env) [] ((), [])))
     = [EvChat, EvStart ''search'', EvExec (tool_json ''search'' None), EvDone ''search'', EvEnd]"
  by code_simp

end
