(* ===== verification/Registry.thy ===== *)
theory Registry
  imports Orchestrate ToolArgs "HOL-Library.AList"
begin

text \<open>
  The tool registry (\<open>toolreg/registry.go\<close>), the list of tools a delegate may use
  (\<open>toolreg/delegate_config.go\<close>), the scoped execution and the subagent supervisor
  (\<open>clients/subagent_supervisor.go\<close>), which runs the tool loop of \<open>Orchestrate\<close> over it.
\<close>

section \<open>Tools and schemas\<close>

record param_schema =
  ps_name :: string
  ps_type :: string
  ps_required :: bool

record tool_schema =
  ts_name :: string
  ts_params :: "param_schema list"
  ts_description :: string
  ts_progress :: string
  ts_is_skill :: bool

text \<open>
  The error of a tool function, as far as \<open>Execute\<close> tells errors apart: a \<open>ToolError\<close> in its chain,
  a background job request in its chain, or its text.
\<close>

datatype call_error = IsToolError string | IsBackground background_job_request | IsOther string

definition call_error_text :: "call_error \<Rightarrow> string" where
  "call_error_text e = (case e of IsToolError t \<Rightarrow> t | IsOther t \<Rightarrow> t
     | IsBackground b \<Rightarrow> error_text (ToolBackground b))"

type_synonym 's tool_fn = "string option \<Rightarrow> 's \<Rightarrow> (call_error + string) \<times> 's"

text \<open>
  The schemas are listed in the order an iteration over the map takes. \<open>OnAuthError\<close> may be nil.
\<close>

record 's registry =
  reg_tools :: "string \<rightharpoonup> 's tool_fn"
  reg_schemas :: "(string \<times> tool_schema) list"
  reg_on_auth_error :: "(string \<Rightarrow> 's \<Rightarrow> 's) option"

definition new_registry :: "'s registry" where
  "new_registry = \<lparr>reg_tools = Map.empty, reg_schemas = [], reg_on_auth_error = None\<rparr>"

definition reg_has :: "'s registry \<Rightarrow> string \<Rightarrow> bool" where
  "reg_has r name \<longleftrightarrow> reg_tools r name \<noteq> None"

definition reg_unregister :: "string \<Rightarrow> 's registry \<Rightarrow> 's registry" where
  "reg_unregister name r =
     r\<lparr>reg_tools := (reg_tools r)(name := None), reg_schemas := AList.delete name (reg_schemas r)\<rparr>"

definition reg_register :: "string \<Rightarrow> 's tool_fn \<Rightarrow> tool_schema list \<Rightarrow> 's registry \<Rightarrow> 's registry" where
  "reg_register name fn schema r =
     (let r1 = r\<lparr>reg_tools := (reg_tools r)(name \<mapsto> fn)\<rparr> in
      case schema of [] \<Rightarrow> r1 | s # _ \<Rightarrow> r1\<lparr>reg_schemas := AList.update name s (reg_schemas r1)\<rparr>)"

definition respond_schema :: tool_schema where
  "respond_schema = \<lparr>ts_name = ''respond'',
     ts_params = [\<lparr>ps_name = ''text'', ps_type = ''string'', ps_required = True\<rparr>],
     ts_description = [], ts_progress = [], ts_is_skill = False\<rparr>"

definition schemas :: "'s registry \<Rightarrow> tool_schema list" where
  "schemas r = map snd (reg_schemas r) @ [respond_schema]"

definition schema_for :: "'s registry \<Rightarrow> string \<Rightarrow> tool_schema option" where
  "schema_for r name = map_of (reg_schemas r) name"

definition schemas_for_tools :: "'s registry \<Rightarrow> string list \<Rightarrow> tool_schema list" where
  "schemas_for_tools r names = List.map_filter (schema_for r) names"

definition get_progress_label :: "'s registry \<Rightarrow> string \<Rightarrow> string" where
  "get_progress_label r name =
     (case schema_for r name of
        Some s \<Rightarrow> if ts_progress s \<noteq> [] then ts_progress s else ''Working on it...''
      | None \<Rightarrow> ''Working on it...'')"

section \<open>The index in the prompt\<close>

definition em_dash :: string where "em_dash = [CHR 0x20, CHR 0xE2, CHR 0x80, CHR 0x94, CHR 0x20]"

definition tool_line :: "tool_schema \<Rightarrow> string" where
  "tool_line s =
     ''- '' @ ts_name s
     @ (if ts_params s \<noteq> []
        then ''('' @ str_join '', '' (map (\<lambda>p. (if ps_required p then ''*'' else []) @ ps_name p) (ts_params s)) @ '')''
        else [])
     @ (if ts_description s \<noteq> [] then em_dash @ ts_description s else [])
     @ [CHR 0x0A]"

definition skill_line :: "tool_schema \<Rightarrow> string" where
  "skill_line s =
     ''- '' @ ts_name s @ '': '' @ ts_description s
     @ (if ts_params s \<noteq> []
        then '' Arguments: {'' @ str_join '', '' (map (\<lambda>p. [CHR 0x22] @ ps_name p @ [CHR 0x22] @ '': '' @ [CHR 0x22]
               @ ''<'' @ ps_type p @ ''>'' @ [CHR 0x22]) (ts_params s)) @ ''}''
        else '' No arguments.'')
     @ [CHR 0x0A]"

definition compact_index :: "'s registry \<Rightarrow> string" where
  "compact_index r =
     concat (map tool_line (filter (\<lambda>s. ts_name s \<noteq> ''respond'' \<and> \<not> ts_is_skill s) (map snd (reg_schemas r))))"

definition dynamic_skill_descriptions :: "'s registry \<Rightarrow> string" where
  "dynamic_skill_descriptions r =
     (let b = concat (map skill_line (filter (\<lambda>s. ts_is_skill s \<and> ts_description s \<noteq> []) (map snd (reg_schemas r))))
      in if b = [] then [] else ''## Skills'' @ [CHR 0x0A, CHR 0x0A] @ b)"

definition full_tool_index :: "'s registry \<Rightarrow> string" where
  "full_tool_index r =
     compact_index r
     @ (if dynamic_skill_descriptions r \<noteq> [] then [CHR 0x0A] @ dynamic_skill_descriptions r else [])"

section \<open>Execution\<close>

text \<open>\<open>json.Unmarshal\<close> into a \<open>ToolCall\<close>: the name and the raw arguments.\<close>

definition tool_call_step ::
  "string \<times> string option \<times> bool \<Rightarrow> string \<times> string \<times> json \<Rightarrow> string \<times> string option \<times> bool" where
  "tool_call_step = (\<lambda>(n, a, e) (k, raw, v).
     (let f = field_of [''name'', ''arguments''] k in
      if f = Some ''name'' then (let (n', b) = set_string v n in (n', a, e \<or> b))
      else if f = Some ''arguments'' then (n, Some raw, e)
      else (n, a, e)))"

definition parse_tool_call :: "string \<Rightarrow> (string \<times> string option) option" where
  "parse_tool_call raw =
     (case json_parse raw of
        Some JNull \<Rightarrow> Some ([], None)
      | Some (JObj ms) \<Rightarrow>
          (let (n, a, e) = foldl tool_call_step ([], None, False) ms in if e then None else Some (n, a))
      | _ \<Rightarrow> None)"

definition auth_error_message :: string where
  "auth_error_message = [CHR 0xE2, CHR 0x9A, CHR 0xA0, CHR 0xEF, CHR 0xB8, CHR 0x8F]
     @ '' Google authorization has expired. Use /google to re-authenticate.''"

definition is_auth_error :: "string \<Rightarrow> bool" where
  "is_auth_error msg \<longleftrightarrow>
     str_contains msg ''invalid_grant'' \<or> str_contains msg ''Token has been expired or revoked'' \<or>
     str_contains msg ''token expired'' \<or> str_contains msg ''oauth2: cannot fetch token''"

definition auth_alert :: "'s registry \<Rightarrow> string \<Rightarrow> 's \<Rightarrow> 's" where
  "auth_alert r name s = (case reg_on_auth_error r of Some f \<Rightarrow> f name s | None \<Rightarrow> s)"

text \<open>\<open>Execute\<close>; the error of a tool keeps its background job request for the loop.\<close>

definition to_tool_error :: "call_error \<Rightarrow> tool_error" where
  "to_tool_error e = (case e of IsBackground b \<Rightarrow> ToolBackground b | _ \<Rightarrow> ToolFailed (call_error_text e))"

definition reg_execute :: "'s registry \<Rightarrow> string \<Rightarrow> 's \<Rightarrow> (tool_error + string) \<times> 's" where
  "reg_execute r raw s =
     (case parse_tool_call raw of
        None \<Rightarrow> (Inl (ToolFailed ''invalid tool call JSON''), s)
      | Some (name, args) \<Rightarrow>
          (case reg_tools r name of
             None \<Rightarrow> (Inl (ToolFailed (''unknown tool: '' @ name)), s)
           | Some fn \<Rightarrow>
               (case fn args s of
                  (Inl (IsToolError t), s') \<Rightarrow>
                    (Inr t, if str_contains t ''authorization'' then auth_alert r name s' else s')
                | (Inl e, s') \<Rightarrow>
                    if is_auth_error (call_error_text e) then (Inr auth_error_message, auth_alert r name s')
                    else (Inl (to_tool_error e), s')
                | (Inr t, s') \<Rightarrow> (Inr t, s'))))"

section \<open>Delegation\<close>

record delegate_config =
  dc_grammar :: string
  dc_allowed :: "string set"

definition new_delegate_config :: "string list \<Rightarrow> string \<Rightarrow> delegate_config" where
  "new_delegate_config tools g = \<lparr>dc_grammar = g, dc_allowed = set tools\<rparr>"

definition update_delegates :: "string list \<Rightarrow> string \<Rightarrow> delegate_config \<Rightarrow> delegate_config" where
  "update_delegates tools g dc = dc\<lparr>dc_grammar := g, dc_allowed := set tools\<rparr>"

definition dc_is_allowed :: "delegate_config \<Rightarrow> string \<Rightarrow> bool" where
  "dc_is_allowed dc name \<longleftrightarrow> name \<in> dc_allowed dc"

definition scoped_tool_exec ::
  "'s registry \<Rightarrow> delegate_config \<Rightarrow> string \<Rightarrow> 's \<Rightarrow> (tool_error + string) \<times> 's" where
  "scoped_tool_exec r dc raw s =
     (case parse_tool_call raw of
        None \<Rightarrow> (Inl (ToolFailed ''invalid tool call JSON''), s)
      | Some (name, args) \<Rightarrow>
          if \<not> dc_is_allowed dc name then (Inr (''tool '' @ go_quote name @ '' is not available''), s)
          else reg_execute r raw s)"

text \<open>\<open>SubagentSupervisor\<close>: \<open>complete\<close> is the multi-turn completion of the client.\<close>

definition subagent_max_tokens :: int where "subagent_max_tokens = 2048"

definition supervisor_config :: "string \<Rightarrow> int \<Rightarrow> (string \<Rightarrow> 's \<Rightarrow> 's) option \<Rightarrow> 's loop_config" where
  "supervisor_config g rounds progress =
     \<lparr>lc_grammar = g, lc_max_tokens = subagent_max_tokens, lc_max_rounds = rounds, lc_max_tool_result = 0,
      lc_overflow_hint = [], lc_enable_thinking = False, lc_first_round_thinking = False,
      lc_on_tool_start = None, lc_on_tool_end = None, lc_on_tool_exec = None, lc_progress = progress,
      lc_fallbacks = None, lc_mandated = None, lc_inject_timestamp = False, lc_soft_errors = True,
      lc_trim = None, lc_user_goal = []\<rparr>"

definition subagent_supervisor ::
  "(omessage list \<Rightarrow> string \<Rightarrow> int \<Rightarrow> 's \<Rightarrow> (string + string) \<times> 's) \<Rightarrow> string \<Rightarrow> string \<Rightarrow> string
     \<Rightarrow> (string \<Rightarrow> 's \<Rightarrow> (tool_error + string) \<times> 's) \<Rightarrow> int \<Rightarrow> (string \<Rightarrow> 's \<Rightarrow> 's) option \<Rightarrow> 's
     \<Rightarrow> (loop_error + string) \<times> 's" where
  "subagent_supervisor complete g systemPrompt directive toolExec rounds progress s =
     (let (res, st) = run_loop (supervisor_config g rounds progress)
        \<lparr>le_chat = (\<lambda>req s. complete (ci_messages req) (ci_grammar req) (ci_max_tokens req) s),
         le_tool = Some toolExec, le_clock = (\<lambda>_. 0), le_zone = 0\<rparr>
        [omsg ''system'' systemPrompt, omsg ''user'' directive] s
      in (res, ls_world st))"

text \<open>
  \<open>NewDelegateTask\<close>: the tool \<open>delegate_task\<close>. \<open>sysPrompt\<close> is the text of \<open>prompts/\<close>; an error of the
  arguments or of the run is the result, never an error.
\<close>

definition max_delegate_context_len :: nat where "max_delegate_context_len = 12000"

definition delegate_directive :: "string \<Rightarrow> string \<Rightarrow> string" where
  "delegate_directive directive context =
     (if context \<noteq> [] then
        directive @ [CHR 0x0A, CHR 0x0A] @ ''## Context'' @ [CHR 0x0A]
          @ (if length context > max_delegate_context_len
             then take max_delegate_context_len context @ [CHR 0x0A] @ ''... (truncated)'' else context)
      else directive)"

definition delegate_task ::
  "(omessage list \<Rightarrow> string \<Rightarrow> int \<Rightarrow> 's \<Rightarrow> (string + string) \<times> 's) \<Rightarrow> string \<Rightarrow> (loop_error \<Rightarrow> string) \<Rightarrow> 's registry
     \<Rightarrow> delegate_config \<Rightarrow> string option \<Rightarrow> 's \<Rightarrow> string \<times> 's" where
  "delegate_task complete sysPrompt err_text r dc args s =
     (case struct_members args of
        None \<Rightarrow> (''invalid arguments'', s)
      | Some ms \<Rightarrow>
          (let names = [''directive'', ''context''];
               (directive, e1) = arg_string names ''directive'' ms;
               (context, e2) = arg_string names ''context'' ms
           in if e1 \<or> e2 then (''invalid arguments'', s)
              else if trim_space directive = [] then (''directive is required'', s)
              else (case subagent_supervisor complete (dc_grammar dc) sysPrompt (delegate_directive directive context)
                           (scoped_tool_exec r dc) 10 None s of
                      (Inl err, s') \<Rightarrow> (''delegate_task failed: '' @ err_text err, s')
                    | (Inr res, s') \<Rightarrow> (res, s'))))"

section \<open>Delegates stay within their tools\<close>

lemma auth_alert_keeps:
  assumes "\<And>f t s. reg_on_auth_error r = Some f \<Longrightarrow> P s \<Longrightarrow> P (f t s)" "P s"
  shows "P (auth_alert r name s)"
  using assms by (auto simp: auth_alert_def split: option.splits)

lemma reg_execute_keeps:
  assumes "\<And>fn. reg_tools r name = Some fn \<Longrightarrow> P (snd (fn args s))"
    and "\<And>f t s. reg_on_auth_error r = Some f \<Longrightarrow> P s \<Longrightarrow> P (f t s)"
    and "parse_tool_call raw = Some (name, args)" "P s"
  shows "P (snd (reg_execute r raw s))"
proof (cases "reg_tools r name")
  case None
  then show ?thesis using assms(3,4) by (simp add: reg_execute_def)
next
  case (Some fn)
  obtain res s' where fn: "fn args s = (res, s')" by (rule prod.exhaust)
  with assms(1) [OF Some] have P: "P s'" by simp
  moreover have "P (auth_alert r name s')"
    using assms(2) P by (rule auth_alert_keeps)
  ultimately show ?thesis using Some fn assms(3)
    by (auto simp: reg_execute_def split: sum.splits call_error.splits)
qed

lemma scoped_keeps:
  assumes "\<And>name fn args s. name \<in> dc_allowed dc \<Longrightarrow> reg_tools r name = Some fn \<Longrightarrow> P s \<Longrightarrow> P (snd (fn args s))"
    and "\<And>f t s. reg_on_auth_error r = Some f \<Longrightarrow> P s \<Longrightarrow> P (f t s)" "P s"
  shows "P (snd (scoped_tool_exec r dc raw s))"
proof (cases "parse_tool_call raw")
  case (Some p)
  obtain name args where p: "p = (name, args)" by (rule prod.exhaust)
  show ?thesis
  proof (cases "name \<in> dc_allowed dc")
    case True
    have "P (snd (reg_execute r raw s))"
      using True Some p assms by (intro reg_execute_keeps [of r name P args s raw]) auto
    with True Some p show ?thesis by (simp add: scoped_tool_exec_def dc_is_allowed_def)
  next
    case False
    with Some p assms(3) show ?thesis by (simp add: scoped_tool_exec_def dc_is_allowed_def)
  qed
qed (use assms(3) in \<open>simp add: scoped_tool_exec_def\<close>)

text \<open>
  C23: a delegate is confined to its tools. Whatever the model writes, a property of the world that
  the completion and every allowed tool keep is kept by the whole delegated run: the tools outside
  the list of the delegate, registered or not, have no influence on it.
\<close>

theorem delegate_confined:
  assumes "\<And>name fn args s. dc_is_allowed dc name \<Longrightarrow> reg_tools r name = Some fn \<Longrightarrow> P s \<Longrightarrow> P (snd (fn args s))"
    and "\<And>f t s. reg_on_auth_error r = Some f \<Longrightarrow> P s \<Longrightarrow> P (f t s)"
    and "\<And>ms g n s. P s \<Longrightarrow> P (snd (complete ms g n s))" and "P s"
  shows "P (snd (delegate_task complete sysPrompt err_text r dc args s))"
proof -
  have "P (snd (subagent_supervisor complete g sp d (scoped_tool_exec r dc) 10 None s))" for g sp d
  proof -
    let ?env = "\<lparr>le_chat = (\<lambda>req s. complete (ci_messages req) (ci_grammar req) (ci_max_tokens req) s),
         le_tool = Some (scoped_tool_exec r dc), le_clock = (\<lambda>_. 0), le_zone = 0\<rparr>"
    have "keeps P (supervisor_config g 10 None) ?env"
      using scoped_keeps [of dc r P] assms(1-3)
      by (auto simp: keeps_def supervisor_config_def dc_is_allowed_def)
    from loop_rounds_keeps [OF this, of "start_state [omsg ''system'' sp, omsg ''user'' d] s"] assms(4)
    show ?thesis
      by (simp add: subagent_supervisor_def run_loop_def start_state_def case_prod_beta)
  qed
  then show ?thesis using assms(4)
    by (simp add: delegate_task_def Let_def case_prod_beta split: option.split sum.split)
qed

definition demo_registry :: "string list registry" where
  "demo_registry = \<lparr>reg_tools = [''search'' \<mapsto> (\<lambda>a s. (Inr ''5 hits'', ''search'' # s)),
       ''shell'' \<mapsto> (\<lambda>a s. (Inr ''done'', ''shell'' # s))],
     reg_schemas = [], reg_on_auth_error = None\<rparr>"

definition demo_shell_call :: string where
  "demo_shell_call = ''{'' @ json_quote ''action'' @ '':'' @ json_quote ''tool'' @ '','' @ json_quote ''name'' @ '':''
     @ json_quote ''shell'' @ ''}''"

theorem delegate_confined_witness:
  "''shell'' \<notin> set (snd (delegate_task (\<lambda>ms g n s. (Inr demo_shell_call, s)) ''You are a delegate'' (\<lambda>e. [])
     demo_registry (new_delegate_config [''search''] []) (Some (''{'' @ json_quote ''directive'' @ '':'' @ json_quote ''x'' @ ''}''))
     []))"
  by (rule delegate_confined [of _ _ "\<lambda>s. ''shell'' \<notin> set s"])
    (auto simp: demo_registry_def new_delegate_config_def dc_is_allowed_def split: if_splits)

end
