(* ===== verification/PlanExec.thy ===== *)
theory PlanExec
  imports Registry
begin

text \<open>
  Plans (\<open>worktracker/plan_execute.go\<close>): the scratchpad that carries context from step to step, the
  decomposition of a directive into steps, their execution with one replanning, and the tool
  \<open>plan_and_execute\<close>. The language models and the clock behind the contexts are parameters.
\<close>

section \<open>The scratchpad\<close>

definition scratchpad_budget :: nat where "scratchpad_budget = 1500"

type_synonym scratchpad = "(string \<times> string) list"

fun pad_put :: "string \<Rightarrow> string \<Rightarrow> scratchpad \<Rightarrow> scratchpad" where
  "pad_put key v [] = [(key, v)]"
| "pad_put key v ((k, w) # es) = (if k = key then (k, v) # es else (k, w) # pad_put key v es)"

definition pad_set :: "string \<Rightarrow> string \<Rightarrow> scratchpad \<Rightarrow> scratchpad" where
  "pad_set key value p = pad_put key (truncate_str value scratchpad_budget) p"

fun pad_get :: "string \<Rightarrow> scratchpad \<Rightarrow> string" where
  "pad_get key [] = []"
| "pad_get key ((k, w) # es) = (if k = key then w else pad_get key es)"

definition format_for_prompt :: "scratchpad \<Rightarrow> string" where
  "format_for_prompt p = concat (map (\<lambda>(k, v). ''- '' @ k @ '': '' @ v @ [CHR 0x0A]) p)"

section \<open>Plans\<close>

record plan_step =
  step_description :: string
  tools_needed :: "string list"

record step_result =
  sr_step :: nat
  sr_description :: string
  sr_result :: string
  sr_success :: bool

text \<open>
  \<open>json.Unmarshal\<close> into a \<open>taskPlan\<close>; when a key occurs twice the last value counts.
\<close>

fun decode_strings :: "json \<Rightarrow> string list \<times> bool" where
  "decode_strings JNull = ([], False)"
| "decode_strings (JArr vs) =
     (let rs = map (\<lambda>v. set_string v []) vs in (map fst rs, list_ex snd rs))"
| "decode_strings _ = ([], True)"

fun decode_step :: "json \<Rightarrow> plan_step \<times> bool" where
  "decode_step JNull = (\<lparr>step_description = [], tools_needed = []\<rparr>, False)"
| "decode_step (JObj ms) =
     (let names = [''description'', ''tools_needed''];
          (d, e1) = arg_string names ''description'' ms;
          ts = map decode_strings (arg_values names ''tools_needed'' ms)
      in (\<lparr>step_description = d, tools_needed = (if ts = [] then [] else fst (last ts))\<rparr>, e1 \<or> list_ex snd ts))"
| "decode_step _ = (\<lparr>step_description = [], tools_needed = []\<rparr>, True)"

fun decode_steps :: "json \<Rightarrow> plan_step list \<times> bool" where
  "decode_steps JNull = ([], False)"
| "decode_steps (JArr vs) = (let rs = map decode_step vs in (map fst rs, list_ex snd rs))"
| "decode_steps _ = ([], True)"

text \<open>\<open>ParseLLMJSON[taskPlan]\<close>.\<close>

definition parse_plan :: "string \<Rightarrow> plan_step list option" where
  "parse_plan raw =
     (case struct_members (Some (clean_llm_json raw)) of
        None \<Rightarrow> None
      | Some ms \<Rightarrow>
          (let ss = map decode_steps (arg_values [''steps''] ''steps'' ms)
           in if list_ex snd ss then None else Some (if ss = [] then [] else fst (last ss))))"

text \<open>
  What surrounds a plan: the deep thinker with and without thinking (\<open>None\<close>: no client), the
  multi-turn completion of the subagent, the tools and the list of the delegate, whether the context
  has ended and with which error, the progress callback, the texts of errors and prompts.
\<close>

record 's plan_env =
  pe_dtc :: "((string \<Rightarrow> string \<Rightarrow> int \<Rightarrow> 's \<Rightarrow> (string + string) \<times> 's) \<times>
              (string \<Rightarrow> string \<Rightarrow> int \<Rightarrow> 's \<Rightarrow> (string + string) \<times> 's)) option"
  pe_complete :: "omessage list \<Rightarrow> string \<Rightarrow> int \<Rightarrow> 's \<Rightarrow> (string + string) \<times> 's"
  pe_registry :: "'s registry"
  pe_delegate :: delegate_config
  pe_ctx :: "'s \<Rightarrow> string option"
  pe_progress :: "(nat \<Rightarrow> nat \<Rightarrow> 's \<Rightarrow> 's) option"
  pe_err_text :: "loop_error \<Rightarrow> string"
  pe_plan_prompt :: string
  pe_replan_prompt :: string

definition max_plan_steps :: nat where "max_plan_steps = 6"
definition max_replan_steps :: nat where "max_replan_steps = 4"
definition plan_decomposition_tokens :: int where "plan_decomposition_tokens = 2048"
definition plan_step_tokens :: int where "plan_step_tokens = 4096"

definition nl :: string where "nl = [CHR 0x0A]"

text \<open>\<open>decomposePlan\<close>; a nil client, on which Go panics, is an error here.\<close>

definition decompose_plan :: "'s plan_env \<Rightarrow> string \<Rightarrow> string \<Rightarrow> 's \<Rightarrow> (string + plan_step list) \<times> 's" where
  "decompose_plan env directive extraContext s =
     (let userContent = (if extraContext \<noteq> [] then directive @ nl @ nl @ ''Context:'' @ nl @ extraContext else directive) in
      case pe_dtc env of
        None \<Rightarrow> (Inl ''plan decomposition: no client'', s)
      | Some (think, nothink) \<Rightarrow>
          (case nothink (trim_space (pe_plan_prompt env)) userContent plan_decomposition_tokens s of
             (Inl err, s') \<Rightarrow> (Inl (''plan decomposition: '' @ err), s')
           | (Inr raw, s') \<Rightarrow>
               (case parse_plan raw of
                  None \<Rightarrow> (Inl ''parse plan'', s')
                | Some steps \<Rightarrow>
                    if steps = [] then (Inl ''plan produced zero steps'', s')
                    else (Inr (take max_plan_steps steps), s'))))"

section \<open>Steps\<close>

definition complex_keywords :: "string list" where
  "complex_keywords = [''analyze'', ''synthesize'', ''compare'', ''evaluate'', ''summarize across'', ''cross-reference'',
     ''identify patterns'', ''consolidate'']"

definition retrieval_tools :: "string list" where
  "retrieval_tools = [''search_email'', ''search_calendar'', ''search_memory'', ''search_web'', ''read_url'']"

definition is_complex_step :: "plan_step \<Rightarrow> bool" where
  "is_complex_step step =
     (if tools_needed step \<noteq> [] \<and> list_all (\<lambda>t. t \<in> set retrieval_tools) (tools_needed step) then False
      else list_ex (\<lambda>kw. str_contains (to_lower (step_description step)) kw) complex_keywords)"

definition build_step_system_prompt :: "string \<Rightarrow> plan_step \<Rightarrow> scratchpad \<Rightarrow> string" where
  "build_step_system_prompt directive step p =
     ''You are executing one step of a multi-step plan.'' @ nl @ nl
     @ ''## Overall Goal'' @ nl @ directive @ nl @ nl
     @ ''## Your Current Step'' @ nl @ step_description step @ nl @ nl
     @ (if format_for_prompt p \<noteq> [] then ''## Context from Prior Steps'' @ nl @ format_for_prompt p @ nl else [])
     @ ''## Rules'' @ nl
     @ ''- Execute your assigned step using the available tools.'' @ nl
     @ ''- Build upon context from prior steps when relevant.'' @ nl
     @ ''- Be concise and factual in your response.'' @ nl
     @ ''- When you have completed the step, respond with your findings.'' @ nl"

definition run_step :: "'s plan_env \<Rightarrow> string \<Rightarrow> plan_step \<Rightarrow> scratchpad \<Rightarrow> 's \<Rightarrow> (string + string) \<times> 's" where
  "run_step env directive step p s =
     (let systemPrompt = build_step_system_prompt directive step p;
          supervised = (case subagent_supervisor (pe_complete env) (dc_grammar (pe_delegate env)) systemPrompt
                (step_description step) (scoped_tool_exec (pe_registry env) (pe_delegate env)) 10 None s of
              (Inl err, s') \<Rightarrow> (Inl (pe_err_text env err), s') | (Inr t, s') \<Rightarrow> (Inr t, s'))
      in case pe_dtc env of
           Some (think, nothink) \<Rightarrow>
             if is_complex_step step then think systemPrompt (step_description step) plan_step_tokens s else supervised
         | None \<Rightarrow> supervised)"

definition numbered_steps :: "plan_step list \<Rightarrow> string" where
  "numbered_steps steps =
     concat (map (\<lambda>(i, st). nat_dec (i + 1) @ ''. '' @ step_description st @ nl) (enumerate 0 steps))"

definition replan_remaining ::
  "'s plan_env \<Rightarrow> string \<Rightarrow> scratchpad \<Rightarrow> plan_step list \<Rightarrow> 's \<Rightarrow> (string + plan_step list) \<times> 's" where
  "replan_remaining env directive p remaining s =
     (case pe_dtc env of
        None \<Rightarrow> (Inl ''replan call: no client'', s)
      | Some (think, nothink) \<Rightarrow>
          (case nothink (trim_space (pe_replan_prompt env))
                  (''Original goal: '' @ directive @ nl @ nl @ ''Completed context:'' @ nl @ format_for_prompt p
                   @ nl @ ''Remaining steps that need revision:'' @ nl @ numbered_steps remaining)
                  plan_decomposition_tokens s of
             (Inl err, s') \<Rightarrow> (Inl (''replan call: '' @ err), s')
           | (Inr raw, s') \<Rightarrow>
               (case parse_plan raw of
                  None \<Rightarrow> (Inl ''parse replan'', s')
                | Some steps \<Rightarrow>
                    if steps = [] then (Inl ''replan produced zero steps'', s')
                    else (Inr (take max_replan_steps steps), s'))))"

lemma replan_remaining_bound: "replan_remaining env directive p rest s = (Inr new, s') \<Longrightarrow> length new \<le> 4 \<and> new \<noteq> []"
  by (auto simp: replan_remaining_def max_replan_steps_def split: option.splits sum.splits prod.splits if_splits)

text \<open>The entries a finished step leaves in the scratchpad.\<close>

definition note_step :: "nat \<Rightarrow> (string + string) \<Rightarrow> scratchpad \<Rightarrow> scratchpad" where
  "note_step n res p =
     (case res of
        Inl err \<Rightarrow>
          (let line = ''Step '' @ nat_dec n @ '' failed: '' @ err;
               existing = pad_get ''failures'' p;
               p1 = (if existing \<noteq> [] then pad_set ''failures'' (existing @ ''; '' @ line) p
                     else pad_set ''failures'' line p)
           in pad_set (''step_'' @ nat_dec n) (''step failed: '' @ err) p1)
      | Inr t \<Rightarrow> pad_set (''step_'' @ nat_dec n) t p)"

definition result_of :: "nat \<Rightarrow> plan_step \<Rightarrow> (string + string) \<Rightarrow> step_result" where
  "result_of n step res =
     \<lparr>sr_step = n, sr_description = step_description step,
      sr_result = (case res of Inl err \<Rightarrow> ''step failed: '' @ err | Inr t \<Rightarrow> t),
      sr_success = (case res of Inl err \<Rightarrow> False | Inr t \<Rightarrow> True)\<rparr>"

text \<open>
  The loop over the steps: \<open>i\<close> steps are behind, \<open>rest\<close> lies ahead (a replanning replaces it),
  \<open>fails\<close> counts the failures in a row.
\<close>

function exec_steps ::
  "'s plan_env \<Rightarrow> string \<Rightarrow> nat \<Rightarrow> plan_step list \<Rightarrow> scratchpad \<Rightarrow> bool \<Rightarrow> nat \<Rightarrow> 's \<Rightarrow> step_result list \<times> 's" where
  "exec_steps env directive i [] p replanned fails s = ([], s)"
| "exec_steps env directive i (step # rest) p replanned fails s =
     (case pe_ctx env s of
        Some err \<Rightarrow>
          ([\<lparr>sr_step = i + 1, sr_description = step_description step, sr_result = ''cancelled: '' @ err, sr_success = False\<rparr>], s)
      | None \<Rightarrow>
          (let (res, s1) = run_step env directive step p s;
               r = result_of (i + 1) step res;
               p1 = note_step (i + 1) res p;
               fails1 = (if sr_success r then 0 else fails + 1);
               s2 = (case pe_progress env of Some f \<Rightarrow> f (i + 1) (i + 1 + length rest) s1 | None \<Rightarrow> s1)
           in if \<not> replanned \<and> pe_dtc env \<noteq> None \<and> rest \<noteq> [] \<and> \<not> sr_success r \<and> (fails1 \<ge> 2 \<or> length rest \<le> 2)
              then (case replan_remaining env directive p1 rest s2 of
                      (Inl err, s3) \<Rightarrow> (let (rs, s4) = exec_steps env directive (i + 1) rest p1 False fails1 s3 in (r # rs, s4))
                    | (Inr new, s3) \<Rightarrow> (let (rs, s4) = exec_steps env directive (i + 1) new p1 True fails1 s3 in (r # rs, s4)))
              else (let (rs, s4) = exec_steps env directive (i + 1) rest p1 replanned fails1 s2 in (r # rs, s4))))"
  by pat_completeness auto
termination
  by (relation "measure (\<lambda>(env, directive, i, steps, p, replanned, fails, s). length steps + (if replanned then 0 else 5))")
    (auto dest: replan_remaining_bound [OF sym])

definition execute_steps :: "'s plan_env \<Rightarrow> string \<Rightarrow> plan_step list \<Rightarrow> 's \<Rightarrow> step_result list \<times> 's" where
  "execute_steps env directive steps s = exec_steps env directive 0 steps [] False 0 s"

definition succeeded :: "step_result list \<Rightarrow> nat" where
  "succeeded rs = length (filter sr_success rs)"

definition format_results :: "step_result list \<Rightarrow> string" where
  "format_results rs =
     ''Plan completed: '' @ nat_dec (succeeded rs) @ ''/'' @ nat_dec (length rs) @ '' steps succeeded.'' @ nl @ nl
     @ concat (map (\<lambda>r. ''**Step '' @ nat_dec (sr_step r) @ ''** ['' @ (if sr_success r then ''OK'' else ''FAILED'') @ '']: ''
         @ sr_description r @ nl @ sr_result r @ nl @ nl) rs)"

section \<open>The scratchpad is a map\<close>

definition pad_ok :: "scratchpad \<Rightarrow> bool" where
  "pad_ok p \<longleftrightarrow> distinct (map fst p) \<and> (\<forall>v \<in> snd ` set p. length v \<le> scratchpad_budget + 3)"

lemma map_of_pad_put: "map_of (pad_put k v p) = (map_of p)(k \<mapsto> v)"
  by (induction k v p rule: pad_put.induct) (auto simp: fun_upd_twist)

lemma keys_pad_put: "fst ` set (pad_put k v p) = insert k (fst ` set p)"
  by (induction k v p rule: pad_put.induct) auto

lemma distinct_pad_put: "distinct (map fst p) \<Longrightarrow> distinct (map fst (pad_put k v p))"
  by (induction k v p rule: pad_put.induct) (use keys_pad_put in \<open>auto simp: image_iff\<close>)

lemma values_pad_put: "snd ` set (pad_put k v p) \<subseteq> insert v (snd ` set p)"
  by (induction k v p rule: pad_put.induct) auto

lemma truncate_str_length: "length (truncate_str s n) \<le> n + 3"
  using back_off_bounds [of s n] by (auto simp: truncate_str_def)

text \<open>
  The scratchpad is a finite map with bounded values: \<open>Set\<close> updates one key with the truncated
  value and leaves the others, no key occurs twice, no value exceeds the budget by more than the
  ellipsis, and \<open>Get\<close> reads the map.
\<close>

lemma scratchpad_refines_map:
  assumes "pad_ok p"
  shows "pad_ok (pad_set k v p) \<and>
    map_of (pad_set k v p) = (map_of p)(k \<mapsto> truncate_str v scratchpad_budget) \<and>
    pad_get j (pad_set k v p) = (case map_of (pad_set k v p) j of None \<Rightarrow> [] | Some w \<Rightarrow> w) \<and>
    map fst (pad_set k v p) = map fst p @ (if k \<in> set (map fst p) then [] else [k])"
proof -
  have g: "pad_get j q = (case map_of q j of None \<Rightarrow> [] | Some w \<Rightarrow> w)" for q
    by (induction j q rule: pad_get.induct) auto
  have "map fst (pad_put k w p) = map fst p @ (if k \<in> set (map fst p) then [] else [k])" for w
    by (induction k w p rule: pad_put.induct) auto
  moreover have "pad_ok (pad_set k v p)"
    unfolding pad_ok_def pad_set_def
  proof (intro conjI ballI)
    show "distinct (map fst (pad_put k (truncate_str v scratchpad_budget) p))"
      using assms by (intro distinct_pad_put) (simp add: pad_ok_def)
    fix w assume "w \<in> snd ` set (pad_put k (truncate_str v scratchpad_budget) p)"
    then have "w = truncate_str v scratchpad_budget \<or> w \<in> snd ` set p"
      using values_pad_put [of k "truncate_str v scratchpad_budget" p] by blast
    then show "length w \<le> scratchpad_budget + 3"
      using assms truncate_str_length [of v scratchpad_budget] unfolding pad_ok_def by blast
  qed
  ultimately show ?thesis using g map_of_pad_put by (auto simp: pad_set_def)
qed

lemma scratchpad_refines_map_witness:
  "map_of (pad_set ''failures'' ''x'' [(''step_1'', ''ok'')]) ''failures'' = Some ''x''"
proof -
  have "pad_ok [(''step_1'', ''ok'')]" by (simp add: pad_ok_def scratchpad_budget_def)
  from scratchpad_refines_map [OF this, of "''failures''" "''x''" "[]"] show ?thesis
    by (simp add: truncate_str_def scratchpad_budget_def)
qed

section \<open>Plans end\<close>

lemma exec_steps_shape:
  "exec_steps env directive i steps p replanned fails s = (rs, s') \<Longrightarrow>
    map sr_step rs = [i + 1..<i + 1 + length rs] \<and> length rs \<le> length steps + (if replanned then 0 else 3) \<and>
    (steps \<noteq> [] \<longrightarrow> rs \<noteq> []) \<and>
    (pe_dtc env = None \<and> (\<forall>s. pe_ctx env s = None) \<longrightarrow> map sr_description rs = map step_description steps)"
proof (induction env directive i steps p replanned fails s arbitrary: rs s' rule: exec_steps.induct)
  case (1 env directive i p replanned fails s)
  then show ?case by simp
next
  case (2 env directive i step rest p replanned fails s)
  show ?case
  proof (cases "pe_ctx env s")
    case (Some err)
    with "2.prems" show ?thesis by auto
  next
    case None
    obtain res s1 where run: "run_step env directive step p s = (res, s1)" by (rule prod.exhaust)
    define r where "r = result_of (i + 1) step res"
    define p1 where "p1 = note_step (i + 1) res p"
    define fails1 where "fails1 = (if sr_success r then 0 else fails + 1)"
    define s2 where "s2 = (case pe_progress env of Some f \<Rightarrow> f (i + 1) (i + 1 + length rest) s1 | None \<Rightarrow> s1)"
    let ?again = "\<not> replanned \<and> pe_dtc env \<noteq> None \<and> rest \<noteq> [] \<and> \<not> sr_success r \<and> (fails1 \<ge> 2 \<or> length rest \<le> 2)"
    have r: "sr_step r = i + 1" "sr_description r = step_description step" by (simp_all add: r_def result_of_def)
    note IH = "2.IH" [OF None run [symmetric] refl r_def p1_def fails1_def s2_def]
    have shift: "map sr_step (r # rs') = [i + 1..<i + 1 + length (r # rs')]"
      if "map sr_step rs' = [i + 1 + 1..<i + 1 + 1 + length rs']" for rs'
      using that r(1) by (simp add: upt_conv_Cons del: upt_Suc)
    note unf = "2.prems" [unfolded exec_steps.simps None option.case run prod.case Let_def,
        folded r_def, folded p1_def fails1_def s2_def]
    show ?thesis
    proof (cases ?again)
      case False
      obtain rs' s4 where e: "exec_steps env directive (i + 1) rest p1 replanned fails1 s2 = (rs', s4)" by (rule prod.exhaust)
      have rs: "rs = r # rs'" using unf False e by (simp add: fails1_def split: if_splits)
      from IH(3) [OF False e] rs r shift show ?thesis by auto
    next
      case True
      obtain rp s3 where rp: "replan_remaining env directive p1 rest s2 = (rp, s3)" by (rule prod.exhaust)
      show ?thesis
      proof (cases rp)
        case (Inl err)
        obtain rs' s4 where e: "exec_steps env directive (i + 1) rest p1 False fails1 s3 = (rs', s4)" by (rule prod.exhaust)
        have rs: "rs = r # rs'" using unf True rp Inl e by (simp add: fails1_def split: if_splits)
        from IH(1) [OF True rp [symmetric] Inl e] rs r shift True show ?thesis by auto
      next
        case (Inr new)
        obtain rs' s4 where e: "exec_steps env directive (i + 1) new p1 True fails1 s3 = (rs', s4)" by (rule prod.exhaust)
        have rs: "rs = r # rs'" using unf True rp Inr e by (simp add: fails1_def split: if_splits)
        have "length new \<le> 4" using replan_remaining_bound [OF rp [unfolded Inr]] by simp
        moreover have "1 \<le> length rest" using True by (cases rest) auto
        ultimately have "length new \<le> 4" "1 \<le> length rest" by simp_all
        with IH(2) [OF True rp [symmetric] Inr e] rs r shift True show ?thesis by auto
      qed
    qed
  qed
qed

lemma exec_steps_failed_last:
  "exec_steps env directive i steps p replanned fails s = (rs, s') \<Longrightarrow> r \<in> set (butlast rs) \<Longrightarrow>
    take 11 (sr_result r) = ''cancelled: '' \<Longrightarrow> sr_success r"
proof (induction env directive i steps p replanned fails s arbitrary: rs s' rule: exec_steps.induct)
  case (1 env directive i p replanned fails s)
  then show ?case by simp
next
  case (2 env directive i step rest p replanned fails s)
  show ?case
  proof (cases "pe_ctx env s")
    case (Some err)
    with "2.prems" show ?thesis by auto
  next
    case None
    obtain res s1 where run: "run_step env directive step p s = (res, s1)" by (rule prod.exhaust)
    define r0 where "r0 = result_of (i + 1) step res"
    define p1 where "p1 = note_step (i + 1) res p"
    define fails1 where "fails1 = (if sr_success r0 then 0 else fails + 1)"
    define s2 where "s2 = (case pe_progress env of Some f \<Rightarrow> f (i + 1) (i + 1 + length rest) s1 | None \<Rightarrow> s1)"
    note IH = "2.IH" [OF None run [symmetric] refl r0_def p1_def fails1_def s2_def]
    have r0: "take 11 (sr_result r0) = ''cancelled: '' \<Longrightarrow> sr_success r0"
      by (cases res) (simp_all add: r0_def result_of_def)
    have step: "sr_success r" if "rs = r0 # rs'" "r \<in> set (butlast rs') \<Longrightarrow> sr_success r" for rs'
      using that r0 "2.prems" by (auto split: if_splits)
    note unf = "2.prems"(1) [unfolded exec_steps.simps None option.case run prod.case Let_def,
        folded r0_def, folded p1_def fails1_def s2_def]
    show ?thesis
    proof (cases "\<not> replanned \<and> pe_dtc env \<noteq> None \<and> rest \<noteq> [] \<and> \<not> sr_success r0 \<and> (fails1 \<ge> 2 \<or> length rest \<le> 2)")
      case False
      obtain rs' s4 where e: "exec_steps env directive (i + 1) rest p1 replanned fails1 s2 = (rs', s4)" by (rule prod.exhaust)
      have "rs = r0 # rs'" using unf False e by (simp add: fails1_def split: if_splits)
      from step [OF this IH(3) [OF False e _ "2.prems"(3)]] show ?thesis .
    next
      case True
      obtain rp s3 where rp: "replan_remaining env directive p1 rest s2 = (rp, s3)" by (rule prod.exhaust)
      show ?thesis
      proof (cases rp)
        case (Inl err)
        obtain rs' s4 where e: "exec_steps env directive (i + 1) rest p1 False fails1 s3 = (rs', s4)" by (rule prod.exhaust)
        have "rs = r0 # rs'" using unf True rp Inl e by (simp add: fails1_def split: if_splits)
        from step [OF this IH(1) [OF True rp [symmetric] Inl e _ "2.prems"(3)]] show ?thesis .
      next
        case (Inr new)
        obtain rs' s4 where e: "exec_steps env directive (i + 1) new p1 True fails1 s3 = (rs', s4)" by (rule prod.exhaust)
        have "rs = r0 # rs'" using unf True rp Inr e by (simp add: fails1_def split: if_splits)
        from step [OF this IH(2) [OF True rp [symmetric] Inr e _ "2.prems"(3)]] show ?thesis .
      qed
    qed
  qed
qed

text \<open>
  C31: a plan always ends, whatever the models, the tools and the replanning answer: the results are
  numbered one to their number, there is at least one and there are at most three more than the
  plan had steps (the single replanning trades at least one step for at most four), only the last
  one can be a cancellation, and without a deep thinker every step of a plan whose context stays
  alive is run, in order.
\<close>

theorem execute_steps_bounded:
  assumes "steps \<noteq> []"
  shows "\<exists>rs s'. execute_steps env directive steps s = (rs, s') \<and>
    map sr_step rs = [1..<length rs + 1] \<and> 1 \<le> length rs \<and> length rs \<le> length steps + 3 \<and>
    (\<forall>r \<in> set (butlast rs). take 11 (sr_result r) = ''cancelled: '' \<longrightarrow> sr_success r) \<and>
    (pe_dtc env = None \<and> (\<forall>s. pe_ctx env s = None) \<longrightarrow> map sr_description rs = map step_description steps)"
proof -
  obtain rs s' where e: "execute_steps env directive steps s = (rs, s')" by (rule prod.exhaust)
  note e' = e [unfolded execute_steps_def]
  from exec_steps_shape [OF e'] assms exec_steps_failed_last [OF e'] e show ?thesis
    by (cases rs) auto
qed

definition idle_plan_env :: "nat plan_env" where
  "idle_plan_env =
     \<lparr>pe_dtc = None, pe_complete = (\<lambda>ms g t s. (Inl ''down'', s + 1)), pe_registry = new_registry,
      pe_delegate = new_delegate_config [] [], pe_ctx = (\<lambda>s. if s \<ge> 2 then Some ''deadline'' else None),
      pe_progress = None, pe_err_text = (\<lambda>e. ''llm''), pe_plan_prompt = [], pe_replan_prompt = []\<rparr>"

theorem execute_steps_bounded_witness:
  "\<exists>rs s'. execute_steps idle_plan_env ''d'' [\<lparr>step_description = ''a'', tools_needed = []\<rparr>] 0 = (rs, s') \<and>
     map sr_step rs = [1..<length rs + 1] \<and> length rs \<le> 4"
proof -
  have "[\<lparr>step_description = ''a'', tools_needed = []\<rparr>] \<noteq> []" by simp
  from execute_steps_bounded [OF this, of idle_plan_env "''d''" 0] show ?thesis by fastforce
qed

end
