(* ===== verification/Objectives.thy ===== *)
theory Objectives
  imports ToolArgs TimeFmt TextUtil
begin

text \<open>
  The objectives the assistant pursues: the queries of \<open>objectives/objectives.go\<close> on their table,
  the tool \<open>manage_objectives\<close> (\<open>tools/objectives.go\<close>), the evaluation of a finished task
  (\<open>objective_callbacks.go\<close>), the saving of inferred objectives (\<open>engine/objectives.go\<close>) and the
  selection of the next one (\<open>engine/objective_pursuit.go\<close>).

  The table is a list of rows in the order of their identifiers. Whether a query succeeds is an
  argument: \<open>ok n\<close> for the \<open>n\<close>-th query of the operation.
\<close>

section \<open>The table\<close>

record objective =
  ob_id :: int
  ob_summary :: string
  ob_status :: string
  ob_priority :: string
  ob_source :: string
  ob_notes :: "string option"
  ob_attempts :: int
  ob_last_pursued :: "gotime option"
  ob_created :: gotime
  ob_updated :: gotime
  ob_completed :: "gotime option"

record objectives_db =
  ob_rows :: "objective list"
  ob_next :: int

definition on_row :: "int \<Rightarrow> (objective \<Rightarrow> objective) \<Rightarrow> objectives_db \<Rightarrow> objectives_db" where
  "on_row i f db = db\<lparr>ob_rows := map (\<lambda>r. if ob_id r = i then f r else r) (ob_rows db)\<rparr>"

definition create :: "bool \<Rightarrow> gotime \<Rightarrow> string \<Rightarrow> string \<Rightarrow> string \<Rightarrow> objectives_db \<Rightarrow> int option \<times> objectives_db" where
  "create ok now summary prio src db =
     (if ok then
        (Some (ob_next db),
         db\<lparr>ob_rows := ob_rows db @
              [\<lparr>ob_id = ob_next db, ob_summary = summary, ob_status = ''active'',
                ob_priority = (if prio = [] then ''medium'' else prio),
                ob_source = (if src = [] then ''explicit'' else src),
                ob_notes = None, ob_attempts = 0, ob_last_pursued = None, ob_created = now, ob_updated = now,
                ob_completed = None\<rparr>],
            ob_next := ob_next db + 1\<rparr>)
      else (None, db))"

definition update_status :: "bool \<Rightarrow> gotime \<Rightarrow> int \<Rightarrow> string \<Rightarrow> objectives_db \<Rightarrow> bool \<times> objectives_db" where
  "update_status ok now i st db =
     (if ok then (True, on_row i (\<lambda>r. r\<lparr>ob_status := st, ob_updated := now\<rparr>) db) else (False, db))"

definition note_separator :: string where "note_separator = [CHR 0x0A] @ ''---'' @ [CHR 0x0A]"

definition append_progress :: "bool \<Rightarrow> gotime \<Rightarrow> int \<Rightarrow> string \<Rightarrow> objectives_db \<Rightarrow> bool \<times> objectives_db" where
  "append_progress ok now i note db =
     (if ok then
        (True, on_row i (\<lambda>r. r\<lparr>ob_notes := (case ob_notes r of
              None \<Rightarrow> Some note
            | Some old \<Rightarrow> if old = [] then Some note else Some (old @ note_separator @ note)), ob_updated := now\<rparr>) db)
      else (False, db))"

definition increment_attempts :: "bool \<Rightarrow> gotime \<Rightarrow> int \<Rightarrow> objectives_db \<Rightarrow> bool \<times> objectives_db" where
  "increment_attempts ok now i db =
     (if ok then
        (True, on_row i (\<lambda>r. r\<lparr>ob_attempts := ob_attempts r + 1, ob_last_pursued := Some now, ob_updated := now\<rparr>) db)
      else (False, db))"

text \<open>\<open>scanObjectives\<close>: a null note becomes the empty string; here the row keeps both.\<close>

definition get_objective :: "bool \<Rightarrow> int \<Rightarrow> objectives_db \<Rightarrow> objective option" where
  "get_objective ok i db = (if ok then find (\<lambda>r. ob_id r = i) (ob_rows db) else None)"

definition priority_no :: "string \<Rightarrow> int" where
  "priority_no p = (if p = ''high'' then 1 else if p = ''medium'' then 2 else 3)"

text \<open>The two listings order by rank, then by the last update, the latest first.\<close>

definition by_rank :: "objective list \<Rightarrow> objective list" where
  "by_rank rs = sort_key (\<lambda>r. priority_no (ob_priority r)) (sort_key (\<lambda>r. - ob_updated r) rs)"

definition list_active :: "bool \<Rightarrow> objectives_db \<Rightarrow> objective list option" where
  "list_active ok db =
     (if ok then Some (by_rank (filter (\<lambda>r. ob_status r \<in> {''active'', ''in_progress''}) (ob_rows db))) else None)"

definition list_all_objectives :: "bool \<Rightarrow> objectives_db \<Rightarrow> objective list option" where
  "list_all_objectives ok db =
     (if ok then Some (take 20 (by_rank (filter (\<lambda>r. ob_status r \<noteq> ''retired'') (ob_rows db)))) else None)"

definition retire :: "bool \<Rightarrow> gotime \<Rightarrow> int \<Rightarrow> objectives_db \<Rightarrow> bool \<times> objectives_db" where
  "retire ok now i db = update_status ok now i ''retired'' db"

definition complete_objective :: "bool \<Rightarrow> gotime \<Rightarrow> int \<Rightarrow> objectives_db \<Rightarrow> bool \<times> objectives_db" where
  "complete_objective ok now i db =
     (if ok then
        (True, on_row i (\<lambda>r. r\<lparr>ob_status := ''completed'', ob_completed := Some now, ob_updated := now\<rparr>) db)
      else (False, db))"

definition update_priority :: "bool \<Rightarrow> gotime \<Rightarrow> int \<Rightarrow> string \<Rightarrow> objectives_db \<Rightarrow> bool \<times> objectives_db" where
  "update_priority ok now i p db =
     (if ok then (True, on_row i (\<lambda>r. r\<lparr>ob_priority := p, ob_updated := now\<rparr>) db) else (False, db))"

text \<open>
  The operator \<open>LIKE\<close>: \<open>%\<close> stands for any text, \<open>_\<close> for one character, a backslash takes the next
  byte as it is (the \<open>%\<close> that \<open>FindSimilar\<close> appends always leaves one). \<open>ILIKE\<close> compares without
  regard to case, of ASCII letters here.
\<close>

fun like :: "string \<Rightarrow> string \<Rightarrow> bool" where
  "like [] s = (s = [])"
| "like (p # ps) s =
     (if p = CHR ''%'' then like ps s \<or> (case s of [] \<Rightarrow> False | c # cs \<Rightarrow> like (p # ps) cs)
      else if p = CHR ''_'' then (case s of [] \<Rightarrow> False | c # cs \<Rightarrow> like ps (dropWhile (\<lambda>d. \<not> rune_start d) cs))
      else if p = CHR 0x5C then
        (case ps of [] \<Rightarrow> False
         | q # qs \<Rightarrow> (case s of [] \<Rightarrow> False | c # cs \<Rightarrow> c = q \<and> like qs cs))
      else (case s of [] \<Rightarrow> False | c # cs \<Rightarrow> c = p \<and> like ps cs))"

definition ilike :: "string \<Rightarrow> string \<Rightarrow> bool" where
  "ilike s pat = like (to_lower pat) (to_lower s)"

definition similar_key :: "string \<Rightarrow> string" where
  "similar_key summary = (if length summary > 60 then take 60 summary else summary)"

text \<open>\<open>FindSimilar\<close>; PostgreSQL refuses a parameter that is not valid UTF-8.\<close>

definition find_similar :: "bool \<Rightarrow> string \<Rightarrow> objectives_db \<Rightarrow> objective list option" where
  "find_similar ok summary db =
     (let key = similar_key summary in
      if ok \<and> utf8_valid key
      then Some (take 5 (filter (\<lambda>r. ob_status r \<notin> {''retired'', ''completed''}
             \<and> ilike (ob_summary r) (''%'' @ key @ ''%'')) (ob_rows db)))
      else None)"

definition truncate_bytes :: "string \<Rightarrow> nat \<Rightarrow> string" where
  "truncate_bytes s n = (if length s \<le> n then s else take n s @ ''...'')"

definition format_objective :: "duration \<Rightarrow> objective \<Rightarrow> string" where
  "format_objective off g =
     ''#'' @ itoa (ob_id g) @ '' ['' @ ob_status g @ ''] ('' @ ob_priority g @ '', '' @ ob_source g @ '') '' @ ob_summary g
     @ (if ob_attempts g > 0 then '' | attempts: '' @ itoa (ob_attempts g) else [])
     @ (case ob_last_pursued g of None \<Rightarrow> [] | Some t \<Rightarrow> '' | last pursued: '' @ format_rfc3339 off t)
     @ [CHR 0x0A]
     @ (case ob_notes g of
          None \<Rightarrow> []
        | Some n \<Rightarrow> if n = [] then [] else ''  Progress: '' @ truncate_bytes n 200 @ [CHR 0x0A])"

definition format_objectives :: "duration \<Rightarrow> objective list \<Rightarrow> string" where
  "format_objectives off gs =
     (if gs = [] then ''No objectives found.'' else concat (map (format_objective off) gs))"

section \<open>The tool manage_objectives\<close>

text \<open>\<open>ok n\<close> tells whether the \<open>n\<close>-th query of the call succeeds, \<open>err\<close> is the text of a database error.\<close>

definition say_id :: "string \<Rightarrow> int \<Rightarrow> string \<Rightarrow> string" where
  "say_id a i b = a @ itoa i @ b"

definition simple_op ::
  "string \<Rightarrow> string \<Rightarrow> string \<Rightarrow> int \<Rightarrow> (objectives_db \<Rightarrow> bool \<times> objectives_db) \<Rightarrow> objectives_db \<Rightarrow> string \<times> objectives_db" where
  "simple_op err verb done i f db =
     (if i \<le> 0 then (''objective_id is required for '' @ verb, db)
      else (case f db of
          (False, db') \<Rightarrow> (''failed to '' @ verb @ '' objective: '' @ err, db')
        | (True, db') \<Rightarrow> (say_id ''Objective #'' i ('' '' @ done @ ''.''), db')))"

definition update_objective ::
  "string \<Rightarrow> duration \<Rightarrow> (nat \<Rightarrow> bool) \<Rightarrow> gotime \<Rightarrow> int \<Rightarrow> string \<Rightarrow> string \<Rightarrow> objectives_db \<Rightarrow> string \<times> objectives_db" where
  "update_objective err off ok now i notes prio db =
     (if i \<le> 0 then (''objective_id is required for update'', db)
      else (case (if notes \<noteq> [] then append_progress (ok 0) now i notes db else (True, db)) of
          (False, db1) \<Rightarrow> (''failed to append progress: '' @ err, db1)
        | (True, db1) \<Rightarrow>
            (case (if prio \<noteq> [] then update_priority (ok 1) now i prio db1 else (True, db1)) of
               (False, db2) \<Rightarrow> (''failed to update priority: '' @ err, db2)
             | (True, db2) \<Rightarrow>
                 (case get_objective (ok 2) i db2 of
                    None \<Rightarrow> (''failed to get objective: '' @ err, db2)
                  | Some g \<Rightarrow> (say_id ''Objective #'' i ('' updated.'' @ [CHR 0x0A]) @ format_objectives off [g], db2)))))"

definition add_objective ::
  "string \<Rightarrow> (nat \<Rightarrow> bool) \<Rightarrow> gotime \<Rightarrow> string \<Rightarrow> string \<Rightarrow> objectives_db \<Rightarrow> string \<times> objectives_db" where
  "add_objective err ok now summary prio db =
     (if summary = [] then (''summary is required for add'', db)
      else (case find_similar (ok 0) summary db of
          Some (g # gs) \<Rightarrow> (say_id ''Similar objective already exists: #'' (ob_id g) ('' '' @ ob_summary g), db)
        | _ \<Rightarrow>
            (case create (ok 1) now summary prio ''explicit'' db of
               (None, db') \<Rightarrow> (''failed to create objective: '' @ err, db')
             | (Some i, db') \<Rightarrow> (say_id ''Objective #'' i ('' created: '' @ summary), db'))))"

definition manage_objectives ::
  "string \<Rightarrow> duration \<Rightarrow> (nat \<Rightarrow> bool) \<Rightarrow> gotime \<Rightarrow> string option \<Rightarrow> objectives_db \<Rightarrow> string \<times> objectives_db" where
  "manage_objectives err off ok now args db =
     (case struct_members args of
        None \<Rightarrow> (''invalid arguments'', db)
      | Some ms \<Rightarrow>
          (let names = [''op'', ''summary'', ''objective_id'', ''priority'', ''notes''];
               (op, e1) = arg_string names ''op'' ms;
               (summary, e2) = arg_string names ''summary'' ms;
               (i, e3) = arg_int names ''objective_id'' ms;
               (prio, e4) = arg_string names ''priority'' ms;
               (notes, e5) = arg_string names ''notes'' ms
           in if e1 \<or> e2 \<or> e3 \<or> e4 \<or> e5 then (''invalid arguments'', db)
              else if op = ''add'' then add_objective err ok now summary prio db
              else if op = ''update'' then update_objective err off ok now i notes prio db
              else if op = ''pause'' then simple_op err op ''paused'' i (update_status (ok 0) now i ''paused'') db
              else if op = ''resume'' then simple_op err op ''resumed'' i (update_status (ok 0) now i ''active'') db
              else if op = ''complete'' then simple_op err op ''completed'' i (complete_objective (ok 0) now i) db
              else if op = ''retire'' then simple_op err op ''retired'' i (retire (ok 0) now i) db
              else if op = ''list'' then
                (case list_all_objectives (ok 0) db of
                   None \<Rightarrow> (''failed to list objectives: '' @ err, db)
                 | Some gs \<Rightarrow> (format_objectives off gs, db))
              else (''unknown op '' @ go_quote op
                    @ '' (use add, update, pause, resume, complete, retire, list)'', db)))"

section \<open>Finished tasks and inferred objectives\<close>

text \<open>
  The handler \<open>OnObjectiveTaskComplete\<close>. \<open>judge\<close> is the grammar-constrained completion, from the
  user content to its answer (\<open>None\<close>: no client, or an error).
\<close>

record task_report =
  tr_objective :: int
  tr_directive :: string
  tr_status :: string
  tr_result :: string

definition judged_content :: "string \<Rightarrow> task_report \<Rightarrow> string" where
  "judged_content summary r =
     ''Objective: '' @ summary @ [CHR 0x0A] @ ''Task: '' @ tr_directive r @ [CHR 0x0A] @ ''Status: '' @ tr_status r
     @ [CHR 0x0A] @ ''Result:'' @ [CHR 0x0A] @ truncate_str (tr_result r) 500"

definition parse_verdict :: "string \<Rightarrow> (string \<times> string \<times> string) option" where
  "parse_verdict raw =
     (case struct_members (Some (clean_llm_json raw)) of
        None \<Rightarrow> None
      | Some ms \<Rightarrow>
          (let names = [''progress'', ''objective_status'', ''follow_up''];
               (progress, e1) = arg_string names ''progress'' ms;
               (verdict, e2) = arg_string names ''objective_status'' ms;
               (follow, e3) = arg_string names ''follow_up'' ms
           in if e1 \<or> e2 \<or> e3 then None else Some (progress, verdict, follow)))"

definition apply_verdict ::
  "(nat \<Rightarrow> bool) \<Rightarrow> gotime \<Rightarrow> int \<Rightarrow> string \<times> string \<times> string \<Rightarrow> objectives_db \<Rightarrow> objectives_db" where
  "apply_verdict ok now i = (\<lambda>(progress, verdict, follow) db.
     (let db1 = (if progress \<noteq> [] then snd (append_progress (ok 2) now i (''[eval] '' @ progress) db) else db) in
      if verdict = ''completed'' then snd (complete_objective (ok 3) now i db1)
      else if verdict = ''continue'' then
        (let db2 = snd (update_status (ok 3) now i ''active'' db1) in
         if follow \<noteq> [] then snd (append_progress (ok 4) now i (''[next] '' @ follow) db2) else db2)
      else db1))"

definition objective_task_done ::
  "(string \<Rightarrow> string option) option \<Rightarrow> (nat \<Rightarrow> bool) \<Rightarrow> gotime \<Rightarrow> task_report \<Rightarrow> objectives_db \<Rightarrow> objectives_db" where
  "objective_task_done judge ok now r db =
     (let db1 = snd (append_progress (ok 0) now (tr_objective r)
                       (tr_status r @ '': '' @ truncate_str (tr_result r) 500) db) in
      case judge of
        None \<Rightarrow> db1
      | Some complete \<Rightarrow>
          (case get_objective (ok 1) (tr_objective r) db1 of
             None \<Rightarrow> db1
           | Some g \<Rightarrow>
               (case complete (judged_content (ob_summary g) r) of
                  None \<Rightarrow> db1
                | Some raw \<Rightarrow>
                    (case parse_verdict raw of
                       None \<Rightarrow> db1
                     | Some v \<Rightarrow> apply_verdict ok now (tr_objective r) v db1))))"

text \<open>The loop of \<open>RunObjectiveInference\<close> over the inferred objectives and their priorities.\<close>

definition valid_priority :: "string \<Rightarrow> string" where
  "valid_priority p = (if p \<in> {''high'', ''medium'', ''low''} then p else ''medium'')"

fun save_inferred ::
  "(nat \<Rightarrow> bool) \<Rightarrow> gotime \<Rightarrow> (string \<times> string) list \<Rightarrow> objectives_db \<Rightarrow> nat \<times> objectives_db" where
  "save_inferred ok now [] db = (0, db)"
| "save_inferred ok now ((summary, prio) # gs) db =
     (let later = (\<lambda>n. ok (n + 2)) in
      if trim_space summary = [] then save_inferred later now gs db
      else (case find_similar (ok 0) summary db of
          Some (g # ss) \<Rightarrow> save_inferred later now gs db
        | _ \<Rightarrow>
            (case create (ok 1) now summary (valid_priority prio) ''inferred'' db of
               (None, db') \<Rightarrow> save_inferred later now gs db'
             | (Some i, db') \<Rightarrow> (let (n, db'') = save_inferred later now gs db' in (Suc n, db'')))))"

section \<open>Duplicates are recognised\<close>

definition plain_pattern :: "string \<Rightarrow> bool" where
  "plain_pattern s \<longleftrightarrow> CHR ''_'' \<notin> set s \<and> CHR 0x5C \<notin> set s"

lemma like_percent [simp]: "like ''%'' t"
  by (induction t) simp_all

lemma like_any_prefix: "like (CHR ''%'' # p) s \<Longrightarrow> like (CHR ''%'' # p) (a @ s)"
  by (induction a) simp_all

lemma like_self: "plain_pattern k \<Longrightarrow> like (k @ ''%'') (k @ t)"
proof (induction k)
  case Nil
  show ?case by (simp only: append_Nil like_percent)
next
  case (Cons c k)
  then have "like (k @ ''%'') (k @ t)" "c \<noteq> CHR ''_''" "c \<noteq> CHR 0x5C" by (auto simp: plain_pattern_def)
  then show ?case by simp
qed

lemma byte_of_lower: "byte_of (lower_char c) = (if 65 \<le> byte_of c \<and> byte_of c \<le> 90 then byte_of c + 32 else byte_of c)"
  by (simp add: lower_char_def byte_of_def)

lemma byte_of_eq: "byte_of c = byte_of d \<longleftrightarrow> c = d"
  by (simp add: byte_of_def)

lemma lower_char_special:
  assumes "byte_of d < 65 \<or> (90 < byte_of d \<and> byte_of d < 97)" "d = lower_char c"
  shows "d = c"
proof -
  have "byte_of d = byte_of c" using assms byte_of_lower [of c] by (simp split: if_splits)
  then show ?thesis by (simp only: byte_of_eq)
qed

lemma plain_pattern_lower:
  assumes "plain_pattern k"
  shows "plain_pattern (to_lower k)"
proof -
  have "d \<notin> set k \<Longrightarrow> d \<notin> set (to_lower k)" if "90 < byte_of d" "byte_of d < 97" for d
  proof
    assume "d \<notin> set k" "d \<in> set (to_lower k)"
    then obtain c where "c \<in> set k" "d = lower_char c" by (auto simp: to_lower_def)
    with lower_char_special [of d c] that \<open>d \<notin> set k\<close> show False by simp
  qed
  moreover have "byte_of (CHR ''_'') = 95" "byte_of (CHR 0x5C) = 92" by (simp_all add: byte_of_def)
  ultimately show ?thesis using assms by (simp add: plain_pattern_def)
qed

lemma ilike_contains:
  assumes "plain_pattern key" "to_lower s = a @ to_lower key @ b"
  shows "ilike s (''%'' @ key @ ''%'')"
proof -
  have "like (CHR ''%'' # to_lower key @ ''%'') (to_lower key @ b)"
    using like_self [OF plain_pattern_lower [OF assms(1)], of b] by simp
  from like_any_prefix [OF this, of a] show ?thesis
    using assms(2) by (simp add: ilike_def to_lower_def lower_char_def byte_of_def)
qed

lemma similar_key_lower: "to_lower (similar_key s) = similar_key (to_lower s)"
  by (simp add: similar_key_def to_lower_def take_map)

lemma similar_key_prefix: "\<exists>b. s = similar_key s @ b"
  by (simp add: similar_key_def) (metis append_take_drop_id)

lemma find_similar_lower:
  assumes "to_lower s2 = to_lower s" "utf8_valid (similar_key s)" "utf8_valid (similar_key s2)"
  shows "find_similar ok s2 db = find_similar ok s db"
proof -
  have "to_lower (similar_key s2) = to_lower (similar_key s)" using assms(1) by (simp add: similar_key_lower)
  then have "ilike r (''%'' @ similar_key s2 @ ''%'') = ilike r (''%'' @ similar_key s @ ''%'')" for r
    by (simp add: ilike_def to_lower_def)
  then show ?thesis using assms(2,3) by (simp add: find_similar_def Let_def)
qed

lemma find_similar_member: "find_similar ok s db = Some gs \<Longrightarrow> g \<in> set gs \<Longrightarrow> g \<in> set (ob_rows db)"
  by (auto simp: find_similar_def Let_def split: if_splits dest: in_set_takeD)

lemma find_similar_created:
  assumes "create True now s prio src db = (Some i, db')" "plain_pattern (similar_key s)" "utf8_valid (similar_key s)"
  shows "\<exists>g gs. find_similar True s db' = Some (g # gs)"
proof -
  obtain r where r: "r \<in> set (ob_rows db')" "ob_status r = ''active''" "ob_summary r = s"
    using assms(1) that by (fastforce simp: create_def)
  obtain b where "s = similar_key s @ b" using similar_key_prefix by blast
  then have "to_lower s = [] @ to_lower (similar_key s) @ to_lower b"
    by (metis append_Nil map_append to_lower_def)
  from ilike_contains [OF assms(2) this] r
  have "r \<in> set (filter (\<lambda>r. ob_status r \<notin> {''retired'', ''completed''} \<and> ilike (ob_summary r) (''%'' @ similar_key s @ ''%''))
      (ob_rows db'))" by simp
  then have "filter (\<lambda>r. ob_status r \<notin> {''retired'', ''completed''} \<and> ilike (ob_summary r) (''%'' @ similar_key s @ ''%''))
      (ob_rows db') \<noteq> []" by (metis empty_iff empty_set)
  with assms(3) show ?thesis by (simp add: find_similar_def Let_def take_eq_Nil neq_Nil_conv)
    (metis list.exhaust take_eq_Nil zero_neq_numeral)
qed

text \<open>
  An objective is added once. While the database works, adding a second time the text of an
  objective, in any case and with any priority, changes nothing and names an objective that is
  there, provided the sixty bytes compared are valid UTF-8 and hold no underscore or backslash.
\<close>

lemma objective_added_once:
  assumes "\<And>n. ok n" "s \<noteq> []" "s2 \<noteq> []" "to_lower s2 = to_lower s" "plain_pattern (similar_key s)"
    and "utf8_valid (similar_key s)" "utf8_valid (similar_key s2)"
    and "snd (add_objective err ok now s prio db) = db1"
  shows "\<exists>g \<in> set (ob_rows db1). add_objective err ok now2 s2 prio2 db1 =
    (say_id ''Similar objective already exists: #'' (ob_id g) ('' '' @ ob_summary g), db1)"
proof -
  have "\<exists>g gs. find_similar True s db1 = Some (g # gs)"
  proof (cases "\<exists>g gs. find_similar True s db = Some (g # gs)")
    case True
    then have "db1 = db" using assms(1,2,8) by (auto simp: add_objective_def)
    with True show ?thesis by simp
  next
    case False
    obtain i db' where c: "create True now s prio ''explicit'' db = (Some i, db')" by (simp add: create_def)
    then have "db1 = db'" using False assms(1,2,8)
      by (auto simp: add_objective_def split: option.splits list.splits)
    with find_similar_created [OF c assms(5,6)] show ?thesis by simp
  qed
  then obtain g gs where g: "find_similar True s2 db1 = Some (g # gs)"
    using find_similar_lower [OF assms(4,6,7)] by auto
  then have "g \<in> set (ob_rows db1)" by (auto dest: find_similar_member)
  with g show ?thesis using assms(1,3) by (intro bexI [of _ g]) (simp_all add: add_objective_def)
qed

definition no_objectives :: objectives_db where
  "no_objectives = \<lparr>ob_rows = [], ob_next = 1\<rparr>"

lemma objective_added_once_witness:
  "\<exists>g :: objective. add_objective [] (\<lambda>n. True) 9 ''learn go'' [] (snd (add_objective [] (\<lambda>n. True) 5 ''Learn Go'' [] no_objectives)) =
    (say_id ''Similar objective already exists: #'' (ob_id g) ('' '' @ ob_summary g),
     snd (add_objective [] (\<lambda>n. True) 5 ''Learn Go'' [] no_objectives))"
proof -
  let ?db = "snd (add_objective [] (\<lambda>n. True) 5 ''Learn Go'' [] no_objectives)"
  have v: "utf8_valid ''Learn Go''" "utf8_valid ''learn go''" by (simp_all add: utf8_valid_ascii byte_in_def byte_of_def)
  have "to_lower ''learn go'' = to_lower ''Learn Go''" by (simp add: to_lower_def lower_char_def byte_of_def char_of_def bit_simps)
  moreover have "plain_pattern (similar_key ''Learn Go'')" by (simp add: plain_pattern_def similar_key_def)
  moreover have "utf8_valid (similar_key ''Learn Go'')" "utf8_valid (similar_key ''learn go'')"
    using v by (simp_all add: similar_key_def)
  ultimately have "\<exists>g \<in> set (ob_rows ?db). add_objective [] (\<lambda>n. True) 9 ''learn go'' [] ?db =
      (say_id ''Similar objective already exists: #'' (ob_id g) ('' '' @ ob_summary g), ?db)"
    by (intro objective_added_once [where ok = "\<lambda>n. True" and s = "''Learn Go''", OF _ _ _ _ _ _ _ refl]) simp_all
  then show ?thesis by blast
qed

fun add_times :: "nat \<Rightarrow> gotime \<Rightarrow> string \<Rightarrow> objectives_db \<Rightarrow> objectives_db" where
  "add_times 0 now s db = db"
| "add_times (Suc n) now s db = add_times n now s (snd (add_objective [] (\<lambda>k. True) now s [] db))"

lemma add_cut_key:
  assumes "60 < length s" "\<not> utf8_valid (take 60 s)"
  shows "\<exists>r. ob_summary r = s \<and> ob_rows (snd (add_objective err (\<lambda>k. True) now s prio db)) = ob_rows db @ [r]"
proof -
  have "find_similar True s db = None" using assms by (simp add: find_similar_def similar_key_def Let_def)
  moreover have "s \<noteq> []" using assms(1) by auto
  ultimately show ?thesis by (simp add: add_objective_def create_def)
qed

text \<open>
  The check for duplicates fails for long texts outside ASCII: when the sixtieth byte falls
  inside a character, the key is not valid UTF-8, the database refuses the query, the caller drops
  that error, and every call adds the same objective again: \<open>n\<close> calls leave \<open>n\<close> rows with the text.
\<close>

lemma cut_key_adds_duplicates:
  assumes "60 < length s" "\<not> utf8_valid (take 60 s)"
  shows "length (filter (\<lambda>r. ob_summary r = s) (ob_rows (add_times n now s db))) =
    n + length (filter (\<lambda>r. ob_summary r = s) (ob_rows db))"
proof (induction n arbitrary: db)
  case 0
  then show ?case by simp
next
  case (Suc n)
  obtain r where "ob_summary r = s" "ob_rows (snd (add_objective [] (\<lambda>k. True) now s [] db)) = ob_rows db @ [r]"
    using add_cut_key [OF assms] by blast
  with Suc show ?case by simp
qed

text \<open>Sixty bytes of text with the first half of an e with an acute accent at the end.\<close>

definition cut_summary :: string where
  "cut_summary = replicate 59 (CHR ''a'') @ [CHR 0xC3, CHR 0xA9]"

lemma cut_key_adds_duplicates_witness:
  "utf8_valid cut_summary \<and>
   length (filter (\<lambda>r. ob_summary r = cut_summary) (ob_rows (add_times 3 0 cut_summary no_objectives))) = 3"
proof -
  have a: "utf8_valid (replicate n (CHR ''a''))" for n
    by (induction n) (simp_all add: utf8_valid_ascii byte_in_def byte_of_def)
  have v: "utf8_valid [CHR 0xC3, CHR 0xA9]"
    by (subst utf8_valid_step; simp add: byte_in_def byte_of_def is_cont_def)
  have "\<not> utf8_valid (replicate n (CHR ''a'') @ [CHR 0xC3])" for n
  proof (induction n)
    case 0
    show ?case by (subst utf8_valid_step) (simp_all add: byte_in_def byte_of_def is_cont_def)
  next
    case (Suc n)
    then show ?case by (subst utf8_valid_step) (simp_all add: byte_in_def byte_of_def is_cont_def)
  qed
  then have "\<not> utf8_valid (take 60 cut_summary)" by (simp add: cut_summary_def)
  moreover have "60 < length cut_summary" by (simp add: cut_summary_def)
  ultimately have "length (filter (\<lambda>r. ob_summary r = cut_summary) (ob_rows (add_times 3 0 cut_summary no_objectives))) = 3"
    using cut_key_adds_duplicates [of cut_summary 3 0 no_objectives] by (simp add: no_objectives_def)
  with utf8_valid_append [OF a v] show ?thesis by (simp add: cut_summary_def)
qed

section \<open>The user's decision is overridden\<close>

lemma get_on_row: "get_objective True i (on_row i f db) = map_option f (get_objective True i db)"
  if "\<And>r. ob_id (f r) = ob_id r"
proof -
  have "find (\<lambda>r. ob_id r = i) (map (\<lambda>r. if ob_id r = i then f r else r) rs) = map_option f (find (\<lambda>r. ob_id r = i) rs)" for rs
    using that by (induction rs) auto
  then show ?thesis by (simp add: get_objective_def on_row_def)
qed

lemma get_append: "get_objective True i (snd (append_progress True now i note db)) =
    map_option (\<lambda>r. r\<lparr>ob_notes := (case ob_notes r of
              None \<Rightarrow> Some note
            | Some old \<Rightarrow> if old = [] then Some note else Some (old @ note_separator @ note)), ob_updated := now\<rparr>)
      (get_objective True i db)"
  by (simp add: append_progress_def get_on_row)

lemma get_status: "get_objective True i (snd (update_status True now i st db)) =
    map_option (\<lambda>r. r\<lparr>ob_status := st, ob_updated := now\<rparr>) (get_objective True i db)"
  by (simp add: update_status_def get_on_row)

definition status_of :: "int \<Rightarrow> objectives_db \<Rightarrow> string option" where
  "status_of i db = map_option ob_status (get_objective True i db)"

lemma status_kept [simp]: "status_of i (snd (append_progress True now i note db)) = status_of i db"
  by (simp add: status_of_def get_append option.map_comp comp_def)

lemma status_set [simp]: "status_of i (snd (update_status True now i st db)) = map_option (\<lambda>x. st) (status_of i db)"
  by (simp add: status_of_def get_status option.map_comp comp_def)

text \<open>
  The evaluation of a finished task overrides what the user decided in the meantime: whatever
  the status of the objective, paused, retired or completed, the verdict to continue makes it
  active again.
\<close>

lemma verdict_revives_objective:
  assumes "\<And>n. ok n" "get_objective True (tr_objective r) db = Some g"
    and "judge (judged_content (ob_summary g) r) = Some raw"
    and "parse_verdict raw = Some (progress, ''continue'', follow)"
  shows "\<exists>g'. get_objective True (tr_objective r) (objective_task_done (Some judge) ok now r db) = Some g' \<and>
    ob_status g' = ''active'' \<and>
    (\<exists>db'. list_active True (objective_task_done (Some judge) ok now r db) = Some db' \<and> g' \<in> set db')"
proof -
  let ?i = "tr_objective r"
  let ?out = "objective_task_done (Some judge) ok now r db"
  obtain g1 where g1: "get_objective True ?i (snd (append_progress True now ?i
      (tr_status r @ '': '' @ truncate_str (tr_result r) 500) db)) = Some g1" "ob_summary g1 = ob_summary g"
    using assms(2) by (simp add: get_append)
  have out: "?out = apply_verdict ok now ?i (progress, ''continue'', follow)
      (snd (append_progress True now ?i (tr_status r @ '': '' @ truncate_str (tr_result r) 500) db))"
    using assms g1 by (simp add: objective_task_done_def Let_def)
  have "status_of ?i db = Some (ob_status g)" using assms(2) by (simp add: status_of_def)
  then have "status_of ?i ?out = Some ''active''" using assms(1) unfolding out by (simp add: apply_verdict_def Let_def)
  then obtain g' where g': "get_objective True ?i ?out = Some g'" "ob_status g' = ''active''" by (auto simp: status_of_def)
  moreover have "g' \<in> set (ob_rows ?out)" using g'(1) by (auto simp: get_objective_def find_Some_iff)
  ultimately show ?thesis by (auto simp: list_active_def by_rank_def)
qed

definition retired_db :: objectives_db where
  "retired_db = snd (retire True 1 1 (snd (create True 0 ''a'' [] [] no_objectives)))"

definition continue_json :: string where
  "continue_json = ''{'' @ [CHR 0x22] @ ''objective_status'' @ [CHR 0x22] @ '':'' @ [CHR 0x22] @ ''continue'' @ [CHR 0x22] @ ''}''"

lemma verdict_revives_objective_witness:
  "map_option ob_status (get_objective True 1 retired_db) = Some ''retired'' \<and>
   map_option ob_status (get_objective True 1 (objective_task_done (Some (\<lambda>c. Some continue_json)) (\<lambda>n. True) 2
     \<lparr>tr_objective = 1, tr_directive = ''d'', tr_status = ''completed'', tr_result = []\<rparr> retired_db)) = Some ''active''"
proof -
  let ?r = "\<lparr>tr_objective = 1, tr_directive = ''d'', tr_status = ''completed'', tr_result = []\<rparr>"
  have p: "parse_verdict continue_json = Some ([], ''continue'', [])" by code_simp
  have "status_of 1 retired_db = Some ''retired''"
    by (simp add: retired_db_def retire_def create_def status_of_def get_objective_def no_objectives_def
        update_status_def on_row_def)
  then obtain g where g: "get_objective True 1 retired_db = Some g" "ob_status g = ''retired''"
    by (auto simp: status_of_def)
  have "get_objective True (tr_objective ?r) retired_db = Some g" using g(1) by simp
  from verdict_revives_objective [of "\<lambda>n. True", OF _ this _ p, of "\<lambda>c. Some continue_json" 2] g
  show ?thesis by auto
qed

end
