(* ===== verification/WorkTracker.thy ===== *)
theory WorkTracker
  imports PlanExec Objectives Durations
begin

text \<open>
  Background work (\<open>worktracker/work_tracker.go\<close>): the table \<open>work_items\<close>, the tracker with its map of
  cancel functions and its three execution slots, the goroutine of a task, the watchdog, and the
  tools \<open>plan_and_execute\<close> and \<open>check_background_task\<close>.
\<close>

section \<open>The table of work items\<close>

record work_item =
  wi_id :: int
  wi_type :: string
  wi_directive :: string
  wi_status :: string
  wi_result :: "string option"
  wi_error :: "string option"
  wi_total :: int
  wi_done :: int
  wi_priority :: int
  wi_created :: gotime
  wi_completed :: "gotime option"
  wi_started :: "gotime option"
  wi_timeout :: "gotime option"
  wi_due :: "gotime option"
  wi_recurrence :: duration
  wi_objective :: "int option"

record work_db =
  wi_rows :: "work_item list"
  wi_next :: int

text \<open>The defaults of the schema, and an insertion that overrides them.\<close>

definition blank_item :: "int \<Rightarrow> gotime \<Rightarrow> string \<Rightarrow> string \<Rightarrow> string \<Rightarrow> work_item" where
  "blank_item i now typ directive st =
     \<lparr>wi_id = i, wi_type = typ, wi_directive = directive, wi_status = st, wi_result = None, wi_error = None,
      wi_total = 0, wi_done = 0, wi_priority = 5, wi_created = now, wi_completed = None, wi_started = None,
      wi_timeout = None, wi_due = None, wi_recurrence = 0, wi_objective = None\<rparr>"

definition insert_item :: "(int \<Rightarrow> work_item) \<Rightarrow> work_db \<Rightarrow> work_db" where
  "insert_item row db = db\<lparr>wi_rows := wi_rows db @ [row (wi_next db)], wi_next := wi_next db + 1\<rparr>"

definition change_items :: "(work_item \<Rightarrow> bool) \<Rightarrow> (work_item \<Rightarrow> work_item) \<Rightarrow> work_db \<Rightarrow> work_db" where
  "change_items P f db = db\<lparr>wi_rows := map (\<lambda>r. if P r then f r else r) (wi_rows db)\<rparr>"

definition item :: "int \<Rightarrow> work_db \<Rightarrow> work_item option" where
  "item i db = find (\<lambda>r. wi_id r = i) (wi_rows db)"

text \<open>\<open>updateWork\<close>; a database error is logged and dropped.\<close>

definition update_work :: "bool \<Rightarrow> gotime \<Rightarrow> int \<Rightarrow> string \<Rightarrow> string \<Rightarrow> string \<Rightarrow> work_db \<Rightarrow> work_db" where
  "update_work ok now i st result err db =
     (if ok then
        change_items (\<lambda>r. wi_id r = i)
          (\<lambda>r. r\<lparr>wi_status := st, wi_result := Some result, wi_error := Some err, wi_completed := Some now\<rparr>) db
      else db)"

section \<open>The tracker\<close>

text \<open>
  A cancel function is named by the context it ends: the one of the goroutine of a task, or one that
  a caller of \<open>SetCancel\<close> made. A goroutine is \<open>Queued\<close> until it has an execution slot, \<open>Executing\<close> its
  plan, \<open>Reporting\<close> the outcome to the callbacks, and \<open>Leaving\<close> when only its deferred calls are left,
  with or without a slot to give back.
\<close>

datatype ctx_id = TaskCtx int | CallerCtx nat

datatype phase = Queued | Executing | Reporting string string nat | Leaving bool

record worker =
  wk_directive :: string
  wk_objective :: int
  wk_steps :: "plan_step list"
  wk_phase :: phase

record tracker =
  wt_items :: work_db
  wt_objectives :: objectives_db
  wt_active :: "int \<rightharpoonup> ctx_id"
  wt_cancelled :: "ctx_id set"
  wt_slots :: nat
  wt_workers :: "int \<rightharpoonup> worker"
  wt_hung :: "int list"
  wt_sent :: "string list"

definition worker_slots :: nat where "worker_slots = 3"
definition timeout_background :: duration where "timeout_background = 15 * minute"

definition new_tracker :: "work_db \<Rightarrow> objectives_db \<Rightarrow> tracker" where
  "new_tracker db ob =
     \<lparr>wt_items = db, wt_objectives = ob, wt_active = Map.empty, wt_cancelled = {}, wt_slots = 0,
      wt_workers = Map.empty, wt_hung = [], wt_sent = []\<rparr>"

definition set_phase :: "int \<Rightarrow> phase \<Rightarrow> tracker \<Rightarrow> tracker" where
  "set_phase i ph tk =
     (case wt_workers tk i of None \<Rightarrow> tk | Some w \<Rightarrow> tk\<lparr>wt_workers := (wt_workers tk)(i \<mapsto> w\<lparr>wk_phase := ph\<rparr>)\<rparr>)"

text \<open>The seconds of \<open>int(d.Seconds())\<close>, truncated towards zero.\<close>

definition whole_seconds :: "duration \<Rightarrow> duration" where
  "whole_seconds d = sgn d * (\<bar>d\<bar> div second * second)"

text \<open>\<open>Start\<close>: \<open>ok 0\<close> is the insertion, \<open>ok 1\<close> and \<open>ok 2\<close> the queries on the objective.\<close>

definition start_work ::
  "(nat \<Rightarrow> bool) \<Rightarrow> string \<Rightarrow> gotime \<Rightarrow> string \<Rightarrow> int \<Rightarrow> int \<Rightarrow> plan_step list \<Rightarrow> tracker \<Rightarrow> (string + int) \<times> tracker" where
  "start_work ok err now directive prio objective_id steps tk =
     (if \<not> ok 0 then (Inl (''create background task: '' @ err), tk)
      else
        (let i = wi_next (wt_items tk);
             db = insert_item (\<lambda>i. (blank_item i now ''background'' directive ''running'')
               \<lparr>wi_total := int (length steps), wi_priority := prio, wi_started := Some now,
                wi_timeout := Some (now + whole_seconds timeout_background),
                wi_objective := (if objective_id = 0 then None else Some objective_id)\<rparr>) (wt_items tk);
             ob = (if objective_id > 0
                   then snd (increment_attempts (ok 2) now objective_id
                          (snd (update_status (ok 1) now objective_id ''in_progress'' (wt_objectives tk))))
                   else wt_objectives tk)
         in (Inr i, tk\<lparr>wt_items := db, wt_objectives := ob, wt_active := (wt_active tk)(i \<mapsto> TaskCtx i),
               wt_workers := (wt_workers tk)(i \<mapsto> \<lparr>wk_directive = directive, wk_objective = objective_id,
                 wk_steps = steps, wk_phase = Queued\<rparr>)\<rparr>)))"

section \<open>The goroutine of a task\<close>

definition worker_enter :: "int \<Rightarrow> tracker \<Rightarrow> tracker" where
  "worker_enter i tk = (set_phase i Executing tk)\<lparr>wt_slots := wt_slots tk + 1\<rparr>"

definition worker_give_up :: "bool \<Rightarrow> gotime \<Rightarrow> int \<Rightarrow> tracker \<Rightarrow> tracker" where
  "worker_give_up ok now i tk =
     (set_phase i (Leaving False) tk)
       \<lparr>wt_items := update_work ok now i ''failed'' [] ''timed out waiting for execution slot'' (wt_items tk)\<rparr>"

definition worker_progress :: "bool \<Rightarrow> int \<Rightarrow> nat \<Rightarrow> tracker \<Rightarrow> tracker" where
  "worker_progress ok i completed tk =
     (if ok then tk\<lparr>wt_items := change_items (\<lambda>r. wi_id r = i) (\<lambda>r. r\<lparr>wi_done := int completed\<rparr>) (wt_items tk)\<rparr> else tk)"

text \<open>The status and the error message of an executed plan.\<close>

definition plan_outcome :: "step_result list \<Rightarrow> string \<times> string" where
  "plan_outcome rs =
     (if succeeded rs = 0 then (''failed'', ''all steps failed'')
      else (''completed'',
        if succeeded rs < length rs
        then nat_dec (length rs - succeeded rs) @ ''/'' @ nat_dec (length rs) @ '' steps failed'' else []))"

definition notification :: "int \<Rightarrow> string \<Rightarrow> string \<Rightarrow> step_result list \<Rightarrow> string" where
  "notification i directive st rs =
     truncate_str (''Background task #'' @ itoa i @ '' '' @ st @ '': '' @ directive @ nl @ nl
       @ nat_dec (succeeded rs) @ ''/'' @ nat_dec (length rs) @ '' steps succeeded.'') 500"

definition worker_finish :: "bool \<Rightarrow> gotime \<Rightarrow> int \<Rightarrow> worker \<Rightarrow> step_result list \<Rightarrow> tracker \<Rightarrow> tracker" where
  "worker_finish ok now i w rs tk =
     (let (st, err) = plan_outcome rs; formatted = format_results rs in
      (set_phase i (Reporting st formatted (succeeded rs)) tk)
        \<lparr>wt_items := update_work ok now i st formatted err (wt_items tk),
         wt_sent := wt_sent tk @ [notification i (wk_directive w) st rs]\<rparr>)"

text \<open>The callback for the objective of the task; \<open>judge\<close> as in \<open>objective_task_done\<close>.\<close>

definition worker_report ::
  "(string \<Rightarrow> string option) option \<Rightarrow> (nat \<Rightarrow> bool) \<Rightarrow> gotime \<Rightarrow> int \<Rightarrow> worker \<Rightarrow> tracker \<Rightarrow> tracker" where
  "worker_report judge ok now i w tk =
     (case wk_phase w of
        Reporting st formatted n \<Rightarrow>
          (set_phase i (Leaving True) tk)
            \<lparr>wt_objectives := (if wk_objective w > 0
               then objective_task_done judge ok now
                      \<lparr>tr_objective = wk_objective w, tr_directive = wk_directive w, tr_status = st, tr_result = formatted\<rparr>
                      (wt_objectives tk)
               else wt_objectives tk)\<rparr>
      | _ \<Rightarrow> tk)"

text \<open>The deferred calls: the slot is given back, the context cancelled, the entry deleted.\<close>

definition worker_leave :: "int \<Rightarrow> bool \<Rightarrow> tracker \<Rightarrow> tracker" where
  "worker_leave i held tk =
     tk\<lparr>wt_slots := (if held then wt_slots tk - 1 else wt_slots tk),
        wt_cancelled := insert (TaskCtx i) (wt_cancelled tk),
        wt_active := (wt_active tk)(i := None),
        wt_workers := (wt_workers tk)(i := None)\<rparr>"

section \<open>Tracked work, the watchdog, cancellation\<close>

definition track_start :: "bool \<Rightarrow> gotime \<Rightarrow> string \<Rightarrow> string \<Rightarrow> duration \<Rightarrow> tracker \<Rightarrow> int \<times> tracker" where
  "track_start ok now typ directive timeout tk =
     (if ok then
        (wi_next (wt_items tk),
         tk\<lparr>wt_items := insert_item (\<lambda>i. (blank_item i now typ directive ''running'')
              \<lparr>wi_started := Some now, wi_timeout := Some (now + whole_seconds timeout)\<rparr>) (wt_items tk)\<rparr>)
      else (0, tk))"

definition set_cancel :: "int \<Rightarrow> nat \<Rightarrow> tracker \<Rightarrow> tracker" where
  "set_cancel i c tk = (if i = 0 then tk else tk\<lparr>wt_active := (wt_active tk)(i \<mapsto> CallerCtx c)\<rparr>)"

definition track_end :: "bool \<Rightarrow> gotime \<Rightarrow> int \<Rightarrow> string \<Rightarrow> string \<Rightarrow> tracker \<Rightarrow> tracker" where
  "track_end ok now i st err tk =
     (if i = 0 then tk
      else tk\<lparr>wt_active := (wt_active tk)(i := None), wt_items := update_work ok now i st [] err (wt_items tk)\<rparr>)"

text \<open>
  \<open>KillHungWork\<close>: one query, whose rows are then treated one by one.
\<close>

definition is_hung :: "gotime \<Rightarrow> work_item \<Rightarrow> bool" where
  "is_hung now r \<longleftrightarrow> wi_status r = ''running'' \<and> (case wi_timeout r of None \<Rightarrow> False | Some t \<Rightarrow> t < now)"

definition watch_query :: "bool \<Rightarrow> gotime \<Rightarrow> tracker \<Rightarrow> tracker" where
  "watch_query ok now tk =
     tk\<lparr>wt_hung := (if ok then map wi_id (filter (is_hung now) (wi_rows (wt_items tk))) else [])\<rparr>"

definition kill_row :: "bool \<Rightarrow> gotime \<Rightarrow> int \<Rightarrow> tracker \<Rightarrow> tracker" where
  "kill_row ok now i tk =
     tk\<lparr>wt_cancelled := (case wt_active tk i of None \<Rightarrow> wt_cancelled tk | Some c \<Rightarrow> insert c (wt_cancelled tk)),
        wt_active := (wt_active tk)(i := None),
        wt_items := update_work ok now i ''failed'' [] ''killed by watchdog: exceeded timeout'' (wt_items tk)\<rparr>"

definition kill_hung_work :: "bool \<Rightarrow> gotime \<Rightarrow> tracker \<Rightarrow> nat \<times> tracker" where
  "kill_hung_work ok now tk =
     (let tk1 = watch_query ok now tk
      in (length (wt_hung tk1), (foldl (\<lambda>t i. kill_row ok now i t) tk1 (wt_hung tk1))\<lparr>wt_hung := []\<rparr>))"

definition cancel_work :: "bool \<Rightarrow> gotime \<Rightarrow> int \<Rightarrow> tracker \<Rightarrow> string \<times> tracker" where
  "cancel_work ok now i tk =
     (case wt_active tk i of
        None \<Rightarrow> (''Work item #'' @ itoa i @ '' is not currently running.'', tk)
      | Some c \<Rightarrow>
          (''Work item #'' @ itoa i @ '' cancelled.'',
           tk\<lparr>wt_cancelled := insert c (wt_cancelled tk),
              wt_items := update_work ok now i ''cancelled'' [] ''cancelled by user'' (wt_items tk),
              wt_active := (wt_active tk)(i := None)\<rparr>))"

definition cleanup_orphans :: "bool \<Rightarrow> gotime \<Rightarrow> work_db \<Rightarrow> work_db" where
  "cleanup_orphans ok now db =
     (if ok then change_items (\<lambda>r. wi_status r = ''running'')
        (\<lambda>r. r\<lparr>wi_status := ''failed'', wi_error := Some ''orphaned: process restarted'', wi_completed := Some now\<rparr>) db
      else db)"

definition finished_status :: "string \<Rightarrow> bool" where
  "finished_status st \<longleftrightarrow> st \<in> {''completed'', ''failed'', ''cancelled''}"

definition cleanup_old_tasks :: "bool \<Rightarrow> gotime \<Rightarrow> work_db \<Rightarrow> work_db" where
  "cleanup_old_tasks ok now db =
     (if ok then db\<lparr>wi_rows := filter (\<lambda>r. \<not> (finished_status (wi_status r)
        \<and> (case wi_completed r of None \<Rightarrow> False | Some t \<Rightarrow> t < now - 7 * day))) (wi_rows db)\<rparr>
      else db)"

section \<open>What the user sees\<close>

definition pad_right :: "nat \<Rightarrow> string \<Rightarrow> string" where
  "pad_right n s = s @ replicate (n - length s) (CHR '' '')"

text \<open>\<open>Status\<close>, with the times in the local zone, \<open>off\<close> nanoseconds east of UTC.\<close>

definition opt_line :: "string \<Rightarrow> duration \<Rightarrow> gotime option \<Rightarrow> string" where
  "opt_line label off t = (case t of None \<Rightarrow> [] | Some t \<Rightarrow> label @ format_rfc3339 off t @ nl)"

definition work_status :: "bool \<Rightarrow> string \<Rightarrow> duration \<Rightarrow> int \<Rightarrow> work_db \<Rightarrow> string + string" where
  "work_status ok err off i db =
     (case (if ok then item i db else None) of
        None \<Rightarrow> Inl (''work item not found: '' @ err)
      | Some r \<Rightarrow> Inr
          (''Work Item #'' @ itoa i @ '' ['' @ wi_type r @ '']: '' @ wi_directive r @ nl
           @ ''Status: '' @ wi_status r @ '' | Priority: '' @ itoa (wi_priority r) @ nl
           @ (if wi_total r > 0 then ''Progress: '' @ itoa (wi_done r) @ ''/'' @ itoa (wi_total r) @ '' steps'' @ nl else [])
           @ ''Created: '' @ format_rfc3339 off (wi_created r) @ nl
           @ opt_line ''Started: '' off (wi_started r)
           @ opt_line ''Completed: '' off (wi_completed r)
           @ (if wi_status r = ''running'' then opt_line ''Timeout: '' off (wi_timeout r) else [])
           @ (case wi_error r of None \<Rightarrow> [] | Some e \<Rightarrow> if e = [] then [] else ''Error: '' @ e @ nl)
           @ (case wi_result r of None \<Rightarrow> [] | Some t \<Rightarrow> if t = [] then [] else nl @ ''Results:'' @ nl @ t)))"

text \<open>\<open>List\<close>: what runs first, then by priority, the newest first.\<close>

definition listed :: "gotime \<Rightarrow> work_item \<Rightarrow> bool" where
  "listed now r \<longleftrightarrow> wi_status r = ''running'' \<or>
     (finished_status (wi_status r) \<and> (case wi_completed r of None \<Rightarrow> False | Some t \<Rightarrow> now - day \<le> t))"

definition list_order :: "work_item list \<Rightarrow> work_item list" where
  "list_order rs =
     sort_key (\<lambda>r. if wi_status r = ''running'' then 0 else 1 :: int)
       (sort_key (\<lambda>r. - wi_priority r) (sort_key (\<lambda>r. - wi_created r) rs))"

definition list_line :: "work_item \<Rightarrow> string" where
  "list_line r =
     pad_right 4 (itoa (wi_id r)) @ ''| '' @ pad_right 10 (wi_type r) @ '' | '' @ pad_right 10 (wi_status r) @ '' | ''
     @ pad_right 3 (itoa (wi_priority r)) @ '' | '' @ itoa (wi_done r) @ ''/'' @ pad_right 6 (itoa (wi_total r)) @ '' | ''
     @ truncate_str (wi_directive r) 30 @ nl"

definition work_list :: "bool \<Rightarrow> string \<Rightarrow> gotime \<Rightarrow> work_db \<Rightarrow> string + string" where
  "work_list ok err now db =
     (if \<not> ok then Inl (''list work items: '' @ err)
      else
        (let rs = take 10 (list_order (filter (listed now) (wi_rows db)))
         in Inr (''Work Items:'' @ nl
              @ ''ID  | Type       | Status     | Pri | Progress | Directive'' @ nl
              @ ''----|------------|------------|-----|----------|----------'' @ nl
              @ (if rs = [] then ''(no work items)'' @ nl else concat (map list_line rs)))))"

section \<open>The tools\<close>

definition sq :: "string \<Rightarrow> string" where "sq s = [CHR 0x27] @ s @ [CHR 0x27]"

definition check_background_task ::
  "(nat \<Rightarrow> bool) \<Rightarrow> string \<Rightarrow> duration \<Rightarrow> gotime \<Rightarrow> string option \<Rightarrow> tracker \<Rightarrow> (string + string) \<times> tracker" where
  "check_background_task ok err off now args tk =
     (case struct_members args of
        None \<Rightarrow> (Inr ''invalid arguments'', tk)
      | Some ms \<Rightarrow>
          (let names = [''task_id'', ''action''];
               (i, e1) = arg_int names ''task_id'' ms;
               (action0, e2) = arg_string names ''action'' ms;
               action = (if action0 = [] then ''status'' else action0)
           in if e1 \<or> e2 then (Inr ''invalid arguments'', tk)
              else if action = ''list'' then (work_list (ok 0) err now (wt_items tk), tk)
              else if action = ''status'' then
                (if i \<le> 0 then Inr ''task_id is required for status action'' else work_status (ok 0) err off i (wt_items tk), tk)
              else if action = ''cancel'' then
                (if i \<le> 0 then (Inr ''task_id is required for cancel action'', tk)
                 else (let (t, tk') = cancel_work (ok 0) now i tk in (Inr t, tk')))
              else (Inr (''unknown action '' @ go_quote action @ '' (use '' @ sq ''list'' @ '', '' @ sq ''status'' @ '', or '' @ sq ''cancel'' @ '')''), tk)))"

text \<open>\<open>LaunchBackgroundPlan\<close>; \<open>env\<close> is the environment under its time limit.\<close>

definition launch_background_plan ::
  "'s plan_env \<Rightarrow> (nat \<Rightarrow> bool) \<Rightarrow> string \<Rightarrow> gotime \<Rightarrow> string \<Rightarrow> int \<Rightarrow> int \<Rightarrow> 's \<Rightarrow> tracker \<Rightarrow> (string + int) \<times> 's \<times> tracker" where
  "launch_background_plan env ok err now directive prio objective_id s tk =
     (case decompose_plan env directive [] s of
        (Inl e, s') \<Rightarrow> (Inl (''curiosity plan decomposition: '' @ e), s', tk)
      | (Inr steps, s') \<Rightarrow>
          (let (res, tk') = start_work ok err now directive prio objective_id steps tk in (res, s', tk')))"

text \<open>\<open>NewPlanAndExecute\<close>; \<open>fg\<close> is the environment under the time limit of a plan in the foreground.\<close>

definition plan_and_execute ::
  "'s plan_env \<Rightarrow> 's plan_env \<Rightarrow> (nat \<Rightarrow> bool) \<Rightarrow> string \<Rightarrow> gotime \<Rightarrow> string option \<Rightarrow> 's \<Rightarrow> tracker option
     \<Rightarrow> string \<times> 's \<times> tracker option" where
  "plan_and_execute env fg ok err now args s wt =
     (case struct_members args of
        None \<Rightarrow> (''invalid arguments'', s, wt)
      | Some ms \<Rightarrow>
          (let names = [''directive'', ''context'', ''background'', ''priority''];
               (directive, e1) = arg_string names ''directive'' ms;
               (context, e2) = arg_string names ''context'' ms;
               (background, e3) = arg_bool names ''background'' ms;
               (prio0, e4) = arg_int names ''priority'' ms;
               prio = (if prio0 < 1 \<or> prio0 > 10 then 5 else prio0);
               extra = (if length context > max_delegate_context_len
                        then take max_delegate_context_len context @ nl @ ''... (truncated)'' else context)
           in if e1 \<or> e2 \<or> e3 \<or> e4 then (''invalid arguments'', s, wt)
              else if trim_space directive = [] then (''directive is required'', s, wt)
              else (case decompose_plan env directive extra s of
                  (Inl e, s') \<Rightarrow> (''Failed to decompose plan: '' @ e, s', wt)
                | (Inr steps, s') \<Rightarrow>
                    (case (if background then wt else None) of
                       Some tk \<Rightarrow>
                         (case start_work ok err now directive prio 0 steps tk of
                            (Inl e, tk') \<Rightarrow> (''Failed to start background task: '' @ e, s', Some tk')
                          | (Inr i, tk') \<Rightarrow>
                              (''Background task #'' @ itoa i @ '' started with '' @ nat_dec (length steps)
                               @ '' steps. Use check_background_task to monitor progress.'', s', Some tk'))
                     | None \<Rightarrow>
                         (let (rs, s'') = execute_steps fg directive steps s' in (format_results rs, s'', wt))))))"

end
