(* ===== verification/WorkSystem.thy ===== *)
theory WorkSystem
  imports WorkTracker
begin

text \<open>
  The goroutines of the work tracker (\<open>worktracker/work_tracker.go\<close>) as a step relation: every
  interleaving of calls, tasks and watchdog. What holds in every reachable state, what the watchdog
  does, and why a cancelled task does not stay cancelled.
\<close>

section \<open>Steps and reachable states\<close>

text \<open>
  Every interleaving of calls, goroutines and watchdog, at any times and with any outcome of every
  query that \<open>qs\<close> allows (\<open>{True}\<close>: the database works). The results of a plan are those that \<open>execute_steps\<close> has in some environment. Tracked
  items are those that \<open>TrackStart\<close> returned; only they are given to \<open>SetCancel\<close> and \<open>TrackEnd\<close>.
\<close>

definition tracked_item :: "int \<Rightarrow> tracker \<Rightarrow> bool" where
  "tracked_item i tk \<longleftrightarrow> (\<exists>r \<in> set (wi_rows (wt_items tk)). wi_id r = i \<and> wi_type r \<noteq> ''background'' \<and> wi_status r \<noteq> ''pending'')"

inductive tracker_step :: "'s plan_env \<Rightarrow> bool set \<Rightarrow> tracker \<Rightarrow> tracker \<Rightarrow> bool" for env qs where
  start: "(\<forall>n. ok n \<in> qs) \<Longrightarrow> steps \<noteq> [] \<Longrightarrow> tracker_step env qs tk (snd (start_work ok err now directive prio ob steps tk))"
| enter: "wt_workers tk i = Some w \<Longrightarrow> wk_phase w = Queued \<Longrightarrow> wt_slots tk < worker_slots \<Longrightarrow>
    tracker_step env qs tk (worker_enter i tk)"
| give_up: "q \<in> qs \<Longrightarrow> wt_workers tk i = Some w \<Longrightarrow> wk_phase w = Queued \<Longrightarrow> TaskCtx i \<in> wt_cancelled tk \<Longrightarrow>
    tracker_step env qs tk (worker_give_up q now i tk)"
| progress: "q \<in> qs \<Longrightarrow> wt_workers tk i = Some w \<Longrightarrow> wk_phase w = Executing \<Longrightarrow> tracker_step env qs tk (worker_progress q i n tk)"
| finish: "q \<in> qs \<Longrightarrow> wt_workers tk i = Some w \<Longrightarrow> wk_phase w = Executing \<Longrightarrow>
    execute_steps env (wk_directive w) (wk_steps w) s = (rs, s') \<Longrightarrow> tracker_step env qs tk (worker_finish q now i w rs tk)"
| report: "(\<forall>n. ok n \<in> qs) \<Longrightarrow> wt_workers tk i = Some w \<Longrightarrow> wk_phase w = Reporting st t n \<Longrightarrow>
    tracker_step env qs tk (worker_report judge ok now i w tk)"
| leave: "wt_workers tk i = Some w \<Longrightarrow> wk_phase w = Leaving held \<Longrightarrow> tracker_step env qs tk (worker_leave i held tk)"
| deadline: "wt_workers tk i = Some w \<Longrightarrow> tracker_step env qs tk (tk\<lparr>wt_cancelled := insert (TaskCtx i) (wt_cancelled tk)\<rparr>)"
| track: "q \<in> qs \<Longrightarrow> typ \<noteq> ''background'' \<Longrightarrow> tracker_step env qs tk (snd (track_start q now typ directive timeout tk))"
| set_cancel: "tracked_item i tk \<Longrightarrow> tracker_step env qs tk (set_cancel i c tk)"
| track_end: "q \<in> qs \<Longrightarrow> tracked_item i tk \<Longrightarrow> finished_status st \<Longrightarrow> tracker_step env qs tk (track_end q now i st e tk)"
| watch: "q \<in> qs \<Longrightarrow> tracker_step env qs tk (watch_query q now tk)"
| kill: "q \<in> qs \<Longrightarrow> wt_hung tk = i # hs \<Longrightarrow> tracker_step env qs tk ((kill_row q now i tk)\<lparr>wt_hung := hs\<rparr>)"
| cancel: "q \<in> qs \<Longrightarrow> tracker_step env qs tk (snd (cancel_work q now i tk))"
| cleanup: "q \<in> qs \<Longrightarrow> tracker_step env qs tk (tk\<lparr>wt_items := cleanup_old_tasks q now (wt_items tk)\<rparr>)"

definition work_db_ok :: "work_db \<Rightarrow> bool" where
  "work_db_ok db \<longleftrightarrow> distinct (map wi_id (wi_rows db)) \<and> (\<forall>r \<in> set (wi_rows db). 0 < wi_id r \<and> wi_id r < wi_next db) \<and> 0 < wi_next db"

text \<open>The state after the start of the process: the orphans are cleaned up, nothing runs.\<close>

definition tracker_init :: "tracker \<Rightarrow> bool" where
  "tracker_init tk \<longleftrightarrow> (\<exists>db ob now. work_db_ok db \<and> tk = new_tracker (cleanup_orphans True now db) ob)"

inductive tracker_reach :: "'s plan_env \<Rightarrow> bool set \<Rightarrow> tracker \<Rightarrow> bool" for env qs where
  init: "tracker_init tk \<Longrightarrow> tracker_reach env qs tk"
| step: "tracker_reach env qs tk \<Longrightarrow> tracker_step env qs tk tk' \<Longrightarrow> tracker_reach env qs tk'"

section \<open>Slots, contexts and rows agree\<close>

fun holds_slot :: "phase \<Rightarrow> bool" where
  "holds_slot Executing = True"
| "holds_slot (Reporting st t n) = True"
| "holds_slot (Leaving held) = held"
| "holds_slot Queued = False"

definition holders :: "tracker \<Rightarrow> int set" where
  "holders tk = {i. \<exists>w. wt_workers tk i = Some w \<and> holds_slot (wk_phase w)}"

definition slots_inv :: "tracker \<Rightarrow> bool" where
  "slots_inv tk \<longleftrightarrow> finite (dom (wt_workers tk)) \<and> wt_slots tk = card (holders tk) \<and> wt_slots tk \<le> worker_slots"

definition rows_inv :: "tracker \<Rightarrow> bool" where
  "rows_inv tk \<longleftrightarrow> work_db_ok (wt_items tk) \<and>
     (\<forall>i w. wt_workers tk i = Some w \<longrightarrow> 0 < i \<and> i < wi_next (wt_items tk)) \<and>
     (\<forall>r \<in> set (wi_rows (wt_items tk)). wt_workers tk (wi_id r) \<noteq> None \<longrightarrow> wi_type r = ''background'')"

definition contexts_inv :: "tracker \<Rightarrow> bool" where
  "contexts_inv tk \<longleftrightarrow>
     (\<forall>i w. wt_workers tk i = Some w \<longrightarrow> wt_active tk i = Some (TaskCtx i) \<or> TaskCtx i \<in> wt_cancelled tk) \<and>
     (\<forall>i j. wt_active tk i = Some (TaskCtx j) \<longrightarrow> j = i \<and> wt_workers tk i \<noteq> None)"

lemma set_phase_known [simp]:
  "wt_workers tk i = Some w \<Longrightarrow> set_phase i ph tk = tk\<lparr>wt_workers := (wt_workers tk)(i \<mapsto> w\<lparr>wk_phase := ph\<rparr>)\<rparr>"
  by (simp add: set_phase_def)

lemma workers_of [simp]:
  "wt_workers (worker_progress q i n tk) = wt_workers tk" "wt_workers (snd (track_start q now ty d t tk)) = wt_workers tk"
  "wt_workers (set_cancel i c tk) = wt_workers tk" "wt_workers (track_end q now i st e tk) = wt_workers tk"
  "wt_workers (watch_query q now tk) = wt_workers tk" "wt_workers (kill_row q now i tk) = wt_workers tk"
  "wt_workers (snd (cancel_work q now i tk)) = wt_workers tk"
  "wt_workers (worker_leave i held tk) = (wt_workers tk)(i := None)"
  "wt_workers (snd (start_work ok err now d prio ob steps tk)) = (if ok 0 then (wt_workers tk)(wi_next (wt_items tk) \<mapsto>
     \<lparr>wk_directive = d, wk_objective = ob, wk_steps = steps, wk_phase = Queued\<rparr>) else wt_workers tk)"
  by (simp_all add: worker_progress_def track_start_def set_cancel_def track_end_def watch_query_def kill_row_def
      cancel_work_def worker_leave_def start_work_def Let_def split: option.split)

lemma workers_phase:
  assumes "wt_workers tk i = Some w"
  shows "wt_workers (worker_enter i tk) = (wt_workers tk)(i \<mapsto> w\<lparr>wk_phase := Executing\<rparr>)"
    "wt_workers (worker_give_up q now i tk) = (wt_workers tk)(i \<mapsto> w\<lparr>wk_phase := Leaving False\<rparr>)"
    "wt_workers (worker_finish q now i w rs tk) =
      (wt_workers tk)(i \<mapsto> w\<lparr>wk_phase := Reporting (fst (plan_outcome rs)) (format_results rs) (succeeded rs)\<rparr>)"
    "wk_phase w = Reporting st t n \<Longrightarrow>
      wt_workers (worker_report judge ok now i w tk) = (wt_workers tk)(i \<mapsto> w\<lparr>wk_phase := Leaving True\<rparr>)"
  using assms by (simp_all add: worker_enter_def worker_give_up_def worker_finish_def worker_report_def Let_def
      split: prod.split)

lemma slots_of [simp]:
  "wt_slots (worker_progress q i n tk) = wt_slots tk" "wt_slots (snd (track_start q now ty d t tk)) = wt_slots tk"
  "wt_slots (set_cancel i c tk) = wt_slots tk" "wt_slots (track_end q now i st e tk) = wt_slots tk"
  "wt_slots (watch_query q now tk) = wt_slots tk" "wt_slots (kill_row q now i tk) = wt_slots tk"
  "wt_slots (snd (cancel_work q now i tk)) = wt_slots tk"
  "wt_slots (worker_leave i held tk) = (if held then wt_slots tk - 1 else wt_slots tk)"
  "wt_slots (snd (start_work ok err now d prio ob steps tk)) = wt_slots tk"
  "wt_slots (worker_enter i tk) = wt_slots tk + 1" "wt_slots (set_phase i ph tk) = wt_slots tk"
  "wt_slots (worker_give_up q now i tk) = wt_slots tk" "wt_slots (worker_finish q now i w rs tk) = wt_slots tk"
  "wt_slots (worker_report judge ok now i w tk) = wt_slots tk"
  by (simp_all add: worker_progress_def track_start_def set_cancel_def track_end_def watch_query_def kill_row_def
      cancel_work_def worker_leave_def start_work_def worker_enter_def worker_give_up_def worker_finish_def
      worker_report_def set_phase_def Let_def split: option.split prod.split phase.split)

lemma actives_of [simp]:
  "wt_active (worker_progress q i n tk) = wt_active tk" "wt_active (snd (track_start q now ty d t tk)) = wt_active tk"
  "wt_active (set_cancel i c tk) = (if i = 0 then wt_active tk else (wt_active tk)(i \<mapsto> CallerCtx c))"
  "wt_active (track_end q now i st e tk) = (if i = 0 then wt_active tk else (wt_active tk)(i := None))"
  "wt_active (watch_query q now tk) = wt_active tk" "wt_active (kill_row q now i tk) = (wt_active tk)(i := None)"
  "wt_active (snd (cancel_work q now i tk)) = (wt_active tk)(i := None)"
  "wt_active (worker_leave i held tk) = (wt_active tk)(i := None)"
  "wt_active (snd (start_work ok err now d prio ob steps tk)) = (if ok 0 then (wt_active tk)(wi_next (wt_items tk) \<mapsto>
     TaskCtx (wi_next (wt_items tk))) else wt_active tk)"
  "wt_active (worker_enter i tk) = wt_active tk" "wt_active (set_phase i ph tk) = wt_active tk"
  "wt_active (worker_give_up q now i tk) = wt_active tk" "wt_active (worker_finish q now i w rs tk) = wt_active tk"
  "wt_active (worker_report judge ok now i w tk) = wt_active tk"
  by (auto simp: worker_progress_def track_start_def set_cancel_def track_end_def watch_query_def kill_row_def
      cancel_work_def worker_leave_def start_work_def worker_enter_def worker_give_up_def worker_finish_def
      worker_report_def set_phase_def Let_def split: option.split prod.split phase.split)

lemma cancelled_of [simp]:
  "wt_cancelled (worker_progress q i n tk) = wt_cancelled tk" "wt_cancelled (snd (track_start q now ty d t tk)) = wt_cancelled tk"
  "wt_cancelled (set_cancel i c tk) = wt_cancelled tk" "wt_cancelled (track_end q now i st e tk) = wt_cancelled tk"
  "wt_cancelled (watch_query q now tk) = wt_cancelled tk"
  "wt_cancelled (kill_row q now i tk) = set_option (wt_active tk i) \<union> wt_cancelled tk"
  "wt_cancelled (snd (cancel_work q now i tk)) = set_option (wt_active tk i) \<union> wt_cancelled tk"
  "wt_cancelled (worker_leave i held tk) = insert (TaskCtx i) (wt_cancelled tk)"
  "wt_cancelled (snd (start_work ok err now d prio ob steps tk)) = wt_cancelled tk"
  "wt_cancelled (worker_enter i tk) = wt_cancelled tk" "wt_cancelled (set_phase i ph tk) = wt_cancelled tk"
  "wt_cancelled (worker_give_up q now i tk) = wt_cancelled tk" "wt_cancelled (worker_finish q now i w rs tk) = wt_cancelled tk"
  "wt_cancelled (worker_report judge ok now i w tk) = wt_cancelled tk"
  by (simp_all add: worker_progress_def track_start_def set_cancel_def track_end_def watch_query_def kill_row_def
      cancel_work_def worker_leave_def start_work_def worker_enter_def worker_give_up_def worker_finish_def
      worker_report_def set_phase_def Let_def split: option.split prod.split phase.split)

lemma items_of [simp]:
  "wt_items (set_cancel i c tk) = wt_items tk" "wt_items (watch_query q now tk) = wt_items tk"
  "wt_items (kill_row q now i tk) = update_work q now i ''failed'' [] ''killed by watchdog: exceeded timeout'' (wt_items tk)"
  "wt_items (snd (cancel_work q now i tk)) = (if wt_active tk i = None then wt_items tk
     else update_work q now i ''cancelled'' [] ''cancelled by user'' (wt_items tk))"
  "wt_items (track_end q now i st e tk) = (if i = 0 then wt_items tk else update_work q now i st [] e (wt_items tk))"
  "wt_items (worker_leave i held tk) = wt_items tk" "wt_items (worker_enter i tk) = wt_items tk"
  "wt_items (worker_give_up q now i tk) =
     update_work q now i ''failed'' [] ''timed out waiting for execution slot'' (wt_items tk)"
  "wt_items (worker_finish q now i w rs tk) =
     update_work q now i (fst (plan_outcome rs)) (format_results rs) (snd (plan_outcome rs)) (wt_items tk)"
  "wt_items (worker_report judge ok now i w tk) = wt_items tk" "wt_items (set_phase i ph tk) = wt_items tk"
  by (simp_all add: set_cancel_def track_end_def watch_query_def kill_row_def
      cancel_work_def worker_leave_def start_work_def worker_enter_def worker_give_up_def worker_finish_def
      worker_report_def set_phase_def Let_def split: option.split prod.split phase.split)

lemma rows_change [simp]:
  "set (wi_rows (change_items P f db)) = (\<lambda>r. if P r then f r else r) ` set (wi_rows db)"
  "wi_next (change_items P f db) = wi_next db"
  by (simp_all add: change_items_def)

lemma ids_change: "(\<And>r. wi_id (f r) = wi_id r) \<Longrightarrow> map wi_id (wi_rows (change_items P f db)) = map wi_id (wi_rows db)"
  by (simp add: change_items_def comp_def if_distrib cong: if_cong)

lemma db_ok_change: "(\<And>r. wi_id (f r) = wi_id r) \<Longrightarrow> work_db_ok db \<Longrightarrow> work_db_ok (change_items P f db)"
  by (auto simp: work_db_ok_def ids_change)

lemma db_ok_update [simp]: "work_db_ok db \<Longrightarrow> work_db_ok (update_work q now i st t e db)"
  by (simp add: update_work_def db_ok_change)

lemma next_update [simp]: "wi_next (update_work q now i st t e db) = wi_next db"
  by (simp add: update_work_def)

lemma db_ok_insert: "(\<And>i. wi_id (row i) = i) \<Longrightarrow> work_db_ok db \<Longrightarrow> work_db_ok (insert_item row db)"
  by (auto simp: work_db_ok_def insert_item_def)

lemma update_work_in:
  "r \<in> set (wi_rows (update_work q now i st t e db)) \<Longrightarrow>
    \<exists>r' \<in> set (wi_rows db). wi_id r = wi_id r' \<and> wi_type r = wi_type r' \<and>
      (wi_status r = wi_status r' \<or> (wi_id r = i \<and> wi_status r = st)) \<and> (q \<and> wi_id r = i \<longrightarrow> wi_status r = st)"
  by (auto simp: update_work_def split: if_splits)

lemma db_ok_cleanup: "work_db_ok db \<Longrightarrow> work_db_ok (cleanup_old_tasks q now db)"
  by (auto simp: work_db_ok_def cleanup_old_tasks_def distinct_map intro: inj_on_subset)

lemma finite_holders: "finite (dom (wt_workers tk)) \<Longrightarrow> finite (holders tk)"
  by (rule finite_subset [of _ "dom (wt_workers tk)"]) (auto simp: holders_def)

lemma holds_iff: "wt_workers tk i = Some w \<Longrightarrow> i \<in> holders tk \<longleftrightarrow> holds_slot (wk_phase w)"
  by (simp add: holders_def)

lemma slots_same: "wt_workers tk' = wt_workers tk \<Longrightarrow> wt_slots tk' = wt_slots tk \<Longrightarrow> slots_inv tk \<Longrightarrow> slots_inv tk'"
  by (simp add: slots_inv_def holders_def)

lemma slots_step:
  assumes "tracker_step env qs tk tk'" "slots_inv tk" "rows_inv tk"
  shows "slots_inv tk'"
  using assms
proof (induction rule: tracker_step.induct)
  case (start ok steps tk err now directive prio ob)
  then have "wt_workers tk (wi_next (wt_items tk)) = None" by (fastforce simp: rows_inv_def)
  then have "holders (snd (start_work ok err now directive prio ob steps tk)) = holders tk"
    by (auto simp: holders_def)
  then show ?case using start by (simp add: slots_inv_def)
next
  case (enter tk i w)
  then have "holders (worker_enter i tk) = insert i (holders tk)" "i \<notin> holders tk"
    by (auto simp: holders_def workers_phase [OF enter(1)])
  with enter show ?case by (simp add: slots_inv_def workers_phase [OF enter(1)] finite_holders worker_slots_def)
next
  case (give_up q tk i w now)
  then have "holders (worker_give_up q now i tk) = holders tk" by (auto simp: holders_def workers_phase [OF give_up(2)])
  with give_up show ?case by (simp add: slots_inv_def workers_phase [OF give_up(2)])
next
  case (finish q tk i w s rs s' now)
  then have "holders (worker_finish q now i w rs tk) = holders tk" by (auto simp: holders_def workers_phase [OF finish(2)])
  with finish show ?case by (simp add: slots_inv_def workers_phase [OF finish(2)])
next
  case (report ok tk i w st t n judge now)
  then have "holders (worker_report judge ok now i w tk) = holders tk" by (auto simp: holders_def workers_phase(4) [OF report(2)])
  with report show ?case by (simp add: slots_inv_def workers_phase(4) [OF report(2)])
next
  case (leave tk i w held)
  have "holders (worker_leave i held tk) = holders tk - {i}" by (auto simp: holders_def)
  moreover have "i \<in> holders tk \<longleftrightarrow> held" using holds_iff [OF leave(1)] leave(2) by simp
  ultimately have "card (holders (worker_leave i held tk)) = (if held then card (holders tk) - 1 else card (holders tk))"
    by (cases held) (simp_all add: card_Diff_singleton)
  then show ?case using leave(3) by (auto simp: slots_inv_def)
qed ((rule slots_same, simp, simp, assumption)+)

lemma rows_step:
  assumes "tracker_step env qs tk tk'" "rows_inv tk"
  shows "rows_inv tk'"
  using assms
proof (induction rule: tracker_step.induct)
  case (start ok steps tk err now directive prio ob)
  then show ?case
    by (auto simp: rows_inv_def start_work_def Let_def blank_item_def work_db_ok_def insert_item_def split: if_splits)
next
  case (track q ty tk now directive timeout)
  then have "wt_workers tk (wi_next (wt_items tk)) = None" by (fastforce simp: rows_inv_def)
  with track show ?case
    by (auto simp: rows_inv_def track_start_def Let_def blank_item_def work_db_ok_def insert_item_def split: if_splits)
next
  case (cleanup q tk now)
  then show ?case by (auto simp: rows_inv_def db_ok_cleanup) (auto simp: cleanup_old_tasks_def split: if_splits)
next
  case (progress q tk i w n)
  then show ?case by (auto simp: rows_inv_def worker_progress_def db_ok_change split: if_splits)
qed (force simp: rows_inv_def workers_phase dest!: update_work_in split: if_splits)+

lemma contexts_step:
  assumes "tracker_step env qs tk tk'" "contexts_inv tk" "rows_inv tk"
  shows "contexts_inv tk'"
  using assms
proof (induction rule: tracker_step.induct)
  case (set_cancel i tk c)
  then have "wt_workers tk i = None" by (fastforce simp: tracked_item_def rows_inv_def)
  with set_cancel show ?case by (auto simp: contexts_inv_def split: if_splits)
next
  case (track_end q i tk st now e)
  then have "wt_workers tk i = None" by (fastforce simp: tracked_item_def rows_inv_def)
  with track_end show ?case by (auto simp: contexts_inv_def split: if_splits)
qed (auto simp: contexts_inv_def workers_phase split: if_splits)

definition tracker_inv :: "tracker \<Rightarrow> bool" where
  "tracker_inv tk \<longleftrightarrow> slots_inv tk \<and> rows_inv tk \<and> contexts_inv tk"

lemma db_ok_orphans: "work_db_ok db \<Longrightarrow> work_db_ok (cleanup_orphans q now db)"
  by (simp add: cleanup_orphans_def db_ok_change)

lemma tracker_reach_inv: "tracker_reach env qs tk \<Longrightarrow> tracker_inv tk"
proof (induction rule: tracker_reach.induct)
  case (init tk)
  then obtain db ob now where "work_db_ok db" "tk = new_tracker (cleanup_orphans True now db) ob"
    by (auto simp: tracker_init_def)
  then show ?case
    by (simp add: tracker_inv_def slots_inv_def rows_inv_def contexts_inv_def new_tracker_def holders_def db_ok_orphans)
next
  case (step tk tk')
  then show ?case using slots_step rows_step contexts_step by (auto simp: tracker_inv_def)
qed

section \<open>A run\<close>

definition demo_step :: plan_step where "demo_step = \<lparr>step_description = ''a'', tools_needed = []\<rparr>"

definition demo_worker :: "phase \<Rightarrow> worker" where
  "demo_worker ph = \<lparr>wk_directive = ''d'', wk_objective = 0, wk_steps = [demo_step], wk_phase = ph\<rparr>"

definition demo_fresh :: tracker where
  "demo_fresh = new_tracker (cleanup_orphans True 0 \<lparr>wi_rows = [], wi_next = 1\<rparr>) no_objectives"

definition demo_running :: tracker where
  "demo_running = worker_enter 1 (snd (start_work (\<lambda>n. True) [] 0 ''d'' 5 0 [demo_step] demo_fresh))"

definition demo_cancelled :: tracker where
  "demo_cancelled = snd (cancel_work True 1 1 demo_running)"

definition demo_results :: "step_result list" where
  "demo_results = [\<lparr>sr_step = 1, sr_description = ''a'', sr_result = ''cancelled: deadline'', sr_success = False\<rparr>]"

definition demo_reporting :: tracker where
  "demo_reporting = worker_finish True 2 1 (demo_worker Executing) demo_results demo_cancelled"

definition demo_reported :: phase where
  "demo_reported = Reporting (fst (plan_outcome demo_results)) (format_results demo_results) (succeeded demo_results)"

definition demo_gone :: tracker where
  "demo_gone = worker_leave 1 True (worker_report None (\<lambda>n. True) 2 1 (demo_worker demo_reported) demo_reporting)"

lemma demo_execution: "execute_steps idle_plan_env ''d'' [demo_step] 2 = (demo_results, 2)"
  by (simp add: execute_steps_def idle_plan_env_def demo_step_def demo_results_def)

lemma demo_started: "wt_workers (snd (start_work (\<lambda>n. True) [] 0 ''d'' 5 0 [demo_step] demo_fresh)) 1 = Some (demo_worker Queued)"
  by (simp add: demo_fresh_def new_tracker_def cleanup_orphans_def change_items_def demo_worker_def)

lemma demo_running_worker: "wt_workers demo_running 1 = Some (demo_worker Executing)"
  unfolding demo_running_def workers_phase(1) [OF demo_started] by (simp add: demo_worker_def)

lemma demo_running_active: "wt_active demo_running 1 = Some (TaskCtx 1)"
  by (simp add: demo_running_def demo_fresh_def new_tracker_def cleanup_orphans_def change_items_def)

lemma demo_running_items:
  "item 1 (wt_items demo_running) = Some ((blank_item 1 0 ''background'' ''d'' ''running'')
     \<lparr>wi_total := 1, wi_priority := 5, wi_started := Some 0, wi_timeout := Some (15 * minute), wi_objective := None\<rparr>)"
  "map wi_id (wi_rows (wt_items demo_running)) = [1]"
  by (simp_all add: demo_running_def start_work_def demo_fresh_def new_tracker_def cleanup_orphans_def change_items_def
      insert_item_def item_def blank_item_def timeout_background_def whole_seconds_def minute_def second_def)

lemma demo_tracker_reach: "tracker_reach env {True} demo_running"
proof -
  have "tracker_init demo_fresh"
    unfolding tracker_init_def demo_fresh_def by (intro exI conjI) (auto simp: work_db_ok_def)
  then have "tracker_reach env {True} demo_fresh" by (rule tracker_reach.init)
  then have "tracker_reach env {True} (snd (start_work (\<lambda>n. True) [] 0 ''d'' 5 0 [demo_step] demo_fresh))"
    by (rule tracker_reach.step) (rule tracker_step.start, simp_all)
  then show ?thesis unfolding demo_running_def
    by (rule tracker_reach.step)
      (rule tracker_step.enter [OF demo_started], simp_all add: demo_worker_def worker_slots_def demo_fresh_def new_tracker_def)
qed

lemma demo_steps: "rtranclp (tracker_step idle_plan_env {True}) demo_cancelled demo_gone"
proof -
  have c: "wt_workers demo_cancelled 1 = Some (demo_worker Executing)"
    by (simp add: demo_cancelled_def demo_running_worker)
  then have s1: "tracker_step idle_plan_env {True} demo_cancelled demo_reporting"
    unfolding demo_reporting_def
    by (rule tracker_step.finish [OF singletonI, where s = 2 and s' = 2])
      (use demo_execution in \<open>simp_all add: demo_worker_def\<close>)
  have r: "wt_workers demo_reporting 1 = Some (demo_worker demo_reported)"
    unfolding demo_reporting_def workers_phase(3) [OF c] by (simp add: demo_reported_def demo_worker_def)
  let ?rep = "worker_report None (\<lambda>n. True) 2 1 (demo_worker demo_reported) demo_reporting"
  have p: "wk_phase (demo_worker demo_reported) = Reporting (fst (plan_outcome demo_results))
      (format_results demo_results) (succeeded demo_results)" by (simp add: demo_worker_def demo_reported_def)
  have s2: "tracker_step idle_plan_env {True} demo_reporting ?rep"
    by (rule tracker_step.report [OF _ r p]) simp
  have "wt_workers ?rep 1 = Some ((demo_worker demo_reported)\<lparr>wk_phase := Leaving True\<rparr>)"
    unfolding workers_phase(4) [OF r p] by simp
  then have s3: "tracker_step idle_plan_env {True} ?rep demo_gone"
    unfolding demo_gone_def by (rule tracker_step.leave) simp
  have "rtranclp (tracker_step idle_plan_env {True}) demo_cancelled demo_reporting" using s1 by (rule r_into_rtranclp)
  then have "rtranclp (tracker_step idle_plan_env {True}) demo_cancelled ?rep"
    using s2 by (rule rtranclp.rtrancl_into_rtrancl)
  then show ?thesis using s3 by (rule rtranclp.rtrancl_into_rtrancl)
qed




section \<open>No task is lost\<close>

definition runs_inv :: "tracker \<Rightarrow> bool" where
  "runs_inv tk \<longleftrightarrow> (\<forall>r \<in> set (wi_rows (wt_items tk)). wi_type r = ''background'' \<longrightarrow> wi_status r = ''running'' \<longrightarrow>
     (\<exists>w. wt_workers tk (wi_id r) = Some w \<and> wk_phase w \<in> {Queued, Executing}))"

lemma plan_outcome_status: "fst (plan_outcome rs) \<in> {''completed'', ''failed''}"
  by (simp add: plan_outcome_def)

lemma runs_update:
  assumes "runs_inv tk" "wt_items tk' = update_work True now i st t e (wt_items tk)" "st \<noteq> ''running''"
    and "\<And>j. j \<noteq> i \<Longrightarrow> wt_workers tk' j = wt_workers tk j"
  shows "runs_inv tk'"
  unfolding runs_inv_def
proof (intro ballI impI)
  fix r
  assume r: "r \<in> set (wi_rows (wt_items tk'))" "wi_type r = ''background''" "wi_status r = ''running''"
  from update_work_in [OF r(1) [unfolded assms(2)]] r(3) assms(3) obtain r' where r':
    "r' \<in> set (wi_rows (wt_items tk))" "wi_id r = wi_id r'" "wi_type r = wi_type r'" "wi_status r = wi_status r'"
    "wi_id r \<noteq> i" by auto
  with assms(1) r obtain w where "wt_workers tk (wi_id r) = Some w \<and> wk_phase w \<in> {Queued, Executing}"
    unfolding runs_inv_def by metis
  with assms(4) [OF r'(5)] show "\<exists>w. wt_workers tk' (wi_id r) = Some w \<and> wk_phase w \<in> {Queued, Executing}" by simp
qed

lemma runs_same:
  assumes "runs_inv tk" "wt_items tk' = wt_items tk"
    and "\<And>j w. wt_workers tk j = Some w \<Longrightarrow> wk_phase w \<in> {Queued, Executing} \<Longrightarrow>
      \<exists>w'. wt_workers tk' j = Some w' \<and> wk_phase w' \<in> {Queued, Executing}"
  shows "runs_inv tk'"
  using assms unfolding runs_inv_def by metis

lemma runs_step:
  assumes "tracker_step env {True} tk tk'" "runs_inv tk" "rows_inv tk"
  shows "runs_inv tk'"
  using assms
proof (induction rule: tracker_step.induct)
  case (start ok steps tk err now directive prio ob)
  then show ?case
    by (auto simp: runs_inv_def start_work_def Let_def insert_item_def blank_item_def split: if_splits)
next
  case (track q ty tk now directive timeout)
  then show ?case by (auto simp: runs_inv_def track_start_def insert_item_def blank_item_def)
next
  case (progress q tk i w n)
  then show ?case by (auto simp: runs_inv_def worker_progress_def split: if_splits)
next
  case (cleanup q tk now)
  then show ?case by (auto simp: runs_inv_def cleanup_old_tasks_def)
next
  case (finish q tk i w s rs s' now)
  have "fst (plan_outcome rs) \<noteq> ''running''" by (simp add: plan_outcome_def)
  then show ?case using finish by (intro runs_update [OF finish(5)]) (auto simp: workers_phase)
next
  case (give_up q tk i w now)
  show ?case using give_up by (intro runs_update [OF give_up(5)]) (auto simp: workers_phase)
next
  case (track_end q i tk st now e)
  then have "st \<noteq> ''running''" by (auto simp: finished_status_def)
  then show ?case using track_end by (cases "i = 0") (auto intro: runs_update [OF track_end(4)] runs_same [OF track_end(4)])
next
  case (kill q tk i hs now)
  show ?case using kill by (intro runs_update [OF kill(3)]) auto
next
  case (cancel q tk now i)
  show ?case using cancel
    by (cases "wt_active tk i") (auto intro: runs_update [OF cancel(2)] runs_same [OF cancel(2)])
next
  case (enter tk i w)
  show ?case using enter by (intro runs_same [OF enter(4)]) (auto simp: workers_phase)
next
  case (report ok tk i w st t n judge now)
  show ?case using report by (intro runs_same [OF report(4)]) (auto simp: workers_phase)
next
  case (leave tk i w held)
  show ?case using leave by (intro runs_same [OF leave(3)]) auto
qed (auto intro: runs_same)

text \<open>
  C33: while the database works, no task is forgotten: a background row that says running belongs to a
  goroutine that waits for a slot or executes its plan, in every state after the start of the
  process, which begins with the clean-up of the orphans.
\<close>

theorem running_rows_are_alive:
  assumes "tracker_reach env {True} tk" "item i (wt_items tk) = Some r"
    and "wi_type r = ''background''" "wi_status r = ''running''"
  shows "\<exists>w. wt_workers tk i = Some w \<and> wk_phase w \<in> {Queued, Executing}"
proof -
  have "runs_inv tk" using assms(1)
  proof (induction rule: tracker_reach.induct)
    case (init tk)
    then show ?case
      by (auto simp: tracker_init_def new_tracker_def runs_inv_def cleanup_orphans_def split: if_splits)
  next
    case (step tk tk')
    then show ?case using runs_step [OF step(2,3)] tracker_reach_inv [OF step(1)] by (simp add: tracker_inv_def)
  qed
  moreover have "r \<in> set (wi_rows (wt_items tk))" "wi_id r = i"
    using assms(2) by (auto simp: item_def find_Some_iff)
  ultimately show ?thesis using assms(3,4) by (auto simp: runs_inv_def)
qed

theorem running_rows_are_alive_witness:
  "\<exists>w. wt_workers demo_running 1 = Some w \<and> (wk_phase w = Queued \<or> wk_phase w = Executing)"
proof -
  have "\<exists>w. wt_workers demo_running 1 = Some w \<and> wk_phase w \<in> {Queued, Executing}"
    by (rule running_rows_are_alive [OF demo_tracker_reach demo_running_items(1)]) (simp_all add: blank_item_def)
  then show ?thesis by simp
qed


section \<open>A cancelled task does not stay cancelled\<close>

definition overruled :: "int \<Rightarrow> tracker \<Rightarrow> bool" where
  "overruled i tk \<longleftrightarrow>
     (\<forall>r \<in> set (wi_rows (wt_items tk)). wi_id r = i \<longrightarrow> wi_type r = ''background'') \<and> 0 < i \<and>
     i < wi_next (wt_items tk) \<and> wt_active tk i = None \<and>
     ((\<exists>w. wt_workers tk i = Some w \<and> wk_phase w = Executing) \<or>
      ((\<forall>w. wt_workers tk i = Some w \<longrightarrow> wk_phase w \<noteq> Queued) \<and>
       (\<forall>r \<in> set (wi_rows (wt_items tk)). wi_id r = i \<longrightarrow> wi_status r \<in> {''completed'', ''failed''})))"

lemma overruled_step:
  assumes "tracker_step env {True} tk tk'" "overruled i tk"
  shows "overruled i tk'"
  using assms
proof (induction rule: tracker_step.induct)
  case (start ok steps tk err now directive prio ob)
  then show ?case by (auto simp: overruled_def start_work_def Let_def insert_item_def blank_item_def)
next
  case (track q ty tk now directive timeout)
  then show ?case by (auto simp: overruled_def track_start_def insert_item_def blank_item_def)
next
  case (progress q tk j w n)
  then show ?case by (auto simp: overruled_def worker_progress_def)
next
  case (cleanup q tk now)
  then show ?case by (auto simp: overruled_def cleanup_old_tasks_def)
next
  case (finish q tk j w s rs s' now)
  then show ?case using plan_outcome_status [of rs]
    by (cases "i = j") (fastforce simp: overruled_def workers_phase dest!: update_work_in)+
next
  case (track_end q j tk st now e)
  then have "i \<noteq> j" by (auto simp: overruled_def tracked_item_def)
  with track_end show ?case by (fastforce simp: overruled_def dest!: update_work_in)
next
  case (set_cancel j tk c)
  then have "i \<noteq> j" by (auto simp: overruled_def tracked_item_def)
  with set_cancel show ?case by (auto simp: overruled_def)
next
  case (cancel q tk now j)
  then show ?case by (cases "i = j") (fastforce simp: overruled_def dest!: update_work_in)+
next
  case (kill q tk j hs now)
  then show ?case by (cases "i = j") (fastforce simp: overruled_def dest!: update_work_in)+
qed (fastforce simp: overruled_def workers_phase dest!: update_work_in)+

lemma overruled_steps: "rtranclp (tracker_step env {True}) tk tk' \<Longrightarrow> overruled i tk \<Longrightarrow> overruled i tk'"
  by (induction rule: rtranclp_induct) (auto intro: overruled_step)

text \<open>
  The cancellation of a task that executes is undone. The row says cancelled at first, but the
  goroutine writes its own outcome over it when it ends: in every state after its end the row says
  completed or failed, although nothing started the task again and the database worked all along.
\<close>

lemma cancelled_task_overwritten:
  assumes "tracker_reach env {True} tk" "wt_workers tk i = Some w" "wk_phase w = Executing"
    and "wt_active tk i = Some c" "cancel_work True now i tk = (answer, tk1)"
    and "rtranclp (tracker_step env {True}) tk1 tk2" "wt_workers tk2 i = None"
  shows "(\<forall>r. item i (wt_items tk1) = Some r \<longrightarrow> wi_status r = ''cancelled'') \<and>
    (\<forall>r. item i (wt_items tk2) = Some r \<longrightarrow> wi_status r \<in> {''completed'', ''failed''})"
proof -
  have inv: "tracker_inv tk" using assms(1) by (rule tracker_reach_inv)
  have tk1: "tk1 = snd (cancel_work True now i tk)" using assms(5) by simp
  have types: "\<forall>r \<in> set (wi_rows (wt_items tk)). wi_id r = i \<longrightarrow> wi_type r = ''background''"
    using inv assms(2) by (auto simp: tracker_inv_def rows_inv_def)
  have first: "\<forall>r \<in> set (wi_rows (wt_items tk1)). wi_id r = i \<longrightarrow> wi_status r = ''cancelled'' \<and> wi_type r = ''background''"
    using assms(4) types unfolding tk1 by (fastforce dest!: update_work_in)
  moreover have "0 < i" "i < wi_next (wt_items tk)" using inv assms(2) by (auto simp: tracker_inv_def rows_inv_def)
  ultimately have "overruled i tk1" using assms(2,3,4) by (auto simp: overruled_def tk1)
  from overruled_steps [OF assms(6) this] assms(7) first show ?thesis
    by (auto simp: overruled_def item_def find_Some_iff)
qed

lemma cancelled_task_overwritten_witness:
  "map_option wi_status (item 1 (wt_items demo_cancelled)) = Some ''cancelled'' \<and>
   map_option wi_status (item 1 (wt_items demo_gone)) = Some ''failed''"
proof -
  have c: "cancel_work True 1 1 demo_running = (fst (cancel_work True 1 1 demo_running), demo_cancelled)"
    by (simp add: demo_cancelled_def)
  have e: "wk_phase (demo_worker Executing) = Executing" by (simp add: demo_worker_def)
  have gone: "wt_workers demo_gone 1 = None" by (simp add: demo_gone_def)
  note all = cancelled_task_overwritten [OF demo_tracker_reach demo_running_worker e demo_running_active c demo_steps gone]
  obtain r where r: "wi_rows (wt_items demo_running) = [r]" "wi_id r = 1" using demo_running_items(2) by auto
  then have items: "item 1 (wt_items demo_cancelled) \<noteq> None"
    by (simp add: demo_cancelled_def demo_running_active item_def update_work_def change_items_def)
  have "map_option wi_status (item 1 (wt_items demo_gone)) = Some (fst (plan_outcome demo_results))"
    using r demo_running_active
    by (simp add: demo_gone_def demo_reporting_def demo_cancelled_def item_def update_work_def change_items_def)
  then have "map_option wi_status (item 1 (wt_items demo_gone)) = Some ''failed''"
    by (simp add: plan_outcome_def succeeded_def demo_results_def)
  with all items show ?thesis by auto
qed


section \<open>The watchdog\<close>

definition killed :: "gotime \<Rightarrow> work_item \<Rightarrow> work_item" where
  "killed now r = r\<lparr>wi_status := ''failed'', wi_result := Some [], wi_error := Some ''killed by watchdog: exceeded timeout'',
     wi_completed := Some now\<rparr>"

lemma kill_rows:
  "foldl (\<lambda>t i. kill_row True now i t) tk is =
    tk\<lparr>wt_cancelled := wt_cancelled tk \<union> {c. \<exists>i \<in> set is. wt_active tk i = Some c},
       wt_active := (\<lambda>i. if i \<in> set is then None else wt_active tk i),
       wt_items := change_items (\<lambda>r. wi_id r \<in> set is) (killed now) (wt_items tk)\<rparr>"
proof (induction "is" arbitrary: tk)
  case Nil
  then show ?case by (simp add: change_items_def)
next
  case (Cons i "is")
  have row: "kill_row True now i tk =
      tk\<lparr>wt_cancelled := set_option (wt_active tk i) \<union> wt_cancelled tk, wt_active := (wt_active tk)(i := None),
         wt_items := change_items (\<lambda>r. wi_id r = i) (killed now) (wt_items tk)\<rparr>"
    by (simp add: kill_row_def update_work_def killed_def [abs_def] split: option.split)
  have rows: "change_items (\<lambda>r. wi_id r \<in> set is) (killed now) (change_items (\<lambda>r. wi_id r = i) (killed now) db) =
      change_items (\<lambda>r. wi_id r \<in> set (i # is)) (killed now) db" for db
    by (simp add: change_items_def killed_def)
  have ctx: "set_option (wt_active tk i) \<union> wt_cancelled tk \<union> {c. \<exists>j \<in> set is. ((wt_active tk)(i := None)) j = Some c} =
      wt_cancelled tk \<union> {c. \<exists>j \<in> set (i # is). wt_active tk j = Some c}" by (auto split: if_splits)
  show ?case
    unfolding foldl_Cons Cons.IH row
    by (rule tracker.equality) (use rows ctx in \<open>simp_all add: fun_eq_iff\<close>)
qed

text \<open>
  The watchdog. With a working database one call ends the contexts of exactly the items that are
  running past their time limit, records them as failed, reports their number, and changes nothing
  else; afterwards no item is overdue.
\<close>

lemma watchdog_kills_hung:
  assumes "tracker_reach env qs tk" "kill_hung_work True now tk = (n, tk')"
  shows "wt_items tk' = change_items (is_hung now) (killed now) (wt_items tk) \<and>
    n = length (filter (is_hung now) (wi_rows (wt_items tk))) \<and>
    filter (is_hung now) (wi_rows (wt_items tk')) = [] \<and>
    wt_cancelled tk' = wt_cancelled tk \<union> {c. \<exists>r \<in> set (wi_rows (wt_items tk)). is_hung now r \<and> wt_active tk (wi_id r) = Some c} \<and>
    wt_workers tk' = wt_workers tk \<and> wt_slots tk' = wt_slots tk \<and> wt_objectives tk' = wt_objectives tk"
proof -
  let ?rows = "wi_rows (wt_items tk)"
  have "distinct (map wi_id ?rows)"
    using tracker_reach_inv [OF assms(1)] by (simp add: tracker_inv_def rows_inv_def work_db_ok_def)
  then have hit: "wi_id r \<in> wi_id ` {x \<in> set ?rows. is_hung now x} \<longleftrightarrow> is_hung now r" if "r \<in> set ?rows" for r
    using that by (auto simp: distinct_map inj_on_def)
  have items: "change_items (\<lambda>r. wi_id r \<in> wi_id ` {x \<in> set ?rows. is_hung now x}) (killed now) (wt_items tk) =
      change_items (is_hung now) (killed now) (wt_items tk)"
    using hit by (auto simp: change_items_def)
  have "\<not> is_hung now (killed now r)" for r by (simp add: is_hung_def killed_def)
  with assms(2) items show ?thesis
    by (auto simp: kill_hung_work_def watch_query_def kill_rows Let_def change_items_def filter_empty_conv)
qed

lemma watchdog_kills_hung_witness:
  "fst (kill_hung_work True (16 * minute) demo_running) = 1 \<and>
   TaskCtx 1 \<in> wt_cancelled (snd (kill_hung_work True (16 * minute) demo_running))"
proof -
  obtain r where r: "wi_rows (wt_items demo_running) = [r]" "wi_id r = 1" using demo_running_items(2) by auto
  with demo_running_items(1) have "is_hung (16 * minute) r"
    by (auto simp: item_def is_hung_def blank_item_def minute_def second_def)
  with r demo_running_active
    watchdog_kills_hung [OF demo_tracker_reach, of "16 * minute" "fst (kill_hung_work True (16 * minute) demo_running)"
      "snd (kill_hung_work True (16 * minute) demo_running)"]
  show ?thesis by simp
qed

section \<open>A plan that was cut short counts as completed\<close>

text \<open>
  When the time of a plan runs out after its first step succeeded, the task is recorded as
  completed with the message that one of two steps failed, however many steps were never tried.
\<close>

lemma cut_plan_counts_as_completed:
  assumes "pe_ctx env s = None" "run_step env directive st1 [] s = (Inr t, s1)" "pe_progress env = None"
    and "pe_ctx env s1 = Some e"
  shows "plan_outcome (fst (execute_steps env directive (st1 # st2 # rest) s)) = (''completed'', ''1/2 steps failed'')"
proof -
  have "fst (execute_steps env directive (st1 # st2 # rest) s) =
      [result_of 1 st1 (Inr t), \<lparr>sr_step = 2, sr_description = step_description st2, sr_result = ''cancelled: '' @ e,
        sr_success = False\<rparr>]"
    using assms by (simp add: execute_steps_def result_of_def Let_def)
  moreover have "nat_dec 1 = ''1''" "nat_dec 2 = ''2''" by code_simp+
  ultimately show ?thesis by (simp add: plan_outcome_def succeeded_def result_of_def numeral_2_eq_2)
qed

text \<open>A deep thinker answers a complex step at once; then the deadline is reached.\<close>

definition thinking_env :: "nat plan_env" where
  "thinking_env = idle_plan_env
     \<lparr>pe_dtc := Some (\<lambda>sys user n s. (Inr ''done'', s + 2), \<lambda>sys user n s. (Inl ''down'', s))\<rparr>"

lemma cut_plan_counts_as_completed_witness:
  "plan_outcome (fst (execute_steps thinking_env ''d''
     (\<lparr>step_description = ''analyze'', tools_needed = []\<rparr> # demo_step # replicate 4 demo_step) 0)) =
   (''completed'', ''1/2 steps failed'')"
proof -
  have "is_complex_step \<lparr>step_description = ''analyze'', tools_needed = []\<rparr>" by code_simp
  then have r: "run_step thinking_env ''d'' \<lparr>step_description = ''analyze'', tools_needed = []\<rparr> [] 0 = (Inr ''done'', 2)"
    by (simp add: run_step_def thinking_env_def Let_def)
  show ?thesis
    by (rule cut_plan_counts_as_completed [OF _ r]) (simp_all add: thinking_env_def idle_plan_env_def)
qed

section \<open>Pending items are left alone\<close>

text \<open>
  What the scheduler relies on: the tracker never touches an item that is still pending.
\<close>

definition pend :: "work_db \<Rightarrow> work_item list" where
  "pend db = filter (\<lambda>r. wi_status r = ''pending'') (wi_rows db)"

definition calm :: "tracker \<Rightarrow> bool" where
  "calm tk \<longleftrightarrow> work_db_ok (wt_items tk) \<and>
     (\<forall>i \<in> dom (wt_active tk) \<union> dom (wt_workers tk) \<union> set (wt_hung tk).
        i < wi_next (wt_items tk) \<and> i \<notin> wi_id ` set (pend (wt_items tk)))"

lemma filter_map_if:
  "(\<And>r. r \<in> set xs \<Longrightarrow> P r \<Longrightarrow> \<not> Q r \<and> \<not> Q (f r)) \<Longrightarrow> filter Q (map (\<lambda>r. if P r then f r else r) xs) = filter Q xs"
  by (induction xs) auto

lemma pend_change:
  "(\<And>r. r \<in> set (wi_rows db) \<Longrightarrow> P r \<Longrightarrow> wi_status r \<noteq> ''pending'' \<and> wi_status (f r) \<noteq> ''pending'') \<Longrightarrow>
    pend (change_items P f db) = pend db"
  unfolding pend_def change_items_def by (simp, rule filter_map_if) auto

lemma pend_update:
  "i \<notin> wi_id ` set (pend db) \<Longrightarrow> st \<noteq> ''pending'' \<Longrightarrow> pend (update_work q now i st t e db) = pend db"
  unfolding update_work_def by (auto intro!: pend_change) (auto simp: pend_def)

lemma pend_insert: "wi_status (row (wi_next db)) \<noteq> ''pending'' \<Longrightarrow> pend (insert_item row db) = pend db"
  by (simp add: pend_def insert_item_def)

lemma pend_ids: "work_db_ok db \<Longrightarrow> i \<in> wi_id ` set (pend db) \<Longrightarrow> i < wi_next db"
  by (auto simp: work_db_ok_def pend_def)

lemma pend_cleanup: "pend (cleanup_old_tasks q now db) = pend db"
proof -
  have "finished_status st \<Longrightarrow> st \<noteq> ''pending''" for st by (auto simp: finished_status_def)
  then show ?thesis by (auto simp: pend_def cleanup_old_tasks_def intro!: filter_cong)
qed

lemma tracked_not_pending:
  assumes "work_db_ok (wt_items tk)" "tracked_item i tk"
  shows "i \<notin> wi_id ` set (pend (wt_items tk))" "i < wi_next (wt_items tk)"
  using assms by (auto simp: tracked_item_def pend_def work_db_ok_def distinct_map inj_on_def)

lemma calm_same:
  assumes "calm tk" "pend (wt_items tk') = pend (wt_items tk)" "wi_next (wt_items tk) \<le> wi_next (wt_items tk')"
    and "work_db_ok (wt_items tk')"
    and "dom (wt_active tk') \<union> dom (wt_workers tk') \<union> set (wt_hung tk') \<subseteq>
      dom (wt_active tk) \<union> dom (wt_workers tk) \<union> set (wt_hung tk) \<union>
      {i. i < wi_next (wt_items tk') \<and> i \<notin> wi_id ` set (pend (wt_items tk'))}"
  shows "calm tk' \<and> pend (wt_items tk') = pend (wt_items tk) \<and> wi_next (wt_items tk) \<le> wi_next (wt_items tk')"
proof -
  have "i < wi_next (wt_items tk') \<and> i \<notin> wi_id ` set (pend (wt_items tk'))"
    if "i \<in> dom (wt_active tk') \<union> dom (wt_workers tk') \<union> set (wt_hung tk')" for i
  proof (cases "i \<in> dom (wt_active tk) \<union> dom (wt_workers tk) \<union> set (wt_hung tk)")
    case True
    with assms(1) have "i < wi_next (wt_items tk)" "i \<notin> wi_id ` set (pend (wt_items tk))" unfolding calm_def by blast+
    with assms(2,3) show ?thesis by simp
  next
    case False
    with that assms(5) show ?thesis by blast
  qed
  with assms(2,3,4) show ?thesis unfolding calm_def by blast
qed

lemma calm_insert:
  assumes "calm tk" "\<And>i. wi_id (row i) = i" "\<And>i. wi_status (row i) \<noteq> ''pending''"
    and "wt_items tk' = insert_item row (wt_items tk)"
    and "dom (wt_active tk') \<union> dom (wt_workers tk') \<union> set (wt_hung tk') \<subseteq>
      insert (wi_next (wt_items tk)) (dom (wt_active tk) \<union> dom (wt_workers tk) \<union> set (wt_hung tk))"
  shows "calm tk' \<and> pend (wt_items tk') = pend (wt_items tk) \<and> wi_next (wt_items tk) \<le> wi_next (wt_items tk')"
proof (rule calm_same [OF assms(1)])
  note ok = assms(1) [unfolded calm_def, THEN conjunct1]
  show p: "pend (wt_items tk') = pend (wt_items tk)" using assms(3,4) by (simp add: pend_insert)
  show "wi_next (wt_items tk) \<le> wi_next (wt_items tk')" using assms(4) by (simp add: insert_item_def)
  show "work_db_ok (wt_items tk')" unfolding assms(4) by (rule db_ok_insert [OF assms(2) ok])
  have "wi_next (wt_items tk) < wi_next (wt_items tk')" using assms(4) by (simp add: insert_item_def)
  moreover have "wi_next (wt_items tk) \<notin> wi_id ` set (pend (wt_items tk'))" using pend_ids [OF ok] unfolding p by blast
  ultimately show "dom (wt_active tk') \<union> dom (wt_workers tk') \<union> set (wt_hung tk') \<subseteq>
      dom (wt_active tk) \<union> dom (wt_workers tk) \<union> set (wt_hung tk) \<union>
      {i. i < wi_next (wt_items tk') \<and> i \<notin> wi_id ` set (pend (wt_items tk'))}"
  proof (intro subsetI)
    fix i
    assume new: "wi_next (wt_items tk) < wi_next (wt_items tk')" "wi_next (wt_items tk) \<notin> wi_id ` set (pend (wt_items tk'))"
      and i: "i \<in> dom (wt_active tk') \<union> dom (wt_workers tk') \<union> set (wt_hung tk')"
    from subsetD [OF assms(5) i] new
    show "i \<in> dom (wt_active tk) \<union> dom (wt_workers tk) \<union> set (wt_hung tk) \<union>
      {i. i < wi_next (wt_items tk') \<and> i \<notin> wi_id ` set (pend (wt_items tk'))}" by (elim insertE) simp_all
  qed
qed

lemma hung_of [simp]:
  "wt_hung (worker_progress q i n tk) = wt_hung tk" "wt_hung (snd (track_start q now ty d t tk)) = wt_hung tk"
  "wt_hung (set_cancel i c tk) = wt_hung tk" "wt_hung (track_end q now i st e tk) = wt_hung tk"
  "wt_hung (kill_row q now i tk) = wt_hung tk" "wt_hung (snd (cancel_work q now i tk)) = wt_hung tk"
  "wt_hung (worker_leave i held tk) = wt_hung tk" "wt_hung (snd (start_work ok err now d prio ob steps tk)) = wt_hung tk"
  "wt_hung (worker_enter i tk) = wt_hung tk" "wt_hung (set_phase i ph tk) = wt_hung tk"
  "wt_hung (worker_give_up q now i tk) = wt_hung tk" "wt_hung (worker_finish q now i w rs tk) = wt_hung tk"
  "wt_hung (worker_report judge ok now i w tk) = wt_hung tk"
  "wt_hung (watch_query q now tk) = (if q then map wi_id (filter (is_hung now) (wi_rows (wt_items tk))) else [])"
  by (simp_all add: worker_progress_def track_start_def set_cancel_def track_end_def watch_query_def kill_row_def
      cancel_work_def worker_leave_def start_work_def worker_enter_def worker_give_up_def worker_finish_def
      worker_report_def set_phase_def Let_def split: option.split prod.split phase.split)

lemma calm_step:
  assumes "tracker_step env qs tk tk'" "calm tk"
  shows "calm tk' \<and> pend (wt_items tk') = pend (wt_items tk) \<and> wi_next (wt_items tk) \<le> wi_next (wt_items tk')"
  using assms
proof (induction rule: tracker_step.induct)
  case (start ok steps tk err now directive prio ob)
  show ?case
  proof (cases "ok 0")
    case True
    have i: "wt_items (snd (start_work ok err now directive prio ob steps tk)) =
        insert_item (\<lambda>i. (blank_item i now ''background'' directive ''running'')
               \<lparr>wi_total := int (length steps), wi_priority := prio, wi_started := Some now,
                wi_timeout := Some (now + whole_seconds timeout_background),
                wi_objective := (if ob = 0 then None else Some ob)\<rparr>) (wt_items tk)"
      using True by (simp add: start_work_def Let_def)
    show ?thesis by (rule calm_insert [OF start(3) _ _ i]) (use True in \<open>auto simp: blank_item_def\<close>)
  next
    case False
    then show ?thesis using start by (simp add: start_work_def)
  qed
next
  case (track q ty tk now directive timeout)
  show ?case
  proof (cases q)
    case True
    have i: "wt_items (snd (track_start q now ty directive timeout tk)) =
        insert_item (\<lambda>i. (blank_item i now ty directive ''running'')
              \<lparr>wi_started := Some now, wi_timeout := Some (now + whole_seconds timeout)\<rparr>) (wt_items tk)"
      using True by (simp add: track_start_def)
    show ?thesis by (rule calm_insert [OF track(3) _ _ i]) (auto simp: blank_item_def)
  next
    case False
    then show ?thesis using track by (simp add: track_start_def)
  qed
next
  case (cleanup q tk now)
  note ok = cleanup(2) [unfolded calm_def, THEN conjunct1]
  have "wi_next (cleanup_old_tasks q now (wt_items tk)) = wi_next (wt_items tk)" by (simp add: cleanup_old_tasks_def)
  then show ?case by (intro calm_same [OF cleanup(2)]) (use ok in \<open>auto simp: pend_cleanup db_ok_cleanup\<close>)
next
  case (watch q tk now)
  note ok = watch(2) [unfolded calm_def, THEN conjunct1]
  have "i < wi_next (wt_items tk) \<and> i \<notin> wi_id ` set (pend (wt_items tk))"
    if "i \<in> wi_id ` {r \<in> set (wi_rows (wt_items tk)). is_hung now r}" for i
    using that ok by (auto simp: work_db_ok_def pend_def is_hung_def distinct_map inj_on_def)
  then show ?case by (intro calm_same [OF watch(2)]) (use ok in auto)
next
  case (set_cancel i tk c)
  note ok = set_cancel(2) [unfolded calm_def, THEN conjunct1]
  show ?case by (rule calm_same [OF set_cancel(2)]) (use ok tracked_not_pending [OF ok set_cancel(1)] in auto)
next
  case (track_end q i tk st now e)
  note ok = track_end(4) [unfolded calm_def, THEN conjunct1]
  have "st \<noteq> ''pending''" using track_end(3) by (auto simp: finished_status_def)
  then show ?case
    by (intro calm_same [OF track_end(4)])
      (use ok tracked_not_pending [OF ok track_end(2)] in \<open>auto simp: pend_update split: if_splits\<close>)
next
  case (progress q tk i w n)
  note ok = progress(4) [unfolded calm_def, THEN conjunct1]
  have "i \<notin> wi_id ` set (pend (wt_items tk))" using progress(2,4) by (auto simp: calm_def)
  then have "pend (wt_items (worker_progress q i n tk)) = pend (wt_items tk)"
    unfolding worker_progress_def by (auto intro!: pend_change) (auto simp: pend_def)
  then show ?case by (intro calm_same [OF progress(4)]) (use ok in \<open>auto simp: worker_progress_def db_ok_change\<close>)
next
  case (finish q tk i w s rs s' now)
  note ok = finish(5) [unfolded calm_def, THEN conjunct1]
  have "i \<notin> wi_id ` set (pend (wt_items tk))" "fst (plan_outcome rs) \<noteq> ''pending''"
    using finish(2,5) by (auto simp: calm_def plan_outcome_def)
  then show ?case by (intro calm_same [OF finish(5)]) (use ok finish(2) in \<open>auto simp: pend_update workers_phase\<close>)
next
  case (give_up q tk i w now)
  note ok = give_up(5) [unfolded calm_def, THEN conjunct1]
  have "i \<notin> wi_id ` set (pend (wt_items tk))" using give_up(2,5) by (auto simp: calm_def)
  then show ?case by (intro calm_same [OF give_up(5)]) (use ok give_up(2) in \<open>auto simp: pend_update workers_phase\<close>)
next
  case (kill q tk i hs now)
  note ok = kill(3) [unfolded calm_def, THEN conjunct1]
  have "i \<notin> wi_id ` set (pend (wt_items tk))" using kill(2,3) by (auto simp: calm_def)
  then show ?case by (intro calm_same [OF kill(3)]) (use ok kill(2) in \<open>auto simp: pend_update\<close>)
next
  case (cancel q tk now i)
  note ok = cancel(2) [unfolded calm_def, THEN conjunct1]
  have "wt_active tk i \<noteq> None \<Longrightarrow> i \<notin> wi_id ` set (pend (wt_items tk))" using cancel(2) by (auto simp: calm_def)
  then show ?case by (intro calm_same [OF cancel(2)]) (use ok in \<open>auto simp: pend_update\<close>)
next
  case (enter tk i w)
  note ok = enter(4) [unfolded calm_def, THEN conjunct1]
  show ?case by (rule calm_same [OF enter(4)]) (use ok enter(1) in \<open>auto simp: workers_phase\<close>)
next
  case (report ok tk i w st t n judge now)
  note ok = report(4) [unfolded calm_def, THEN conjunct1]
  show ?case by (rule calm_same [OF report(4)]) (use ok report(2,3) in \<open>auto simp: workers_phase\<close>)
next
  case (leave tk i w held)
  note ok = leave(3) [unfolded calm_def, THEN conjunct1]
  show ?case by (rule calm_same [OF leave(3)]) (use ok in auto)
next
  case (deadline tk i w)
  then show ?case by (simp add: calm_def)
qed

end
