(* ===== verification/TimeParse.thy ===== *)
theory TimeParse
  imports TimeFmt Json "HOL-Library.Monad_Syntax"
begin

text \<open>
  Reading timestamps: \<open>time.Parse\<close> for the layouts the program uses, and \<open>ParseISO8601\<close>
  (\<open>timefmt/timefmt.go\<close>). As in Go, the hour may have one digit, the seconds a fraction that the
  layout does not mention, and the zone may be 24 hours or 60 minutes away.
\<close>

definition take_num :: "nat \<Rightarrow> string \<Rightarrow> (int \<times> string) option" where
  "take_num n s =
     (if length s \<ge> n \<and> list_all is_digit (take n s) then Some (dec_int 0 (take n s), drop n s) else None)"

definition take_lit :: "char \<Rightarrow> string \<Rightarrow> string option" where
  "take_lit c s = (case s of [] \<Rightarrow> None | d # ds \<Rightarrow> if c = d then Some ds else None)"

definition in_range :: "int \<Rightarrow> int \<Rightarrow> int \<Rightarrow> unit option" where
  "in_range lo hi n = (if lo \<le> n \<and> n \<le> hi then Some () else None)"

definition is_leap :: "int \<Rightarrow> bool" where
  "is_leap y \<longleftrightarrow> y mod 4 = 0 \<and> (y mod 100 \<noteq> 0 \<or> y mod 400 = 0)"

definition days_in :: "int \<Rightarrow> int \<Rightarrow> int" where
  "days_in y m = (if m = 2 then (if is_leap y then 29 else 28) else if m \<in> {4, 6, 9, 11} then 30 else 31)"

definition take_date :: "string \<Rightarrow> ((int \<times> int \<times> int) \<times> string) option" where
  "take_date s = do {
     (y, s) \<leftarrow> take_num 4 s; s \<leftarrow> take_lit (CHR ''-'') s;
     (m, s) \<leftarrow> take_num 2 s; in_range 1 12 m; s \<leftarrow> take_lit (CHR ''-'') s;
     (d, s) \<leftarrow> take_num 2 s; in_range 1 (days_in y m) d;
     Some ((y, m, d), s) }"

definition take_hour :: "string \<Rightarrow> (int \<times> string) option" where
  "take_hour s = (case take_num 2 s of Some r \<Rightarrow> Some r | None \<Rightarrow> take_num 1 s)"

definition take_fraction :: "string \<Rightarrow> int \<times> string" where
  "take_fraction s =
     (case s of
        c # d # r \<Rightarrow>
          if c \<in> {CHR ''.'', CHR '',''} \<and> is_digit d
          then (let ds = take 9 (takeWhile is_digit (d # r))
                in (dec_int 0 ds * 10 ^ (9 - length ds), dropWhile is_digit (d # r)))
          else (0, s)
      | _ \<Rightarrow> (0, s))"

text \<open>The nanoseconds since midnight, with or without seconds in the layout.\<close>

definition take_clock :: "bool \<Rightarrow> string \<Rightarrow> (int \<times> string) option" where
  "take_clock secs s = do {
     (h, s) \<leftarrow> take_hour s; in_range 0 23 h; s \<leftarrow> take_lit (CHR '':'') s;
     (m, s) \<leftarrow> take_num 2 s; in_range 0 59 m;
     if \<not> secs then Some (h * hour + m * minute, s)
     else do {
       s \<leftarrow> take_lit (CHR '':'') s; (sec, s) \<leftarrow> take_num 2 s; in_range 0 59 sec;
       let (ns, r) = take_fraction s in Some (h * hour + m * minute + sec * second + ns, r) } }"

definition take_zone :: "string \<Rightarrow> (duration \<times> string) option" where
  "take_zone s =
     (case s of
        [] \<Rightarrow> None
      | c # r \<Rightarrow>
          if c = CHR ''Z'' then Some (0, r)
          else if c = CHR ''+'' \<or> c = CHR ''-'' then do {
            (h, t) \<leftarrow> take_num 2 r; in_range 0 24 h; t \<leftarrow> take_lit (CHR '':'') t;
            (m, t) \<leftarrow> take_num 2 t; in_range 0 60 m;
            Some ((if c = CHR ''-'' then -1 else 1) * (h * hour + m * minute), t) }
          else None)"

definition at_end :: "string \<Rightarrow> unit option" where
  "at_end s = (if s = [] then Some () else None)"

definition parse_rfc3339 :: "string \<Rightarrow> gotime option" where
  "parse_rfc3339 s = do {
     ((y, m, d), s) \<leftarrow> take_date s; s \<leftarrow> take_lit (CHR ''T'') s;
     (clock, s) \<leftarrow> take_clock True s; (zone, s) \<leftarrow> take_zone s; at_end s;
     Some (day_number y m d * day + clock - zone) }"

definition parse_local :: "duration \<Rightarrow> bool \<Rightarrow> string \<Rightarrow> gotime option" where
  "parse_local off secs s = do {
     ((y, m, d), s) \<leftarrow> take_date s; s \<leftarrow> take_lit (CHR ''T'') s;
     (clock, s) \<leftarrow> take_clock secs s; at_end s;
     Some (day_number y m d * day + clock - off) }"

definition parse_date_only :: "duration \<Rightarrow> string \<Rightarrow> gotime option" where
  "parse_date_only off s = do {
     ((y, m, d), s) \<leftarrow> take_date s; at_end s; Some (day_number y m d * day - off) }"

text \<open>\<open>ParseISO8601\<close>: the layouts one after the other.\<close>

definition first_of :: "'a option \<Rightarrow> 'a option \<Rightarrow> 'a option" where
  "first_of a b = (case a of None \<Rightarrow> b | Some x \<Rightarrow> Some x)"

definition parse_iso8601 :: "duration \<Rightarrow> string \<Rightarrow> gotime option" where
  "parse_iso8601 off s =
     first_of (parse_rfc3339 s)
       (first_of (parse_local off True s) (first_of (parse_local off False s) (parse_date_only off s)))"

end
