(* ===== verification/Scheduler.thy ===== *)
theory Scheduler
  imports WorkSystem TimeParse
begin

text \<open>
  Scheduled tasks: the scheduler goroutine (\<open>engine/scheduler.go\<close>) and the tools that add and complete
  its tasks (\<open>tools/task_queue.go\<close>). Both work on the table of the work tracker, which goes on at the
  same time; a channel of capacity one wakes the scheduler up.
\<close>

section \<open>The queries\<close>

record task =
  t_id :: int
  t_directive :: string
  t_due :: gotime
  t_recurrence :: duration

definition task_of :: "work_item \<Rightarrow> gotime \<Rightarrow> task" where
  "task_of r due = \<lparr>t_id = wi_id r, t_directive = wi_directive r, t_due = due, t_recurrence = wi_recurrence r\<rparr>"

definition is_pending :: "work_item \<Rightarrow> bool" where
  "is_pending r \<longleftrightarrow> wi_type r = ''scheduled'' \<and> wi_status r = ''pending''"

definition pending_tasks :: "work_db \<Rightarrow> task list" where
  "pending_tasks db =
     concat (map (\<lambda>r. case wi_due r of None \<Rightarrow> [] | Some d \<Rightarrow> [task_of r d]) (filter is_pending (wi_rows db)))"

text \<open>\<open>fetchNextPendingTask\<close> on a database that answers; rows that are due at the same time keep their order.\<close>

definition fetch_next :: "work_db \<Rightarrow> task option" where
  "fetch_next db = (case sort_key t_due (pending_tasks db) of [] \<Rightarrow> None | t # _ \<Rightarrow> Some t)"

text \<open>\<open>FetchPendingTasksMarkdown\<close>: the tasks without a due time come last.\<close>

definition markdown_line :: "duration \<Rightarrow> work_item \<Rightarrow> string" where
  "markdown_line off r =
     ''- ['' @ itoa (wi_id r) @ ''] '' @ wi_directive r
     @ (case wi_due r of
          Some d \<Rightarrow> '' (due: '' @ format_rfc3339 off d
            @ (if wi_recurrence r > 0 then '', every '' @ duration_str (wi_recurrence r) else []) @ '')''
        | None \<Rightarrow> if wi_recurrence r > 0 then '' (every '' @ duration_str (wi_recurrence r) @ '')'' else [])
     @ nl"

definition due_order :: "work_item list \<Rightarrow> work_item list" where
  "due_order rs =
     sort_key (\<lambda>r. case wi_due r of None \<Rightarrow> 0 | Some d \<Rightarrow> d) (filter (\<lambda>r. wi_due r \<noteq> None) rs) @ filter (\<lambda>r. wi_due r = None) rs"

definition fetch_pending_markdown :: "bool \<Rightarrow> duration \<Rightarrow> work_db \<Rightarrow> string" where
  "fetch_pending_markdown ok off db =
     (if \<not> ok then ''**Task Queue:** (error fetching tasks)'' @ nl
      else (let rs = due_order (filter is_pending (wi_rows db))
        in ''**Task Queue:**'' @ nl @ (if rs = [] then ''- (empty)'' @ nl else concat (map (markdown_line off) rs))))"

section \<open>The tools\<close>

definition falsy_recur :: "string \<Rightarrow> bool" where
  "falsy_recur s \<longleftrightarrow> to_lower s \<in> {''false'', ''no'', ''none'', ''0''}"

text \<open>The due time and the recurrence that the arguments of \<open>add_task\<close> ask for.\<close>

definition task_times :: "gotime \<Rightarrow> string \<Rightarrow> string \<Rightarrow> string + gotime option \<times> duration" where
  "task_times now dueAt recur0 =
     (let recur = (if falsy_recur recur0 then [] else recur0) in
      case (if dueAt = [] then Some None else map_option Some (parse_rfc3339 dueAt)) of
        None \<Rightarrow> Inl ''invalid due_at (expected RFC3339)''
      | Some due \<Rightarrow>
          if recur = [] then Inr (due, 0)
          else (case parse_duration recur of
              None \<Rightarrow> Inl (''invalid recur (expected Go duration like '' @ go_quote ''24h'' @ '')'')
            | Some d \<Rightarrow> Inr (case due of None \<Rightarrow> Some (now + d) | Some t \<Rightarrow> Some t, d)))"

text \<open>
  \<open>NewAddTask\<close> and \<open>NewCompleteTask\<close>: the answer, the table, and whether a wake-up is sent. The time in
  the answer is that of the zone the caller wrote; here that of the local zone.
\<close>

definition add_task ::
  "bool \<Rightarrow> string \<Rightarrow> duration \<Rightarrow> gotime \<Rightarrow> string option \<Rightarrow> work_db \<Rightarrow> string \<times> work_db \<times> bool" where
  "add_task ok err off now args db =
     (case struct_members args of
        None \<Rightarrow> (''invalid arguments'', db, False)
      | Some ms \<Rightarrow>
          (let names = [''task'', ''due_at'', ''recur''];
               (t, e1) = arg_string names ''task'' ms;
               (dueAt, e2) = arg_string names ''due_at'' ms;
               (recur, e3) = arg_string names ''recur'' ms
           in if e1 \<or> e2 \<or> e3 then (''invalid arguments'', db, False)
              else if t = [] then (''error: task is required'', db, False)
              else (case task_times now dueAt recur of
                  Inl e \<Rightarrow> (e, db, False)
                | Inr (due, d) \<Rightarrow>
                    if \<not> ok then (''failed to insert task: '' @ err, db, False)
                    else (''Task added (id: '' @ itoa (wi_next db) @ ''): '' @ t
                        @ (case due of None \<Rightarrow> [] | Some x \<Rightarrow> '' (due: '' @ format_rfc3339 off x @ '')'')
                        @ (if d > 0 then '' (every '' @ duration_str d @ '')'' else []),
                      insert_item (\<lambda>i. (blank_item i now ''scheduled'' t ''pending'')\<lparr>wi_due := due, wi_recurrence := d\<rparr>) db,
                      True))))"

definition mark_completed :: "gotime \<Rightarrow> int \<Rightarrow> work_db \<Rightarrow> work_db" where
  "mark_completed now i db =
     change_items (\<lambda>r. wi_id r = i) (\<lambda>r. r\<lparr>wi_status := ''completed'', wi_completed := Some now\<rparr>) db"

definition complete_row :: "gotime \<Rightarrow> string \<Rightarrow> work_item option \<Rightarrow> work_db \<Rightarrow> string \<times> work_db \<times> bool" where
  "complete_row now missing row db =
     (case row of
        None \<Rightarrow> (missing, db, False)
      | Some r \<Rightarrow> (''Completed task #'' @ itoa (wi_id r) @ '': '' @ wi_directive r, mark_completed now (wi_id r) db, True))"

definition complete_task :: "bool \<Rightarrow> gotime \<Rightarrow> string option \<Rightarrow> work_db \<Rightarrow> string \<times> work_db \<times> bool" where
  "complete_task ok now args db =
     (let i = (case struct_members args of None \<Rightarrow> 0 | Some ms \<Rightarrow> fst (arg_int [''task_id''] ''task_id'' ms));
          ps = filter is_pending (wi_rows db)
      in if i > 0
         then complete_row now (''No pending scheduled task with id '' @ itoa i @ '' found.'')
                (if ok then find (\<lambda>r. wi_id r = i) ps else None) db
         else complete_row now ''No pending tasks to complete.''
                (if ok then (case due_order ps of [] \<Rightarrow> None | r # _ \<Rightarrow> Some r) else None) db)"

section \<open>The goroutine\<close>

text \<open>
  The scheduler has just begun its loop, holds what it fetched, is blocked on the channel, waits for
  the timer or the channel, runs a task since some time under a tracked item, or sleeps after an error.
\<close>

datatype sched_phase = Looping | Fetched "task option" | Blocked | Waiting task | Running task int gotime | Sleeping gotime

record scheduler =
  sc_tracker :: tracker
  sc_now :: gotime
  sc_flag :: bool
  sc_signals :: nat
  sc_phase :: sched_phase
  sc_fired :: "(task \<times> gotime) list"
  sc_sent :: "string list"

definition sched_items :: "(work_db \<Rightarrow> work_db) \<Rightarrow> scheduler \<Rightarrow> scheduler" where
  "sched_items f st = st\<lparr>sc_tracker := (sc_tracker st)\<lparr>wt_items := f (wt_items (sc_tracker st))\<rparr>\<rparr>"

abbreviation sched_db :: "scheduler \<Rightarrow> work_db" where
  "sched_db st \<equiv> wt_items (sc_tracker st)"

definition sched_fetch :: "bool \<Rightarrow> scheduler \<Rightarrow> scheduler" where
  "sched_fetch ok st =
     st\<lparr>sc_phase := (if ok then Fetched (fetch_next (sched_db st)) else Sleeping (sc_now st + 10 * second))\<rparr>"

text \<open>The beginning of \<open>executeTask\<close>: is the task still pending? Then it is tracked and the model is called.\<close>

definition routine_timeout :: "duration \<Rightarrow> duration" where
  "routine_timeout configured = (if configured \<le> 0 then 5 * minute else configured)"

definition sched_begin :: "bool \<Rightarrow> bool \<Rightarrow> duration \<Rightarrow> task \<Rightarrow> scheduler \<Rightarrow> scheduler" where
  "sched_begin ok ok_track configured t st =
     (case (if ok then item (t_id t) (sched_db st) else None) of
        None \<Rightarrow> st\<lparr>sc_phase := Looping\<rparr>
      | Some r \<Rightarrow>
          if wi_status r \<noteq> ''pending'' then st\<lparr>sc_phase := Looping\<rparr>
          else (let (w, tk) = track_start ok_track (sc_now st) ''scheduled'' (t_directive t)
                               (routine_timeout configured) (sc_tracker st)
                in st\<lparr>sc_tracker := tk, sc_phase := Running t w (sc_now st)\<rparr>))"

definition sched_decide :: "bool \<Rightarrow> bool \<Rightarrow> duration \<Rightarrow> task option \<Rightarrow> scheduler \<Rightarrow> scheduler" where
  "sched_decide ok ok_track configured fetched st =
     (case fetched of
        None \<Rightarrow> st\<lparr>sc_phase := Blocked\<rparr>
      | Some t \<Rightarrow> if t_due t \<le> sc_now st then sched_begin ok ok_track configured t st else st\<lparr>sc_phase := Waiting t\<rparr>)"

definition scheduled_prompt :: "duration \<Rightarrow> gotime \<Rightarrow> task \<Rightarrow> string" where
  "scheduled_prompt off now t =
     ''[SCHEDULED TASK DUE] The following task is now due: '' @ go_quote (t_directive t) @ ''. ''
     @ ''Respond directly to the user with a short message fulfilling this task. ''
     @ ''Do NOT call complete_task, update_state, add_task, or save_memory '' @ [CHR 0xE2, CHR 0x80, CHR 0x94]
     @ '' the system handles task lifecycle automatically. ''
     @ ''Current time: '' @ format_date_time off now"

text \<open>
  The transaction at the end: \<open>ok 0\<close> begins it, \<open>ok 1\<close> marks the task, \<open>ok 2\<close> inserts the next
  occurrence, \<open>ok 3\<close> commits. The result is the table and the error after which it is left early.
\<close>

definition finish_tx :: "(nat \<Rightarrow> bool) \<Rightarrow> gotime \<Rightarrow> task \<Rightarrow> work_db \<Rightarrow> bool \<times> work_db" where
  "finish_tx ok now t db =
     (if \<not> ok 0 \<or> \<not> ok 1 \<or> (t_recurrence t > 0 \<and> \<not> ok 2) then (False, db)
      else if \<not> ok 3 then (True, db)
      else
        (let db1 = mark_completed now (t_id t) db
         in (True, if t_recurrence t > 0
               then insert_item (\<lambda>i. (blank_item i now ''scheduled'' (t_directive t) ''pending'')
                      \<lparr>wi_due := Some (t_due t + t_recurrence t), wi_recurrence := t_recurrence t\<rparr>) db1
               else db1)))"

text \<open>\<open>reply\<close>: the text of the model, or its error; \<open>txerr\<close>: the text of an error of the transaction.\<close>

definition reply_text :: "task \<Rightarrow> string + string \<Rightarrow> string" where
  "reply_text t reply =
     (case reply of
        Inl err \<Rightarrow> ''(Scheduled task '' @ go_quote (t_directive t) @ '' fired but LLM error occurred: '' @ err @ '')''
      | Inr text \<Rightarrow> text)"

definition sched_finish ::
  "(nat \<Rightarrow> bool) \<Rightarrow> bool \<Rightarrow> string \<Rightarrow> string + string \<Rightarrow> task \<Rightarrow> int \<Rightarrow> gotime \<Rightarrow> scheduler \<Rightarrow> scheduler" where
  "sched_finish ok ok_track txerr reply t w started st =
     (let text = reply_text t reply;
          st1 = st\<lparr>sc_sent := (if text \<noteq> [] then sc_sent st @ [text] else sc_sent st), sc_fired := sc_fired st @ [(t, started)]\<rparr>;
          (done, db) = finish_tx ok (sc_now st) t (sched_db st);
          tk = (sc_tracker st)\<lparr>wt_items := db\<rparr>;
          tk' = (if w > 0
                 then track_end ok_track (sc_now st) w (if done then ''completed'' else ''failed'') (if done then [] else txerr) tk
                 else tk)
      in st1\<lparr>sc_tracker := tk', sc_phase := Looping\<rparr>)"

end
