(* ===== verification/SchedSystem.thy ===== *)
theory SchedSystem
  imports Scheduler
begin

text \<open>
  The scheduler goroutine among the tools and the work tracker (\<open>engine/scheduler.go\<close>), as a step
  relation over a clock: it oversleeps no task, fires none early and, with a working database, none
  twice; what a failing transaction and a downtime do to the user.
\<close>

section \<open>Steps\<close>

text \<open>
  The tools insert or complete first and send the wake-up afterwards: \<open>sc_signals\<close> counts the sends
  that are still to come. A send into the full channel is dropped, which leaves the flag set.
\<close>

inductive sched_step :: "'s plan_env \<Rightarrow> bool set \<Rightarrow> scheduler \<Rightarrow> scheduler \<Rightarrow> bool" for env qs where
  time: "sc_now st \<le> now \<Longrightarrow> sched_step env qs st (st\<lparr>sc_now := now\<rparr>)"
| fetch: "q \<in> qs \<Longrightarrow> sc_phase st = Looping \<Longrightarrow> sched_step env qs st (sched_fetch q st)"
| decide: "q \<in> qs \<Longrightarrow> q' \<in> qs \<Longrightarrow> sc_phase st = Fetched f \<Longrightarrow> sched_step env qs st (sched_decide q q' conf f st)"
| wake_blocked: "sc_phase st = Blocked \<Longrightarrow> sc_flag st \<Longrightarrow> sched_step env qs st (st\<lparr>sc_phase := Looping, sc_flag := False\<rparr>)"
| wake_waiting: "sc_phase st = Waiting t \<Longrightarrow> sc_flag st \<Longrightarrow> sched_step env qs st (st\<lparr>sc_phase := Looping, sc_flag := False\<rparr>)"
| timer: "q \<in> qs \<Longrightarrow> q' \<in> qs \<Longrightarrow> sc_phase st = Waiting t \<Longrightarrow> t_due t \<le> sc_now st \<Longrightarrow>
    sched_step env qs st (sched_begin q q' conf t st)"
| slept: "sc_phase st = Sleeping u \<Longrightarrow> u \<le> sc_now st \<Longrightarrow> sched_step env qs st (st\<lparr>sc_phase := Looping\<rparr>)"
| finish: "(\<forall>n. ok n \<in> qs) \<Longrightarrow> q \<in> qs \<Longrightarrow> sc_phase st = Running t w since \<Longrightarrow>
    sched_step env qs st (sched_finish ok q txerr reply t w since st)"
| add: "q \<in> qs \<Longrightarrow> add_task q err off (sc_now st) args (sched_db st) = (answer, db, sig) \<Longrightarrow>
    sched_step env qs st ((sched_items (\<lambda>x. db) st)\<lparr>sc_signals := sc_signals st + (if sig then 1 else 0)\<rparr>)"
| complete: "q \<in> qs \<Longrightarrow> complete_task q (sc_now st) args (sched_db st) = (answer, db, sig) \<Longrightarrow>
    sched_step env qs st ((sched_items (\<lambda>x. db) st)\<lparr>sc_signals := sc_signals st + (if sig then 1 else 0)\<rparr>)"
| signal: "0 < sc_signals st \<Longrightarrow> sched_step env qs st (st\<lparr>sc_flag := True, sc_signals := sc_signals st - 1\<rparr>)"
| tracker: "tracker_step env qs (sc_tracker st) tk \<Longrightarrow> sched_step env qs st (st\<lparr>sc_tracker := tk\<rparr>)"

definition sched_init :: "scheduler \<Rightarrow> bool" where
  "sched_init st \<longleftrightarrow> tracker_init (sc_tracker st) \<and> sc_phase st = Looping \<and> sc_fired st = [] \<and> sc_sent st = []"

inductive sched_reach :: "'s plan_env \<Rightarrow> bool set \<Rightarrow> scheduler \<Rightarrow> bool" for env qs where
  init: "sched_init st \<Longrightarrow> sched_reach env qs st"
| step: "sched_reach env qs st \<Longrightarrow> sched_step env qs st st' \<Longrightarrow> sched_reach env qs st'"

section \<open>The table under the steps\<close>

definition tasks_of :: "work_item list \<Rightarrow> task list" where
  "tasks_of rs =
     concat (map (\<lambda>r. case wi_due r of None \<Rightarrow> [] | Some d \<Rightarrow> [task_of r d]) (filter (\<lambda>r. wi_type r = ''scheduled'') rs))"

lemma pending_tasks_of: "pending_tasks db = tasks_of (pend db)"
  by (simp add: pending_tasks_def tasks_of_def pend_def is_pending_def [abs_def] conj_commute)

lemma pending_tasks_pend: "pend db' = pend db \<Longrightarrow> pending_tasks db' = pending_tasks db"
  by (simp add: pending_tasks_of)

lemma tasks_of_append [simp]: "tasks_of (xs @ ys) = tasks_of xs @ tasks_of ys"
  by (simp add: tasks_of_def)

lemma tasks_of_other: "tasks_of (filter (\<lambda>r. wi_id r \<noteq> i) rs) = filter (\<lambda>t. t_id t \<noteq> i) (tasks_of rs)"
  by (induction rs) (auto simp: tasks_of_def task_of_def split: option.split)

lemma fetch_next_pend: "pend db' = pend db \<Longrightarrow> fetch_next db' = fetch_next db"
  using pending_tasks_pend [of db' db] by (simp add: fetch_next_def)

lemma fetch_next_min:
  assumes "fetch_next db = Some t"
  shows "t \<in> set (pending_tasks db)" "t' \<in> set (pending_tasks db) \<Longrightarrow> t_due t \<le> t_due t'"
proof -
  obtain ts where ts: "sort_key t_due (pending_tasks db) = t # ts"
    using assms by (auto simp: fetch_next_def split: list.splits)
  have s: "set (sort_key t_due (pending_tasks db)) = set (pending_tasks db)" by simp
  then show "t \<in> set (pending_tasks db)" using ts by auto
  have "sorted (map t_due (t # ts))" using sorted_sort_key [of t_due "pending_tasks db"] ts by simp
  then show "t' \<in> set (pending_tasks db) \<Longrightarrow> t_due t \<le> t_due t'" using s ts by (auto simp: set_ConsD)
qed

lemma fetch_next_None: "fetch_next db = None \<longleftrightarrow> pending_tasks db = []"
  by (auto simp: fetch_next_def split: list.splits) (metis set_empty set_sort)

lemma pending_tasks_ids: "t \<in> set (pending_tasks db) \<Longrightarrow> t_id t \<in> wi_id ` set (pend db)"
  by (fastforce simp: pending_tasks_def pend_def is_pending_def task_of_def split: option.splits)

lemma pend_completed: "pend (mark_completed now i db) = filter (\<lambda>r. wi_id r \<noteq> i) (pend db)"
proof -
  have "filter (\<lambda>r. wi_status r = ''pending'')
      (map (\<lambda>r. if wi_id r = i then r\<lparr>wi_status := ''completed'', wi_completed := Some now\<rparr> else r) rs) =
      filter (\<lambda>r. wi_id r \<noteq> i) (filter (\<lambda>r. wi_status r = ''pending'') rs)" for rs
    by (induction rs) auto
  then show ?thesis by (simp add: pend_def mark_completed_def change_items_def)
qed

lemma mark_completed_ok [simp]: "work_db_ok db \<Longrightarrow> work_db_ok (mark_completed now i db)"
  "wi_next (mark_completed now i db) = wi_next db"
  by (simp_all add: mark_completed_def db_ok_change)

text \<open>What an operation of the scheduler or its tools may do to the table.\<close>

definition extends :: "work_db \<Rightarrow> work_db \<Rightarrow> bool" where
  "extends db db' \<longleftrightarrow> work_db_ok db' \<and> wi_next db \<le> wi_next db' \<and>
     wi_id ` set (pend db') \<subseteq> wi_id ` set (pend db) \<union> {i. wi_next db \<le> i}"

lemma extends_refl: "work_db_ok db \<Longrightarrow> extends db db"
  by (simp add: extends_def)

lemma extends_completed: "work_db_ok db \<Longrightarrow> extends db (mark_completed now i db)"
  by (auto simp: extends_def pend_completed)

lemma extends_insert: "extends db db' \<Longrightarrow> (\<And>i. wi_id (row i) = i) \<Longrightarrow> extends db (insert_item row db')"
  by (auto simp: extends_def db_ok_insert) (auto simp: insert_item_def pend_def split: if_splits)

lemma extends_add: "work_db_ok db \<Longrightarrow> add_task q err off now args db = (answer, db', sig) \<Longrightarrow> extends db db'"
  by (auto simp: add_task_def Let_def blank_item_def extends_refl extends_insert
      split: option.splits prod.splits if_splits sum.splits)

lemma complete_row_cases:
  assumes "complete_row now m row db = (answer, db', sig)"
  shows "(db' = db \<and> \<not> sig) \<or> (\<exists>i. db' = mark_completed now i db \<and> sig)"
  using assms by (auto simp: complete_row_def split: option.splits)

lemma complete_task_cases:
  assumes "complete_task q now args db = (answer, db', sig)"
  shows "(db' = db \<and> \<not> sig) \<or> (\<exists>i. db' = mark_completed now i db \<and> sig)"
  using assms complete_row_cases unfolding complete_task_def Let_def by (metis (no_types, lifting))

lemma extends_complete: "work_db_ok db \<Longrightarrow> complete_task q now args db = (answer, db', sig) \<Longrightarrow> extends db db'"
  by (drule complete_task_cases) (auto intro: extends_refl extends_completed)

lemma extends_finish: "work_db_ok db \<Longrightarrow> finish_tx ok now t db = (done, db') \<Longrightarrow> extends db db'"
  by (auto simp: finish_tx_def Let_def extends_refl extends_completed extends_insert blank_item_def split: if_splits)

lemma unsignalled:
  "add_task q err off now args db = (answer, db', False) \<Longrightarrow> db' = db"
  "complete_task q now args db = (answer, db', False) \<Longrightarrow> db' = db"
  by (auto simp: add_task_def Let_def dest: complete_task_cases
      split: option.splits prod.splits if_splits sum.splits)

lemma calm_extends:
  assumes "calm tk" "extends (wt_items tk) db"
  shows "calm (tk\<lparr>wt_items := db\<rparr>)"
proof -
  have "i < wi_next db \<and> i \<notin> wi_id ` set (pend db)"
    if "i \<in> dom (wt_active tk) \<union> dom (wt_workers tk) \<union> set (wt_hung tk)" for i
  proof -
    have "i < wi_next (wt_items tk)" "i \<notin> wi_id ` set (pend (wt_items tk))"
      using assms(1) that unfolding calm_def by blast+
    moreover have "wi_next (wt_items tk) \<le> wi_next db" using assms(2) by (simp add: extends_def)
    ultimately show ?thesis using assms(2) unfolding extends_def by auto
  qed
  then show ?thesis using assms(2) by (simp add: calm_def extends_def)
qed

section \<open>No task is overslept\<close>

lemma track_start_effect:
  assumes "calm tk" "track_start q now ty d timeout tk = (w, tk')"
  shows "calm tk' \<and> pend (wt_items tk') = pend (wt_items tk) \<and> wi_next (wt_items tk) \<le> wi_next (wt_items tk') \<and>
    0 \<le> w \<and> w < wi_next (wt_items tk') \<and> w \<notin> wi_id ` set (pend (wt_items tk'))"
proof (cases q)
  case False
  then show ?thesis using assms by (auto simp: track_start_def calm_def work_db_ok_def pend_def)
next
  case True
  have ok: "work_db_ok (wt_items tk)" using assms(1) by (simp add: calm_def)
  have i: "wt_items tk' = insert_item (\<lambda>i. (blank_item i now ty d ''running'')
              \<lparr>wi_started := Some now, wi_timeout := Some (now + whole_seconds timeout)\<rparr>) (wt_items tk)"
    and w: "w = wi_next (wt_items tk)" and rest: "wt_active tk' = wt_active tk" "wt_workers tk' = wt_workers tk" "wt_hung tk' = wt_hung tk"
    using assms(2) True by (auto simp: track_start_def)
  have c: "calm tk' \<and> pend (wt_items tk') = pend (wt_items tk) \<and> wi_next (wt_items tk) \<le> wi_next (wt_items tk')"
    by (rule calm_insert [OF assms(1) _ _ i]) (auto simp: blank_item_def rest)
  moreover have "w \<notin> wi_id ` set (pend (wt_items tk'))" using pend_ids [OF ok, of w] c w by auto
  moreover have "0 \<le> w" "w < wi_next (wt_items tk')" using ok i w by (auto simp: work_db_ok_def insert_item_def)
  ultimately show ?thesis by simp
qed

definition held_task :: "sched_phase \<Rightarrow> task option option" where
  "held_task ph = (case ph of Fetched f \<Rightarrow> Some f | Blocked \<Rightarrow> Some None | Waiting t \<Rightarrow> Some (Some t) | _ \<Rightarrow> None)"

definition wake_inv :: "scheduler \<Rightarrow> bool" where
  "wake_inv st \<longleftrightarrow> calm (sc_tracker st) \<and>
     (\<forall>f. held_task (sc_phase st) = Some f \<longrightarrow> sc_flag st \<or> 0 < sc_signals st \<or> f = fetch_next (sched_db st)) \<and>
     (\<forall>t w since. sc_phase st = Running t w since \<longrightarrow> 0 < w \<longrightarrow> w < wi_next (sched_db st) \<and> w \<notin> wi_id ` set (pend (sched_db st)))"

lemma wake_begin:
  assumes "wake_inv st" "sc_phase st = Fetched f \<or> sc_phase st = Waiting t'"
  shows "wake_inv (sched_begin q q' conf t st)"
proof -
  obtain w tk where s: "track_start q' (sc_now st) ''scheduled'' (t_directive t) (routine_timeout conf) (sc_tracker st) = (w, tk)"
    by (rule prod.exhaust)
  have "calm (sc_tracker st)" using assms(1) by (simp add: wake_inv_def)
  from track_start_effect [OF this s] assms(1) s show ?thesis
    by (auto simp: wake_inv_def sched_begin_def held_task_def Let_def split: option.split)
qed

lemma finish_calm:
  assumes "calm tk" "finish_tx ok now t (wt_items tk) = (done, db)"
    and "0 < w \<longrightarrow> w < wi_next (wt_items tk) \<and> w \<notin> wi_id ` set (pend (wt_items tk))"
    and "st \<in> {''completed'', ''failed''}"
  shows "let tk' = (if w > 0 then track_end q now w st e (tk\<lparr>wt_items := db\<rparr>) else tk\<lparr>wt_items := db\<rparr>)
    in calm tk' \<and> pend (wt_items tk') = pend db \<and> wi_next (wt_items tk') = wi_next db"
proof (cases "w > 0")
  case False
  have "extends (wt_items tk) db" using assms(1,2) by (auto simp: calm_def dest: extends_finish)
  from calm_extends [OF assms(1) this] False show ?thesis by simp
next
  case True
  have x: "extends (wt_items tk) db" using assms(1,2) by (auto simp: calm_def dest: extends_finish)
  note c = calm_extends [OF assms(1) x]
  have w: "w \<notin> wi_id ` set (pend db)" using True assms(3) x by (fastforce simp: extends_def)
  have p: "pend (update_work q now w st [] e db) = pend db" using w assms(4) by (auto intro: pend_update)
  have "calm (track_end q now w st e (tk\<lparr>wt_items := db\<rparr>)) \<and>
      pend (wt_items (track_end q now w st e (tk\<lparr>wt_items := db\<rparr>))) = pend (wt_items (tk\<lparr>wt_items := db\<rparr>)) \<and>
      wi_next (wt_items (tk\<lparr>wt_items := db\<rparr>)) \<le> wi_next (wt_items (track_end q now w st e (tk\<lparr>wt_items := db\<rparr>)))"
    by (rule calm_same [OF c]) (use True p x in \<open>auto simp: extends_def\<close>)
  with True p show ?thesis by (simp add: Let_def)
qed

lemma wake_step:
  assumes "sched_step env qs st st'" "wake_inv st"
  shows "wake_inv st'"
  using assms
proof (induction rule: sched_step.induct)
  case (time st now)
  then show ?case by (simp add: wake_inv_def)
next
  case (fetch q st)
  then show ?case by (simp add: wake_inv_def sched_fetch_def held_task_def)
next
  case (decide q q' st f conf)
  show ?case
  proof (cases f)
    case None
    with decide show ?thesis by (simp add: wake_inv_def sched_decide_def held_task_def)
  next
    case (Some t)
    show ?thesis
    proof (cases "t_due t \<le> sc_now st")
      case True
      then show ?thesis using wake_begin [OF decide(4)] decide(3) Some by (simp add: sched_decide_def)
    next
      case False
      with decide Some show ?thesis by (simp add: wake_inv_def sched_decide_def held_task_def)
    qed
  qed
next
  case (timer q q' st t conf)
  then show ?case by (intro wake_begin) auto
next
  case (finish ok q st t w since txerr reply)
  obtain b db where tx: "finish_tx ok (sc_now st) t (sched_db st) = (b, db)" by (rule prod.exhaust)
  have c: "calm (sc_tracker st)" and w: "0 < w \<longrightarrow> w < wi_next (sched_db st) \<and> w \<notin> wi_id ` set (pend (sched_db st))"
    using finish(3,4) by (auto simp: wake_inv_def)
  from finish_calm [OF c tx w, of "if b then ''completed'' else ''failed''" q "if b then [] else txerr"]
  show ?case by (simp add: wake_inv_def sched_finish_def tx Let_def held_task_def)
next
  case (add q err off st args answer db sig)
  have c: "calm (sc_tracker st)" using add(3) by (simp add: wake_inv_def)
  then have x: "extends (sched_db st) db" using add(2) by (auto simp: calm_def intro: extends_add)
  have "sig \<or> db = sched_db st" using unsignalled(1) add(2) by (cases sig) auto
  with add(3) calm_extends [OF c x] x show ?case
    by (auto simp: wake_inv_def sched_items_def extends_def)
next
  case (complete q st args answer db sig)
  have c: "calm (sc_tracker st)" using complete(3) by (simp add: wake_inv_def)
  then have x: "extends (sched_db st) db" using complete(2) by (auto simp: calm_def intro: extends_complete)
  have "sig \<or> db = sched_db st" using unsignalled(2) complete(2) by (cases sig) auto
  with complete(3) calm_extends [OF c x] x show ?case
    by (auto simp: wake_inv_def sched_items_def extends_def)
next
  case (tracker st tk)
  have "calm (sc_tracker st)" using tracker(2) by (simp add: wake_inv_def)
  from calm_step [OF tracker(1) this] fetch_next_pend [of "wt_items tk" "sched_db st"] tracker(2) show ?case
    by (auto simp: wake_inv_def)
qed (simp_all add: wake_inv_def held_task_def)

lemma calm_init: "tracker_init tk \<Longrightarrow> calm tk"
  by (auto simp: tracker_init_def calm_def new_tracker_def db_ok_orphans)

lemma sched_reach_wake: "sched_reach env qs st \<Longrightarrow> wake_inv st"
proof (induction rule: sched_reach.induct)
  case (init st)
  then show ?case by (simp add: sched_init_def wake_inv_def calm_init held_task_def)
next
  case (step st st')
  then show ?case using wake_step by blast
qed

section \<open>A run\<close>

definition demo_row :: work_item where
  "demo_row = (blank_item 1 0 ''scheduled'' ''water the plants'' ''pending'')\<lparr>wi_due := Some 10, wi_recurrence := 5\<rparr>"

definition demo_sched :: "gotime \<Rightarrow> scheduler" where
  "demo_sched now =
     \<lparr>sc_tracker = new_tracker (cleanup_orphans True 0 \<lparr>wi_rows = [demo_row], wi_next = 2\<rparr>) no_objectives,
      sc_now = now, sc_flag = False, sc_signals = 0, sc_phase = Looping, sc_fired = [], sc_sent = []\<rparr>"

lemma demo_sched_reach: "sched_reach env qs (demo_sched now)"
proof (rule sched_reach.init)
  have "work_db_ok \<lparr>wi_rows = [demo_row], wi_next = 2\<rparr>" by (simp add: work_db_ok_def demo_row_def blank_item_def)
  then show "sched_init (demo_sched now)" by (auto simp: sched_init_def tracker_init_def demo_sched_def)
qed

lemma demo_sched_tasks:
  "pending_tasks (sched_db (demo_sched now)) = [task_of demo_row 10]" "fetch_next (sched_db (demo_sched now)) = Some (task_of demo_row 10)"
proof -
  show p: "pending_tasks (sched_db (demo_sched now)) = [task_of demo_row 10]"
    by (simp add: demo_sched_def new_tracker_def cleanup_orphans_def change_items_def pending_tasks_def is_pending_def
        demo_row_def blank_item_def)
  show "fetch_next (sched_db (demo_sched now)) = Some (task_of demo_row 10)" by (simp add: fetch_next_def p)
qed

lemma demo_sched_simps [simp]:
  "sc_phase (demo_sched now) = Looping" "sc_now (demo_sched now) = now" "sc_fired (demo_sched now) = []"
  "sc_sent (demo_sched now) = []" "t_due (task_of demo_row 10) = 10" "t_recurrence (task_of demo_row 10) = 5"
  by (simp_all add: demo_sched_def task_of_def demo_row_def)

lemma sched_reach_steps: "rtranclp (sched_step env qs) st st' \<Longrightarrow> sched_reach env qs st \<Longrightarrow> sched_reach env qs st'"
  by (induction rule: rtranclp_induct) (auto intro: sched_reach.step)

text \<open>
  C34: no task is overslept. Whatever tools, plans and watchdog do meanwhile: when no wake-up is on its
  way, the task the scheduler waits for is pending and no pending task is due earlier, and it blocks
  only while no task with a due time is pending.
\<close>

theorem scheduler_waits_for_earliest:
  assumes "sched_reach env qs st" "\<not> sc_flag st" "sc_signals st = 0"
  shows "(\<forall>t. sc_phase st = Waiting t \<longrightarrow> t \<in> set (pending_tasks (sched_db st)) \<and>
      (\<forall>t' \<in> set (pending_tasks (sched_db st)). t_due t \<le> t_due t')) \<and>
    (sc_phase st = Blocked \<longrightarrow> pending_tasks (sched_db st) = [])"
proof -
  have "\<forall>f. held_task (sc_phase st) = Some f \<longrightarrow> f = fetch_next (sched_db st)"
    using sched_reach_wake [OF assms(1)] assms(2,3) by (auto simp: wake_inv_def)
  then show ?thesis using fetch_next_min fetch_next_None by (auto simp: held_task_def) metis+
qed

theorem scheduler_waits_for_earliest_witness:
  "\<exists>st :: scheduler. sc_phase st = Waiting (task_of demo_row 10) \<and> task_of demo_row 10 \<in> set (pending_tasks (sched_db st))"
proof -
  let ?st = "sched_decide True True 0 (Some (task_of demo_row 10)) (sched_fetch True (demo_sched 0))"
  have f: "sched_fetch True (demo_sched 0) = (demo_sched 0)\<lparr>sc_phase := Fetched (Some (task_of demo_row 10))\<rparr>"
    by (simp add: sched_fetch_def demo_sched_tasks)
  have "sched_step idle_plan_env {True} (demo_sched 0) (sched_fetch True (demo_sched 0))"
    by (rule sched_step.fetch) simp_all
  then have "sched_reach idle_plan_env {True} (sched_fetch True (demo_sched 0))" by (rule sched_reach.step [OF demo_sched_reach])
  moreover have "sched_step idle_plan_env {True} (sched_fetch True (demo_sched 0)) ?st"
    by (rule sched_step.decide) (simp_all add: f)
  ultimately have r: "sched_reach idle_plan_env {True} ?st" by (rule sched_reach.step)
  have "sc_phase ?st = Waiting (task_of demo_row 10)" "\<not> sc_flag ?st" "sc_signals ?st = 0"
    by (simp_all add: f sched_decide_def) (simp_all add: demo_sched_def)
  with scheduler_waits_for_earliest [OF r] show ?thesis by blast
qed

section \<open>No task fires early, none twice\<close>

definition punctual :: "scheduler \<Rightarrow> bool" where
  "punctual st \<longleftrightarrow> (\<forall>x \<in> set (sc_fired st). t_due (fst x) \<le> snd x \<and> snd x \<le> sc_now st) \<and>
     (\<forall>t w since. sc_phase st = Running t w since \<longrightarrow> t_due t \<le> since \<and> since \<le> sc_now st)"

lemma begin_phase:
  "sc_phase (sched_begin q q' conf t st) = Looping \<or> (\<exists>w. sc_phase (sched_begin q q' conf t st) = Running t w (sc_now st))"
  "sc_now (sched_begin q q' conf t st) = sc_now st" "sc_fired (sched_begin q q' conf t st) = sc_fired st"
  by (simp_all add: sched_begin_def Let_def split: option.split prod.split)

lemma finish_simps [simp]:
  "sc_phase (sched_finish ok q e reply t w since st) = Looping" "sc_now (sched_finish ok q e reply t w since st) = sc_now st"
  "sc_fired (sched_finish ok q e reply t w since st) = sc_fired st @ [(t, since)]"
  by (simp_all add: sched_finish_def Let_def split: prod.split)

lemma punctual_step: "sched_step env qs st st' \<Longrightarrow> punctual st \<Longrightarrow> punctual st'"
proof (induction rule: sched_step.induct)
  case (decide q q' st f conf)
  show ?case
  proof (cases f)
    case None
    with decide show ?thesis by (simp add: punctual_def sched_decide_def)
  next
    case (Some t)
    with decide begin_phase [of q q' conf t st] show ?thesis
      by (cases "t_due t \<le> sc_now st") (auto simp: punctual_def sched_decide_def)
  qed
next
  case (timer q q' st t conf)
  with begin_phase [of q q' conf t st] show ?case by (auto simp: punctual_def)
qed (auto simp: punctual_def sched_fetch_def sched_items_def)

definition fired_ids :: "scheduler \<Rightarrow> int list" where
  "fired_ids st = map (\<lambda>x. t_id (fst x)) (sc_fired st)"

definition once_inv :: "scheduler \<Rightarrow> bool" where
  "once_inv st \<longleftrightarrow> distinct (fired_ids st) \<and>
     (\<forall>i \<in> set (fired_ids st). i < wi_next (sched_db st) \<and> i \<notin> wi_id ` set (pend (sched_db st))) \<and>
     (\<forall>t w since. sc_phase st = Running t w since \<longrightarrow> t_id t < wi_next (sched_db st) \<and> t_id t \<notin> set (fired_ids st))"

lemma once_extends:
  assumes "once_inv st" "extends (sched_db st) (sched_db st')" "sc_fired st' = sc_fired st"
    and "\<And>t w since. sc_phase st' = Running t w since \<Longrightarrow> sc_phase st = Running t w since"
  shows "once_inv st'"
proof -
  have ids: "fired_ids st' = fired_ids st" using assms(3) by (simp add: fired_ids_def)
  have n: "wi_next (sched_db st) \<le> wi_next (sched_db st')" using assms(2) by (simp add: extends_def)
  have "i < wi_next (sched_db st') \<and> i \<notin> wi_id ` set (pend (sched_db st'))" if "i \<in> set (fired_ids st)" for i
  proof -
    have "i < wi_next (sched_db st)" "i \<notin> wi_id ` set (pend (sched_db st))" using assms(1) that by (auto simp: once_inv_def)
    with n assms(2) show ?thesis unfolding extends_def by auto
  qed
  moreover have "t_id t < wi_next (sched_db st') \<and> t_id t \<notin> set (fired_ids st)" if "sc_phase st' = Running t w since" for t w since
  proof -
    have "t_id t < wi_next (sched_db st) \<and> t_id t \<notin> set (fired_ids st)" using assms(1) assms(4) [OF that] by (auto simp: once_inv_def)
    with n show ?thesis by simp
  qed
  moreover have "distinct (fired_ids st)" using assms(1) by (simp add: once_inv_def)
  ultimately show ?thesis by (simp add: once_inv_def ids)
qed

lemma pend_insert_pending: "wi_status (row (wi_next db)) = ''pending'' \<Longrightarrow> pend (insert_item row db) = pend db @ [row (wi_next db)]"
  by (simp add: pend_def insert_item_def)

definition next_row :: "gotime \<Rightarrow> task \<Rightarrow> int \<Rightarrow> work_item" where
  "next_row now t i = (blank_item i now ''scheduled'' (t_directive t) ''pending'')
     \<lparr>wi_due := Some (t_due t + t_recurrence t), wi_recurrence := t_recurrence t\<rparr>"

lemma next_row_simps [simp]: "wi_id (next_row now t i) = i" "wi_status (next_row now t i) = ''pending''"
  by (simp_all add: next_row_def blank_item_def)

lemma finish_ok:
  assumes "\<And>n. ok n"
  shows "finish_tx ok now t db = (True, if t_recurrence t > 0
      then insert_item (next_row now t) (mark_completed now (t_id t) db) else mark_completed now (t_id t) db)"
    and "pend (snd (finish_tx ok now t db)) = filter (\<lambda>r. wi_id r \<noteq> t_id t) (pend db) @
      (if t_recurrence t > 0 then [next_row now t (wi_next db)] else [])"
    and "wi_next db \<le> wi_next (snd (finish_tx ok now t db))"
proof -
  show e: "finish_tx ok now t db = (True, if t_recurrence t > 0
      then insert_item (next_row now t) (mark_completed now (t_id t) db) else mark_completed now (t_id t) db)"
    using assms by (simp add: finish_tx_def Let_def next_row_def [abs_def])
  show "pend (snd (finish_tx ok now t db)) = filter (\<lambda>r. wi_id r \<noteq> t_id t) (pend db) @
      (if t_recurrence t > 0 then [next_row now t (wi_next db)] else [])"
    unfolding e by (simp add: pend_insert_pending pend_completed)
  show "wi_next db \<le> wi_next (snd (finish_tx ok now t db))" unfolding e by (simp add: insert_item_def)
qed

lemma once_begin:
  assumes "once_inv st" "wake_inv st"
  shows "once_inv (sched_begin q q' conf t st)"
proof (cases "\<exists>r. (if q then item (t_id t) (sched_db st) else None) = Some r \<and> wi_status r = ''pending''")
  case False
  then have "sched_begin q q' conf t st = st\<lparr>sc_phase := Looping\<rparr>"
    by (auto simp: sched_begin_def split: option.splits)
  with assms(1) show ?thesis by (simp add: once_inv_def fired_ids_def)
next
  case True
  then obtain r where r: "item (t_id t) (sched_db st) = Some r" "wi_status r = ''pending''" "q" by (auto split: if_splits)
  obtain w tk where s: "track_start q' (sc_now st) ''scheduled'' (t_directive t) (routine_timeout conf) (sc_tracker st) = (w, tk)"
    by (rule prod.exhaust)
  have c: "calm (sc_tracker st)" using assms(2) by (simp add: wake_inv_def)
  from r have "r \<in> set (pend (sched_db st))" "wi_id r = t_id t" by (auto simp: item_def find_Some_iff pend_def)
  then have i: "t_id t \<in> wi_id ` set (pend (sched_db st))" by force
  moreover have "t_id t < wi_next (sched_db st)" using pend_ids i c by (auto simp: calm_def)
  moreover have "sched_begin q q' conf t st = st\<lparr>sc_tracker := tk, sc_phase := Running t w (sc_now st)\<rparr>"
    using r s by (simp add: sched_begin_def)
  ultimately show ?thesis using assms(1) track_start_effect [OF c s] by (auto simp: once_inv_def fired_ids_def)
qed

lemma once_step:
  assumes "sched_step env {True} st st'" "once_inv st" "wake_inv st"
  shows "once_inv st'"
  using assms
proof (induction rule: sched_step.induct)
  case (decide q q' st f conf)
  then show ?case
    by (cases f) (auto simp: sched_decide_def once_begin, auto simp: once_inv_def fired_ids_def)
next
  case (timer q q' st t conf)
  then show ?case by (intro once_begin) auto
next
  case (finish ok q st t w since txerr reply)
  obtain b db where tx: "finish_tx ok (sc_now st) t (sched_db st) = (b, db)" by (rule prod.exhaust)
  have c: "calm (sc_tracker st)" and w: "0 < w \<longrightarrow> w < wi_next (sched_db st) \<and> w \<notin> wi_id ` set (pend (sched_db st))"
    using finish(3,5) by (auto simp: wake_inv_def)
  have ok: "ok n" for n using finish(1) by auto
  have db: "wi_id ` set (pend db) \<subseteq> (wi_id ` set (pend (sched_db st)) - {t_id t}) \<union> {wi_next (sched_db st)}"
    "wi_next (sched_db st) \<le> wi_next db"
    using finish_ok(2,3) [where ok = ok and now = "sc_now st" and t = t and db = "sched_db st"] ok tx by auto
  let ?st = "sched_finish ok q txerr reply t w since st"
  have e: "pend (sched_db ?st) = pend db \<and> wi_next (sched_db ?st) = wi_next db"
    using finish_calm [OF c tx w, of "if b then ''completed'' else ''failed''" q "if b then [] else txerr"]
    by (simp add: sched_finish_def tx Let_def)
  have "fired_ids ?st = fired_ids st @ [t_id t]" by (simp add: fired_ids_def)
  moreover have "t_id t < wi_next (sched_db st) \<and> t_id t \<notin> set (fired_ids st)" using finish(3,4) by (auto simp: once_inv_def)
  ultimately show ?case using finish(4) db e by (fastforce simp: once_inv_def)
next
  case (add q err off st args answer db sig)
  have "extends (sched_db st) db" using add(2,4) by (auto simp: wake_inv_def calm_def intro: extends_add)
  then show ?case by (intro once_extends [OF add(3)]) (auto simp: sched_items_def)
next
  case (complete q st args answer db sig)
  have "extends (sched_db st) db" using complete(2,4) by (auto simp: wake_inv_def calm_def intro: extends_complete)
  then show ?case by (intro once_extends [OF complete(3)]) (auto simp: sched_items_def)
next
  case (tracker st tk)
  have "calm (sc_tracker st)" using tracker(3) by (simp add: wake_inv_def)
  from calm_step [OF tracker(1) this] have "extends (sched_db st) (wt_items tk)" by (auto simp: extends_def calm_def)
  then show ?case by (intro once_extends [OF tracker(2)]) auto
qed (auto simp: once_inv_def fired_ids_def sched_fetch_def)

section \<open>One turn of the loop\<close>

lemma pending_item:
  assumes "work_db_ok db" "t \<in> set (pending_tasks db)"
  shows "\<exists>r. item (t_id t) db = Some r \<and> wi_status r = ''pending''"
proof -
  obtain r where r: "r \<in> set (pend db)" "wi_id r = t_id t" using pending_tasks_ids [OF assms(2)] by force
  have "item (t_id t) db = Some r"
    using assms(1) r by (auto simp: item_def find_Some_iff pend_def work_db_ok_def distinct_conv_nth in_set_conv_nth)
      (metis length_map nat_neq_iff nth_map order.strict_trans)
  then show ?thesis using r(1) by (auto simp: pend_def)
qed

text \<open>One turn of the loop with an overdue task, in which no time passes.\<close>

lemma one_turn:
  assumes "wake_inv st" "sc_phase st = Looping" "fetch_next (sched_db st) = Some t" "t_due t \<le> sc_now st"
    and "True \<in> qs" "\<And>n. ok n \<in> qs"
  shows "\<exists>st'. rtranclp (sched_step env qs) st st' \<and> wake_inv st' \<and> sc_phase st' = Looping \<and> sc_now st' = sc_now st \<and>
    sc_sent st' = sc_sent st @ (if reply_text t reply \<noteq> [] then [reply_text t reply] else []) \<and>
    sc_fired st' = sc_fired st @ [(t, sc_now st)] \<and>
    (\<exists>db1. pend db1 = pend (sched_db st) \<and> pend (sched_db st') = pend (snd (finish_tx ok (sc_now st) t db1)))"
proof -
  have calm: "calm (sc_tracker st)" using assms(1) by (simp add: wake_inv_def)
  obtain r where r: "item (t_id t) (sched_db st) = Some r" "wi_status r = ''pending''"
    using pending_item fetch_next_min(1) [OF assms(3)] calm by (metis calm_def)
  obtain w tk where s: "track_start True (sc_now st) ''scheduled'' (t_directive t) (routine_timeout 0) (sc_tracker st) = (w, tk)"
    by (rule prod.exhaust)
  note tk = track_start_effect [OF calm s]
  define st0 where "st0 = st\<lparr>sc_phase := Fetched (Some t)\<rparr>"
  define st1 where "st1 = st\<lparr>sc_tracker := tk, sc_phase := Running t w (sc_now st)\<rparr>"
  define st2 where "st2 = sched_finish ok True [] reply t w (sc_now st) st1"
  have "sched_fetch True st = st0" using assms(3) by (simp add: sched_fetch_def st0_def)
  then have a: "sched_step env qs st st0" using sched_step.fetch [OF assms(5,2), of env] by simp
  have "sched_decide True True 0 (Some t) st0 = st1"
    using assms(4) r s by (simp add: sched_decide_def sched_begin_def st0_def st1_def)
  then have b: "sched_step env qs st0 st1"
    using sched_step.decide [OF assms(5,5), of st0 "Some t" env 0] by (simp add: st0_def)
  have c: "sched_step env qs st1 st2"
    unfolding st2_def by (rule sched_step.finish) (use assms(5,6) in \<open>simp_all add: st1_def\<close>)
  have "rtranclp (sched_step env qs) st st2" using a b c by (meson converse_rtranclp_into_rtranclp rtranclp.rtrancl_refl)
  moreover have "wake_inv st2" using wake_step a b c assms(1) by blast
  moreover have "sc_sent st2 = sc_sent st @ (if reply_text t reply \<noteq> [] then [reply_text t reply] else [])"
    by (simp add: st2_def sched_finish_def st1_def Let_def split: prod.split)
  moreover have "pend (sched_db st2) = pend (snd (finish_tx ok (sc_now st) t (wt_items tk)))"
  proof -
    obtain d db where tx: "finish_tx ok (sc_now st) t (wt_items tk) = (d, db)" by (rule prod.exhaust)
    from tk have "calm tk" "0 < w \<longrightarrow> w < wi_next (wt_items tk) \<and> w \<notin> wi_id ` set (pend (wt_items tk))" by auto
    from finish_calm [OF this(1) tx this(2), of "if d then ''completed'' else ''failed''" True "[]"] tx
    show ?thesis by (cases d) (simp_all add: st2_def sched_finish_def st1_def Let_def split: if_splits)
  qed
  ultimately show ?thesis using tk
    by (intro exI [of _ st2] conjI exI [of _ "wt_items tk"]) (simp_all add: st2_def st1_def)
qed

text \<open>
  C35: while the database works, every task that fires does so at its due time or later, and no task
  fires twice, whatever the tools and the tracker do to the table meanwhile. That none fires early
  holds with any failures.
\<close>

theorem tasks_fire_on_time_and_once:
  assumes "sched_reach env qs st"
  shows "(\<forall>x \<in> set (sc_fired st). t_due (fst x) \<le> snd x \<and> snd x \<le> sc_now st) \<and>
    (qs = {True} \<longrightarrow> distinct (fired_ids st))"
proof -
  have "punctual st \<and> (qs = {True} \<longrightarrow> once_inv st)"
    using assms
  proof (induction rule: sched_reach.induct)
    case (init st)
    then show ?case by (simp add: sched_init_def punctual_def once_inv_def fired_ids_def)
  next
    case (step st st')
    then show ?case using punctual_step once_step sched_reach_wake by blast
  qed
  then show ?thesis by (simp add: punctual_def once_inv_def)
qed

theorem tasks_fire_on_time_and_once_witness:
  "\<exists>(st :: scheduler) x. sc_fired st = [x] \<and> t_due (fst x) \<le> snd x \<and> distinct (fired_ids st)"
proof -
  obtain st where st: "rtranclp (sched_step idle_plan_env {True}) (demo_sched 22) st"
    "sc_fired st = [(task_of demo_row 10, 22)]"
    using one_turn [OF sched_reach_wake [OF demo_sched_reach [where now = 22]], where qs = "{True}" and env = idle_plan_env and
        ok = "\<lambda>n. True" and t = "task_of demo_row 10" and reply = "Inr []"] demo_sched_tasks
    by auto
  from tasks_fire_on_time_and_once [OF sched_reach_steps [OF st(1) demo_sched_reach]] st(2)
  show ?thesis by (intro exI [of _ st] exI [of _ "(task_of demo_row 10, 22)"]) simp
qed

section \<open>Failing transactions and downtime\<close>

text \<open>
  A commit that fails repeats the message. The task stays pending and overdue, the loop fetches
  it again at once, and the user gets the same message as often as the commit fails, with no
  pause between two runs of the model.
\<close>

lemma failed_transaction_repeats_message:
  assumes "sched_reach env UNIV st" "sc_phase st = Looping" "fetch_next (sched_db st) = Some t" "t_due t \<le> sc_now st"
    and "reply_text t reply \<noteq> []"
  shows "\<exists>st'. rtranclp (sched_step env UNIV) st st' \<and> sc_now st' = sc_now st \<and> sc_phase st' = Looping \<and>
    sc_sent st' = sc_sent st @ replicate n (reply_text t reply) \<and> fetch_next (sched_db st') = Some t"
proof -
  let ?ok = "\<lambda>n. n \<noteq> (3 :: nat)"
  have "\<exists>st'. rtranclp (sched_step env UNIV) st st' \<and> wake_inv st' \<and> sc_now st' = sc_now st \<and> sc_phase st' = Looping \<and>
    sc_sent st' = sc_sent st @ replicate n (reply_text t reply) \<and> fetch_next (sched_db st') = Some t"
  proof (induction n)
    case 0
    then show ?case using assms(2,3) sched_reach_wake [OF assms(1)] by (intro exI [of _ st]) simp
  next
    case (Suc n)
    then obtain st1 where st1: "rtranclp (sched_step env UNIV) st st1" "wake_inv st1" "sc_now st1 = sc_now st" "sc_phase st1 = Looping"
      "sc_sent st1 = sc_sent st @ replicate n (reply_text t reply)" "fetch_next (sched_db st1) = Some t" by blast
    obtain st2 db1 where st2: "rtranclp (sched_step env UNIV) st1 st2" "wake_inv st2" "sc_phase st2 = Looping" "sc_now st2 = sc_now st1"
      "sc_sent st2 = sc_sent st1 @ [reply_text t reply]" "pend db1 = pend (sched_db st1)"
      "pend (sched_db st2) = pend (snd (finish_tx ?ok (sc_now st1) t db1))"
      using one_turn [OF st1(2,4,6), where qs = UNIV and ok = ?ok and env = env and reply = reply] st1(3) assms(4,5) by auto
    have "snd (finish_tx ?ok (sc_now st1) t db1) = db1" by (simp add: finish_tx_def)
    then have "fetch_next (sched_db st2) = Some t" using fetch_next_pend st2(6,7) st1(6) by metis
    with st1 st2 show ?case
      by (intro exI [of _ st2]) (auto simp: replicate_append_same intro: rtranclp_trans)
  qed
  then show ?thesis by blast
qed

lemma failed_transaction_repeats_message_witness:
  "\<exists>st' :: scheduler. sc_now st' = 22 \<and> sc_sent st' = [''hi'', ''hi'', ''hi'']"
proof -
  have "\<exists>st'. rtranclp (sched_step idle_plan_env UNIV) (demo_sched 22) st' \<and> sc_now st' = sc_now (demo_sched 22) \<and>
      sc_phase st' = Looping \<and> sc_sent st' = sc_sent (demo_sched 22) @ replicate 3 (reply_text (task_of demo_row 10) (Inr ''hi'')) \<and>
      fetch_next (sched_db st') = Some (task_of demo_row 10)"
    by (rule failed_transaction_repeats_message [OF demo_sched_reach])
      (simp_all add: demo_sched_tasks reply_text_def)
  then show ?thesis by (auto simp: reply_text_def numeral_3_eq_3)
qed

text \<open>
  After a downtime every missed occurrence fires. A recurring task, alone in the queue, that has
  missed \<open>n\<close> occurrences runs \<open>n\<close> times in a row before the scheduler waits again, and the next due time
  is still the first one plus a multiple of the recurrence: it does not drift.
\<close>

lemma missed_occurrences_all_fire:
  assumes "sched_reach env {True} st" "sc_phase st = Looping" "pending_tasks (sched_db st) = [t]"
    and "0 < t_recurrence t" "0 < n \<Longrightarrow> t_due t + (int n - 1) * t_recurrence t \<le> sc_now st" "reply_text t reply \<noteq> []"
  shows "\<exists>st' t'. rtranclp (sched_step env {True}) st st' \<and> sc_now st' = sc_now st \<and> sc_phase st' = Looping \<and>
    sc_sent st' = sc_sent st @ replicate n (reply_text t reply) \<and> pending_tasks (sched_db st') = [t'] \<and>
    t_due t' = t_due t + int n * t_recurrence t \<and> t_recurrence t' = t_recurrence t \<and> t_directive t' = t_directive t"
proof -
  let ?P = "\<lambda>n st' t'. rtranclp (sched_step env {True}) st st' \<and> wake_inv st' \<and> sc_now st' = sc_now st \<and> sc_phase st' = Looping \<and>
    sc_sent st' = sc_sent st @ replicate n (reply_text t reply) \<and> pending_tasks (sched_db st') = [t'] \<and>
    t_due t' = t_due t + int n * t_recurrence t \<and> t_recurrence t' = t_recurrence t \<and> t_directive t' = t_directive t"
  have "\<exists>st' t'. ?P n st' t'" using assms(5)
  proof (induction n)
    case 0
    then show ?case using assms(2,3) sched_reach_wake [OF assms(1)] by (intro exI [of _ st] exI [of _ t]) simp
  next
    case (Suc n)
    have "t_due t + (int n - 1) * t_recurrence t \<le> sc_now st" if "0 < n"
    proof -
      have "(int n - 1) * t_recurrence t \<le> int n * t_recurrence t" using assms(4) by (intro mult_right_mono) auto
      with Suc.prems show ?thesis by simp
    qed
    from Suc.IH [OF this] obtain st1 t1 where st1: "?P n st1 t1" by blast
    have f: "fetch_next (sched_db st1) = Some t1" using st1 by (simp add: fetch_next_def)
    have due: "t_due t1 \<le> sc_now st1" using st1 Suc.prems by simp
    have rt: "reply_text t1 reply = reply_text t reply" using st1 by (simp add: reply_text_def split: sum.split)
    from one_turn [where st = st1 and t = t1 and qs = "{True}" and ok = "\<lambda>n. True" and env = env and reply = reply] st1 f due
    obtain st2 db1 where st2: "rtranclp (sched_step env {True}) st1 st2" "wake_inv st2" "sc_phase st2 = Looping" "sc_now st2 = sc_now st1"
      "sc_sent st2 = sc_sent st1 @ [reply_text t reply]" "pend db1 = pend (sched_db st1)"
      "pend (sched_db st2) = pend (snd (finish_tx (\<lambda>n. True) (sc_now st1) t1 db1))"
      using assms(6) rt by auto
    have "pending_tasks (sched_db st2) = filter (\<lambda>u. t_id u \<noteq> t_id t1) (pending_tasks (sched_db st1)) @
        tasks_of [next_row (sc_now st1) t1 (wi_next db1)]"
      using st1 assms(4) finish_ok(2) [where ok = "\<lambda>n. True" and now = "sc_now st1" and t = t1 and db = db1]
      by (simp add: pending_tasks_of st2(6,7) tasks_of_other)
    then have "pending_tasks (sched_db st2) = [task_of (next_row (sc_now st1) t1 (wi_next db1)) (t_due t1 + t_recurrence t1)]"
      using st1 by (simp add: tasks_of_def next_row_def blank_item_def)
    moreover have "t_due t1 + t_recurrence t1 = t_due t + int (Suc n) * t_recurrence t" using st1 by (simp add: algebra_simps)
    ultimately have "?P (Suc n) st2 (task_of (next_row (sc_now st1) t1 (wi_next db1)) (t_due t1 + t_recurrence t1))"
      using st1 st2 by (auto simp: task_of_def next_row_def blank_item_def replicate_append_same intro: rtranclp_trans)
    then show ?case by blast
  qed
  then show ?thesis by blast
qed

lemma missed_occurrences_all_fire_witness:
  "\<exists>(st' :: scheduler) (t' :: task). sc_now st' = 22 \<and> sc_sent st' = [''hi'', ''hi'', ''hi''] \<and> pending_tasks (sched_db st') = [t'] \<and> t_due t' = 25"
proof -
  let ?t = "task_of demo_row 10"
  have "\<exists>st' t'. rtranclp (sched_step idle_plan_env {True}) (demo_sched 22) st' \<and> sc_now st' = sc_now (demo_sched 22) \<and>
      sc_phase st' = Looping \<and> sc_sent st' = sc_sent (demo_sched 22) @ replicate 3 (reply_text ?t (Inr ''hi'')) \<and>
      pending_tasks (sched_db st') = [t'] \<and> t_due t' = t_due ?t + int 3 * t_recurrence ?t \<and>
      t_recurrence t' = t_recurrence ?t \<and> t_directive t' = t_directive ?t"
    by (rule missed_occurrences_all_fire [OF demo_sched_reach])
      (simp_all add: demo_sched_tasks reply_text_def)
  then show ?thesis by (auto simp: reply_text_def numeral_3_eq_3)
qed

end
