(* ===== verification/Messages.thy ===== *)
theory Messages
  imports TextUtil TimeFmt
begin

text \<open>
  The conversation: messages and their JSON form (\<open>llm/client.go\<close>), the window sent to the model
  (\<open>engine/trim.go\<close>), the cut that archives old messages (\<open>engine/slide.go\<close>) and the state
  manager that owns them (\<open>engine/state.go\<close>).
\<close>

section \<open>Messages\<close>

record content_part =
  part_type :: string
  part_text :: string
  part_image :: "string option"

record message =
  role :: string
  content :: string
  parts :: "content_part list"
  msg_time :: gotime

definition text_message :: "string \<Rightarrow> string \<Rightarrow> message" where
  "text_message r c = \<lparr>role = r, content = c, parts = [], msg_time = 0\<rparr>"

text \<open>\<open>Message.MarshalJSON\<close>: the time is not part of it, and the content gives way to the parts.\<close>

definition json_field :: "string \<Rightarrow> string \<Rightarrow> string" where
  "json_field k v = json_quote k @ '':'' @ v"

definition json_object :: "string list \<Rightarrow> string" where
  "json_object fs = ''{'' @ str_join '','' fs @ ''}''"

definition json_array :: "string list \<Rightarrow> string" where
  "json_array vs = ''['' @ str_join '','' vs @ '']''"

definition marshal_part :: "content_part \<Rightarrow> string" where
  "marshal_part p = json_object
     ([json_field ''type'' (json_quote (part_type p))]
      @ (if part_text p = [] then [] else [json_field ''text'' (json_quote (part_text p))])
      @ (case part_image p of None \<Rightarrow> []
         | Some u \<Rightarrow> [json_field ''image_url'' (json_object [json_field ''url'' (json_quote u)])]))"

definition marshal_message :: "message \<Rightarrow> string" where
  "marshal_message m = json_object
     [json_field ''role'' (json_quote (role m)),
      json_field ''content''
        (if parts m \<noteq> [] then json_array (map marshal_part (parts m)) else json_quote (content m))]"

definition marshal_messages :: "message list \<Rightarrow> string" where
  "marshal_messages ms = json_array (map marshal_message ms)"

section \<open>The window sent to the model\<close>

definition is_tool_message :: "message \<Rightarrow> bool" where
  "is_tool_message m \<longleftrightarrow>
     role m = ''tool'' \<or>
     (role m = ''user'' \<and> (has_prefix (content m) ''Tool result:'' \<or> has_prefix (content m) ''Tool error:''))"

text \<open>\<open>for cutoff > 1 && isToolMessage(messages[cutoff]) { cutoff-- }\<close>\<close>

function back_past_tools :: "message list \<Rightarrow> int \<Rightarrow> int go" where
  "back_past_tools messages cutoff =
     (if cutoff > 1 then
        (case at_index messages cutoff of
           None \<Rightarrow> Panic
         | Some m \<Rightarrow> if is_tool_message m then back_past_tools messages (cutoff - 1) else Ret cutoff)
      else Ret cutoff)"
  by pat_completeness auto
termination
  by (relation "measure (\<lambda>(ms, c). nat c)") auto

declare back_past_tools.simps [simp del]

definition trim_messages :: "message list \<Rightarrow> int \<Rightarrow> message list go" where
  "trim_messages messages maxTail =
     (if int (length messages) \<le> maxTail + 1 then Ret messages
      else (case back_past_tools messages (max 1 (int (length messages) - maxTail)) of
          Panic \<Rightarrow> Panic
        | Ret cutoff \<Rightarrow>
            (case (at_index messages 0, slice_range messages cutoff (int (length messages))) of
               (Some m0, Some kept) \<Rightarrow> Ret (m0 # kept)
             | _ \<Rightarrow> Panic)))"

definition default_max_tail :: int where "default_max_tail = 12"

definition default_trim :: "message list \<Rightarrow> message list go" where
  "default_trim msgs = trim_messages msgs default_max_tail"

lemma back_past_tools_spec:
  assumes "cutoff < int (length ms)" "1 \<le> cutoff"
  shows "\<exists>c. back_past_tools ms cutoff = Ret c \<and> 1 \<le> c \<and> c \<le> cutoff \<and>
    (c = 1 \<or> \<not> is_tool_message (ms ! nat c)) \<and>
    (\<forall>i. c < i \<and> i \<le> cutoff \<longrightarrow> is_tool_message (ms ! nat i))"
  using assms
proof (induction ms cutoff rule: back_past_tools.induct)
  case (1 ms cutoff)
  show ?case
  proof (cases "1 < cutoff \<and> is_tool_message (ms ! nat cutoff)")
    case True
    then have a: "at_index ms cutoff = Some (ms ! nat cutoff)" using "1.prems" by (simp add: at_index_def)
    from "1.IH" [OF _ a] True "1.prems" obtain c where c: "back_past_tools ms (cutoff - 1) = Ret c"
      "1 \<le> c" "c \<le> cutoff - 1" "c = 1 \<or> \<not> is_tool_message (ms ! nat c)"
      "\<forall>i. c < i \<and> i \<le> cutoff - 1 \<longrightarrow> is_tool_message (ms ! nat i)" by auto
    have "is_tool_message (ms ! nat i)" if "c < i" "i \<le> cutoff" for i
      using that c(5) True by (cases "i = cutoff") auto
    with c a True show ?thesis by (subst back_past_tools.simps) auto
  next
    case False
    then show ?thesis using "1.prems"
      by (subst back_past_tools.simps) (auto simp: at_index_def)
  qed
qed

lemma trim_messages_cut:
  assumes "1 \<le> maxTail" and "maxTail + 1 < int (length ms)"
  shows "\<exists>c. trim_messages ms maxTail = Ret (ms ! 0 # drop c ms) \<and>
    1 \<le> c \<and> int c \<le> int (length ms) - maxTail \<and>
    (c = 1 \<or> \<not> is_tool_message (ms ! c)) \<and>
    (\<forall>i. c < i \<and> int i \<le> int (length ms) - maxTail \<longrightarrow> is_tool_message (ms ! i))"
proof -
  let ?k = "int (length ms) - maxTail"
  obtain c where c: "back_past_tools ms ?k = Ret c" "1 \<le> c" "c \<le> ?k"
    "c = 1 \<or> \<not> is_tool_message (ms ! nat c)"
    "\<forall>i. c < i \<and> i \<le> ?k \<longrightarrow> is_tool_message (ms ! nat i)"
    using back_past_tools_spec [of ?k ms] assms by auto
  have m: "max 1 ?k = ?k" using assms by simp
  have "ms \<noteq> []" using assms by auto
  then have "trim_messages ms maxTail = Ret (ms ! 0 # drop (nat c) ms)"
    using assms c(1-3) m by (simp add: trim_messages_def at_index_def slice_range_def)
  moreover have "is_tool_message (ms ! i)" if "nat c < i" "int i \<le> ?k" for i
    using c(5) [rule_format, of "int i"] that by simp
  ultimately show ?thesis using c(2-4) by (intro exI [of _ "nat c"]) auto
qed



section \<open>Where the context may be cut\<close>

definition is_tool_call_content :: "string \<Rightarrow> bool" where
  "is_tool_call_content c =
     (let s0 = trim_space c;
          s = (if has_prefix s0 fence then
                 (let s1 = (case str_index s0 [CHR 0x0A] of Some idx \<Rightarrow> drop (idx + 1) s0 | None \<Rightarrow> s0)
                  in trim_space (trim_suffix s1 fence))
               else s0)
      in if s = [] \<or> hd s \<noteq> CHR ''{'' \<or> last s \<noteq> CHR ''}'' then False
         else (case unmarshal_map s of None \<Rightarrow> False | Some obj \<Rightarrow> obj ''name'' \<noteq> None))"

definition is_safe_boundary :: "message \<Rightarrow> bool" where
  "is_safe_boundary m =
     (if role m = ''user'' then \<not> is_tool_message m
      else if role m = ''assistant'' then \<not> is_tool_call_content (content m)
      else False)"

text \<open>The two loops that look for a boundary; -1 when there is none.\<close>

function safe_backward :: "message list \<Rightarrow> int \<Rightarrow> int go" where
  "safe_backward msgs i =
     (if i > 1 then
        (case at_index msgs i of
           None \<Rightarrow> Panic
         | Some m \<Rightarrow> if is_safe_boundary m then Ret i else safe_backward msgs (i - 1))
      else Ret (- 1))"
  by pat_completeness auto
termination
  by (relation "measure (\<lambda>(ms, i). nat i)") auto

function safe_forward :: "message list \<Rightarrow> int \<Rightarrow> int go" where
  "safe_forward msgs i =
     (if i < int (length msgs) - 1 then
        (case at_index msgs i of
           None \<Rightarrow> Panic
         | Some m \<Rightarrow> if is_safe_boundary m then Ret i else safe_forward msgs (i + 1))
      else Ret (- 1))"
  by pat_completeness auto
termination
  by (relation "measure (\<lambda>(ms, i). nat (int (length ms) - i))") auto

declare safe_backward.simps [simp del] safe_forward.simps [simp del]

text \<open>Step 2 of \<open>SlideAndArchiveContext\<close>, with the bounds check of the slice \<open>msgs[1:safeIndex]\<close>.\<close>

definition slide_cutoff :: "message list \<Rightarrow> int \<Rightarrow> int go" where
  "slide_cutoff msgs maxMessages =
     (let naive = int (length msgs) - maxMessages in
      case safe_backward msgs naive of
        Panic \<Rightarrow> Panic
      | Ret b \<Rightarrow>
          (case (if b \<le> 1 then safe_forward msgs (naive + 1) else Ret b) of
             Panic \<Rightarrow> Panic
           | Ret f \<Rightarrow>
               (let safe = (if f \<le> 1 then naive else f)
                in if slice_range msgs 1 safe = None then Panic else Ret safe)))"

definition strip_agent_state :: "string \<Rightarrow> string" where
  "strip_agent_state s =
     (case str_index s ([CHR 0x0A, CHR 0x0A] @ ''[Current Agent State]'') of
        Some idx \<Rightarrow> take idx s | None \<Rightarrow> s)"

text \<open>The line of a message in the archive, empty for the messages that are skipped.\<close>

definition archive_line :: "duration \<Rightarrow> message \<Rightarrow> string" where
  "archive_line off m =
     (if role m = ''assistant'' \<and> is_tool_call_content (content m) then []
      else if is_tool_message m then []
      else (let c = trim_space (strip_tool_intent_tags (strip_think_tags (strip_agent_state (content m))))
            in if c = [] then []
               else (if \<not> is_zero (msg_time m) then ''['' @ format_date_time off (msg_time m) @ ''] '' else [])
                 @ role m @ '': '' @ c @ [CHR 0x0A]))"

definition archive_text :: "duration \<Rightarrow> gotime \<Rightarrow> message list \<Rightarrow> string" where
  "archive_text off now ms =
     ''[Conversation archived '' @ format_date_time off now @ '']'' @ [CHR 0x0A] @ concat (map (archive_line off) ms)"

definition safe_at :: "message list \<Rightarrow> int \<Rightarrow> bool" where
  "safe_at ms i \<longleftrightarrow> is_safe_boundary (ms ! nat i)"

lemma safe_backward_spec:
  "i < int (length ms) \<Longrightarrow> \<exists>r. safe_backward ms i = Ret r \<and>
     (r = - 1 \<and> (\<forall>k. 1 < k \<and> k \<le> i \<longrightarrow> \<not> safe_at ms k) \<or>
      1 < r \<and> r \<le> i \<and> safe_at ms r \<and> (\<forall>k. r < k \<and> k \<le> i \<longrightarrow> \<not> safe_at ms k))"
proof (induction ms i rule: safe_backward.induct)
  case (1 ms i)
  show ?case
  proof (cases "1 < i")
    case False
    then show ?thesis by (subst safe_backward.simps) auto
  next
    case lt: True
    then have a: "at_index ms i = Some (ms ! nat i)" using "1.prems" by (simp add: at_index_def)
    show ?thesis
    proof (cases "is_safe_boundary (ms ! nat i)")
      case True
      with a lt show ?thesis by (subst safe_backward.simps) (auto simp: safe_at_def)
    next
      case False
      then have s: "safe_backward ms i = safe_backward ms (i - 1)"
        using a lt by (subst safe_backward.simps) simp
      have k: "k \<le> i \<longleftrightarrow> k \<le> i - 1 \<or> k = i" for k by auto
      show ?thesis
        using "1.IH" [OF lt a False] "1.prems" False unfolding s k safe_at_def by fastforce
    qed
  qed
qed

lemma safe_forward_spec:
  "0 \<le> i \<Longrightarrow> \<exists>r. safe_forward ms i = Ret r \<and>
     (r = - 1 \<and> (\<forall>k. i \<le> k \<and> k < int (length ms) - 1 \<longrightarrow> \<not> safe_at ms k) \<or>
      i \<le> r \<and> r < int (length ms) - 1 \<and> safe_at ms r \<and> (\<forall>k. i \<le> k \<and> k < r \<longrightarrow> \<not> safe_at ms k))"
proof (induction ms i rule: safe_forward.induct)
  case (1 ms i)
  show ?case
  proof (cases "i < int (length ms) - 1")
    case False
    then show ?thesis by (subst safe_forward.simps) auto
  next
    case lt: True
    then have a: "at_index ms i = Some (ms ! nat i)" using "1.prems" by (simp add: at_index_def)
    show ?thesis
    proof (cases "is_safe_boundary (ms ! nat i)")
      case True
      with a lt show ?thesis by (subst safe_forward.simps) (auto simp: safe_at_def)
    next
      case False
      then have s: "safe_forward ms i = safe_forward ms (i + 1)"
        using a lt by (subst safe_forward.simps) simp
      have k: "i \<le> k \<longleftrightarrow> i + 1 \<le> k \<or> k = i" for k by auto
      have "0 \<le> i + 1" using "1.prems" by simp
      from "1.IH" [OF lt a False this] obtain r where r: "safe_forward ms (i + 1) = Ret r"
        "r = - 1 \<and> (\<forall>k. i + 1 \<le> k \<and> k < int (length ms) - 1 \<longrightarrow> \<not> safe_at ms k) \<or>
         i + 1 \<le> r \<and> r < int (length ms) - 1 \<and> safe_at ms r \<and> (\<forall>k. i + 1 \<le> k \<and> k < r \<longrightarrow> \<not> safe_at ms k)"
        by blast
      have "\<not> safe_at ms i" using False by (simp add: safe_at_def)
      with r k s show ?thesis by (intro exI [of _ r]) auto
    qed
  qed
qed

text \<open>
  The cut of an over-long conversation, taken on one snapshot, never panics and lands on the
  last safe boundary at or before the naive cut; when there is none, on the first one after it
  (the last message excepted); and on the naive cut itself when the conversation has none at all.
\<close>

lemma slide_cutoff_spec:
  assumes "0 < maxMessages" and "maxMessages < int (length ms)"
  shows "\<exists>c. slide_cutoff ms maxMessages = Ret c \<and> 1 \<le> c \<and> c < int (length ms) \<and>
    (let naive = int (length ms) - maxMessages in
      1 < c \<and> c \<le> naive \<and> safe_at ms c \<and> (\<forall>k. c < k \<and> k \<le> naive \<longrightarrow> \<not> safe_at ms k) \<or>
      (\<forall>k. 1 < k \<and> k \<le> naive \<longrightarrow> \<not> safe_at ms k) \<and>
        (naive < c \<and> c < int (length ms) - 1 \<and> safe_at ms c \<and> (\<forall>k. naive < k \<and> k < c \<longrightarrow> \<not> safe_at ms k) \<or>
         c = naive \<and> (\<forall>k. naive < k \<and> k < int (length ms) - 1 \<longrightarrow> \<not> safe_at ms k)))"
proof -
  let ?n = "int (length ms) - maxMessages"
  have n: "1 \<le> ?n" "?n < int (length ms)" using assms by auto
  obtain b where b: "safe_backward ms ?n = Ret b"
    "b = - 1 \<and> (\<forall>k. 1 < k \<and> k \<le> ?n \<longrightarrow> \<not> safe_at ms k) \<or>
     1 < b \<and> b \<le> ?n \<and> safe_at ms b \<and> (\<forall>k. b < k \<and> k \<le> ?n \<longrightarrow> \<not> safe_at ms k)"
    using safe_backward_spec [OF n(2)] by blast
  have rng: "slice_range ms 1 c \<noteq> None" if "1 \<le> c" "c \<le> int (length ms)" for c
    using that by (simp add: slice_range_def)
  show ?thesis
  proof (cases "b = - 1")
    case False
    with b n rng [of b] show ?thesis by (intro exI [of _ b]) (auto simp: slide_cutoff_def Let_def)
  next
    case True
    with b have none: "\<forall>k. 1 < k \<and> k \<le> ?n \<longrightarrow> \<not> safe_at ms k" by auto
    have 0: "0 \<le> ?n + 1" using n by simp
    obtain f where f: "safe_forward ms (?n + 1) = Ret f"
      "f = - 1 \<and> (\<forall>k. ?n + 1 \<le> k \<and> k < int (length ms) - 1 \<longrightarrow> \<not> safe_at ms k) \<or>
       ?n + 1 \<le> f \<and> f < int (length ms) - 1 \<and> safe_at ms f \<and> (\<forall>k. ?n + 1 \<le> k \<and> k < f \<longrightarrow> \<not> safe_at ms k)"
      using safe_forward_spec [OF 0] by blast
    let ?c = "if f \<le> 1 then ?n else f"
    have "slide_cutoff ms maxMessages = Ret ?c"
      using True b(1) f n rng [of ?c] by (auto simp: slide_cutoff_def Let_def)
    with f(2) n none show ?thesis by (intro exI [of _ ?c]) (auto simp: Let_def)
  qed
qed

lemma slide_cutoff_spec_witness:
  "\<exists>c. slide_cutoff (replicate 5 (text_message ''user'' ''hi'')) 2 = Ret c \<and> 1 \<le> c \<and> c < 5"
  using slide_cutoff_spec [of 2 "replicate 5 (text_message ''user'' ''hi'')"] by auto

section \<open>Reading messages back\<close>

text \<open>
  \<open>Message.UnmarshalJSON\<close>: the fields \<open>role\<close> and \<open>content\<close> of the object, the content kept raw; then
  a string, an array of parts whose first text part becomes the content, or the raw text itself.
\<close>

fun image_url_of :: "json \<Rightarrow> string option \<Rightarrow> string option \<times> bool" where
  "image_url_of JNull old = (None, False)"
| "image_url_of (JObj ms) old =
     (let (u, e) = foldl (\<lambda>(u, e) (k, raw, v).
          if field_of [''url''] k = None then (u, e)
          else (let (u', b) = set_string v u in (u', e \<or> b)))
        (case old of None \<Rightarrow> [] | Some u \<Rightarrow> u, False) ms
      in (Some u, e))"
| "image_url_of v old = (old, True)"

definition part_step :: "content_part \<times> bool \<Rightarrow> string \<times> string \<times> json \<Rightarrow> content_part \<times> bool" where
  "part_step = (\<lambda>(p, e) (k, raw, v).
     (let f = field_of [''type'', ''text'', ''image_url''] k in
      if f = Some ''type'' then (let (t, b) = set_string v (part_type p) in (p\<lparr>part_type := t\<rparr>, e \<or> b))
      else if f = Some ''text'' then (let (t, b) = set_string v (part_text p) in (p\<lparr>part_text := t\<rparr>, e \<or> b))
      else if f = Some ''image_url''
        then (let (u, b) = image_url_of v (part_image p) in (p\<lparr>part_image := u\<rparr>, e \<or> b))
      else (p, e)))"

definition empty_part :: content_part where
  "empty_part = \<lparr>part_type = [], part_text = [], part_image = None\<rparr>"

fun unmarshal_part :: "json \<Rightarrow> content_part \<times> bool" where
  "unmarshal_part JNull = (empty_part, False)"
| "unmarshal_part (JObj ms) = foldl part_step (empty_part, False) ms"
| "unmarshal_part v = (empty_part, True)"

definition message_step ::
  "string \<times> (string \<times> json) option \<times> bool \<Rightarrow> string \<times> string \<times> json \<Rightarrow> string \<times> (string \<times> json) option \<times> bool"
where
  "message_step = (\<lambda>(r, c, e) (k, raw, v).
     (let f = field_of [''role'', ''content''] k in
      if f = Some ''role'' then (let (r', b) = set_string v r in (r', c, e \<or> b))
      else if f = Some ''content'' then (r, Some (raw, v), e)
      else (r, c, e)))"

definition content_of :: "(string \<times> json) option \<Rightarrow> string \<times> content_part list" where
  "content_of c =
     (case c of
        None \<Rightarrow> ([], [])
      | Some (raw, JStr t) \<Rightarrow> (t, [])
      | Some (raw, JNull) \<Rightarrow> ([], [])
      | Some (raw, JArr vs) \<Rightarrow>
          (let ps = map unmarshal_part vs in
           if list_all (\<lambda>(p, e). \<not> e) ps
           then (case find (\<lambda>p. part_type p = ''text'') (map fst ps) of None \<Rightarrow> [] | Some p \<Rightarrow> part_text p, map fst ps)
           else (raw, []))
      | Some (raw, _) \<Rightarrow> (raw, []))"

definition message_of :: "string \<times> (string \<times> json) option \<times> bool \<Rightarrow> message option" where
  "message_of = (\<lambda>(r, c, e). if e then None
     else (let (t, ps) = content_of c in Some \<lparr>role = r, content = t, parts = ps, msg_time = 0\<rparr>))"

fun unmarshal_message :: "json \<Rightarrow> message option" where
  "unmarshal_message JNull = message_of ([], None, False)"
| "unmarshal_message (JObj ms) = message_of (foldl message_step ([], None, False) ms)"
| "unmarshal_message v = None"

definition unmarshal_messages :: "string \<Rightarrow> message list option" where
  "unmarshal_messages s =
     (case json_parse s of
        Some JNull \<Rightarrow> Some []
      | Some (JArr vs) \<Rightarrow>
          (let ms = map unmarshal_message vs in if None \<in> set ms then None else Some (map the ms))
      | _ \<Rightarrow> None)"

definition strip_vision_parts :: "message list \<Rightarrow> message list" where
  "strip_vision_parts msgs =
     map (\<lambda>m. if parts m = [] then m
              else \<lparr>role = role m, content = content m, parts = [], msg_time = msg_time m\<rparr>) msgs"

lemma json_value_quote:
  "utf8_valid s \<Longrightarrow> json_value d (json_quote s @ r) = Some (JStr s, r)"
  by (subst json_value.simps) (simp add: json_quote_def json_scalar_def json_string_quote)

lemma take_consumed [simp]: "take (length (a @ b) - length b) (a @ b) = a"
  by simp

lemma json_value_message:
  assumes "utf8_valid r" "utf8_valid c" "d \<noteq> 0"
  shows "json_value d (marshal_message (text_message r c) @ rest) =
    Some (JObj [(''role'', json_quote r, JStr r), (''content'', json_quote c, JStr c)], rest)"
proof -
  have v: "utf8_valid ''role''" "utf8_valid ''content''"
    by (simp_all add: utf8_valid_ascii byte_in_def byte_of_def)
  let ?m2 = "json_quote ''content'' @ '':'' @ json_quote c @ ''}'' @ rest"
  let ?m1 = "json_quote ''role'' @ '':'' @ json_quote r @ '','' @ ?m2"
  have ws: "skip_ws (json_quote s @ x) = json_quote s @ x" for s x
    by (simp add: json_quote_def)
  have st: "json_string (drop 1 (json_quote s @ x)) = Some (s, x)" if "utf8_valid s" for s x
    using that by (simp add: json_quote_def json_string_quote)
  have hp: "has_prefix (json_quote s @ x) [CHR 0x22]" for s x
    by (simp add: json_quote_def)
  have 2: "json_members (json_value k) (Suc n) ?m2 = Some ([(''content'', json_quote c, JStr c)], rest)" for k n
    using st [OF v(2)] by (simp add: ws hp json_value_quote [OF assms(2)])
  have 1: "json_members (json_value k) (Suc (Suc n)) ?m1 =
      Some ([(''role'', json_quote r, JStr r), (''content'', json_quote c, JStr c)], rest)" for k n
    using st [OF v(1)] 2 [of k n]
    by (simp only: json_members.simps(2) [of _ "Suc n"] ws hp) (simp add: ws json_value_quote [OF assms(1)] del: json_members.simps)
  have m: "marshal_message (text_message r c) @ rest = CHR ''{'' # ?m1"
    by (simp add: marshal_message_def text_message_def json_object_def json_field_def)
  have len: "\<exists>n. length (CHR ''{'' # ?m1) = Suc (Suc n)" by simp
  then obtain n where n: "length (CHR ''{'' # ?m1) = Suc (Suc n)" ..
  have np: "\<not> has_prefix (skip_ws ?m1) ''}''" by (simp add: ws) (simp add: json_quote_def)
  show ?thesis
    unfolding m using assms(3) np 1 [of "d - 1" n]
    by (subst json_value.simps) (simp add: n [simplified] del: json_members.simps)
qed

lemma marshal_text_shape: "\<exists>t. marshal_message m = CHR ''{'' # t"
  by (simp add: marshal_message_def json_object_def)

lemma json_elems_messages:
  assumes "ps \<noteq> []" "\<forall>(r, c) \<in> set ps. utf8_valid r \<and> utf8_valid c" "d \<noteq> 0" "length ps \<le> n"
  shows "json_elems (json_value d) n
      (str_join '','' (map (\<lambda>(r, c). marshal_message (text_message r c)) ps) @ '']'' @ rest) =
    Some (map (\<lambda>(r, c). JObj [(''role'', json_quote r, JStr r), (''content'', json_quote c, JStr c)]) ps, rest)"
  using assms
proof (induction ps arbitrary: n)
  case Nil
  then show ?case by simp
next
  case (Cons p ps)
  obtain r c where p: "p = (r, c)" by (cases p)
  obtain k where n: "n = Suc k" using Cons.prems(4) by (cases n) auto
  have ws: "skip_ws (marshal_message (text_message r c) @ x) = marshal_message (text_message r c) @ x" for x
    using marshal_text_shape [of "text_message r c"] by auto
  have v: "json_value d (marshal_message (text_message r c) @ x) =
      Some (JObj [(''role'', json_quote r, JStr r), (''content'', json_quote c, JStr c)], x)" for x
    using json_value_message [of r c d x] Cons.prems(2,3) p by simp
  show ?case
  proof (cases ps)
    case Nil
    then show ?thesis by (simp add: n p ws v)
  next
    case (Cons q qs)
    with Cons.IH [of k] Cons.prems n show ?thesis by (simp add: p ws v)
  qed
qed

lemma skip_ws_bracket [simp]: "skip_ws (CHR ''['' # s) = CHR ''['' # s"
  by simp

lemma parse_messages:
  assumes "\<forall>(r, c) \<in> set ps. utf8_valid r \<and> utf8_valid c"
  shows "json_parse (marshal_messages (map (\<lambda>(r, c). text_message r c) ps)) =
    Some (JArr (map (\<lambda>(r, c). JObj [(''role'', json_quote r, JStr r), (''content'', json_quote c, JStr c)]) ps))"
proof -
  let ?b = "str_join '','' (map (\<lambda>(r, c). marshal_message (text_message r c)) ps)"
  have t: "marshal_messages (map (\<lambda>(r, c). text_message r c) ps) = CHR ''['' # ?b @ '']''"
    by (simp add: marshal_messages_def json_array_def o_def split_def)
  show ?thesis
  proof (cases ps)
    case Nil
    then show ?thesis unfolding t by (simp add: json_parse_def json_value.simps)
  next
    case (Cons p qs)
    have len: "length xs \<le> length (str_join '','' (map (\<lambda>(r, c). marshal_message (text_message r c)) xs))" for xs
    proof (induction xs)
      case (Cons x xs)
      obtain t where "marshal_message (text_message (fst x) (snd x)) = CHR ''{'' # t"
        using marshal_text_shape by blast
      with Cons show ?case by (cases xs) (auto simp: split_def)
    qed simp
    have np: "\<not> has_prefix (skip_ws (?b @ '']'')) '']''"
    proof -
      obtain t where "marshal_message (text_message (fst p) (snd p)) = CHR ''{'' # t"
        using marshal_text_shape by blast
      then show ?thesis using Cons by (cases qs) (auto simp: split_def)
    qed
    have e: "json_elems (json_value 9999) (length (CHR ''['' # ?b @ '']'')) (?b @ '']'' @ []) =
      Some (map (\<lambda>(r, c). JObj [(''role'', json_quote r, JStr r), (''content'', json_quote c, JStr c)]) ps, [])"
      using assms Cons len [of ps] by (intro json_elems_messages) (auto simp: split_def)
    have "json_value 10000 (CHR ''['' # ?b @ '']'') =
      Some (JArr (map (\<lambda>(r, c). JObj [(''role'', json_quote r, JStr r), (''content'', json_quote c, JStr c)]) ps), [])"
      using np e by (subst json_value.simps) (simp del: json_elems.simps)
    then show ?thesis unfolding t by (simp add: json_parse_def)
  qed
qed

lemma unmarshal_text:
  "unmarshal_message (JObj [(''role'', json_quote r, JStr r), (''content'', json_quote c, JStr c)])
     = Some (text_message r c)"
  by (simp add: message_of_def message_step_def field_of_def content_of_def text_message_def Let_def)

section \<open>The state manager\<close>

record agent_state =
  status :: string
  current_task :: string
  step_count :: int
  user_prefs :: "string \<rightharpoonup> string"

record state_manager =
  agent :: agent_state
  has_pool :: bool
  messages :: "message list"
  last_user_activity :: gotime
  last_pipeline_id :: int

text \<open>The two tables the manager writes to.\<close>

record state_db =
  prefs_table :: "string \<rightharpoonup> string"
  snapshot :: "string option"

text \<open>\<open>loadPrefsFromDB\<close>; \<open>ok\<close>: the query succeeds, \<open>bad k\<close>: scanning the row of \<open>k\<close> fails.\<close>

definition load_prefs :: "bool \<Rightarrow> (string \<Rightarrow> bool) \<Rightarrow> state_db \<Rightarrow> agent_state \<Rightarrow> agent_state" where
  "load_prefs ok bad db a =
     (if ok then a\<lparr>user_prefs := user_prefs a ++ (prefs_table db |` {k. \<not> bad k})\<rparr> else a)"

definition new_state_manager :: "bool \<Rightarrow> bool \<Rightarrow> (string \<Rightarrow> bool) \<Rightarrow> state_db \<Rightarrow> state_manager" where
  "new_state_manager pool ok bad db =
     (let a = \<lparr>status = ''idle'', current_task = [], step_count = 0, user_prefs = Map.empty\<rparr>
      in \<lparr>agent = (if pool then load_prefs ok bad db a else a), has_pool = pool, messages = [],
          last_user_activity = 0, last_pipeline_id = 0\<rparr>)"

definition refresh_prefs :: "bool \<Rightarrow> (string \<Rightarrow> bool) \<Rightarrow> state_db \<Rightarrow> state_manager \<Rightarrow> state_manager" where
  "refresh_prefs ok bad db sm =
     (if has_pool sm then sm\<lparr>agent := load_prefs ok bad db (agent sm)\<rparr> else sm)"

definition get_state :: "state_manager \<Rightarrow> agent_state" where
  "get_state sm = agent sm"

definition update_state :: "(agent_state \<Rightarrow> agent_state) \<Rightarrow> state_manager \<Rightarrow> state_manager" where
  "update_state f sm = sm\<lparr>agent := f (agent sm)\<rparr>"

text \<open>\<open>SetPref\<close> and \<open>DeletePref\<close>: the error, the manager and the tables; \<open>ok\<close>: the statement succeeds.\<close>

definition set_pref ::
  "bool \<Rightarrow> string \<Rightarrow> string \<Rightarrow> state_manager \<times> state_db \<Rightarrow> string option \<times> state_manager \<times> state_db" where
  "set_pref ok k v = (\<lambda>(sm, db).
     (let sm' = update_state (\<lambda>a. a\<lparr>user_prefs := (user_prefs a)(k \<mapsto> v)\<rparr>) sm
      in if \<not> has_pool sm then (None, sm', db)
         else if ok then (None, sm', db\<lparr>prefs_table := (prefs_table db)(k \<mapsto> v)\<rparr>)
         else (Some ''persist preference'', sm', db)))"

definition delete_pref ::
  "bool \<Rightarrow> string \<Rightarrow> state_manager \<times> state_db \<Rightarrow> string option \<times> state_manager \<times> state_db" where
  "delete_pref ok k = (\<lambda>(sm, db).
     (let sm' = update_state (\<lambda>a. a\<lparr>user_prefs := (user_prefs a)(k := None)\<rparr>) sm
      in if \<not> has_pool sm then (None, sm', db)
         else if ok then (None, sm', db\<lparr>prefs_table := (prefs_table db)(k := None)\<rparr>)
         else (Some ''delete preference'', sm', db)))"

definition append_message :: "gotime \<Rightarrow> message \<Rightarrow> state_manager \<Rightarrow> state_manager" where
  "append_message now m sm =
     sm\<lparr>messages := messages sm @ [if is_zero (msg_time m) then m\<lparr>msg_time := now\<rparr> else m]\<rparr>"

text \<open>A row of appends, each a critical section of its own; the others act before the \<open>i\<close>-th by \<open>between i\<close>.\<close>

definition append_between ::
  "gotime \<Rightarrow> (nat \<Rightarrow> state_manager \<Rightarrow> state_manager) \<Rightarrow> message list \<Rightarrow> state_manager \<Rightarrow> state_manager" where
  "append_between now between ms sm = fold (\<lambda>(i, m) sm. append_message now m (between i sm)) (enumerate 0 ms) sm"

definition touch_user_activity :: "gotime \<Rightarrow> state_manager \<Rightarrow> state_manager" where
  "touch_user_activity now sm = sm\<lparr>last_user_activity := now\<rparr>"

definition set_last_pipeline_id :: "int \<Rightarrow> state_manager \<Rightarrow> state_manager" where
  "set_last_pipeline_id i sm = sm\<lparr>last_pipeline_id := i\<rparr>"

text \<open>\<open>fingerprintMessages\<close>: \<open>sha\<close> is SHA-256.\<close>

definition fingerprint :: "(string \<Rightarrow> 'h) \<Rightarrow> message list \<Rightarrow> 'h" where
  "fingerprint sha ms = sha (marshal_messages ms)"

definition slide_messages ::
  "(string \<Rightarrow> 'h) \<Rightarrow> nat \<Rightarrow> 'h \<Rightarrow> state_manager \<Rightarrow> bool \<times> state_manager" where
  "slide_messages sha cutoff expected sm =
     (if length (messages sm) \<le> cutoff then (False, sm)
      else if expected \<noteq> fingerprint sha (drop 1 (take cutoff (messages sm))) then (False, sm)
      else (True, sm\<lparr>messages := messages sm ! 0 # drop cutoff (messages sm)\<rparr>))"

text \<open>\<open>persistSnapshot\<close> in its two steps: what is read under the lock, and the later statement.\<close>

definition snapshot_read :: "state_manager \<Rightarrow> string option" where
  "snapshot_read sm = (if has_pool sm then Some (marshal_messages (strip_vision_parts (messages sm))) else None)"

definition snapshot_write :: "bool \<Rightarrow> string option \<Rightarrow> state_db \<Rightarrow> state_db" where
  "snapshot_write ok data db =
     (case data of None \<Rightarrow> db | Some d \<Rightarrow> if ok then db\<lparr>snapshot := Some d\<rparr> else db)"

definition load_conversation_snapshot :: "state_db \<Rightarrow> state_manager \<Rightarrow> state_manager" where
  "load_conversation_snapshot db sm =
     (if \<not> has_pool sm then sm
      else (case Option.bind (snapshot db) unmarshal_messages of
          None \<Rightarrow> sm
        | Some msgs \<Rightarrow> sm\<lparr>messages := msgs\<rparr>))"

section \<open>Sliding and archiving\<close>

text \<open>
  \<open>SlideAndArchiveContext\<close>. Its three looks at the manager are separate critical sections: \<open>count\<close>
  is the message count when it was read, \<open>snap\<close> the copy of the messages, and \<open>sm\<close> the manager when
  the slide is applied. The archive text is handed over before the slide is tried.
\<close>

definition slide_and_archive ::
  "(string \<Rightarrow> 'h) \<Rightarrow> duration \<Rightarrow> gotime \<Rightarrow> int \<Rightarrow> int \<Rightarrow> message list \<Rightarrow> state_manager
     \<Rightarrow> (string option \<times> bool \<times> state_manager) go"
where
  "slide_and_archive sha off now maxMessages count snap sm =
     (if count \<le> maxMessages then Ret (None, False, sm)
      else (case slide_cutoff snap maxMessages of
          Panic \<Rightarrow> Panic
        | Ret c \<Rightarrow>
            (let archived = drop 1 (take (nat c) snap);
                 arch = archive_text off now archived;
                 (ok, sm') = slide_messages sha (nat c) (fingerprint sha archived) sm
             in Ret (if arch \<noteq> [] then Some arch else None, ok, sm'))))"

text \<open>
  A whole call: \<open>between 0\<close> is what other goroutines do to the manager after the count was read, and
  \<open>between 1\<close> what they do after the copy was made.
\<close>

definition slide_context ::
  "(string \<Rightarrow> 'h) \<Rightarrow> duration \<Rightarrow> gotime \<Rightarrow> int \<Rightarrow> (nat \<Rightarrow> state_manager \<Rightarrow> state_manager) \<Rightarrow> state_manager
     \<Rightarrow> (string option \<times> bool \<times> state_manager) go"
where
  "slide_context sha off now maxMessages between sm =
     (let count = int (length (messages sm));
          sm1 = between 0 sm;
          sm2 = between 1 sm1
      in slide_and_archive sha off now maxMessages count (messages sm1) sm2)"

definition plain_message :: "message \<Rightarrow> bool" where
  "plain_message m \<longleftrightarrow> parts m = [] \<and> utf8_valid (role m) \<and> utf8_valid (content m)"

lemma marshal_plain: "parts m = [] \<Longrightarrow> marshal_message m = marshal_message (text_message (role m) (content m))"
  by (simp add: marshal_message_def text_message_def)

lemma unmarshal_marshal:
  assumes "list_all plain_message ms"
  shows "unmarshal_messages (marshal_messages ms) = Some (map (\<lambda>m. text_message (role m) (content m)) ms)"
proof -
  let ?ps = "map (\<lambda>m. (role m, content m)) ms"
  have "marshal_messages ms = marshal_messages (map (\<lambda>(r, c). text_message r c) ?ps)"
    using assms marshal_plain
    by (auto simp: marshal_messages_def plain_message_def list_all_iff intro!: arg_cong [of _ _ json_array])
  with parse_messages [of ?ps] assms show ?thesis
    by (auto simp: unmarshal_messages_def plain_message_def list_all_iff unmarshal_text Let_def
        simp del: unmarshal_message.simps)
qed

text \<open>
  C20: the snapshot of a conversation survives the round trip through the database: whatever
  messages are stored, the same roles and contents come back in the same order; images and the
  times of the messages do not.
\<close>

theorem snapshot_roundtrip:
  assumes "has_pool sm" and "list_all (\<lambda>m. utf8_valid (role m) \<and> utf8_valid (content m)) (messages sm)"
  shows "messages (load_conversation_snapshot (snapshot_write True (snapshot_read sm) db) sm') =
    (if has_pool sm' then map (\<lambda>m. text_message (role m) (content m)) (messages sm) else messages sm')"
proof -
  let ?s = "strip_vision_parts (messages sm)"
  have "list_all plain_message ?s"
    using assms(2) by (auto simp: strip_vision_parts_def plain_message_def list_all_iff)
  from unmarshal_marshal [OF this]
  have "unmarshal_messages (marshal_messages ?s) = Some (map (\<lambda>m. text_message (role m) (content m)) (messages sm))"
    by (simp add: strip_vision_parts_def)
  with assms(1) show ?thesis
    by (simp add: load_conversation_snapshot_def snapshot_write_def snapshot_read_def)
qed

definition demo_manager :: "message list \<Rightarrow> state_manager" where
  "demo_manager ms = (new_state_manager True True (\<lambda>_. False) \<lparr>prefs_table = Map.empty, snapshot = None\<rparr>)\<lparr>messages := ms\<rparr>"

theorem snapshot_roundtrip_witness:
  "messages (load_conversation_snapshot
       (snapshot_write True (snapshot_read (demo_manager [text_message ''user'' ''hi <b>''])) \<lparr>prefs_table = Map.empty, snapshot = None\<rparr>)
       (demo_manager []))
     = [text_message ''user'' ''hi <b>'']"
  using snapshot_roundtrip [of "demo_manager [text_message ''user'' ''hi <b>'']"
      "\<lparr>prefs_table = Map.empty, snapshot = None\<rparr>" "demo_manager []"]
  by (simp add: demo_manager_def new_state_manager_def text_message_def utf8_valid_ascii byte_in_def byte_of_def)

text \<open>
  C19: whatever other goroutines do to the conversation between the look at it and the slide, a
  slide that goes through removes exactly the messages that were archived (SHA-256 taken as free of
  collisions), keeps the first message and everything after the cut, and changes nothing else.
\<close>

theorem slide_removes_archived:
  assumes "inj sha" and "list_all plain_message snap" and "list_all plain_message (messages sm)"
    and "slide_and_archive sha off now maxMessages count snap sm = Ret (arch, True, sm')"
  shows "\<exists>c. arch = Some (archive_text off now (drop 1 (take c snap))) \<and>
    map (\<lambda>m. (role m, content m)) (drop 1 (take c (messages sm)))
      = map (\<lambda>m. (role m, content m)) (drop 1 (take c snap)) \<and>
    c < length (messages sm) \<and>
    sm' = sm\<lparr>messages := messages sm ! 0 # drop c (messages sm)\<rparr>"
proof -
  from assms(4) obtain c where c: "slide_cutoff snap maxMessages = Ret c"
    by (auto simp: slide_and_archive_def split: if_splits go.splits)
  let ?a = "drop 1 (take (nat c) snap)" and ?r = "drop 1 (take (nat c) (messages sm))"
  from assms(4) c have slide: "slide_messages sha (nat c) (fingerprint sha ?a) sm = (True, sm')"
    and arch: "arch = Some (archive_text off now ?a)"
    by (auto simp: slide_and_archive_def archive_text_def Let_def split: if_splits prod.splits)
  from slide assms(1) have m: "marshal_messages ?r = marshal_messages ?a"
    by (auto simp: slide_messages_def fingerprint_def inj_eq split: if_splits)
  have "list_all plain_message ?a" "list_all plain_message ?r"
    using assms(2,3) by (auto simp: list_all_iff dest: in_set_dropD in_set_takeD)
  from unmarshal_marshal [OF this(1)] unmarshal_marshal [OF this(2)] m
  have "map (\<lambda>m. text_message (role m) (content m)) ?r = map (\<lambda>m. text_message (role m) (content m)) ?a" by simp
  then have "map (\<lambda>m. (role m, content m)) (map (\<lambda>m. text_message (role m) (content m)) ?r)
      = map (\<lambda>m. (role m, content m)) (map (\<lambda>m. text_message (role m) (content m)) ?a)"
    by (rule arg_cong)
  then have "map (\<lambda>m. (role m, content m)) ?r = map (\<lambda>m. (role m, content m)) ?a"
    unfolding map_map o_def by (simp add: text_message_def)
  with slide arch show ?thesis
    by (intro exI [of _ "nat c"]) (auto simp: slide_messages_def split: if_splits)
qed

definition demo_talk :: "message list" where
  "demo_talk = [text_message ''user'' ''one'', text_message ''user'' ''two'', text_message ''user'' ''three'',
     text_message ''user'' ''four'']"

lemma demo_plain: "list_all plain_message demo_talk"
  by (simp add: demo_talk_def plain_message_def text_message_def utf8_valid_ascii byte_in_def byte_of_def)

lemma demo_slide:
  "slide_and_archive (\<lambda>s. s) 0 0 2 4 demo_talk (demo_manager (demo_talk @ [text_message ''user'' ''five''])) =
     Ret (Some (archive_text 0 0 [text_message ''user'' ''two'']), True,
       (demo_manager (demo_talk @ [text_message ''user'' ''five'']))\<lparr>messages :=
          [text_message ''user'' ''one'', text_message ''user'' ''three'', text_message ''user'' ''four'',
           text_message ''user'' ''five'']\<rparr>)"
proof -
  have "slide_cutoff demo_talk 2 = Ret 2"
    by (simp add: slide_cutoff_def demo_talk_def safe_backward.simps at_index_def is_safe_boundary_def
        is_tool_message_def text_message_def slice_range_def Let_def)
  then show ?thesis
    by (simp add: slide_and_archive_def slide_messages_def demo_talk_def demo_manager_def
        new_state_manager_def archive_text_def numeral_2_eq_2)
qed

theorem slide_removes_archived_witness:
  "\<exists>c. c < 5 \<and> archive_text 0 0 [text_message ''user'' ''two''] = archive_text 0 0 (drop 1 (take c demo_talk))"
proof -
  have p: "list_all plain_message (messages (demo_manager (demo_talk @ [text_message ''user'' ''five''])))"
    using demo_plain
    by (simp add: demo_manager_def new_state_manager_def plain_message_def text_message_def utf8_valid_ascii
        byte_in_def byte_of_def)
  have i: "inj (\<lambda>s::string. s)" by (simp add: inj_def)
  have l: "length (messages (demo_manager (demo_talk @ [text_message ''user'' ''five'']))) = 5"
    by (simp add: demo_manager_def new_state_manager_def demo_talk_def)
  from slide_removes_archived [OF i demo_plain p demo_slide] l show ?thesis by auto
qed

text \<open>
  Two slides at once can crash the program. The count and the copy are read in separate
  critical sections; when another slide shortens the conversation in between, the naive cut is
  negative and the search or the slice panics.
\<close>

lemma slide_race_panics:
  assumes "2 < maxMessages" and "maxMessages < count" and "int (length snap) + 1 < maxMessages"
  shows "slide_and_archive sha off now maxMessages count snap sm = Panic"
proof -
  have "safe_backward snap (int (length snap) - maxMessages) = Ret (- 1)"
    using assms by (subst safe_backward.simps) simp
  moreover have "safe_forward snap (int (length snap) - maxMessages + 1) = Panic"
    using assms by (subst safe_forward.simps) (simp add: at_index_def)
  ultimately show ?thesis using assms by (simp add: slide_and_archive_def slide_cutoff_def Let_def)
qed

definition tool_run :: "message list" where
  "tool_run = [text_message ''user'' ''go''] @ replicate 7 (text_message ''tool'' ''x'')
     @ [text_message ''user'' ''ok'', text_message ''user'' ''end'']"

lemma slide_race_panics_witness:
  "\<exists>sm'. slide_and_archive (\<lambda>s. s) 0 0 5 10 tool_run (demo_manager tool_run)
      = Ret (Some (archive_text 0 0 (replicate 7 (text_message ''tool'' ''x''))), True, sm') \<and>
    slide_and_archive (\<lambda>s. s) 0 0 5 10 (messages sm') sm' = Panic"
proof -
  have tr: "tool_run = [text_message ''user'' ''go'', text_message ''tool'' ''x'', text_message ''tool'' ''x'',
      text_message ''tool'' ''x'', text_message ''tool'' ''x'', text_message ''tool'' ''x'',
      text_message ''tool'' ''x'', text_message ''tool'' ''x'', text_message ''user'' ''ok'', text_message ''user'' ''end'']"
    by (simp add: tool_run_def eval_nat_numeral)
  have 1: "slide_cutoff tool_run 5 = Ret 8"
    by (simp add: slide_cutoff_def tr safe_backward.simps safe_forward.simps at_index_def is_safe_boundary_def
        is_tool_message_def text_message_def slice_range_def Let_def)
  let ?sm = "(demo_manager tool_run)\<lparr>messages := [text_message ''user'' ''go'', text_message ''user'' ''ok'', text_message ''user'' ''end'']\<rparr>"
  have 2: "slide_and_archive (\<lambda>s. s) 0 0 5 10 tool_run (demo_manager tool_run)
      = Ret (Some (archive_text 0 0 (replicate 7 (text_message ''tool'' ''x''))), True, ?sm)"
    using 1 by (simp add: slide_and_archive_def slide_messages_def demo_manager_def new_state_manager_def
        archive_text_def tr eval_nat_numeral)
  have "slide_and_archive (\<lambda>s. s) 0 0 5 10 (messages ?sm) ?sm = Panic"
    by (rule slide_race_panics) simp_all
  with 2 show ?thesis by blast
qed

end
