(* ===== verification/LlmOrchestrator.thy ===== *)
theory LlmOrchestrator
  imports Messages Orchestrate
begin

text \<open>
  The orchestrator of a conversation (\<open>llm/orchestrator.go\<close>, \<open>QueryOrchestrator\<close> of
  \<open>llm/client.go\<close>): it builds the system prompt and the messages, runs the tool loop of
  \<open>Orchestrate\<close> over the trimming of \<open>Messages\<close> and returns what the run added. The texts of
  \<open>prompts/\<close>, the HTTP client and the tools are parameters.
\<close>

section \<open>Options and requests\<close>

record tool_agent =
  ta_descriptions :: string
  ta_grammar :: string

record 's query_opts =
  qo_parts :: "content_part list"
  qo_history :: "message list"
  qo_personality :: string
  qo_profile :: string
  qo_temporal :: string
  qo_prefetch :: string
  qo_max_tool_result :: int
  qo_max_web :: int
  qo_tool_agent :: "tool_agent option"
  qo_fallbacks :: "(string \<rightharpoonup> fallback_def) option"
  qo_mandated :: "(string \<rightharpoonup> string) option"
  qo_on_tool_start :: "(string \<Rightarrow> 's \<Rightarrow> 's) option"
  qo_on_tool_end :: "('s \<Rightarrow> string option \<times> 's) option"
  qo_on_tool_exec :: "(string \<Rightarrow> tool_error option \<Rightarrow> 's \<Rightarrow> 's) option"
  qo_enable_thinking :: bool
  qo_first_round_thinking :: bool

record chat_request =
  cr_model :: string
  cr_messages :: "message list"
  cr_max_tokens :: int
  cr_grammar :: string
  cr_reasoning :: string
  cr_thinking :: bool

text \<open>
  What surrounds a call: the prompt texts, \<open>Client.Chat\<close> (an error or the content of the reply),
  the tools, the clock. \<open>None\<close> for the options is Go's nil.
\<close>

record 's orch_env =
  oe_system_base :: string
  oe_tools_text :: string
  oe_chat :: "chat_request \<Rightarrow> 's \<Rightarrow> (string + string) \<times> 's"
  oe_tool :: "(string \<Rightarrow> 's \<Rightarrow> (tool_error + string) \<times> 's) option"
  oe_clock :: "'s \<Rightarrow> gotime"
  oe_zone :: duration

definition orchestrator_max_tokens :: int where "orchestrator_max_tokens = 4096"

section \<open>Prompt and messages\<close>

definition paragraph_break :: string where "paragraph_break = [CHR 0x0A, CHR 0x0A]"

definition build_orchestrator_system_prompt :: "string \<Rightarrow> string \<Rightarrow> string \<Rightarrow> string \<Rightarrow> string" where
  "build_orchestrator_system_prompt base toolDescs profile personality =
     base
     @ (if profile \<noteq> [] then paragraph_break @ ''## Identity Card'' @ [CHR 0x0A] @ profile else [])
     @ (if personality \<noteq> [] then paragraph_break @ personality else [])
     @ paragraph_break @ trim_space toolDescs"

definition orchestrator_system :: "'s orch_env \<Rightarrow> 's query_opts option \<Rightarrow> string" where
  "orchestrator_system env opts =
     (let toolDescs = (case Option.bind opts qo_tool_agent of
                         Some ta \<Rightarrow> if ta_descriptions ta \<noteq> [] then ta_descriptions ta else oe_tools_text env
                       | None \<Rightarrow> oe_tools_text env);
          profile = (case opts of Some q \<Rightarrow> qo_profile q | None \<Rightarrow> []);
          personality = (case opts of Some q \<Rightarrow> qo_personality q | None \<Rightarrow> []);
          maxWeb = (case opts of Some q \<Rightarrow> if qo_max_web q > 0 then itoa (qo_max_web q) else ''2'' | None \<Rightarrow> ''2'');
          sys = replace_first (build_orchestrator_system_prompt (oe_system_base env) toolDescs profile personality)
                  ''%MAX_WEB_SOURCES%'' maxWeb
      in sys
         @ (case opts of Some q \<Rightarrow> if qo_temporal q \<noteq> [] then paragraph_break @ qo_temporal q else [] | None \<Rightarrow> [])
         @ (case opts of Some q \<Rightarrow> if qo_prefetch q \<noteq> [] then paragraph_break @ qo_prefetch q else [] | None \<Rightarrow> []))"

text \<open>The conversions between the two message types; parts and times do not survive them.\<close>

definition from_llm :: "message \<Rightarrow> omessage" where
  "from_llm m = omsg (role m) (content m)"

definition to_llm :: "omessage \<Rightarrow> message" where
  "to_llm m = text_message (om_role m) (om_content m)"

definition history_of :: "'s query_opts option \<Rightarrow> message list" where
  "history_of opts = (case opts of Some q \<Rightarrow> qo_history q | None \<Rightarrow> [])"

definition orchestrator_messages :: "'s orch_env \<Rightarrow> string \<Rightarrow> 's query_opts option \<Rightarrow> omessage list" where
  "orchestrator_messages env prompt opts =
     omsg ''system'' (orchestrator_system env opts) # map from_llm (history_of opts) @ [omsg ''user'' prompt]"

definition history_len :: "'s query_opts option \<Rightarrow> nat" where
  "history_len opts = length (history_of opts) + 1"

section \<open>The call\<close>

text \<open>\<open>chatFn\<close>: the vision parts go to the message at the index of the prompt.\<close>

definition attach_parts :: "'s query_opts option \<Rightarrow> message list \<Rightarrow> message list" where
  "attach_parts opts ms =
     (case opts of
        None \<Rightarrow> ms
      | Some q \<Rightarrow>
          if qo_parts q \<noteq> [] \<and> history_len opts < length ms
          then ms[history_len opts := (ms ! history_len opts)\<lparr>parts := qo_parts q\<rparr>] else ms)"

definition orchestrator_request :: "string \<Rightarrow> 's query_opts option \<Rightarrow> chat_input \<Rightarrow> chat_request" where
  "orchestrator_request mdl opts req =
     \<lparr>cr_model = mdl, cr_messages = attach_parts opts (map to_llm (ci_messages req)),
      cr_max_tokens = ci_max_tokens req, cr_grammar = ci_grammar req,
      cr_reasoning = ci_reasoning req, cr_thinking = ci_thinking req\<rparr>"

definition orchestrator_chat ::
  "'s orch_env \<Rightarrow> string \<Rightarrow> 's query_opts option \<Rightarrow> chat_input \<Rightarrow> 's \<Rightarrow> (string + string) \<times> 's" where
  "orchestrator_chat env mdl opts req s =
     (case oe_chat env (orchestrator_request mdl opts req) s of
        (Inl err, s') \<Rightarrow> (Inl err, s')
      | (Inr c, s') \<Rightarrow> (Inr (trim_space c), s'))"

definition orchestrator_config ::
  "string \<Rightarrow> string \<Rightarrow> (message list \<Rightarrow> message list) option \<Rightarrow> 's query_opts option \<Rightarrow> 's loop_config" where
  "orchestrator_config grammarStr prompt trimFn opts =
     \<lparr>lc_grammar = grammarStr, lc_max_tokens = orchestrator_max_tokens, lc_max_rounds = 0,
      lc_max_tool_result = (case opts of Some q \<Rightarrow> if qo_max_tool_result q > 0 then qo_max_tool_result q else 0 | None \<Rightarrow> 0),
      lc_overflow_hint = [],
      lc_enable_thinking = (case opts of Some q \<Rightarrow> qo_enable_thinking q | None \<Rightarrow> False),
      lc_first_round_thinking = (case opts of Some q \<Rightarrow> qo_first_round_thinking q | None \<Rightarrow> False),
      lc_on_tool_start = Option.bind opts qo_on_tool_start,
      lc_on_tool_end = Option.bind opts qo_on_tool_end,
      lc_on_tool_exec = Option.bind opts qo_on_tool_exec,
      lc_progress = None,
      lc_fallbacks = Option.bind opts qo_fallbacks,
      lc_mandated = Option.bind opts qo_mandated,
      lc_inject_timestamp = True, lc_soft_errors = True,
      lc_trim = map_option (\<lambda>f msgs. map from_llm (f (map to_llm msgs))) trimFn,
      lc_user_goal = prompt\<rparr>"

definition orchestrator_env :: "'s orch_env \<Rightarrow> string \<Rightarrow> 's query_opts option \<Rightarrow> 's loop_env" where
  "orchestrator_env env mdl opts =
     \<lparr>le_chat = orchestrator_chat env mdl opts, le_tool = oe_tool env, le_clock = oe_clock env, le_zone = oe_zone env\<rparr>"

definition run_grammar_orchestrator ::
  "'s orch_env \<Rightarrow> string \<Rightarrow> string \<Rightarrow> string \<Rightarrow> (message list \<Rightarrow> message list) option \<Rightarrow> 's query_opts option \<Rightarrow> 's
     \<Rightarrow> (loop_error + string) \<times> message list \<times> 's" where
  "run_grammar_orchestrator env mdl grammarStr prompt trimFn opts s =
     (let (res, st) = run_loop (orchestrator_config grammarStr prompt trimFn opts) (orchestrator_env env mdl opts)
                        (orchestrator_messages env prompt opts) s;
          new = (if history_len opts < length (ls_messages st)
                 then map to_llm (drop (history_len opts) (ls_messages st)) else [])
      in (res, new, ls_world st))"

definition query_orchestrator ::
  "'s orch_env \<Rightarrow> string \<Rightarrow> string \<Rightarrow> (message list \<Rightarrow> message list) option \<Rightarrow> 's query_opts option \<Rightarrow> 's
     \<Rightarrow> (loop_error + string) \<times> message list \<times> 's" where
  "query_orchestrator env mdl prompt trimFn opts s =
     run_grammar_orchestrator env mdl
       (case Option.bind opts qo_tool_agent of Some ta \<Rightarrow> ta_grammar ta | None \<Rightarrow> []) prompt trimFn opts s"

section \<open>The image of a prompt\<close>

text \<open>\<open>DefaultTrimFn\<close>, which never panics.\<close>

definition default_trim_fn :: "message list \<Rightarrow> message list" where
  "default_trim_fn ms = (case default_trim ms of Ret r \<Rightarrow> r | Panic \<Rightarrow> [])"

lemma default_trim_short: "length ms \<le> 13 \<Longrightarrow> default_trim_fn ms = ms"
  by (simp add: default_trim_fn_def default_trim_def trim_messages_def default_max_tail_def)

lemma default_trim_long:
  assumes "13 < length ms" "\<not> is_tool_message (ms ! (length ms - 12))"
  shows "default_trim_fn ms = ms ! 0 # drop (length ms - 12) ms"
proof -
  obtain c where c: "trim_messages ms 12 = Ret (ms ! 0 # drop c ms)" "int c \<le> int (length ms) - 12"
      "\<And>i. c < i \<Longrightarrow> int i \<le> int (length ms) - 12 \<Longrightarrow> is_tool_message (ms ! i)"
    using trim_messages_cut [of 12 ms] assms(1) by auto
  have "\<not> c < length ms - 12"
    using c(3) [of "length ms - 12"] assms by auto
  with c(2) assms(1) have "c = length ms - 12" by linarith
  with c(1) show ?thesis by (simp add: default_trim_fn_def default_trim_def default_max_tail_def)
qed

text \<open>The request of the first round.\<close>

definition first_request ::
  "'s orch_env \<Rightarrow> string \<Rightarrow> string \<Rightarrow> string \<Rightarrow> (message list \<Rightarrow> message list) option \<Rightarrow> 's query_opts option \<Rightarrow> 's
     \<Rightarrow> chat_request" where
  "first_request env mdl grammarStr prompt trimFn opts s =
     orchestrator_request mdl opts (round_request (orchestrator_config grammarStr prompt trimFn opts)
       (orchestrator_env env mdl opts) 0 (start_state (orchestrator_messages env prompt opts) s))"

lemma to_from_llm [simp]: "to_llm (from_llm m) = text_message (role m) (content m)"
  by (simp add: to_llm_def from_llm_def omsg_def)

lemma from_to_llm [simp]: "from_llm (to_llm m) = m"
  by (simp add: to_llm_def from_llm_def omsg_def text_message_def)

lemma is_tool_message_text [simp]:
  "is_tool_message (text_message (role m) (content m)) = is_tool_message m"
  by (simp add: is_tool_message_def text_message_def)

lemma parts_to_llm [simp]: "parts (to_llm m) = []"
  by (simp add: to_llm_def text_message_def)

lemma length_stamp_system [simp]: "length (stamp_system env s ms) = length ms"
  by (simp add: stamp_system_def split: list.splits)

lemma stamp_system_nth: "0 < i \<Longrightarrow> stamp_system env s ms ! i = ms ! i"
  by (auto simp: stamp_system_def nth_Cons split: list.splits nat.splits)

lemma first_request_messages:
  "cr_messages (first_request env mdl g prompt (Some default_trim_fn) opts s) =
     attach_parts opts (map to_llm (stamp_system (orchestrator_env env mdl opts) s
       (map from_llm (default_trim_fn (map to_llm (orchestrator_messages env prompt opts))))))"
  by (simp add: first_request_def orchestrator_request_def round_request_def orchestrator_config_def
      start_state_def Let_def comp_def split: prod.splits)

lemma length_orchestrator_messages:
  "length (orchestrator_messages env prompt opts) = length (history_of opts) + 2"
  by (simp add: orchestrator_messages_def)

lemma orchestrator_messages_prompt:
  "orchestrator_messages env prompt opts ! (length (history_of opts) + 1) = omsg ''user'' prompt"
  by (simp add: orchestrator_messages_def nth_append)

lemma orchestrator_messages_history:
  assumes "0 < i" "i \<le> length (history_of opts)"
  shows "orchestrator_messages env prompt opts ! i = from_llm (history_of opts ! (i - 1))"
  using assms by (auto simp: orchestrator_messages_def nth_append nth_Cons split: nat.splits)

text \<open>
  An image sent with a prompt reaches the model only in a short conversation. With at most
  eleven messages of history the first request carries the image on the prompt; with twelve or more
  (none of them a tool result) the window is shorter than the index the image is stored at, and the
  request carries no image at all.
\<close>

lemma image_lost_in_long_history:
  assumes "qo_parts q \<noteq> []" and "\<forall>m \<in> set (qo_history q). \<not> is_tool_message m"
    and "ms = cr_messages (first_request env mdl g prompt (Some default_trim_fn) (Some q) s)"
  shows "if length (qo_history q) \<le> 11
     then ms ! (length (qo_history q) + 1) = \<lparr>role = ''user'', content = prompt, parts = qo_parts q, msg_time = 0\<rparr>
     else \<forall>m \<in> set ms. parts m = []"
proof -
  let ?k = "length (qo_history q)" and ?M = "orchestrator_messages env prompt (Some q)"
  have h: "history_of (Some q) = qo_history q" "history_len (Some q) = ?k + 1"
    by (simp_all add: history_of_def history_len_def)
  have len: "length ?M = ?k + 2" using length_orchestrator_messages [of env prompt "Some q"] h by simp
  let ?S = "\<lambda>T. map to_llm (stamp_system (orchestrator_env env mdl (Some q)) s (map from_llm T))"
  have ms: "ms = attach_parts (Some q) (?S (default_trim_fn (map to_llm ?M)))"
    using assms(3) first_request_messages by simp
  show ?thesis
  proof (cases "?k \<le> 11")
    case True
    then have "default_trim_fn (map to_llm ?M) = map to_llm ?M" using len by (intro default_trim_short) simp
    then have ms': "ms = attach_parts (Some q) (?S (map to_llm ?M))" using ms by simp
    have "?S (map to_llm ?M) ! (?k + 1) = to_llm (?M ! (?k + 1))"
      using len by (simp add: stamp_system_nth comp_def)
    then have "?S (map to_llm ?M) ! (?k + 1) = text_message ''user'' prompt"
      using orchestrator_messages_prompt [of env prompt "Some q"] h by (simp add: to_llm_def omsg_def)
    then show ?thesis
      using True assms(1) len h unfolding ms' attach_parts_def by (simp add: text_message_def)
  next
    case False
    let ?i = "length (map to_llm ?M) - 12"
    have "\<not> is_tool_message (map to_llm ?M ! ?i)"
      using False len h assms(2) orchestrator_messages_history [of ?i "Some q" env prompt] by auto
    then have "default_trim_fn (map to_llm ?M) = map to_llm ?M ! 0 # drop ?i (map to_llm ?M)"
      using False len by (intro default_trim_long) auto
    then have "length (default_trim_fn (map to_llm ?M)) = 13" using False len by simp
    then have "ms = ?S (default_trim_fn (map to_llm ?M))"
      using False h ms by (simp add: attach_parts_def)
    then show ?thesis using False by auto
  qed
qed

definition demo_orch_env :: "unit orch_env" where
  "demo_orch_env = \<lparr>oe_system_base = ''You are'', oe_tools_text = [], oe_chat = (\<lambda>r s. (Inl ''down'', s)),
     oe_tool = None, oe_clock = (\<lambda>_. 0), oe_zone = 0\<rparr>"

definition demo_opts :: "nat \<Rightarrow> unit query_opts" where
  "demo_opts n = \<lparr>qo_parts = [\<lparr>part_type = ''image_url'', part_text = [], part_image = Some ''data:''\<rparr>],
     qo_history = replicate n (text_message ''user'' ''hi''), qo_personality = [], qo_profile = [],
     qo_temporal = [], qo_prefetch = [], qo_max_tool_result = 0, qo_max_web = 0, qo_tool_agent = None,
     qo_fallbacks = None, qo_mandated = None, qo_on_tool_start = None, qo_on_tool_end = None,
     qo_on_tool_exec = None, qo_enable_thinking = False, qo_first_round_thinking = False\<rparr>"

lemma image_lost_in_long_history_witness:
  "list_all (\<lambda>m. parts m = []) (cr_messages (first_request demo_orch_env [] [] ''What is this?'' (Some default_trim_fn)
     (Some (demo_opts 12)) ()))"
proof -
  have "qo_parts (demo_opts 12) \<noteq> []" "length (qo_history (demo_opts 12)) = 12"
    "\<forall>m \<in> set (qo_history (demo_opts 12)). \<not> is_tool_message m"
    by (auto simp: demo_opts_def is_tool_message_def text_message_def)
  then show ?thesis
    using image_lost_in_long_history [OF _ _ refl, of "demo_opts 12" demo_orch_env "[]" "[]" "''What is this?''" "()"]
    by (simp add: list_all_iff)
qed

section \<open>What a query returns\<close>

text \<open>
  Whatever the model, the tools and the trimming do, a query returns as its new messages the
  prompt followed by what the tool loop added, an orderly dialogue, and nothing of the history.
\<close>

lemma query_returns_new_dialogue:
  "\<exists>xs. fst (snd (query_orchestrator env mdl prompt trimFn opts s)) = text_message ''user'' prompt # map to_llm xs \<and>
     (if ends_open (fst (query_orchestrator env mdl prompt trimFn opts s))
      then (\<exists>ys a. xs = ys @ [a] \<and> exchanges ys \<and> om_role a = ''assistant'') else exchanges xs)"
proof -
  let ?g = "case Option.bind opts qo_tool_agent of Some ta \<Rightarrow> ta_grammar ta | None \<Rightarrow> []"
  let ?cfg = "orchestrator_config ?g prompt trimFn opts" and ?env = "orchestrator_env env mdl opts"
  let ?M = "orchestrator_messages env prompt opts"
  obtain res st where r: "run_loop ?cfg ?env ?M s = (res, st)" by (rule prod.exhaust)
  obtain xs where "run_adds xs (start_state ?M s) (res, st)"
    using loop_rounds_adds [of "start_state ?M s" ?cfg ?env 0 "max_rounds_of ?cfg"] r
    unfolding run_loop_def by metis
  then have a: "ls_messages st = ?M @ xs"
    and e: "if ends_open res then (\<exists>ys a. xs = ys @ [a] \<and> exchanges ys \<and> om_role a = ''assistant'') else exchanges xs"
    by (simp_all add: run_adds_def start_state_def)
  have d: "drop (history_len opts) ?M = [omsg ''user'' prompt]" "history_len opts < length ?M"
    by (simp_all add: history_len_def orchestrator_messages_def)
  have "query_orchestrator env mdl prompt trimFn opts s = (res, map to_llm (omsg ''user'' prompt # xs), ls_world st)"
    using d by (simp add: query_orchestrator_def run_grammar_orchestrator_def r a Let_def)
  with e show ?thesis by (auto simp: to_llm_def omsg_def)
qed

section \<open>Tool failures in the window\<close>

text \<open>The contents the loop answers a failed call with, soft errors apart.\<close>

definition failure_answer :: "string \<Rightarrow> bool" where
  "failure_answer c \<longleftrightarrow> has_prefix c ''Tool error ('' \<or> has_prefix c ''Tool result [auto-fallback]: ''"

lemma failure_not_tool_message:
  "failure_answer c \<Longrightarrow> \<not> is_tool_message (to_llm (omsg ''user'' c)) \<and> is_safe_boundary (to_llm (omsg ''user'' c))"
  by (auto simp: failure_answer_def has_prefix_iff is_tool_message_def is_safe_boundary_def to_llm_def
      omsg_def text_message_def)

lemma omsg_inject [simp]: "omsg r c = omsg r' c' \<longleftrightarrow> r = r' \<and> c = c'"
  by (simp add: omsg_def)

lemma report_failure_answer:
  "\<exists>c. last (ls_messages (report_failure cfg dec (Inl e) st)) = omsg ''user'' c \<and> failure_answer c"
  by (simp add: report_failure_def add_msg_def Let_def failure_answer_def)

lemma run_fallback_answer:
  "\<exists>c. last (ls_messages (run_fallback cfg exec fb dec msg st)) = omsg ''user'' c \<and> failure_answer c"
  by (simp add: run_fallback_def add_msg_def Let_def failure_answer_def split: sum.splits prod.splits)

text \<open>
  The answers to failed tool calls are not recognised as tool messages. The loop answers a hard
  error with a text that begins "Tool error (" and a fallback with one that begins "Tool result [";
  the trimming looks for "Tool error:" and "Tool result:" only. So such an answer counts as a safe
  boundary, and a window whose tail would start at it starts there: the model sees the answer
  without the call.
\<close>

lemma failed_calls_split_by_trim:
  assumes "ms' = ls_messages (report_failure cfg dec (Inl e) st) \<or>
      ms' = ls_messages (run_fallback cfg exec fb dec msg st)"
  shows "\<not> is_tool_message (to_llm (last ms')) \<and> is_safe_boundary (to_llm (last ms')) \<and>
    (\<forall>ms. 13 < length ms \<and> ms ! (length ms - 12) = to_llm (last ms') \<longrightarrow>
       default_trim ms = Ret (ms ! 0 # to_llm (last ms') # drop (length ms - 11) ms))"
proof -
  have "\<exists>c. last ms' = omsg ''user'' c \<and> failure_answer c"
    using assms report_failure_answer run_fallback_answer by metis
  then have nt: "\<not> is_tool_message (to_llm (last ms'))" "is_safe_boundary (to_llm (last ms'))"
    using failure_not_tool_message by metis+
  have "default_trim ms = Ret (ms ! 0 # to_llm (last ms') # drop (length ms - 11) ms)"
    if "13 < length ms" "ms ! (length ms - 12) = to_llm (last ms')" for ms
  proof -
    have "default_trim_fn ms = ms ! 0 # drop (length ms - 12) ms"
      using that nt by (intro default_trim_long) auto
    moreover have "drop (length ms - 12) ms = ms ! (length ms - 12) # drop (Suc (length ms - 12)) ms"
      using that by (intro Cons_nth_drop_Suc [symmetric]) auto
    moreover have "Suc (length ms - 12) = length ms - 11" using that by simp
    ultimately show ?thesis using that
      by (cases "default_trim ms") (simp_all add: default_trim_fn_def)
  qed
  with nt show ?thesis by blast
qed

lemma failed_calls_split_by_trim_witness:
  "is_safe_boundary (to_llm (last (ls_messages
     (report_failure demo_loop_config empty_decision (Inl (ToolFailed ''timeout'')) (start_state [] ())))))"
  using failed_calls_split_by_trim [OF disjI1 [OF refl], of demo_loop_config empty_decision
      "ToolFailed ''timeout''" "start_state [] ()"] by blast

end
