(* ===== verification/Jobs.thy ===== *)
theory Jobs
  imports LlmOrchestrator Registry
begin

text \<open>
  Background jobs: the jobs of the state manager (\<open>engine/background_jobs.go\<close>), the tools that talk
  to them (\<open>tools/background_jobs.go\<close>), the start of a job in \<open>processMessage\<close> (\<open>message_loop.go\<close>)
  and the goroutine of a job (\<open>dispatch.go\<close>), cut where it waits: for the model and for the user.
\<close>

section \<open>Jobs\<close>

text \<open>
  The channel of a job holds at most one message. A cancel function is named by the round whose
  context it ends; \<open>jb_ended\<close> holds the contexts that were ended from outside.
\<close>

record job =
  jb_id :: string
  jb_tool :: string
  jb_task_type :: string
  jb_goal :: string
  jb_channel :: string
  jb_input :: "string option"
  jb_closed :: bool
  jb_active :: bool
  jb_question :: string
  jb_succeeded :: bool
  jb_inflight :: "nat option"
  jb_ended :: "nat set"
  jb_created :: gotime

definition set_active :: "bool \<Rightarrow> nat option \<Rightarrow> job \<Rightarrow> job" where
  "set_active act c j = j\<lparr>jb_active := act, jb_inflight := c\<rparr>"

definition set_last_question :: "string \<Rightarrow> job \<Rightarrow> job" where
  "set_last_question q j = j\<lparr>jb_question := q\<rparr>"

definition set_tool_succeeded :: "bool \<Rightarrow> job \<Rightarrow> job" where
  "set_tool_succeeded v j = j\<lparr>jb_succeeded := v\<rparr>"

definition job_snapshot :: "job \<Rightarrow> bool \<times> string \<times> bool" where
  "job_snapshot j = (jb_active j, jb_question j, jb_succeeded j)"

definition job_cancel :: "job \<Rightarrow> job" where
  "job_cancel j =
     j\<lparr>jb_ended := (case jb_inflight j of None \<Rightarrow> jb_ended j | Some c \<Rightarrow> insert c (jb_ended j)), jb_closed := True\<rparr>"

text \<open>The jobs by reference, and the table by identifier.\<close>

record job_store =
  js_jobs :: "nat \<rightharpoonup> job"
  js_next :: nat
  js_ids :: "string \<rightharpoonup> nat"

definition hex_encode :: "string \<Rightarrow> string" where
  "hex_encode bs = concat (map (\<lambda>c. [hex_char (byte_of c div 16), hex_char (byte_of c mod 16)]) bs)"

text \<open>\<open>bytes\<close> are the three random bytes, \<open>None\<close> when the source of randomness fails.\<close>

definition create_job ::
  "string option \<Rightarrow> gotime \<Rightarrow> string \<Rightarrow> string \<Rightarrow> string \<Rightarrow> job_store \<Rightarrow> nat \<times> job_store" where
  "create_job bytes now tool goal channel st =
     (let i = hex_encode (case bytes of Some b \<Rightarrow> b | None \<Rightarrow> [CHR 0x42, CHR 0x42, CHR 0x42]); r = js_next st
      in (r, st\<lparr>js_jobs := (js_jobs st)(r \<mapsto>
               \<lparr>jb_id = i, jb_tool = tool, jb_task_type = [], jb_goal = goal, jb_channel = channel, jb_input = None,
                jb_closed = False, jb_active = False, jb_question = [], jb_succeeded = False, jb_inflight = None,
                jb_ended = {}, jb_created = now\<rparr>),
               js_next := r + 1, js_ids := (js_ids st)(i \<mapsto> r)\<rparr>))"

definition get_job :: "string \<Rightarrow> job_store \<Rightarrow> nat option" where
  "get_job i st = js_ids st i"

text \<open>\<open>GetJobs\<close>; \<open>order\<close> are the identifiers in the order in which Go walks the map.\<close>

definition get_jobs :: "string list \<Rightarrow> job_store \<Rightarrow> job list" where
  "get_jobs order st = List.map_filter (\<lambda>i. Option.bind (js_ids st i) (js_jobs st)) order"

definition remove_job :: "string \<Rightarrow> job_store \<Rightarrow> job_store" where
  "remove_job i st = st\<lparr>js_ids := (js_ids st)(i := None)\<rparr>"

definition with_job :: "nat \<Rightarrow> (job \<Rightarrow> job) \<Rightarrow> job_store \<Rightarrow> job_store" where
  "with_job r f st = (case js_jobs st r of None \<Rightarrow> st | Some j \<Rightarrow> st\<lparr>js_jobs := (js_jobs st)(r \<mapsto> f j)\<rparr>)"

section \<open>The tools reply_to_job and cancel_job\<close>

definition no_such_job :: "string \<Rightarrow> string" where
  "no_such_job i = ''No active background job with ID '' @ go_quote i @ ''.''"

text \<open>To send on a closed channel panics, also in a \<open>select\<close> with a default.\<close>

definition reply_to_job :: "string option \<Rightarrow> job_store \<Rightarrow> (string \<times> job_store) go" where
  "reply_to_job args st =
     (case struct_members args of
        None \<Rightarrow> Ret (''invalid arguments'', st)
      | Some ms \<Rightarrow>
          (let names = [''job_id'', ''message''];
               (i, e1) = arg_string names ''job_id'' ms;
               (m, e2) = arg_string names ''message'' ms
           in if e1 \<or> e2 then Ret (''invalid arguments'', st)
              else if i = [] \<or> m = [] then Ret (''Both job_id and message are required.'', st)
              else (case Option.bind (get_job i st) (\<lambda>r. map_option (Pair r) (js_jobs st r)) of
                  None \<Rightarrow> Ret (no_such_job i, st)
                | Some (r, j) \<Rightarrow>
                    if jb_closed j then Panic
                    else if jb_input j = None
                    then Ret (''Message delivered to background job.'', with_job r (\<lambda>j. j\<lparr>jb_input := Some m\<rparr>) st)
                    else Ret (''The background job hasn'' @ [CHR 0x27]
                           @ ''t processed the previous message yet. Try again shortly.'', st))))"

definition cancel_job :: "string option \<Rightarrow> job_store \<Rightarrow> string \<times> job_store" where
  "cancel_job args st =
     (case struct_members args of
        None \<Rightarrow> (''invalid arguments'', st)
      | Some ms \<Rightarrow>
          (let (i, e) = arg_string [''job_id''] ''job_id'' ms
           in if e then (''invalid arguments'', st)
              else if i = [] then (''job_id is required.'', st)
              else (case get_job i st of
                  None \<Rightarrow> (no_such_job i, st)
                | Some r \<Rightarrow> (''Job cancelled.'', with_job r job_cancel st))))"

section \<open>What the orchestrator is told\<close>

definition job_line :: "job \<Rightarrow> string" where
  "job_line j =
     (let (act, q, ok) = job_snapshot j;
          st = (if \<not> act \<and> q \<noteq> [] then ''waiting for input'' else ''working'')
      in ''- Job '' @ jb_id j @ '': tool='' @ jb_tool j @ '', goal='' @ go_quote (truncate_str (jb_goal j) 100)
         @ '', status='' @ st
         @ (if q \<noteq> [] then '', last_question='' @ go_quote (truncate_str q 150) else []) @ [CHR 0x0A])"

definition build_job_context :: "job list \<Rightarrow> string" where
  "build_job_context js =
     (if js = [] then []
      else ''[Active Background Jobs]'' @ [CHR 0x0A]
        @ ''Background Brain jobs are running. If the user'' @ [CHR 0x27]
        @ ''s message relates to one, call reply_to_job or cancel_job.'' @ paragraph_break
        @ concat (map job_line js))"

section \<open>The session of a job\<close>

text \<open>The prompts of \<open>prompts/\<close>.\<close>

record session_texts =
  sx_create_skill :: string
  sx_send_email :: string
  sx_reason :: string

definition session_prompt :: "session_texts \<Rightarrow> string \<Rightarrow> string" where
  "session_prompt tx taskType =
     (let p = (if taskType = ''create_skill'' then sx_create_skill tx
               else if taskType = ''send_email'' then sx_send_email tx else [])
      in if p = [] then sx_reason tx else p)"

definition session_ack :: "string \<Rightarrow> string" where
  "session_ack tool =
     (if tool = ''create_skill'' then
        ''I'' @ [CHR 0x27] @ ''ll work on creating that skill in the background. You can keep chatting'' @ em_dash
        @ ''I'' @ [CHR 0x27] @ ''ll let you know when it'' @ [CHR 0x27] @ ''s ready or if I have questions.''
      else if tool = ''send_email'' then
        ''I'' @ [CHR 0x27] @ ''ll draft that email in the background. You can keep chatting'' @ em_dash
        @ ''I'' @ [CHR 0x27] @ ''ll send it your way for review shortly.''
      else ''Working on that in the background...'')"

definition mandated_brain_tools :: "string \<rightharpoonup> string" where
  "mandated_brain_tools = [''create_skill'' \<mapsto> ''create_skill'', ''update_skill'' \<mapsto> ''create_skill'']"

text \<open>\<open>sessionToolExec\<close>; the flag of the world is \<open>toolSucceeded\<close>.\<close>

definition called_name :: "string \<Rightarrow> string" where
  "called_name raw = (case struct_members (Some raw) of None \<Rightarrow> [] | Some ms \<Rightarrow> fst (arg_string [''name''] ''name'' ms))"

definition session_exec ::
  "string \<Rightarrow> (string \<Rightarrow> 's \<Rightarrow> (tool_error + string) \<times> 's) \<Rightarrow> string \<Rightarrow> 's \<times> bool
     \<Rightarrow> (tool_error + string) \<times> 's \<times> bool" where
  "session_exec tool confirm raw = (\<lambda>(s, f).
     (if called_name raw = ''deep_think''
      then (Inr (''You ARE the deep thinker. Call the tools directly (create_skill, search_web, etc.) ''
                 @ ''instead of deep_think.''), s, f)
      else (let (res, s') = confirm raw s
            in (res, s', f \<or> (case res of Inl e \<Rightarrow> False
                               | Inr r \<Rightarrow> called_name raw = tool \<and> \<not> is_tool_soft_error r)))))"

definition session_env :: "string \<Rightarrow> 's orch_env \<Rightarrow> ('s \<times> bool) orch_env" where
  "session_env tool env =
     \<lparr>oe_system_base = oe_system_base env, oe_tools_text = oe_tools_text env,
      oe_chat = (\<lambda>r (s, f). (let (x, s') = oe_chat env r s in (x, s', f))),
      oe_tool = map_option (session_exec tool) (oe_tool env),
      oe_clock = (\<lambda>(s, f). oe_clock env s), oe_zone = oe_zone env\<rparr>"

definition session_opts :: "tool_agent option \<Rightarrow> message list \<Rightarrow> ('s \<times> bool) query_opts" where
  "session_opts ta history =
     \<lparr>qo_parts = [], qo_history = history, qo_personality = [], qo_profile = [], qo_temporal = [], qo_prefetch = [],
      qo_max_tool_result = 0, qo_max_web = 0, qo_tool_agent = ta, qo_fallbacks = None, qo_mandated = None,
      qo_on_tool_start = None, qo_on_tool_end = None, qo_on_tool_exec = None,
      qo_enable_thinking = True, qo_first_round_thinking = False\<rparr>"

definition session_query ::
  "'s orch_env \<Rightarrow> string \<Rightarrow> string \<Rightarrow> tool_agent option \<Rightarrow> message list \<Rightarrow> 's
     \<Rightarrow> (loop_error + string) \<times> message list \<times> 's \<times> bool" where
  "session_query env mdl tool ta ms s =
     query_orchestrator (session_env tool env) mdl (content (last ms)) None
       (Some (session_opts ta (butlast ms))) (s, False)"

definition max_session_rounds :: nat where "max_session_rounds = 20"

text \<open>
  The goroutine is about to begin a round, waits for the model, waits for the user, or has ended. How
  it ended is recorded.
\<close>

datatype session_end = Completed | Cancelled | Broken | Exhausted

datatype session_phase = Beginning | Thinking | Parked | Ended session_end

record session =
  se_phase :: session_phase
  se_rounds :: nat
  se_messages :: "message list"

record job_system =
  jy_store :: job_store
  jy_sessions :: "nat \<rightharpoonup> session"
  jy_state :: state_manager
  jy_sent :: "(string \<times> string) list"

definition jy_send :: "string \<Rightarrow> string \<Rightarrow> job_system \<Rightarrow> job_system" where
  "jy_send channel t y = y\<lparr>jy_sent := jy_sent y @ [(channel, t)]\<rparr>"

definition jy_job :: "nat \<Rightarrow> (job \<Rightarrow> job) \<Rightarrow> job_system \<Rightarrow> job_system" where
  "jy_job r f y = y\<lparr>jy_store := with_job r f (jy_store y)\<rparr>"

definition jy_session :: "nat \<Rightarrow> session \<Rightarrow> job_system \<Rightarrow> job_system" where
  "jy_session r se y = y\<lparr>jy_sessions := (jy_sessions y)(r \<mapsto> se)\<rparr>"

text \<open>The end of the goroutine: a last message, and the deferred \<open>RemoveJob\<close>.\<close>

definition end_session :: "nat \<Rightarrow> job \<Rightarrow> session \<Rightarrow> session_end \<Rightarrow> string \<Rightarrow> job_system \<Rightarrow> job_system" where
  "end_session r j se how t y =
     (let y1 = jy_session r (se\<lparr>se_phase := Ended how\<rparr>) (jy_send (jb_channel j) t y)
      in y1\<lparr>jy_store := remove_job (jb_id j) (jy_store y1)\<rparr>)"

text \<open>The part of \<open>processMessage\<close> that starts a job.\<close>

definition spawn_job ::
  "session_texts \<Rightarrow> string option \<Rightarrow> gotime \<Rightarrow> string \<Rightarrow> string \<Rightarrow> background_job_request \<Rightarrow> job_system \<Rightarrow> job_system" where
  "spawn_job tx bytes now channel msgText bjr y =
     (let goal = (if bj_problem bjr \<noteq> [] then bj_problem bjr else bj_user_goal bjr);
          (r, store) = create_job bytes now (bj_tool bjr) goal channel (jy_store y);
          store' = with_job r (\<lambda>j. j\<lparr>jb_task_type := bj_task_type bjr\<rparr>) store;
          ack = session_ack (bj_tool bjr);
          sm = append_message now (text_message ''assistant'' ack)
                 (append_message now (text_message ''user'' msgText) (jy_state y));
          prompt = session_prompt tx (bj_task_type bjr) @ paragraph_break @ goal
      in jy_session r \<lparr>se_phase = Beginning, se_rounds = 0, se_messages = [text_message ''user'' prompt]\<rparr>
           (jy_send channel ack (y\<lparr>jy_store := store', jy_state := sm\<rparr>)))"

definition begin_round :: "nat \<Rightarrow> job \<Rightarrow> session \<Rightarrow> job_system \<Rightarrow> job_system" where
  "begin_round r j se y =
     (if se_rounds se = max_session_rounds
      then end_session r j se Exhausted ''Background job reached maximum rounds without completing.'' y
      else jy_session r (se\<lparr>se_phase := Thinking, se_rounds := se_rounds se + 1\<rparr>)
             (jy_job r (set_active True (Some (se_rounds se))) y))"

text \<open>The answer of the model; \<open>err\<close> renders the error of the loop.\<close>

definition end_round ::
  "(loop_error \<Rightarrow> string) \<Rightarrow> 's orch_env \<Rightarrow> string \<Rightarrow> tool_agent option \<Rightarrow> gotime \<Rightarrow> 's \<Rightarrow> nat \<Rightarrow> job \<Rightarrow> session
     \<Rightarrow> job_system \<Rightarrow> job_system" where
  "end_round err env mdl ta now s r j0 se y =
     (let (res, new, s', ok) = session_query env mdl (jb_tool j0) ta (se_messages se) s;
          j = set_active False None (if ok then set_tool_succeeded True j0 else j0);
          y1 = jy_job r (\<lambda>_. j) y
      in case res of
           Inl e \<Rightarrow>
             if se_rounds se - 1 \<in> jb_ended j then end_session r j se Cancelled ''Background job cancelled.'' y1
             else end_session r j se Broken (''Background job error: '' @ err e) y1
         | Inr reply \<Rightarrow>
             (let se' = se\<lparr>se_messages := se_messages se @ new\<rparr> in
              if jb_succeeded j then
                end_session r j se' Completed reply
                  (y1\<lparr>jy_state := append_message now (text_message ''assistant''
                      (''[Background '' @ jb_tool j @ '' completed: '' @ truncate_str reply 200 @ '']'')) (jy_state y1)\<rparr>)
              else jy_job r (set_last_question reply)
                     (jy_session r (se'\<lparr>se_phase := Parked\<rparr>) (jy_send (jb_channel j) reply y1))))"

text \<open>The receive: a message that is in the channel comes out even when it is closed. \<open>None\<close>: the goroutine waits on.\<close>

definition receive_input :: "nat \<Rightarrow> job \<Rightarrow> session \<Rightarrow> job_system \<Rightarrow> job_system option" where
  "receive_input r j se y =
     (case jb_input j of
        Some m \<Rightarrow>
          Some (jy_session r (se\<lparr>se_phase := Beginning, se_messages := se_messages se @ [text_message ''user'' m]\<rparr>)
            (jy_job r (\<lambda>j. set_last_question [] (j\<lparr>jb_input := None\<rparr>)) y))
      | None \<Rightarrow>
          if jb_closed j then Some (end_session r j se Cancelled ''Background job cancelled.'' y) else None)"

end
