(* ===== verification/JobSystem.thy ===== *)
theory JobSystem
  imports Jobs
begin

text \<open>
  Background jobs under concurrency: any number of jobs, their goroutines, and the tools that
  reply to a job and cancel it, in any order. The models and tools the sessions meet are the set
  \<open>envs\<close>; each round may meet another one.
\<close>

inductive job_step :: "'s orch_env set \<Rightarrow> job_system \<Rightarrow> job_system \<Rightarrow> bool" for envs where
  spawn: "job_step envs y (spawn_job tx bytes now channel t bjr y)"
| begins: "js_jobs (jy_store y) r = Some j \<Longrightarrow> jy_sessions y r = Some se \<Longrightarrow> se_phase se = Beginning
    \<Longrightarrow> job_step envs y (begin_round r j se y)"
| answers: "js_jobs (jy_store y) r = Some j \<Longrightarrow> jy_sessions y r = Some se \<Longrightarrow> se_phase se = Thinking \<Longrightarrow> env \<in> envs
    \<Longrightarrow> job_step envs y (end_round err env mdl ta now s r j se y)"
| receives: "js_jobs (jy_store y) r = Some j \<Longrightarrow> jy_sessions y r = Some se \<Longrightarrow> se_phase se = Parked
    \<Longrightarrow> receive_input r j se y = Some y' \<Longrightarrow> job_step envs y y'"
| reply: "reply_to_job args (jy_store y) = Ret (t, store) \<Longrightarrow> job_step envs y (y\<lparr>jy_store := store\<rparr>)"
| cancel: "job_step envs y (y\<lparr>jy_store := snd (cancel_job args (jy_store y))\<rparr>)"

definition no_jobs :: "job_system \<Rightarrow> bool" where
  "no_jobs y \<longleftrightarrow> js_jobs (jy_store y) = Map.empty \<and> jy_sessions y = Map.empty \<and> js_ids (jy_store y) = Map.empty"

inductive job_reach :: "'s orch_env set \<Rightarrow> job_system \<Rightarrow> bool" for envs where
  start: "no_jobs y \<Longrightarrow> job_reach envs y"
| step: "job_reach envs y \<Longrightarrow> job_step envs y y' \<Longrightarrow> job_reach envs y'"

section \<open>What each operation touches\<close>

lemma with_job_simps [simp]:
  "js_ids (with_job r f st) = js_ids st" "js_next (with_job r f st) = js_next st"
  "js_jobs st r = Some j \<Longrightarrow> js_jobs (with_job r f st) = (js_jobs st)(r \<mapsto> f j)"
  by (auto simp: with_job_def split: option.splits)

lemma jy_simps [simp]:
  "jy_store (jy_send c t y) = jy_store y" "jy_sessions (jy_send c t y) = jy_sessions y"
  "jy_store (jy_job r f y) = with_job r f (jy_store y)" "jy_sessions (jy_job r f y) = jy_sessions y"
  "jy_store (jy_session r se y) = jy_store y" "jy_sessions (jy_session r se y) = (jy_sessions y)(r \<mapsto> se)"
  by (simp_all add: jy_send_def jy_job_def jy_session_def)

lemma end_session_simps [simp]:
  "js_jobs (jy_store (end_session r j se how t y)) = js_jobs (jy_store y)"
  "js_next (jy_store (end_session r j se how t y)) = js_next (jy_store y)"
  "js_ids (jy_store (end_session r j se how t y)) = (js_ids (jy_store y))(jb_id j := None)"
  "jy_sessions (end_session r j se how t y) = (jy_sessions y)(r \<mapsto> se\<lparr>se_phase := Ended how\<rparr>)"
  by (simp_all add: end_session_def remove_job_def Let_def)

section \<open>The flag of a session\<close>

text \<open>A query keeps what the model and the tools keep; in a session the flag is part of the world.\<close>

lemma query_keeps:
  assumes "\<And>r s. P s \<Longrightarrow> P (snd (oe_chat env r s))"
    and "\<And>f raw s. oe_tool env = Some f \<Longrightarrow> P s \<Longrightarrow> P (snd (f raw s))"
    and "Option.bind opts qo_on_tool_start = None" "Option.bind opts qo_on_tool_end = None"
      "Option.bind opts qo_on_tool_exec = None" "P s"
  shows "P (snd (snd (query_orchestrator env mdl prompt trimFn opts s)))"
proof -
  let ?cfg = "\<lambda>g. orchestrator_config g prompt trimFn opts"
  have "keeps P (?cfg g) (orchestrator_env env mdl opts)" for g
    using assms(1,2)
    by (auto simp: keeps_def orchestrator_config_def orchestrator_env_def orchestrator_chat_def assms(3-5)
        split: prod.splits sum.splits) (metis snd_conv)+
  then show ?thesis
    using loop_rounds_keeps [OF _ , of P _ "orchestrator_env env mdl opts" "start_state (orchestrator_messages env prompt opts) s"]
      assms(6)
    by (auto simp: query_orchestrator_def run_grammar_orchestrator_def run_loop_def start_state_def Let_def
        split: prod.splits option.splits) (metis snd_conv)+
qed

lemma deep_think_never_succeeds:
  "\<not> snd (snd (snd (session_query env mdl ''deep_think'' ta ms s)))"
  unfolding session_query_def
proof (rule query_keeps [where P = "\<lambda>w. \<not> snd w"])
  fix f raw and w :: "'a \<times> bool"
  assume "oe_tool (session_env ''deep_think'' env) = Some f" "\<not> snd w"
  then show "\<not> snd (snd (f raw w))"
    by (cases w) (auto simp: session_env_def session_exec_def Let_def split: prod.splits sum.splits if_splits)
qed (auto simp: session_env_def session_opts_def Let_def split: prod.splits)

lemma session_query_new:
  "\<exists>xs. fst (snd (session_query env mdl tool ta ms s)) = text_message ''user'' (content (last ms)) # map to_llm xs \<and>
     (case fst (session_query env mdl tool ta ms s) of
        Inr t \<Rightarrow> \<exists>ys a. xs = ys @ [a] \<and> exchanges ys \<and> om_role a = ''assistant'' | Inl e \<Rightarrow> True)"
  using query_returns_new_dialogue [of "session_env tool env" mdl "content (last ms)" None
      "Some (session_opts ta (butlast ms))" "(s, False)"]
  by (auto simp: session_query_def ends_open_def split: sum.splits loop_error.splits)

section \<open>The invariant\<close>

text \<open>
  The dialogue of a session: what it was asked in each round, twice, and what the round added, the
  last a message of the model.
\<close>

definition dialogue_of :: "(string \<times> omessage list) list \<Rightarrow> message list" where
  "dialogue_of ds = concat (map (\<lambda>(u, xs). [text_message ''user'' u, text_message ''user'' u] @ map to_llm xs) ds)"

definition answered :: "string \<times> omessage list \<Rightarrow> bool" where
  "answered d \<longleftrightarrow> (\<exists>ys a. snd d = ys @ [a] \<and> exchanges ys \<and> om_role a = ''assistant'')"

definition asked :: "nat \<Rightarrow> message list \<Rightarrow> bool" where
  "asked n ms \<longleftrightarrow> (\<exists>ds u. ms = dialogue_of ds @ [text_message ''user'' u] \<and> length ds = n \<and> list_all answered ds)"

definition answered_all :: "nat \<Rightarrow> message list \<Rightarrow> bool" where
  "answered_all n ms \<longleftrightarrow> (\<exists>ds. ms = dialogue_of ds \<and> length ds = n \<and> list_all answered ds)"

definition ended :: "session \<Rightarrow> bool" where
  "ended se \<longleftrightarrow> (\<exists>how. se_phase se = Ended how)"

fun phase_ok :: "session_phase \<Rightarrow> nat \<Rightarrow> message list \<Rightarrow> job \<Rightarrow> bool" where
  "phase_ok Beginning n ms j \<longleftrightarrow> \<not> jb_succeeded j \<and> \<not> jb_active j \<and> jb_inflight j = None \<and> asked n ms"
| "phase_ok Thinking n ms j \<longleftrightarrow> \<not> jb_succeeded j \<and> jb_active j \<and> 0 < n \<and> jb_inflight j = Some (n - 1) \<and> asked (n - 1) ms"
| "phase_ok Parked n ms j \<longleftrightarrow> \<not> jb_succeeded j \<and> \<not> jb_active j \<and> jb_inflight j = None \<and> answered_all n ms"
| "phase_ok (Ended how) n ms j \<longleftrightarrow> \<not> jb_active j \<and> jb_inflight j = None \<and> (how = Completed \<longrightarrow> jb_succeeded j)"

definition session_ok :: "job \<Rightarrow> session \<Rightarrow> bool" where
  "session_ok j se \<longleftrightarrow>
     se_rounds se \<le> max_session_rounds \<and> (jb_tool j = ''deep_think'' \<longrightarrow> \<not> jb_succeeded j)
     \<and> phase_ok (se_phase se) (se_rounds se) (se_messages se) j"

definition job_inv :: "job_system \<Rightarrow> bool" where
  "job_inv y \<longleftrightarrow>
     (\<forall>r. js_jobs (jy_store y) r = None \<longleftrightarrow> jy_sessions y r = None) \<and>
     (\<forall>r. js_next (jy_store y) \<le> r \<longrightarrow> js_jobs (jy_store y) r = None) \<and>
     (\<forall>r j se. js_jobs (jy_store y) r = Some j \<longrightarrow> jy_sessions y r = Some se \<longrightarrow> session_ok j se) \<and>
     (\<forall>i r. js_ids (jy_store y) i = Some r \<longrightarrow>
        (\<exists>j se. js_jobs (jy_store y) r = Some j \<and> jy_sessions y r = Some se \<and> jb_id j = i \<and> \<not> ended se))"

lemma job_inv_change:
  assumes "job_inv y" "js_jobs (jy_store y) r = Some j" "jb_id j' = jb_id j" "session_ok j' se'"
    and "js_jobs (jy_store y') = (js_jobs (jy_store y))(r \<mapsto> j')" "jy_sessions y' = (jy_sessions y)(r \<mapsto> se')"
    and "js_next (jy_store y') = js_next (jy_store y)"
    and "js_ids (jy_store y') = (if ended se' then (js_ids (jy_store y))(jb_id j := None) else js_ids (jy_store y))"
  shows "job_inv y'"
proof -
  have a: "\<And>q. js_jobs (jy_store y) q = None \<longleftrightarrow> jy_sessions y q = None"
    and b: "\<And>q. js_next (jy_store y) \<le> q \<Longrightarrow> js_jobs (jy_store y) q = None"
    and c: "\<And>q k se. js_jobs (jy_store y) q = Some k \<Longrightarrow> jy_sessions y q = Some se \<Longrightarrow> session_ok k se"
    and d: "\<And>i q. js_ids (jy_store y) i = Some q \<Longrightarrow>
        \<exists>k se. js_jobs (jy_store y) q = Some k \<and> jy_sessions y q = Some se \<and> jb_id k = i \<and> \<not> ended se"
    using assms(1) unfolding job_inv_def by blast+
  have "\<exists>k se. js_jobs (jy_store y') q = Some k \<and> jy_sessions y' q = Some se \<and> jb_id k = i \<and> \<not> ended se"
    if i: "js_ids (jy_store y') i = Some q" for i q
  proof -
    have "js_ids (jy_store y) i = Some q" using i assms(8) by (auto split: if_splits)
    from d [OF this] obtain k se where k: "js_jobs (jy_store y) q = Some k" "jy_sessions y q = Some se" "jb_id k = i" "\<not> ended se"
      by blast
    show ?thesis
    proof (cases "q = r")
      case True
      then have "jb_id j' = i" "\<not> ended se'" using k assms(2,3,8) i by (auto split: if_splits)
      with True assms(5,6) show ?thesis by simp
    next
      case False
      with k assms(5,6) show ?thesis by simp
    qed
  qed
  moreover have "js_jobs (jy_store y') q = None \<longleftrightarrow> jy_sessions y' q = None" for q using a assms(5,6) by simp
  moreover have "js_jobs (jy_store y') q = None" if "js_next (jy_store y') \<le> q" for q
    using b [of q] that assms(2,5,7) by auto
  moreover have "session_ok k se" if "js_jobs (jy_store y') q = Some k" "jy_sessions y' q = Some se" for q k se
    using c [of q k se] that assms(4,5,6) by (auto split: if_splits)
  ultimately show ?thesis unfolding job_inv_def by blast
qed

lemma spawn_inv:
  assumes "job_inv y"
  shows "job_inv (spawn_job tx bytes now channel t bjr y)"
proof -
  let ?y' = "spawn_job tx bytes now channel t bjr y" and ?r = "js_next (jy_store y)"
  obtain j u where new: "js_jobs (jy_store ?y') = (js_jobs (jy_store y))(?r \<mapsto> j)"
      "jy_sessions ?y' = (jy_sessions y)(?r \<mapsto> \<lparr>se_phase = Beginning, se_rounds = 0, se_messages = [text_message ''user'' u]\<rparr>)"
      "js_ids (jy_store ?y') = (js_ids (jy_store y))(jb_id j \<mapsto> ?r)" "js_next (jy_store ?y') = ?r + 1"
      "\<not> jb_succeeded j" "\<not> jb_active j" "jb_inflight j = None"
    by (auto simp: spawn_job_def create_job_def Let_def)
  have "session_ok j \<lparr>se_phase = Beginning, se_rounds = 0, se_messages = [text_message ''user'' u]\<rparr>"
    using new(5-7) by (auto simp: session_ok_def max_session_rounds_def asked_def dialogue_of_def)
  moreover have "js_jobs (jy_store y) ?r = None" "jy_sessions y ?r = None"
    using assms unfolding job_inv_def by auto
  ultimately show ?thesis
    using assms unfolding job_inv_def new ended_def by (fastforce split: if_splits)
qed

lemma job_inv_session: "job_inv y \<Longrightarrow> js_jobs (jy_store y) r = Some j \<Longrightarrow> jy_sessions y r = Some se \<Longrightarrow> session_ok j se"
  unfolding job_inv_def by blast

lemma begin_inv:
  assumes "job_inv y" "js_jobs (jy_store y) r = Some j" "jy_sessions y r = Some se" "se_phase se = Beginning"
  shows "job_inv (begin_round r j se y)"
proof -
  have ok: "session_ok j se" using job_inv_session assms by blast
  show ?thesis
  proof (cases "se_rounds se = max_session_rounds")
    case True
    show ?thesis
      by (rule job_inv_change [OF assms(1,2), of j "se\<lparr>se_phase := Ended Exhausted\<rparr>"])
        (use True ok assms in \<open>auto simp: begin_round_def session_ok_def ended_def map_upd_triv\<close>)
  next
    case False
    show ?thesis
      by (rule job_inv_change [OF assms(1,2), of "set_active True (Some (se_rounds se)) j"
            "se\<lparr>se_phase := Thinking, se_rounds := se_rounds se + 1\<rparr>"])
        (use False ok assms in \<open>auto simp: begin_round_def session_ok_def ended_def set_active_def\<close>)
  qed
qed

lemma receive_inv:
  assumes "job_inv y" "js_jobs (jy_store y) r = Some j" "jy_sessions y r = Some se" "se_phase se = Parked"
    and "receive_input r j se y = Some y'"
  shows "job_inv y'"
proof -
  have ok: "session_ok j se" using job_inv_session assms by blast
  show ?thesis
  proof (cases "jb_input j")
    case None
    show ?thesis
      by (rule job_inv_change [OF assms(1,2), of j "se\<lparr>se_phase := Ended Cancelled\<rparr>"])
        (use None ok assms in \<open>auto simp: receive_input_def session_ok_def ended_def map_upd_triv split: if_splits\<close>)
  next
    case (Some m)
    show ?thesis
      by (rule job_inv_change [OF assms(1,2), of "set_last_question [] (j\<lparr>jb_input := None\<rparr>)"
            "se\<lparr>se_phase := Beginning, se_messages := se_messages se @ [text_message ''user'' m]\<rparr>"])
        (use Some ok assms in \<open>auto simp: receive_input_def session_ok_def ended_def set_last_question_def asked_def answered_all_def\<close>)
  qed
qed

lemma answers_inv:
  assumes "job_inv y" "js_jobs (jy_store y) r = Some j" "jy_sessions y r = Some se" "se_phase se = Thinking"
  shows "job_inv (end_round err env mdl ta now s r j se y)"
proof -
  have ok: "session_ok j se" using job_inv_session assms by blast
  obtain res new s' f where q: "session_query env mdl (jb_tool j) ta (se_messages se) s = (res, new, s', f)"
    by (cases "session_query env mdl (jb_tool j) ta (se_messages se) s") auto
  have f: "jb_tool j = ''deep_think'' \<Longrightarrow> \<not> f"
    using deep_think_never_succeeds [of env mdl ta "se_messages se" s] q by auto
  define j' where "j' = set_active False None (if f then set_tool_succeeded True j else j)"
  have j': "jb_id j' = jb_id j" "jb_tool j' = jb_tool j" "\<not> jb_active j'" "jb_inflight j' = None" "jb_succeeded j' \<longleftrightarrow> f"
    using ok assms(4) by (auto simp: j'_def set_active_def set_tool_succeeded_def session_ok_def)
  note e = end_round_def [of err env mdl ta now s r j se y, unfolded q Let_def prod.case, folded j'_def]
  show ?thesis
  proof (cases res)
    case (Inl e)
    let ?how = "if se_rounds se - 1 \<in> jb_ended j' then Cancelled else Broken"
    show ?thesis
      by (rule job_inv_change [OF assms(1,2), of j' "se\<lparr>se_phase := Ended ?how\<rparr>"])
        (use Inl ok assms j' f in \<open>auto simp: e session_ok_def ended_def\<close>)
  next
    case (Inr reply)
    have new: "answered_all (se_rounds se) (se_messages se @ new)"
      if a: "asked (se_rounds se - 1) (se_messages se)" and n: "0 < se_rounds se"
    proof -
      obtain ds u where d: "se_messages se = dialogue_of ds @ [text_message ''user'' u]" "length ds = se_rounds se - 1"
          "list_all answered ds" using a unfolding asked_def by blast
      obtain xs where x: "new = text_message ''user'' u # map to_llm xs" "answered (u, xs)"
        using session_query_new [of env mdl "jb_tool j" ta "se_messages se" s] q Inr d(1)
        by (auto simp: answered_def text_message_def)
      have "se_messages se @ new = dialogue_of (ds @ [(u, xs)])" using d(1) x(1) by (simp add: dialogue_of_def)
      then show ?thesis using d(2,3) x(2) n unfolding answered_all_def
        by (intro exI [of _ "ds @ [(u, xs)]"]) simp
    qed
    show ?thesis
    proof (cases f)
      case True
      show ?thesis
        by (rule job_inv_change [OF assms(1,2), of j' "se\<lparr>se_messages := se_messages se @ new, se_phase := Ended Completed\<rparr>"])
          (use Inr True ok assms j' f in \<open>auto simp: e session_ok_def ended_def\<close>)
    next
      case False
      show ?thesis
        by (rule job_inv_change [OF assms(1,2), of "set_last_question reply j'" "se\<lparr>se_messages := se_messages se @ new, se_phase := Parked\<rparr>"])
          (use Inr False ok assms j' f new in \<open>auto simp: e session_ok_def ended_def set_last_question_def\<close>)
    qed
  qed
qed

lemma reply_changes:
  assumes "reply_to_job args st = Ret (t, st')"
  shows "st' = st \<or> (\<exists>r j m. js_jobs st r = Some j \<and> \<not> jb_closed j \<and> st' = with_job r (\<lambda>j. j\<lparr>jb_input := Some m\<rparr>) st)"
  using assms by (auto simp: reply_to_job_def Let_def bind_eq_Some_conv split: option.splits prod.splits if_splits)

lemma cancel_changes:
  "snd (cancel_job args st) = st \<or> (\<exists>r. snd (cancel_job args st) = with_job r job_cancel st)"
  by (auto simp: cancel_job_def Let_def split: option.splits prod.splits)

lemma with_job_inv:
  assumes "job_inv y" "\<And>j se. session_ok j se \<Longrightarrow> session_ok (f j) se" "\<And>j. jb_id (f j) = jb_id j"
  shows "job_inv (y\<lparr>jy_store := with_job r f (jy_store y)\<rparr>)"
proof (cases "js_jobs (jy_store y) r")
  case None
  then show ?thesis using assms(1) by (simp add: with_job_def)
next
  case (Some j)
  then obtain se where se: "jy_sessions y r = Some se" using assms(1) unfolding job_inv_def by (metis not_None_eq)
  have "\<And>i. js_ids (jy_store y) i = Some r \<Longrightarrow> jb_id j = i \<and> \<not> ended se"
    using assms(1) se Some unfolding job_inv_def by fastforce
  then show ?thesis
    using assms Some se unfolding job_inv_def by (auto split: if_splits)
qed

lemma job_step_inv:
  assumes "job_step envs y y'" "job_inv y"
  shows "job_inv y'"
  using assms
proof cases
  case (reply args t store)
  have "session_ok (j\<lparr>jb_input := m\<rparr>) se" if "session_ok j se" for j se m
    using that by (cases "se_phase se") (auto simp: session_ok_def)
  then have "job_inv (y\<lparr>jy_store := with_job r (\<lambda>j. j\<lparr>jb_input := m\<rparr>) (jy_store y)\<rparr>)" for r m
    by (intro with_job_inv [OF assms(2)]) auto
  with reply_changes [OF reply(2)] reply(1) assms(2) show ?thesis by auto
next
  case (cancel args)
  have "session_ok (job_cancel j) se" if "session_ok j se" for j se
    using that by (cases "se_phase se") (auto simp: session_ok_def job_cancel_def)
  then have "job_inv (y\<lparr>jy_store := with_job r job_cancel (jy_store y)\<rparr>)" for r
    by (intro with_job_inv [OF assms(2)]) (auto simp: job_cancel_def)
  moreover have "y\<lparr>jy_store := jy_store y\<rparr> = y" by simp
  ultimately show ?thesis using cancel_changes [of args "jy_store y"] cancel assms(2) by metis
next
  case (spawn tx bytes now channel t bjr)
  then show ?thesis using spawn_inv [OF assms(2)] by simp
next
  case (begins r j se)
  then show ?thesis using begin_inv [OF assms(2)] by simp
next
  case (answers r j se env err mdl ta now s)
  then show ?thesis using answers_inv [OF assms(2)] by simp
next
  case (receives r j se)
  then show ?thesis using receive_inv [OF assms(2)] by simp
qed

lemma job_reach_inv: "job_reach envs y \<Longrightarrow> job_inv y"
proof (induction rule: job_reach.induct)
  case (start y)
  then show ?case by (auto simp: job_inv_def no_jobs_def)
next
  case (step y y')
  then show ?case using job_step_inv by blast
qed

section \<open>An example\<close>

definition demo_jobs :: job_system where
  "demo_jobs = \<lparr>jy_store = \<lparr>js_jobs = Map.empty, js_next = 0, js_ids = Map.empty\<rparr>, jy_sessions = Map.empty,
     jy_state = demo_manager [], jy_sent = []\<rparr>"

definition demo_asking :: string where
  "demo_asking = ''{'' @ json_quote ''action'' @ '':'' @ json_quote ''respond'' @ '','' @ json_quote ''text'' @ '':''
     @ json_quote ''Which?'' @ ''}''"

definition demo_brain :: "unit orch_env" where
  "demo_brain = \<lparr>oe_system_base = [], oe_tools_text = [], oe_chat = (\<lambda>r s. (Inr demo_asking, s)),
     oe_tool = None, oe_clock = (\<lambda>_. 0), oe_zone = 0\<rparr>"

definition demo_spawned :: job_system where
  "demo_spawned = spawn_job \<lparr>sx_create_skill = [], sx_send_email = [], sx_reason = ''R''\<rparr> (Some ''abc'') 0 ''c'' ''hi''
     \<lparr>bj_tool = ''deep_think'', bj_user_goal = [], bj_task_type = [], bj_problem = ''P''\<rparr> demo_jobs"

definition demo_job :: job where
  "demo_job = \<lparr>jb_id = ''616263'', jb_tool = ''deep_think'', jb_task_type = [], jb_goal = ''P'', jb_channel = ''c'',
     jb_input = None, jb_closed = False, jb_active = False, jb_question = [], jb_succeeded = False,
     jb_inflight = None, jb_ended = {}, jb_created = 0\<rparr>"

definition demo_prompt :: message where
  "demo_prompt = text_message ''user'' (''R'' @ paragraph_break @ ''P'')"

lemma demo_job_reach: "job_reach envs demo_spawned"
  unfolding demo_spawned_def
  by (rule job_reach.step [OF job_reach.start job_step.spawn]) (simp add: no_jobs_def demo_jobs_def)

lemma demo_spawned_simps:
  "js_jobs (jy_store demo_spawned) = [0 \<mapsto> demo_job]" "js_ids (jy_store demo_spawned) = [''616263'' \<mapsto> 0]"
  "jy_sessions demo_spawned = [0 \<mapsto> \<lparr>se_phase = Beginning, se_rounds = 0, se_messages = [demo_prompt]\<rparr>]"
proof -
  have "hex_encode ''abc'' = ''616263''" by code_simp
  then show "js_jobs (jy_store demo_spawned) = [0 \<mapsto> demo_job]" "js_ids (jy_store demo_spawned) = [''616263'' \<mapsto> 0]"
    "jy_sessions demo_spawned = [0 \<mapsto> \<lparr>se_phase = Beginning, se_rounds = 0, se_messages = [demo_prompt]\<rparr>]"
    by (simp_all add: demo_spawned_def spawn_job_def create_job_def demo_jobs_def demo_job_def demo_prompt_def
        session_prompt_def Let_def)
qed

lemma demo_query:
  "session_query demo_brain [] ''deep_think'' None [demo_prompt] ()
     = (Inr ''Which?'', [demo_prompt, text_message ''assistant'' demo_asking], (), False)"
  by code_simp

text \<open>A round in which the Brain asks, the user answers, and the next round begins.\<close>

lemma session_goes_on:
  assumes "job_reach envs y" "js_jobs (jy_store y) r = Some j" "js_ids (jy_store y) (jb_id j) = Some r"
    and "jy_sessions y r = Some \<lparr>se_phase = Beginning, se_rounds = n, se_messages = ms\<rparr>" "n < max_session_rounds"
    and "jb_input j = None" "\<not> jb_closed j" "\<not> jb_succeeded j" "env \<in> envs"
    and "session_query env mdl (jb_tool j) ta ms s = (Inr reply, new, s', False)"
    and "struct_members args = Some am" "arg_string [''job_id'', ''message''] ''job_id'' am = (jb_id j, False)"
    and "arg_string [''job_id'', ''message''] ''message'' am = (m, False)" "jb_id j \<noteq> []" "m \<noteq> []"
  shows "\<exists>y'. job_reach envs y' \<and> jy_sessions y' r
     = Some \<lparr>se_phase = Beginning, se_rounds = n + 1, se_messages = ms @ new @ [text_message ''user'' m]\<rparr>"
proof -
  let ?s0 = "\<lparr>se_phase = Beginning, se_rounds = n, se_messages = ms\<rparr>"
  let ?s1 = "\<lparr>se_phase = Thinking, se_rounds = n + 1, se_messages = ms\<rparr>"
  let ?s2 = "\<lparr>se_phase = Parked, se_rounds = n + 1, se_messages = ms @ new\<rparr>"
  define j1 where "j1 = set_active True (Some n) j"
  define y1 where "y1 = begin_round r j ?s0 y"
  have 1: "job_reach envs y1" unfolding y1_def
    by (rule job_reach.step [OF assms(1) job_step.begins]) (use assms in simp_all)
  have y1: "js_jobs (jy_store y1) r = Some j1" "jy_sessions y1 r = Some ?s1" "js_ids (jy_store y1) = js_ids (jy_store y)"
    using assms(2,5) by (simp_all add: y1_def begin_round_def j1_def)
  define j2 where "j2 = set_last_question reply (set_active False None j1)"
  define y2 where "y2 = end_round (\<lambda>_. []) env mdl ta 0 s r j1 ?s1 y1"
  have 2: "job_reach envs y2" unfolding y2_def
    by (rule job_reach.step [OF 1 job_step.answers]) (use y1 assms(9) in simp_all)
  have tool: "jb_tool j1 = jb_tool j" "\<not> jb_succeeded j1" "jb_id j2 = jb_id j" "jb_input j2 = None" "\<not> jb_closed j2"
    using assms(6-8) by (simp_all add: j1_def j2_def set_active_def set_last_question_def)
  have y2: "js_jobs (jy_store y2) r = Some j2" "jy_sessions y2 r = Some ?s2" "js_ids (jy_store y2) = js_ids (jy_store y)"
    using y1 tool(1,2) assms(10) by (simp_all add: y2_def end_round_def Let_def j2_def set_active_def)
  define j3 where "j3 = j2\<lparr>jb_input := Some m\<rparr>"
  define y3 where "y3 = y2\<lparr>jy_store := with_job r (\<lambda>j. j\<lparr>jb_input := Some m\<rparr>) (jy_store y2)\<rparr>"
  have "reply_to_job args (jy_store y2) = Ret (''Message delivered to background job.'',
      with_job r (\<lambda>j. j\<lparr>jb_input := Some m\<rparr>) (jy_store y2))"
    using assms(3,11-15) y2 tool by (simp add: reply_to_job_def get_job_def)
  then have 3: "job_reach envs y3" unfolding y3_def by (rule job_reach.step [OF 2 job_step.reply])
  have y3: "js_jobs (jy_store y3) r = Some j3" "jy_sessions y3 r = Some ?s2"
    using y2 by (simp_all add: y3_def j3_def)
  obtain y4 where y4: "receive_input r j3 ?s2 y3 = Some y4" "jy_sessions y4 r
      = Some \<lparr>se_phase = Beginning, se_rounds = n + 1, se_messages = ms @ new @ [text_message ''user'' m]\<rparr>"
    by (simp add: receive_input_def j3_def)
  have "job_reach envs y4"
    by (rule job_reach.step [OF 3 job_step.receives [OF y3 _ y4(1)]]) simp
  with y4(2) show ?thesis by blast
qed

section \<open>A cancelled job\<close>

text \<open>The rounds a cancelled session has begun and can still begin.\<close>

definition rounds_in_sight :: "job \<Rightarrow> session \<Rightarrow> nat" where
  "rounds_in_sight j se =
     se_rounds se + (if se_phase se = Beginning then 1 else 0) + (if jb_input j = None then 0 else 1)"

lemma end_round_other:
  assumes "js_jobs (jy_store y) q = Some k" "q \<noteq> r"
  shows "js_jobs (jy_store (end_round err env mdl ta now s q k sq y)) r = js_jobs (jy_store y) r
     \<and> jy_sessions (end_round err env mdl ta now s q k sq y) r = jy_sessions y r"
proof (cases "session_query env mdl (jb_tool k) ta (se_messages sq) s")
  case (fields res new s' f)
  then show ?thesis using assms by (cases res) (simp_all add: end_round_def Let_def)
qed

lemma end_round_self:
  assumes "js_jobs (jy_store y) r = Some j"
  shows "\<exists>j' se'. js_jobs (jy_store (end_round err env mdl ta now s r j se y)) r = Some j'
     \<and> jy_sessions (end_round err env mdl ta now s r j se y) r = Some se' \<and> jb_closed j' = jb_closed j
     \<and> jb_input j' = jb_input j \<and> se_rounds se' = se_rounds se \<and> se_phase se' \<noteq> Beginning"
proof (cases "session_query env mdl (jb_tool j) ta (se_messages se) s")
  case (fields res new s' f)
  then show ?thesis using assms
    by (cases res) (simp_all add: end_round_def Let_def set_active_def set_tool_succeeded_def set_last_question_def)
qed

lemma cancelled_step:
  assumes "job_step envs y y'" "job_inv y" "js_jobs (jy_store y) r = Some j" "jb_closed j" "jy_sessions y r = Some se"
  shows "\<exists>j' se'. js_jobs (jy_store y') r = Some j' \<and> jb_closed j' \<and> jy_sessions y' r = Some se'
     \<and> rounds_in_sight j' se' \<le> rounds_in_sight j se"
  using assms(1)
proof cases
  case (spawn tx bytes now channel t bjr)
  have "js_jobs (jy_store y) (js_next (jy_store y)) = None" using assms(2) unfolding job_inv_def by blast
  then have "r \<noteq> js_next (jy_store y)" using assms(3) by auto
  then show ?thesis using spawn assms(3-5) by (simp add: spawn_job_def create_job_def Let_def)
next
  case (begins q k sq)
  then show ?thesis
    using assms(3-5) by (cases "q = r") (auto simp: begin_round_def rounds_in_sight_def set_active_def)
next
  case (answers q k sq env err mdl ta now s)
  show ?thesis
  proof (cases "q = r")
    case True
    with answers assms(3,5) have k: "k = j" "sq = se" by auto
    obtain j' se' where "js_jobs (jy_store y') r = Some j'" "jy_sessions y' r = Some se'" "jb_closed j' = jb_closed j"
        "jb_input j' = jb_input j" "se_rounds se' = se_rounds se" "se_phase se' \<noteq> Beginning"
      using end_round_self [OF assms(3)] answers(1) True k by metis
    then show ?thesis using assms(4) by (simp add: rounds_in_sight_def)
  next
    case False
    then have "js_jobs (jy_store y') r = Some j" "jy_sessions y' r = Some se"
      using answers(1) assms(3,5) by (simp_all add: end_round_other [OF answers(2) False])
    then show ?thesis using assms(4) by blast
  qed
next
  case (receives q k sq)
  show ?thesis
  proof (cases "q = r")
    case True
    with receives assms(3,5) have k: "k = j" "sq = se" by auto
    show ?thesis
    proof (cases "jb_input j")
      case None
      then have "js_jobs (jy_store y') r = Some j" "jy_sessions y' r = Some (se\<lparr>se_phase := Ended Cancelled\<rparr>)"
        using receives k True assms(3,4) by (auto simp: receive_input_def)
      then show ?thesis using assms(4) by (simp add: rounds_in_sight_def)
    next
      case (Some m)
      have "js_jobs (jy_store y') r = Some (set_last_question [] (j\<lparr>jb_input := None\<rparr>))"
        "jy_sessions y' r = Some (se\<lparr>se_phase := Beginning, se_messages := se_messages se @ [text_message ''user'' m]\<rparr>)"
        using Some receives k True assms(3,4) by (auto simp: receive_input_def)
      then show ?thesis using Some assms(4) receives(3) k by (simp add: rounds_in_sight_def set_last_question_def)
    qed
  next
    case False
    then have "js_jobs (jy_store y') r = Some j" "jy_sessions y' r = Some se"
      using receives assms(3,5) by (auto simp: receive_input_def split: option.splits if_splits)
    then show ?thesis using assms(4) by blast
  qed
next
  case (reply args t store)
  from reply_changes [OF reply(2)] show ?thesis
  proof
    assume "\<exists>q k m. js_jobs (jy_store y) q = Some k \<and> \<not> jb_closed k \<and> store = with_job q (\<lambda>j. j\<lparr>jb_input := Some m\<rparr>) (jy_store y)"
    then obtain q k m where "js_jobs (jy_store y) q = Some k" "\<not> jb_closed k"
        "store = with_job q (\<lambda>j. j\<lparr>jb_input := Some m\<rparr>) (jy_store y)" by blast
    then show ?thesis using reply(1) assms(3-5) by (cases "q = r") auto
  qed (use reply(1) assms(3-5) in simp)
next
  case (cancel args)
  from cancel_changes [of args "jy_store y"] show ?thesis
  proof
    assume "\<exists>q. snd (cancel_job args (jy_store y)) = with_job q job_cancel (jy_store y)"
    then obtain q where "snd (cancel_job args (jy_store y)) = with_job q job_cancel (jy_store y)" by blast
    then show ?thesis using cancel assms(3-5)
      by (cases "q = r") (auto simp: with_job_def job_cancel_def rounds_in_sight_def split: option.splits)
  qed (use cancel assms(3-5) in simp)
qed

lemma cancelled_steps:
  assumes "(job_step envs)\<^sup>*\<^sup>* y y'" "job_inv y" "js_jobs (jy_store y) r = Some j" "jb_closed j" "jy_sessions y r = Some se"
  shows "job_inv y' \<and> (\<exists>j' se'. js_jobs (jy_store y') r = Some j' \<and> jb_closed j' \<and> jy_sessions y' r = Some se'
     \<and> rounds_in_sight j' se' \<le> rounds_in_sight j se)"
  using assms
proof (induction rule: rtranclp_induct)
  case (step y1 y2)
  then obtain j1 se1 where 1: "job_inv y1" "js_jobs (jy_store y1) r = Some j1" "jb_closed j1" "jy_sessions y1 r = Some se1"
      "rounds_in_sight j1 se1 \<le> rounds_in_sight j se" by blast
  then show ?case
    using cancelled_step [OF step(2) 1(1-4)] job_step_inv [OF step(2) 1(1)] by fastforce
qed auto

section \<open>Properties\<close>

text \<open>
  C27: the sessions of background jobs are in order. In every interleaving a job that the tools can
  name is alive; a session begins at most twenty rounds, its job counts as active exactly while the
  model thinks, under a cancel function of that very round; and a session that ended as completed is
  one whose tool succeeded.
\<close>

theorem job_sessions_invariant:
  assumes "job_reach envs y" "js_jobs (jy_store y) r = Some j" "jy_sessions y r = Some se"
  shows "(js_ids (jy_store y) i = Some r \<longrightarrow> jb_id j = i \<and> \<not> ended se) \<and> se_rounds se \<le> max_session_rounds \<and>
     (jb_active j \<longleftrightarrow> se_phase se = Thinking) \<and> (se_phase se = Thinking \<longrightarrow> jb_inflight j = Some (se_rounds se - 1)) \<and>
     (se_phase se = Ended Completed \<longrightarrow> jb_succeeded j)"
proof -
  have inv: "job_inv y" by (rule job_reach_inv [OF assms(1)])
  then have "session_ok j se" using job_inv_session assms by blast
  moreover have "js_ids (jy_store y) i = Some r \<longrightarrow> jb_id j = i \<and> \<not> ended se"
    using inv assms(2,3) unfolding job_inv_def by fastforce
  ultimately show ?thesis by (cases "se_phase se") (auto simp: session_ok_def)
qed

text \<open>
  A session asks everything twice. In each round after the first, the dialogue that the model is
  shown holds every earlier question of the session, its prompt included, two times in a row: once
  as the goroutine appended it and once as the query returned it.
\<close>

lemma session_repeats_questions:
  assumes "job_reach envs y" "jy_sessions y r = Some se" "se_phase se = Thinking"
  shows "\<exists>ds u. se_messages se = dialogue_of ds @ [text_message ''user'' u] \<and> length ds + 1 = se_rounds se
     \<and> list_all answered ds"
proof -
  have inv: "job_inv y" by (rule job_reach_inv [OF assms(1)])
  then obtain j where "js_jobs (jy_store y) r = Some j" using assms(2) unfolding job_inv_def by (metis not_None_eq)
  then have "session_ok j se" using job_inv_session [OF inv] assms(2) by blast
  then show ?thesis using assms(3) by (auto simp: session_ok_def asked_def)
qed

text \<open>
  A job for the deep thinker never completes. A session that \<open>deep_think\<close> started may not call
  \<open>deep_think\<close>, whose success alone would end it: whatever the model does, it ends only by being
  cancelled, by an error, or after its twenty rounds.
\<close>

lemma deep_think_job_never_completes:
  assumes "job_reach envs y" "js_jobs (jy_store y) r = Some j" "jy_sessions y r = Some se" "jb_tool j = ''deep_think''"
  shows "se_phase se \<noteq> Ended Completed"
proof -
  have "session_ok j se" using job_inv_session [OF job_reach_inv [OF assms(1)]] assms by blast
  then show ?thesis using assms(4) by (auto simp: session_ok_def)
qed

text \<open>
  To answer a cancelled job crashes the program. As long as the goroutine of a job is alive its
  identifier is known; a call of \<open>cancel_job\<close> closes its channel, and from then on every well-formed
  call of \<open>reply_to_job\<close> for it panics.
\<close>

lemma reply_after_cancel_panics:
  assumes "job_reach envs y" "js_ids (jy_store y) i = Some r"
    and "struct_members cargs = Some cm" "arg_string [''job_id''] ''job_id'' cm = (i, False)"
    and "struct_members args = Some am" "arg_string [''job_id'', ''message''] ''job_id'' am = (i, False)"
    and "arg_string [''job_id'', ''message''] ''message'' am = (m, False)" "i \<noteq> []" "m \<noteq> []"
  shows "reply_to_job args (snd (cancel_job cargs (jy_store y))) = Panic"
proof -
  have "job_inv y" by (rule job_reach_inv [OF assms(1)])
  then obtain j where "js_jobs (jy_store y) r = Some j" using assms(2) unfolding job_inv_def by blast
  then show ?thesis using assms(2-)
    by (simp add: reply_to_job_def cancel_job_def get_job_def job_cancel_def)
qed

text \<open>
  A cancelled job winds down. After its cancellation, whatever else happens, a session begins at
  most one more round than it is about to begin, and that one only for an answer that was in its
  channel already.
\<close>

lemma cancelled_job_winds_down:
  assumes "job_reach envs y" "js_jobs (jy_store y) r = Some j" "jb_closed j" "jy_sessions y r = Some se"
    and "(job_step envs)\<^sup>*\<^sup>* y y'"
  shows "\<exists>se'. jy_sessions y' r = Some se' \<and>
     se_rounds se' \<le> se_rounds se + (if se_phase se = Beginning then 1 else 0) + (if jb_input j = None then 0 else 1)"
proof -
  obtain j' se' where s: "jy_sessions y' r = Some se'" "rounds_in_sight j' se' \<le> rounds_in_sight j se"
    using cancelled_steps [OF assms(5) job_reach_inv [OF assms(1)] assms(2-4)] by blast
  then show ?thesis by (intro exI [of _ se']) (simp add: rounds_in_sight_def split: if_splits)
qed

definition demo_args :: "string option" where
  "demo_args = Some (''{'' @ json_quote ''job_id'' @ '':'' @ json_quote ''616263'' @ '','' @ json_quote ''message'' @ '':''
     @ json_quote ''A'' @ ''}'')"

definition demo_members :: "(string \<times> string \<times> json) list" where
  "demo_members = [(''job_id'', json_quote ''616263'', JStr ''616263''), (''message'', json_quote ''A'', JStr ''A'')]"

lemma demo_args:
  "struct_members demo_args = Some demo_members" "arg_string [''job_id''] ''job_id'' demo_members = (''616263'', False)"
  "arg_string [''job_id'', ''message''] ''job_id'' demo_members = (''616263'', False)"
  "arg_string [''job_id'', ''message''] ''message'' demo_members = (''A'', False)"
  by code_simp+

lemma demo_second_round:
  "\<exists>y se. job_reach {demo_brain} y \<and> jy_sessions y 0 = Some se \<and> se_phase se = Thinking \<and> se_rounds se = 2
     \<and> se_messages se = [demo_prompt, demo_prompt, text_message ''assistant'' demo_asking, text_message ''user'' ''A'']"
proof -
  have j: "js_jobs (jy_store demo_spawned) 0 = Some demo_job" "js_ids (jy_store demo_spawned) (jb_id demo_job) = Some 0"
      "jy_sessions demo_spawned 0 = Some \<lparr>se_phase = Beginning, se_rounds = 0, se_messages = [demo_prompt]\<rparr>"
      "jb_tool demo_job = ''deep_think''" "jb_id demo_job = ''616263''"
    by (simp_all add: demo_spawned_simps demo_job_def)
  have "\<exists>y. job_reach {demo_brain} y \<and> jy_sessions y 0 = Some \<lparr>se_phase = Beginning, se_rounds = 0 + 1,
      se_messages = [demo_prompt] @ [demo_prompt, text_message ''assistant'' demo_asking] @ [text_message ''user'' ''A'']\<rparr>"
    by (rule session_goes_on [OF demo_job_reach j(1-3), where env = demo_brain and mdl = "[]" and ta = None and s = "()"
          and args = demo_args and am = demo_members and reply = "''Which?''" and s' = "()"])
      (simp_all add: j(4,5) demo_args demo_query, simp_all add: demo_job_def max_session_rounds_def)
  then obtain y where y: "job_reach {demo_brain} y" "jy_sessions y 0 = Some \<lparr>se_phase = Beginning, se_rounds = 0 + 1,
      se_messages = [demo_prompt] @ [demo_prompt, text_message ''assistant'' demo_asking] @ [text_message ''user'' ''A'']\<rparr>"
    by blast
  moreover obtain j where "js_jobs (jy_store y) 0 = Some j"
    using y job_reach_inv [OF y(1)] unfolding job_inv_def by (metis not_None_eq)
  ultimately have "job_step {demo_brain} y (begin_round 0 j \<lparr>se_phase = Beginning, se_rounds = 0 + 1,
      se_messages = [demo_prompt] @ [demo_prompt, text_message ''assistant'' demo_asking] @ [text_message ''user'' ''A'']\<rparr> y)"
    by (intro job_step.begins) simp_all
  from job_reach.step [OF y(1) this] show ?thesis
    by (intro exI conjI, assumption) (simp_all add: begin_round_def max_session_rounds_def, simp_all)
qed

lemma session_repeats_questions_witness:
  "\<exists>ds u. [demo_prompt, demo_prompt, text_message ''assistant'' demo_asking, text_message ''user'' ''A'']
     = dialogue_of ds @ [text_message ''user'' u] \<and> length ds + 1 = 2 \<and> list_all answered ds"
proof -
  obtain y se where y: "job_reach {demo_brain} y" "jy_sessions y 0 = Some se" "se_phase se = Thinking" "se_rounds se = 2"
      "se_messages se = [demo_prompt, demo_prompt, text_message ''assistant'' demo_asking, text_message ''user'' ''A'']"
    using demo_second_round by blast
  show ?thesis using session_repeats_questions [OF y(1-3)] y(4,5) by simp
qed

theorem job_sessions_invariant_witness:
  "\<exists>(y :: job_system) j se. js_jobs (jy_store y) 0 = Some j \<and> jy_sessions y 0 = Some se \<and> se_rounds se = 2
     \<and> jb_active j \<and> jb_inflight j = Some 1"
proof -
  obtain y se where y: "job_reach {demo_brain} y" "jy_sessions y 0 = Some se" "se_phase se = Thinking" "se_rounds se = 2"
    using demo_second_round by blast
  moreover obtain j where j: "js_jobs (jy_store y) 0 = Some j"
    using y job_reach_inv [OF y(1)] unfolding job_inv_def by (metis not_None_eq)
  ultimately show ?thesis using job_sessions_invariant [OF y(1) j y(2)] by auto
qed

lemma deep_think_job_never_completes_witness:
  "\<exists>(y :: job_system) se. jy_sessions y 0 = Some se \<and> se_rounds se = 0 \<and> se_phase se \<noteq> Ended Completed"
proof (intro exI conjI)
  show s: "jy_sessions demo_spawned 0 = Some \<lparr>se_phase = Beginning, se_rounds = 0, se_messages = [demo_prompt]\<rparr>"
    by (simp add: demo_spawned_simps)
  show "se_phase \<lparr>se_phase = Beginning, se_rounds = 0, se_messages = [demo_prompt]\<rparr> \<noteq> Ended Completed"
    by (rule deep_think_job_never_completes [OF demo_job_reach [of "{demo_brain}"] _ s, of demo_job])
      (simp_all add: demo_spawned_simps demo_job_def)
qed simp

lemma reply_after_cancel_panics_witness:
  "reply_to_job demo_args (snd (cancel_job demo_args (jy_store demo_spawned))) = Panic"
  by (rule reply_after_cancel_panics [OF demo_job_reach [of "{demo_brain}"] _ demo_args(1,2) demo_args(1,3,4)])
    (simp_all add: demo_spawned_simps)

lemma cancelled_job_winds_down_witness:
  "\<exists>(y :: job_system) se. jy_sessions y 0 = Some se \<and> se_rounds se \<le> 1"
proof -
  let ?y = "demo_spawned\<lparr>jy_store := snd (cancel_job demo_args (jy_store demo_spawned))\<rparr>"
  have r: "job_reach {demo_brain} ?y" by (rule job_reach.step [OF demo_job_reach job_step.cancel])
  have "js_jobs (jy_store ?y) 0 = Some (job_cancel demo_job)"
    using demo_args by (simp add: cancel_job_def get_job_def demo_spawned_simps)
  from cancelled_job_winds_down [OF r this _ _ rtranclp.rtrancl_refl, of "\<lparr>se_phase = Beginning, se_rounds = 0,
      se_messages = [demo_prompt]\<rparr>"]
  obtain se where "jy_sessions ?y 0 = Some se" "se_rounds se \<le> 1"
    by (auto simp: demo_spawned_simps job_cancel_def demo_job_def)
  then show ?thesis by blast
qed

end
