(* ===== verification/Routines.thy ===== *)
theory Routines
  imports TextUtil TimeFmt
begin

text \<open>
  Routines, the recurring work of the agent: schedules (\<open>routines/schedule.go\<close>), entries and their
  validation (\<open>routines/routines.go\<close>, \<open>routines/sync.go\<close>), the synchronisation of the table with the
  TOML file, the query for due routines, date templates (\<open>routines/args.go\<close>) and the run of one
  routine (\<open>engine/routines.go\<close>).
\<close>

section \<open>Schedules\<close>

text \<open>
  A schedule as TOML or JSON delivers it: a string, a list of strings, a list of anything (with
  \<open>None\<close> for the items that are not strings), or a value of another type.
\<close>

datatype schedule_val = SchedStr string | SchedStrs "string list" | SchedItems "string option list" | SchedOther

fun normalize_schedule :: "schedule_val \<Rightarrow> string" where
  "normalize_schedule (SchedStr s) = s"
| "normalize_schedule (SchedStrs ss) = str_join '','' ss"
| "normalize_schedule (SchedItems its) = str_join '','' (List.map_filter id its)"
| "normalize_schedule SchedOther = []"

definition parse_schedules :: "string \<Rightarrow> string list" where
  "parse_schedules s =
     (if s = [] then [] else filter (\<lambda>p. p \<noteq> []) (map trim_space (split_char (CHR '','') s)))"

text \<open>The first entry that is not valid, if any.\<close>

definition validate_schedules :: "schedule_val \<Rightarrow> string option" where
  "validate_schedules v =
     (let s = normalize_schedule v in
      if s = [] then None else find (\<lambda>p. parse_schedule p = None) (parse_schedules s))"

text \<open>
  \<open>IsScheduleDue\<close>. \<open>time.Date\<close> of the date of \<open>now\<close> and a time of day is that time after the
  midnight \<open>start_of_day\<close>.
\<close>

definition slot_time :: "duration \<Rightarrow> gotime \<Rightarrow> int \<times> int \<Rightarrow> gotime" where
  "slot_time off now = (\<lambda>(h, m). start_of_day off now + h * hour + m * minute)"

definition is_schedule_due :: "duration \<Rightarrow> gotime \<Rightarrow> string list \<Rightarrow> gotime \<Rightarrow> bool" where
  "is_schedule_due off now schedules executed =
     list_ex (\<lambda>s. case parse_schedule s of
         None \<Rightarrow> False
       | Some hm \<Rightarrow> slot_time off now hm < now \<and> executed < slot_time off now hm) schedules"

section \<open>Entries and rows\<close>

text \<open>
  \<open>Entry\<close>, with the JSON of its action arguments (\<open>None\<close> when there are none or they cannot be
  encoded), and a row of the table \<open>routines\<close>.
\<close>

record entry =
  e_interval :: string
  e_schedule :: schedule_val
  e_action :: string
  e_actions :: "string list"
  e_args :: "string option"
  e_goal :: string
  e_silent :: bool
  e_instruction :: string

record routine_row =
  r_id :: int
  r_name :: string
  r_interval :: "duration option"
  r_last :: gotime
  r_instruction :: "string option"
  r_action :: "string option"
  r_actions :: "string list option"
  r_args :: "string option"
  r_goal :: "string option"
  r_silent :: bool
  r_schedule :: "string option"

record routine_db =
  r_rows :: "routine_row list"
  r_next :: int

definition nil_if_empty :: "string \<Rightarrow> string option" where
  "nil_if_empty s = (if s = [] then None else Some s)"

definition is_empty_result :: "string \<Rightarrow> bool" where
  "is_empty_result result =
     (if result = [] then True
      else if list_ex (\<lambda>p. length p < length result \<and> has_prefix result p) [''No '', ''no '', ''error'', ''Error'']
      then True
      else length result > 10 \<and> hd result = CHR ''{'' \<and>
           str_contains result ([CHR 0x22] @ ''count'' @ [CHR 0x22] @ '':0''))"

datatype entry_error = MissingTrigger | BadSchedule string | MissingAction

definition validate_entry :: "entry \<Rightarrow> entry_error option" where
  "validate_entry r =
     (let s = normalize_schedule (e_schedule r) in
      if e_interval r = [] \<and> s = [] then Some MissingTrigger
      else case (if s = [] then None else validate_schedules (e_schedule r)) of
          Some bad \<Rightarrow> Some (BadSchedule bad)
        | None \<Rightarrow>
            if e_action r = [] \<and> e_actions r = [] \<and> e_instruction r = [] then Some MissingAction else None)"

text \<open>
  \<open>upsertEntry\<close>: \<open>piv\<close> is the database's reading of an interval, \<open>None\<close> when it rejects the text.
  An insert gives the row the next id and \<open>last_executed\<close> the time of the statement; an update
  keeps both. The result is the number of affected rows, \<open>None\<close> for an error.
\<close>

definition row_of :: "(string \<Rightarrow> duration option) \<Rightarrow> string \<Rightarrow> entry \<Rightarrow> routine_row \<Rightarrow> routine_row" where
  "row_of piv name r old =
     old\<lparr>r_name := name,
         r_interval := (if e_interval r = [] then None else piv (e_interval r)),
         r_instruction := Some (if (e_action r \<noteq> [] \<or> e_actions r \<noteq> []) \<and> e_instruction r = []
                                then e_goal r else e_instruction r),
         r_action := nil_if_empty (e_action r),
         r_actions := (if e_actions r = [] then None else Some (e_actions r)),
         r_args := e_args r,
         r_goal := nil_if_empty (e_goal r),
         r_silent := e_silent r,
         r_schedule := nil_if_empty (normalize_schedule (e_schedule r))\<rparr>"

definition blank_row :: "int \<Rightarrow> gotime \<Rightarrow> routine_row" where
  "blank_row i now = \<lparr>r_id = i, r_name = [], r_interval = None, r_last = now, r_instruction = None,
     r_action = None, r_actions = None, r_args = None, r_goal = None, r_silent = False, r_schedule = None\<rparr>"

definition upsert_entry ::
  "(string \<Rightarrow> duration option) \<Rightarrow> bool \<Rightarrow> gotime \<Rightarrow> string \<Rightarrow> entry \<Rightarrow> routine_db \<Rightarrow> nat option \<times> routine_db" where
  "upsert_entry piv ok now name r db =
     (if \<not> ok \<or> (e_interval r \<noteq> [] \<and> piv (e_interval r) = None) then (None, db)
      else if \<exists>row \<in> set (r_rows db). r_name row = name
      then (Some 1, db\<lparr>r_rows := map (\<lambda>row. if r_name row = name then row_of piv name r row else row) (r_rows db),
                       r_next := r_next db + 1\<rparr>)
      else (Some 1, db\<lparr>r_rows := r_rows db @ [row_of piv name r (blank_row (r_next db) now)],
                       r_next := r_next db + 1\<rparr>))"

definition routine_upsert ::
  "(string \<Rightarrow> duration option) \<Rightarrow> bool \<Rightarrow> gotime \<Rightarrow> string \<Rightarrow> entry \<Rightarrow> routine_db
     \<Rightarrow> (entry_error option + unit) \<times> routine_db" where
  "routine_upsert piv ok now name r db =
     (case validate_entry r of
        Some e \<Rightarrow> (Inl (Some e), db)
      | None \<Rightarrow> (case upsert_entry piv ok now name r db of
            (None, db') \<Rightarrow> (Inl None, db')
          | (Some n, db') \<Rightarrow> (Inr (), db')))"

definition routine_delete :: "bool \<Rightarrow> string \<Rightarrow> routine_db \<Rightarrow> bool \<times> routine_db" where
  "routine_delete ok name db =
     (if ok then (True, db\<lparr>r_rows := filter (\<lambda>row. r_name row \<noteq> name) (r_rows db)\<rparr>) else (False, db))"

definition advance_timer :: "bool \<Rightarrow> gotime \<Rightarrow> int \<Rightarrow> routine_db \<Rightarrow> bool \<times> routine_db" where
  "advance_timer ok now i db =
     (if ok then (True, db\<lparr>r_rows := map (\<lambda>row. if r_id row = i then row\<lparr>r_last := now\<rparr> else row) (r_rows db)\<rparr>)
      else (False, db))"

section \<open>Synchronisation with the file\<close>

text \<open>
  The loop over the entries of the file, in the order the map iteration takes, and the loop over
  the names in the table. \<open>ok n\<close>: the statement for the routine \<open>n\<close> succeeds.
\<close>

fun sync_entries ::
  "(string \<Rightarrow> duration option) \<Rightarrow> (string \<Rightarrow> bool) \<Rightarrow> gotime \<Rightarrow> (string \<times> entry) list \<Rightarrow> routine_db
     \<Rightarrow> string list \<times> routine_db" where
  "sync_entries piv ok now [] db = ([], db)"
| "sync_entries piv ok now ((name, r) # es) db =
     (if validate_entry r \<noteq> None then sync_entries piv ok now es db
      else (case upsert_entry piv (ok name) now name r db of
          (None, db') \<Rightarrow> sync_entries piv ok now es db'
        | (Some n, db') \<Rightarrow>
            (let (upd, db'') = sync_entries piv ok now es db'
             in ((if n > 0 then [name] else []) @ upd, db''))))"

fun sync_deletes ::
  "(string \<Rightarrow> bool) \<Rightarrow> string list \<Rightarrow> string list \<Rightarrow> routine_db \<Rightarrow> string list \<times> routine_db" where
  "sync_deletes ok fileNames [] db = ([], db)"
| "sync_deletes ok fileNames (name # ns) db =
     (if name \<in> set fileNames then sync_deletes ok fileNames ns db
      else (case routine_delete (ok name) name db of
          (True, db') \<Rightarrow> (let (del, db'') = sync_deletes ok fileNames ns db' in (name # del, db''))
        | (False, db') \<Rightarrow> sync_deletes ok fileNames ns db'))"

text \<open>
  \<open>SyncFromFile\<close>: the file's entries (\<open>None\<close> when it cannot be loaded), whether listing the names
  succeeds, and the lists \<open>added\<close>, \<open>updated\<close>, \<open>deleted\<close>.
\<close>

definition sync_from_file ::
  "(string \<Rightarrow> duration option) \<Rightarrow> (string \<Rightarrow> bool) \<Rightarrow> bool \<Rightarrow> gotime \<Rightarrow> (string \<times> entry) list option \<Rightarrow> routine_db
     \<Rightarrow> (string list \<times> string list \<times> string list) \<times> routine_db" where
  "sync_from_file piv ok list_ok now file db =
     (case file of
        None \<Rightarrow> (([], [], []), db)
      | Some es \<Rightarrow>
          (let (upd, db1) = sync_entries piv ok now es db in
           if \<not> list_ok then (([], upd, []), db1)
           else (let (del, db2) = sync_deletes ok (map fst es) (map r_name (r_rows db1)) db1
                 in (([], upd, del), db2))))"

text \<open>\<open>SyncIfChanged\<close>: the modification time (\<open>None\<close>: no such file) and the remembered one.\<close>

definition sync_if_changed ::
  "(string \<Rightarrow> duration option) \<Rightarrow> (string \<Rightarrow> bool) \<Rightarrow> bool \<Rightarrow> gotime \<Rightarrow> gotime option \<Rightarrow> (string \<times> entry) list option
     \<Rightarrow> gotime \<times> routine_db \<Rightarrow> gotime \<times> routine_db" where
  "sync_if_changed piv ok list_ok now mtime file = (\<lambda>(lastMtime, db).
     (case mtime of
        None \<Rightarrow> (lastMtime, db)
      | Some m \<Rightarrow>
          if is_zero lastMtime then (m, db)
          else if \<not> lastMtime < m then (lastMtime, db)
          else (m, snd (sync_from_file piv ok list_ok now file db))))"

section \<open>Due routines\<close>

definition interval_due :: "gotime \<Rightarrow> routine_row \<Rightarrow> bool" where
  "interval_due now row = (case r_interval row of None \<Rightarrow> False | Some iv \<Rightarrow> r_last row + iv \<le> now)"

text \<open>
  \<open>QueryDue\<close>: \<open>dbnow\<close> is the database's clock, \<open>now\<close> the program's. A row without an instruction
  cannot be scanned into a Go string and is skipped.
\<close>

definition row_schedules :: "routine_row \<Rightarrow> string list" where
  "row_schedules row = (case r_schedule row of None \<Rightarrow> [] | Some s \<Rightarrow> parse_schedules s)"

definition query_due :: "duration \<Rightarrow> gotime \<Rightarrow> gotime \<Rightarrow> routine_db \<Rightarrow> routine_row list" where
  "query_due off dbnow now db =
     (let rows = sort_key r_last (filter (\<lambda>row. interval_due dbnow row \<or> r_schedule row \<noteq> None) (r_rows db))
      in filter (\<lambda>row. r_instruction row \<noteq> None \<and>
            (interval_due dbnow row \<or>
             row_schedules row \<noteq> [] \<and> is_schedule_due off now (row_schedules row) (r_last row))) rows)"

section \<open>A schedule fires once\<close>

text \<open>
  The life of a routine with schedules only: at each tick of the scheduler it is run when it is
  due, its timer being set first, by the database, at \<open>u\<close>. The result lists the runs.
\<close>

fun schedule_runs :: "duration \<Rightarrow> string list \<Rightarrow> gotime \<Rightarrow> (gotime \<times> gotime) list \<Rightarrow> gotime list" where
  "schedule_runs off scheds executed [] = []"
| "schedule_runs off scheds executed ((t, u) # ticks) =
     (if is_schedule_due off t scheds executed
      then t # schedule_runs off scheds u ticks
      else schedule_runs off scheds executed ticks)"

text \<open>The slots of the local day that begins at \<open>d\<close>.\<close>

definition day_slots :: "string list \<Rightarrow> gotime \<Rightarrow> gotime set" where
  "day_slots scheds d = {d + h * hour + m * minute | h m. (h, m) \<in> set (List.map_filter parse_schedule scheds)}"

lemma finite_day_slots: "finite (day_slots scheds d)"
proof -
  have "day_slots scheds d = (\<lambda>(h, m). d + h * hour + m * minute) ` set (List.map_filter parse_schedule scheds)"
    by (auto simp: day_slots_def)
  then show ?thesis by simp
qed

lemma is_schedule_due_iff:
  "is_schedule_due off t scheds x \<longleftrightarrow> (\<exists>s \<in> day_slots scheds (start_of_day off t). x < s \<and> s < t)"
  by (force simp: is_schedule_due_def list_ex_iff day_slots_def slot_time_def map_filter_def split: option.splits)

lemma schedule_runs_count:
  assumes "list_all (\<lambda>(t, u). t \<le> u) ticks"
  shows "length (filter (\<lambda>t. start_of_day off t = d) (schedule_runs off scheds x ticks))
     \<le> card {s \<in> day_slots scheds d. x < s}"
  using assms
proof (induction ticks arbitrary: x)
  case Nil
  then show ?case by simp
next
  case (Cons tu ticks)
  obtain t u where tu: "tu = (t, u)" by (cases tu)
  have fin: "finite {s \<in> day_slots scheds d. y < s}" for y using finite_day_slots by simp
  show ?case
  proof (cases "is_schedule_due off t scheds x")
    case False
    with Cons tu show ?thesis by simp
  next
    case True
    then obtain s where s: "s \<in> day_slots scheds (start_of_day off t)" "x < s" "s < t"
      by (auto simp: is_schedule_due_iff)
    have u: "t \<le> u" using Cons.prems tu by simp
    let ?later = "{s \<in> day_slots scheds d. u < s}" and ?now = "{s \<in> day_slots scheds d. x < s}"
    have IH: "length (filter (\<lambda>t. start_of_day off t = d) (schedule_runs off scheds u ticks)) \<le> card ?later"
      using Cons tu by simp
    have sub: "?later \<subseteq> ?now" using s u by auto
    show ?thesis
    proof (cases "start_of_day off t = d")
      case True
      have "s \<in> ?now" "s \<notin> ?later" using s u True by auto
      with sub have "?later \<subset> ?now" by blast
      with fin have "card ?later < card ?now" by (simp add: psubset_card_mono)
      with IH True \<open>is_schedule_due off t scheds x\<close> tu show ?thesis by simp
    next
      case False
      have "card ?later \<le> card ?now" using sub fin by (rule card_mono [rotated])
      with IH False \<open>is_schedule_due off t scheds x\<close> tu show ?thesis by simp
    qed
  qed
qed

lemma schedule_runs_serve:
  assumes "list_all (\<lambda>(t, u). t \<le> u) ticks" "(t, u) \<in> set ticks"
    and "s \<in> day_slots scheds (start_of_day off t)" "s < t" "x < s"
    and "sorted (map fst ticks)"
  shows "\<exists>e \<in> set (schedule_runs off scheds x ticks). e \<le> t \<and> (\<exists>e'. (e, e') \<in> set ticks \<and> s \<le> e')"
  using assms
proof (induction ticks arbitrary: x)
  case Nil
  then show ?case by simp
next
  case (Cons tu ticks)
  obtain a b where tu: "tu = (a, b)" by (cases tu)
  have le: "a \<le> t" using Cons.prems(2,6) tu by auto
  show ?case
  proof (cases "is_schedule_due off a scheds x")
    case due: True
    show ?thesis
    proof (cases "s \<le> b")
      case True
      with due tu le show ?thesis by auto
    next
      case False
      then have "(t, u) \<in> set ticks" using Cons.prems(1,2,4) tu by auto
      with False Cons.IH [of b] Cons.prems tu due show ?thesis by fastforce
    qed
  next
    case False
    then have "(t, u) \<in> set ticks" using Cons.prems tu by (auto simp: is_schedule_due_iff)
    with False Cons.IH [of x] Cons.prems tu show ?thesis by fastforce
  qed
qed

text \<open>
  C21: a scheduled routine runs once per slot. Over any ticks of the scheduler, in clock order, it
  runs on a local day at most as often as the day has slots after its last run; and at every tick
  each slot that has passed on that day has been served, by a run whose timer was set after it.
\<close>

theorem schedule_fires_once_per_slot:
  assumes "sorted (map fst ticks)" and "list_all (\<lambda>(t, u). t \<le> u) ticks"
  shows "length (filter (\<lambda>t. start_of_day off t = d) (schedule_runs off scheds x ticks))
      \<le> card {s \<in> day_slots scheds d. x < s} \<and>
    (\<forall>(t, u) \<in> set ticks. \<forall>s \<in> day_slots scheds (start_of_day off t). x < s \<and> s < t \<longrightarrow>
       (\<exists>e \<in> set (schedule_runs off scheds x ticks). e \<le> t \<and> (\<exists>e'. (e, e') \<in> set ticks \<and> s \<le> e')))"
  using schedule_runs_count [OF assms(2)] schedule_runs_serve [OF assms(2) _ _ _ _ assms(1)] by blast

theorem schedule_fires_once_per_slot_witness:
  "\<exists>e \<in> set (schedule_runs 0 [''09:00''] 0 [(9 * hour - 1, 9 * hour - 1), (9 * hour + 5, 9 * hour + 6), (10 * hour, 10 * hour)]).
     e \<le> 10 * hour"
proof -
  let ?ticks = "[(9 * hour - 1, 9 * hour - 1), (9 * hour + 5, 9 * hour + 6), (10 * hour, 10 * hour)]"
  have "9 * hour \<in> day_slots [''09:00''] (start_of_day 0 (10 * hour))"
    by (simp add: day_slots_def map_filter_def parse_schedule_def sub_zero_def byte_of_def start_of_day_def dur_defs)
  then have slot: "9 * hour \<in> day_slots [''09:00''] (start_of_day 0 (10 * hour))" .
  have p: "sorted (map fst ?ticks)" "list_all (\<lambda>(t, u). t \<le> u) ?ticks" by (simp_all add: dur_defs)
  have m: "(10 * hour, 10 * hour) \<in> set ?ticks" by simp
  have lt: "0 < 9 * hour \<and> 9 * hour < 10 * hour" by (simp add: dur_defs)
  note all = schedule_fires_once_per_slot [OF p, where off = 0 and scheds = "[''09:00'']" and x = 0, THEN conjunct2]
  from bspec [OF all m] slot lt show ?thesis unfolding prod.case by blast
qed

section \<open>What a synchronisation leaves in the table\<close>

definition row_named :: "routine_db \<Rightarrow> string \<Rightarrow> routine_row option" where
  "row_named db n = find (\<lambda>row. r_name row = n) (r_rows db)"

definition interval_ok :: "(string \<Rightarrow> duration option) \<Rightarrow> entry \<Rightarrow> bool" where
  "interval_ok piv r \<longleftrightarrow> e_interval r = [] \<or> piv (e_interval r) \<noteq> None"

lemma row_of_name [simp]: "r_name (row_of piv n r old) = n"
  by (simp add: row_of_def)

lemma find_map_name:
  "find (\<lambda>row. r_name row = m) (map (\<lambda>row. if r_name row = n then row_of piv n r row else row) rows)
     = map_option (\<lambda>row. if r_name row = n then row_of piv n r row else row) (find (\<lambda>row. r_name row = m) rows)"
  by (induction rows) auto

lemma find_append_name: "find P (xs @ [x]) = (case find P xs of Some y \<Rightarrow> Some y | None \<Rightarrow> if P x then Some x else None)"
  by (induction xs) auto

lemma upsert_row_named:
  assumes "interval_ok piv r"
  shows "row_named (snd (upsert_entry piv True now n r db)) m =
    (if m = n then Some (row_of piv n r (case row_named db n of Some old \<Rightarrow> old | None \<Rightarrow> blank_row (r_next db) now))
     else row_named db m)"
proof (cases "\<exists>row \<in> set (r_rows db). r_name row = n")
  case True
  then obtain old where old: "row_named db n = Some old" "r_name old = n"
    by (cases "row_named db n") (auto simp: row_named_def find_None_iff find_Some_iff)
  have "map_option (\<lambda>row. if r_name row = n then row_of piv n r row else row) (row_named db m) = row_named db m" if "m \<noteq> n"
  proof (cases "row_named db m")
    case (Some row)
    then have "r_name row = m" by (auto simp: row_named_def find_Some_iff)
    with that Some show ?thesis by simp
  qed simp
  with True old assms show ?thesis
    by (auto simp: upsert_entry_def interval_ok_def row_named_def find_map_name)
next
  case False
  then have "row_named db n = None" by (auto simp: row_named_def find_None_iff)
  with False assms show ?thesis
    by (auto simp: upsert_entry_def interval_ok_def row_named_def find_append_name split: option.splits)
qed

lemma upsert_affects: "fst (upsert_entry piv ok now n r db) = (if ok \<and> interval_ok piv r then Some 1 else None)"
  by (auto simp: upsert_entry_def interval_ok_def)

lemma upsert_rejected: "\<not> (ok \<and> interval_ok piv r) \<Longrightarrow> snd (upsert_entry piv ok now n r db) = db"
  by (auto simp: upsert_entry_def interval_ok_def)

definition entry_taken :: "(string \<Rightarrow> duration option) \<Rightarrow> entry \<Rightarrow> bool" where
  "entry_taken piv r \<longleftrightarrow> validate_entry r = None \<and> interval_ok piv r"

lemma sync_entries_Cons:
  "snd (sync_entries piv ok now ((n, r) # es) db) =
     snd (sync_entries piv ok now es
       (if validate_entry r = None then snd (upsert_entry piv (ok n) now n r db) else db))"
  by (auto split: prod.splits option.splits if_splits)

lemma sync_entries_named:
  assumes "distinct (map fst es)"
  shows "case map_of es m of
      Some r \<Rightarrow>
        if entry_taken piv r
        then (\<exists>i. row_named (snd (sync_entries piv (\<lambda>_. True) now es db)) m =
               Some (row_of piv m r (case row_named db m of Some old \<Rightarrow> old | None \<Rightarrow> blank_row i now)))
        else row_named (snd (sync_entries piv (\<lambda>_. True) now es db)) m = row_named db m
    | None \<Rightarrow> row_named (snd (sync_entries piv (\<lambda>_. True) now es db)) m = row_named db m"
  using assms
proof (induction es arbitrary: db)
  case Nil
  then show ?case by simp
next
  case (Cons nr es)
  obtain n r where nr: "nr = (n, r)" by (cases nr)
  let ?db = "if validate_entry r = None then snd (upsert_entry piv True now n r db) else db"
  have db: "row_named ?db m = (if m = n \<and> entry_taken piv r
      then Some (row_of piv n r (case row_named db n of Some old \<Rightarrow> old | None \<Rightarrow> blank_row (r_next db) now))
      else row_named db m)" for m
    using upsert_row_named [of piv r now n db m] upsert_rejected [of True piv r now n db]
    by (cases "interval_ok piv r") (auto simp: entry_taken_def)
  have IH: "case map_of es m of
      Some r \<Rightarrow>
        if entry_taken piv r
        then (\<exists>i. row_named (snd (sync_entries piv (\<lambda>_. True) now es ?db)) m =
               Some (row_of piv m r (case row_named ?db m of Some old \<Rightarrow> old | None \<Rightarrow> blank_row i now)))
        else row_named (snd (sync_entries piv (\<lambda>_. True) now es ?db)) m = row_named ?db m
    | None \<Rightarrow> row_named (snd (sync_entries piv (\<lambda>_. True) now es ?db)) m = row_named ?db m"
    using Cons by auto
  show ?case
  proof (cases "m = n")
    case True
    then have "map_of es m = None" using Cons.prems nr by (auto simp: map_of_eq_None_iff)
    with True IH db [of m] nr show ?thesis
      by (auto simp del: sync_entries.simps simp: sync_entries_Cons)
  next
    case False
    then have same: "row_named ?db m = row_named db m" "map_of (nr # es) m = map_of es m"
      using db [of m] nr by simp_all
    have step: "snd (sync_entries piv (\<lambda>_. True) now (nr # es) db) = snd (sync_entries piv (\<lambda>_. True) now es ?db)"
      unfolding nr by (rule sync_entries_Cons)
    show ?thesis using IH unfolding step same .
  qed
qed

lemma sync_deletes_named:
  "row_named (snd (sync_deletes (\<lambda>_. True) fileNames ns db)) m =
     (if m \<in> set ns \<and> m \<notin> set fileNames then None else row_named db m)"
proof (induction ns arbitrary: db)
  case (Cons n ns)
  have "find (\<lambda>row. r_name row = m) (filter (\<lambda>row. r_name row \<noteq> n) rows)
      = (if m = n then None else find (\<lambda>row. r_name row = m) rows)" for rows :: "routine_row list"
    by (induction rows) auto
  then have d: "row_named (snd (routine_delete True n db)) m = (if m = n then None else row_named db m)"
    by (simp add: row_named_def routine_delete_def)
  have step: "snd (sync_deletes (\<lambda>_. True) fileNames (n # ns) db) =
      (if n \<in> set fileNames then snd (sync_deletes (\<lambda>_. True) fileNames ns db)
       else snd (sync_deletes (\<lambda>_. True) fileNames ns (snd (routine_delete True n db))))"
    by (auto simp: routine_delete_def split: prod.splits)
  show ?case
    unfolding step using Cons.IH [of db] Cons.IH [of "snd (routine_delete True n db)"] d by auto
qed simp

text \<open>
  C22: after a synchronisation whose statements succeed, the table mirrors the file: a routine the
  file does not name is gone; one whose entry is valid has exactly the entry's fields, with the
  timer it had before, or the present for a new one. An entry that fails the validation leaves the
  row of that name as it was: the routine goes on running under its former definition.
\<close>

theorem sync_mirrors_file:
  assumes "distinct (map fst es)"
    and "db' = snd (sync_from_file piv (\<lambda>_. True) True now (Some es) db)"
  shows "case map_of es m of
      None \<Rightarrow> row_named db' m = None
    | Some r \<Rightarrow>
        if validate_entry r = None \<and> interval_ok piv r
        then (\<exists>i. row_named db' m =
               Some (row_of piv m r (case row_named db m of Some old \<Rightarrow> old | None \<Rightarrow> blank_row i now)))
        else row_named db' m = row_named db m"
proof -
  let ?db1 = "snd (sync_entries piv (\<lambda>_. True) now es db)"
  have db': "db' = snd (sync_deletes (\<lambda>_. True) (map fst es) (map r_name (r_rows ?db1)) ?db1)"
    by (simp add: assms(2) sync_from_file_def split: prod.splits)
  have gone: "row_named ?db1 m = None" if "m \<notin> set (map r_name (r_rows ?db1))"
    using that by (auto simp: row_named_def find_None_iff)
  have named: "row_named db' m = (if m \<in> set (map fst es) then row_named ?db1 m else None)"
    unfolding db' sync_deletes_named using gone by auto
  show ?thesis
  proof (cases "map_of es m")
    case None
    then have "m \<notin> set (map fst es)" by (simp add: map_of_eq_None_iff)
    with named None show ?thesis by simp
  next
    case (Some r)
    then have "m \<in> set (map fst es)" by (metis map_of_eq_None_iff option.distinct(1) set_map)
    then have n: "row_named db' m = row_named ?db1 m" using named by simp
    show ?thesis
      using sync_entries_named [OF assms(1), where m = m and piv = piv and now = now and db = db]
      unfolding n Some option.case entry_taken_def .
  qed
qed

definition demo_entry :: "schedule_val \<Rightarrow> entry" where
  "demo_entry s = \<lparr>e_interval = [], e_schedule = s, e_action = ''get-news'', e_actions = [], e_args = None,
     e_goal = ''recap'', e_silent = True, e_instruction = []\<rparr>"

theorem sync_mirrors_file_witness:
  "\<exists>i. row_named (snd (sync_from_file (\<lambda>_. None) (\<lambda>_. True) True 7
       (Some [(''news'', demo_entry (SchedStr ''08:30,18:00''))]) \<lparr>r_rows = [], r_next = 1\<rparr>)) ''news''
     = Some (row_of (\<lambda>_. None) ''news'' (demo_entry (SchedStr ''08:30,18:00'')) (blank_row i 7))"
proof -
  have v: "validate_entry (demo_entry (SchedStr ''08:30,18:00'')) = None"
    by code_simp
  have d: "distinct (map fst [(''news'', demo_entry (SchedStr ''08:30,18:00''))])" by simp
  from sync_mirrors_file [OF d refl, of "\<lambda>_. None" 7 "\<lparr>r_rows = [], r_next = 1\<rparr>" "''news''"] v
  show ?thesis by (simp add: interval_ok_def demo_entry_def row_named_def)
qed

section \<open>Date templates\<close>

text \<open>
  \<open>baseTime\<close> and \<open>applyOffset\<close>; in a location with a fixed offset, \<open>AddDate(0, 0, n)\<close> is \<open>n\<close> times
  24 hours later. The number is read by \<open>strconv.Atoi\<close>, which fails beyond \<open>int64\<close>; its products
  with a duration or with 7 wrap around.
\<close>

definition base_time :: "duration \<Rightarrow> string \<Rightarrow> gotime \<Rightarrow> gotime" where
  "base_time off keyword now =
     (if keyword = ''today'' then start_of_day off now
      else if keyword = ''tomorrow'' then start_of_day off (now + day)
      else if keyword = ''yesterday'' then start_of_day off (now - day)
      else now)"

definition apply_offset :: "gotime \<Rightarrow> string \<Rightarrow> gotime" where
  "apply_offset t offset =
     (if offset = [] then t
      else (let sign = (if hd offset = CHR ''-'' then - 1 else 1);
                numUnit = tl offset;
                unit = last numUnit;
                n0 = dec_int 0 (butlast numUnit)
            in if butlast numUnit = [] \<or> \<not> list_all is_digit (butlast numUnit) \<or> n0 > max_dur then t
               else (let n = n0 * sign in
                 if unit = CHR ''m'' then t + wrap64 (n * minute)
                 else if unit = CHR ''h'' then t + wrap64 (n * hour)
                 else if unit = CHR ''d'' then t + n * day
                 else if unit = CHR ''w'' then t + wrap64 (n * 7) * day
                 else t)))"

definition time_keywords :: "string list" where
  "time_keywords = [''today'', ''tomorrow'', ''yesterday'', ''now'']"

text \<open>
  \<open>templateRe\<close> at the head of a string: the keyword, the offset (empty if there is none) and what
  follows the match.
\<close>

definition offset_here :: "string \<Rightarrow> (string \<times> string) option" where
  "offset_here s =
     (if s = [] \<or> (hd s \<noteq> CHR ''+'' \<and> hd s \<noteq> CHR ''-'') then None
      else (let (ds, r) = digits_of (tl s) in
        if ds = [] \<or> r = [] \<or> hd r \<notin> set ''mhdw'' then None
        else Some (hd s # ds @ [hd r], tl r)))"

definition template_here :: "string \<Rightarrow> (string \<times> string \<times> string) option" where
  "template_here s =
     (if \<not> has_prefix s ''{{'' then None
      else (case find (has_prefix (drop 2 s)) time_keywords of
          None \<Rightarrow> None
        | Some k \<Rightarrow>
            (let t = drop (2 + length k) s in
             case offset_here t of
               Some (ofs, r) \<Rightarrow> if has_prefix r ''}}'' then Some (k, ofs, drop 2 r) else None
             | None \<Rightarrow> if has_prefix t ''}}'' then Some (k, [], drop 2 t) else None)))"

lemma offset_here_shorter: "offset_here s = Some (ofs, r) \<Longrightarrow> length r \<le> length s"
proof -
  assume "offset_here s = Some (ofs, r)"
  then have "r = tl (dropWhile is_digit (tl s))"
    by (auto simp: offset_here_def digits_of_def split: if_splits)
  moreover have "length (dropWhile is_digit (tl s)) \<le> length (tl s)" by (rule length_dropWhile_le)
  ultimately show "length r \<le> length s" by simp
qed

lemma template_here_shorter: "template_here s = Some (k, ofs, r) \<Longrightarrow> length r < length s"
proof -
  assume t: "template_here s = Some (k, ofs, r)"
  then have p: "has_prefix s ''{{''" by (auto simp: template_here_def split: if_splits)
  let ?t = "drop (2 + length k) s"
  from t have "(\<exists>r'. offset_here ?t = Some (ofs, r') \<and> r = drop 2 r') \<or> r = drop 2 ?t"
    by (auto simp: template_here_def Let_def split: if_splits option.splits)
  then have "length r \<le> length ?t" using offset_here_shorter [of ?t] by fastforce
  moreover have "length ?t = length s - (2 + length k)" by simp
  moreover have "0 < length s" using p by (auto simp: has_prefix_iff)
  ultimately show "length r < length s" by arith
qed

function expand_string :: "duration \<Rightarrow> gotime \<Rightarrow> string \<Rightarrow> string" where
  "expand_string off now s =
     (case template_here s of
        Some (k, ofs, r) \<Rightarrow>
          (let t = base_time off k now
           in format_iso off (if ofs \<noteq> [] then apply_offset t ofs else t)) @ expand_string off now r
      | None \<Rightarrow> (case s of [] \<Rightarrow> [] | c # cs \<Rightarrow> c # expand_string off now cs))"
  by pat_completeness auto
termination
  by (relation "measure (\<lambda>(off, now, s). length s)") (auto dest: template_here_shorter)

declare expand_string.simps [simp del]

text \<open>\<open>ExpandArgs\<close> on decoded arguments, and the exported \<open>ExpandString\<close>.\<close>

fun expand_arg :: "duration \<Rightarrow> gotime \<Rightarrow> json \<Rightarrow> json" where
  "expand_arg off now (JStr s) = JStr (expand_string off now s)"
| "expand_arg off now v = v"

definition expand_args :: "duration \<Rightarrow> gotime \<Rightarrow> (string \<rightharpoonup> json) \<Rightarrow> (string \<rightharpoonup> json)" where
  "expand_args off now args = (\<lambda>k. map_option (expand_arg off now) (args k))"

definition expand_string_now :: "duration \<Rightarrow> gotime \<Rightarrow> string \<Rightarrow> string" where
  "expand_string_now off now s = (if \<not> str_contains s ''{{'' then s else expand_string off now s)"

lemma expand_string_plain: "\<not> str_contains s ''{{'' \<Longrightarrow> expand_string off now s = s"
proof (induction s)
  case Nil
  then show ?case by (simp add: expand_string.simps template_here_def)
next
  case (Cons c s)
  have "\<not> has_prefix (c # s) ''{{''"
    using Cons.prems by (auto simp: str_contains_iff has_prefix_iff)
  then have "template_here (c # s) = None" by (simp add: template_here_def)
  moreover have "\<not> str_contains s ''{{''"
    using Cons.prems unfolding str_contains_iff by (metis append_Cons)
  ultimately show ?case using Cons.IH by (subst expand_string.simps) simp
qed

section \<open>The run of a routine\<close>

definition action_list :: "routine_row \<Rightarrow> string list" where
  "action_list d =
     (case r_actions d of
        Some (a # as) \<Rightarrow> a # as
      | _ \<Rightarrow> (case r_action d of Some a \<Rightarrow> if a \<noteq> [] then [a] else [] | None \<Rightarrow> []))"

text \<open>
  The loop over the actions: \<open>exec\<close> calls a tool by its name, with the expanded arguments of the
  routine, and returns \<open>None\<close> for an error. The result is the text of the results and whether any
  was not empty.
\<close>

fun run_actions :: "(string \<Rightarrow> string option) \<Rightarrow> string list \<Rightarrow> string \<times> bool" where
  "run_actions exec [] = ([], False)"
| "run_actions exec (a # as) =
     (let (rs, any) = run_actions exec as in
      case exec a of
        None \<Rightarrow> (rs, any)
      | Some res \<Rightarrow>
          (''## '' @ a @ [CHR 0x0A] @ res @ [CHR 0x0A, CHR 0x0A] @ rs, \<not> is_empty_result res \<or> any))"

text \<open>The prompt of a run, before the preamble; \<open>None\<close> when the run ends silently.\<close>

definition routine_prompt :: "(string \<Rightarrow> string option) \<Rightarrow> routine_row \<Rightarrow> string option" where
  "routine_prompt exec d =
     (let instruction = (case r_instruction d of None \<Rightarrow> [] | Some i \<Rightarrow> i) in
      if action_list d \<noteq> [] then
        (let (results, any) = run_actions exec (action_list d) in
         if r_silent d \<and> \<not> any then None
         else (let goal = (case r_goal d of Some g \<Rightarrow> if g \<noteq> [] then g else instruction | None \<Rightarrow> instruction)
               in Some (''ROUTINE: '' @ r_name d @ [CHR 0x0A] @ ''The following actions were called: ''
                    @ str_join '', '' (action_list d) @ [CHR 0x0A, CHR 0x0A] @ ''Results:'' @ [CHR 0x0A] @ results
                    @ [CHR 0x0A] @ ''Your task: '' @ goal)))
      else Some (''ROUTINE: '' @ instruction @ [CHR 0x0A]
           @ ''Execute this routine now. Use your tools to complete it.'' @ [CHR 0x0A]
           @ ''Do not message the user unless the routine explicitly requires it.''))"

definition no_action_tag :: string where "no_action_tag = ''<NO_ACTION_REQUIRED>''"

text \<open>What is sent to the user from the orchestrator's reply, if anything.\<close>

definition routine_output :: "string \<Rightarrow> string option" where
  "routine_output reply0 =
     (let reply = trim_space reply0;
          stripped = trim_space (replace_all no_action_tag [] reply);
          noAction = str_contains reply no_action_tag \<and> stripped = []
      in if reply \<noteq> [] \<and> \<not> noAction then Some stripped else None)"

end
