(* ===== verification/HeartText.thy ===== *)
theory HeartText
  imports Scheduler Messages Routines
begin

text \<open>
  What the heartbeat shows the model: the context of the tick (\<open>heartbeatContext\<close> of
  \<open>engine/heartbeat.go\<close>), the recent actions (\<open>engine/engine.go\<close>), the temporal context
  (\<open>engine/temporal.go\<close>). Times are shown in the local zone, \<open>off\<close> nanoseconds east of UTC.
\<close>

section \<open>Recent actions\<close>

record action_record =
  ac_time :: gotime
  ac_type :: string
  ac_summary :: string

definition record_action :: "gotime \<Rightarrow> string \<Rightarrow> string \<Rightarrow> action_record list \<Rightarrow> action_record list" where
  "record_action now typ summary as =
     (let bs = as @ [\<lparr>ac_time = now, ac_type = typ, ac_summary = summary\<rparr>]
      in if length bs > 5 then drop (length bs - 5) bs else bs)"

definition angle :: "string \<Rightarrow> string" where "angle t = ''<'' @ t @ ''>''"

definition attr :: "string \<Rightarrow> string \<Rightarrow> string" where
  "attr k v = k @ ''='' @ [CHR 0x22] @ v @ [CHR 0x22]"

definition format_recent_actions_xml :: "duration \<Rightarrow> gotime \<Rightarrow> duration \<Rightarrow> action_record list \<Rightarrow> string" where
  "format_recent_actions_xml off now maxAge as =
     (let body = concat (map (\<lambda>a.
          if ac_time a < now - maxAge then []
          else ''<action type='' @ go_quote (ac_type a) @ '' time='' @ go_quote (format_date_time off (ac_time a)) @ ''>''
               @ ac_summary a @ ''</action>'' @ nl) as)
      in if body = [] then [] else ''<recent_system_actions>'' @ nl @ body @ ''</recent_system_actions>'')"

section \<open>The context of a heartbeat\<close>

record failure_summary =
  fs_type :: string
  fs_count :: int
  fs_error :: string
  fs_last :: gotime

record heart_item =
  hi_id :: int
  hi_type :: string
  hi_directive :: string
  hi_status :: string
  hi_priority :: int
  hi_progress :: string
  hi_due :: "gotime option"
  hi_started :: "gotime option"
  hi_error :: "string option"

record heart_context =
  hx_time :: string
  hx_objective :: string
  hx_last_active :: string
  hx_items :: "heart_item list"
  hx_actions :: "action_record list"
  hx_objectives :: "objective list"
  hx_failures :: "failure_summary list"

definition heart_item_of :: "work_item \<Rightarrow> heart_item" where
  "heart_item_of r =
     \<lparr>hi_id = wi_id r, hi_type = wi_type r, hi_directive = wi_directive r, hi_status = wi_status r,
      hi_priority = wi_priority r,
      hi_progress = (if wi_total r > 0 then itoa (wi_done r) @ ''/'' @ itoa (wi_total r) else []),
      hi_due = wi_due r, hi_started = wi_started r, hi_error = wi_error r\<rparr>"

text \<open>The query for the work items: what runs, what is scheduled, what ended within the hour.\<close>

definition heart_listed :: "gotime \<Rightarrow> work_item \<Rightarrow> bool" where
  "heart_listed now r \<longleftrightarrow> wi_status r = ''running'' \<or> is_pending r \<or>
     (wi_status r \<in> {''completed'', ''failed''} \<and> (case wi_completed r of None \<Rightarrow> False | Some t \<Rightarrow> now - hour \<le> t))"

definition heart_order :: "work_item list \<Rightarrow> work_item list" where
  "heart_order rs =
     sort_key (\<lambda>r. if wi_status r = ''running'' then 0 else if wi_status r = ''pending'' then 1 else 2 :: int)
       (sort_key (\<lambda>r. - wi_priority r) (sort_key (\<lambda>r. - wi_created r) rs))"

text \<open>\<open>ok n\<close>: whether the \<open>n\<close>-th query succeeds; \<open>failures\<close>: the rows of \<open>QueryRecentFailures\<close>.\<close>

definition gather_heartbeat_context ::
  "(nat \<Rightarrow> bool) \<Rightarrow> duration \<Rightarrow> gotime \<Rightarrow> bool \<Rightarrow> state_manager \<Rightarrow> tracker \<Rightarrow> action_record list \<Rightarrow> failure_summary list
     \<Rightarrow> heart_context" where
  "gather_heartbeat_context ok off now db sm tk as failures =
     \<lparr>hx_time = format_date_time off now, hx_objective = current_task (get_state sm),
      hx_last_active = (if is_zero (last_user_activity sm) then [] else format_rfc3339 off (last_user_activity sm)),
      hx_items = (if db \<and> ok 0 then map heart_item_of (take 10 (heart_order (filter (heart_listed now) (wi_rows (wt_items tk))))) else []),
      hx_actions = as,
      hx_objectives = (if db then (case list_active (ok 1) (wt_objectives tk) of None \<Rightarrow> [] | Some gs \<Rightarrow> gs) else []),
      hx_failures = (if db then failures else [])\<rparr>"

definition or_else :: "string \<Rightarrow> string \<Rightarrow> string" where
  "or_else a s = (if s = [] then a else s)"

definition xml_line :: "nat \<Rightarrow> string \<Rightarrow> string \<Rightarrow> string" where
  "xml_line n tag body = replicate n (CHR '' '') @ angle tag @ body @ angle (CHR ''/'' # tag) @ nl"

definition item_xml :: "duration \<Rightarrow> heart_item \<Rightarrow> string" where
  "item_xml off w =
     ''    <item '' @ attr ''id'' (itoa (hi_id w)) @ '' '' @ attr ''type'' (hi_type w) @ '' '' @ attr ''status'' (hi_status w)
     @ (if hi_priority w > 0 then '' '' @ attr ''priority'' (itoa (hi_priority w)) else [])
     @ (if hi_progress w \<noteq> [] then '' '' @ attr ''progress'' (hi_progress w) else [])
     @ (case hi_due w of None \<Rightarrow> [] | Some t \<Rightarrow> '' '' @ attr ''due'' (format_rfc3339 off t))
     @ (case hi_started w of None \<Rightarrow> []
        | Some t \<Rightarrow> if hi_status w = ''running'' then '' '' @ attr ''since'' (format_rfc3339 off t) else [])
     @ (case hi_error w of None \<Rightarrow> [] | Some e \<Rightarrow> if e = [] then [] else '' error='' @ go_quote e)
     @ ''>'' @ truncate_str (hi_directive w) 77 @ ''</item>'' @ nl"

definition action_xml :: "duration \<Rightarrow> action_record \<Rightarrow> string" where
  "action_xml off a =
     ''    <action type='' @ go_quote (ac_type a) @ '' time='' @ go_quote (format_rfc3339 off (ac_time a)) @ ''>''
     @ ac_summary a @ ''</action>'' @ nl"

definition objective_xml :: "duration \<Rightarrow> objective \<Rightarrow> string" where
  "objective_xml off g =
     ''    <objective '' @ attr ''id'' (itoa (ob_id g)) @ '' '' @ attr ''status'' (ob_status g) @ '' ''
     @ attr ''priority'' (ob_priority g) @ '' '' @ attr ''attempts'' (itoa (ob_attempts g))
     @ (case ob_last_pursued g of None \<Rightarrow> [] | Some t \<Rightarrow> '' '' @ attr ''last_pursued'' (format_rfc3339 off t))
     @ ''>'' @ ob_summary g @ ''</objective>'' @ nl"

definition failure_xml :: "duration \<Rightarrow> failure_summary \<Rightarrow> string" where
  "failure_xml off f =
     ''    <failure type='' @ go_quote (fs_type f) @ '' '' @ attr ''count'' (itoa (fs_count f)) @ '' last=''
     @ go_quote (format_rfc3339 off (fs_last f)) @ ''>'' @ truncate_str (fs_error f) 120 @ ''</failure>'' @ nl"

definition section_xml :: "string \<Rightarrow> ('a \<Rightarrow> string) \<Rightarrow> 'a list \<Rightarrow> string" where
  "section_xml tag f xs =
     (if xs = [] then xml_line 2 tag ''none''
      else ''  '' @ angle tag @ nl @ concat (map f xs) @ ''  '' @ angle (CHR ''/'' # tag) @ nl)"

definition to_xml :: "duration \<Rightarrow> heart_context \<Rightarrow> string" where
  "to_xml off hc =
     ''<heartbeat_context>'' @ nl
     @ xml_line 2 ''current_time'' (hx_time hc)
     @ xml_line 2 ''current_objective'' (or_else ''none'' (hx_objective hc))
     @ xml_line 2 ''user_last_active'' (or_else ''never'' (hx_last_active hc))
     @ section_xml ''work_items'' (item_xml off) (hx_items hc)
     @ section_xml ''recent_actions'' (action_xml off) (hx_actions hc)
     @ section_xml ''active_objectives'' (objective_xml off) (hx_objectives hc)
     @ (if hx_failures hc = [] then [] else section_xml ''recent_failures'' (failure_xml off) (hx_failures hc))
     @ ''</heartbeat_context>''"

section \<open>The temporal context\<close>

text \<open>\<open>relativeTime\<close>; the units are truncated.\<close>

definition relative_time :: "gotime \<Rightarrow> gotime \<Rightarrow> string" where
  "relative_time now t =
     (let d0 = time_sub now t; future = d0 < 0; d = (if future then wrap64 (- d0) else d0)
      in if d < minute then (if future then ''now'' else ''just now'')
         else (let label = (if d < hour then itoa (d div minute) @ ''m''
                            else if d < 24 * hour then itoa (d div hour) @ ''h''
                            else itoa (d div (24 * hour)) @ ''d'')
               in if future then ''in '' @ label else label @ '' ago''))"

text \<open>
  The rows of the memories of the last week, the latest first (\<open>None\<close>: the query failed), and the
  tasks that are due within two days.
\<close>

definition timeline_event :: "duration \<Rightarrow> gotime \<Rightarrow> string \<times> gotime \<Rightarrow> string" where
  "timeline_event off now = (\<lambda>(summary, t).
     ''    <event '' @ attr ''time'' (format_date_time off t) @ '' '' @ attr ''ago'' (relative_time now t) @ ''>''
     @ summary @ ''</event>'' @ nl)"

definition upcoming_event :: "duration \<Rightarrow> gotime \<Rightarrow> task \<Rightarrow> string" where
  "upcoming_event off now t =
     ''    <upcoming '' @ attr ''time'' (format_date_time off (t_due t)) @ '' '' @ attr ''in'' (relative_time now (t_due t)) @ ''>''
     @ t_directive t @ ''</upcoming>'' @ nl"

definition upcoming_tasks :: "gotime \<Rightarrow> work_db \<Rightarrow> task list" where
  "upcoming_tasks now db =
     take 5 (sort_key t_due (filter (\<lambda>t. now \<le> t_due t \<and> t_due t \<le> now + 48 * hour) (pending_tasks db)))"

definition timeline :: "string \<Rightarrow> ('a \<Rightarrow> string) \<Rightarrow> 'a list \<Rightarrow> string" where
  "timeline tag f xs =
     (if xs = [] then [] else ''  '' @ angle tag @ nl @ concat (map f xs) @ ''  '' @ angle (CHR ''/'' # tag) @ nl)"

definition build_temporal_context ::
  "bool \<Rightarrow> duration \<Rightarrow> gotime \<Rightarrow> (string \<times> gotime) list option \<Rightarrow> work_db \<Rightarrow> string" where
  "build_temporal_context ok off now memories db =
     ''<temporal_context>'' @ nl
     @ xml_line 2 ''now'' (format_date_time off now)
     @ timeline ''recent_timeline'' (timeline_event off now) (case memories of None \<Rightarrow> [] | Some ms \<Rightarrow> take 8 ms)
     @ timeline ''upcoming_timeline'' (upcoming_event off now) (if ok then upcoming_tasks now db else [])
     @ ''</temporal_context>''"

section \<open>Lemmas\<close>

lemma length_record_action: "length as \<le> 5 \<Longrightarrow> length (record_action now typ s as) \<le> 5"
  by (simp add: record_action_def Let_def)

lemma last_record_action: "last (record_action now typ s as) = \<lparr>ac_time = now, ac_type = typ, ac_summary = s\<rparr>"
  by (simp add: record_action_def Let_def)

lemma empty_context_xml:
  "to_xml 0 \<lparr>hx_time = ''2026-03-04 14:30'', hx_objective = [], hx_last_active = [], hx_items = [], hx_actions = [],
      hx_objectives = [], hx_failures = []\<rparr>
   = ''<heartbeat_context>'' @ nl @ ''  <current_time>2026-03-04 14:30</current_time>'' @ nl
     @ ''  <current_objective>none</current_objective>'' @ nl @ ''  <user_last_active>never</user_last_active>'' @ nl
     @ ''  <work_items>none</work_items>'' @ nl @ ''  <recent_actions>none</recent_actions>'' @ nl
     @ ''  <active_objectives>none</active_objectives>'' @ nl @ ''</heartbeat_context>''"
  by code_simp

lemma relative_time_examples:
  "relative_time (3 * hour) (hour) = ''2h ago''" "relative_time 0 (90 * minute) = ''in 1h''" "relative_time 0 5 = ''now''"
  by code_simp+

end
