(* ===== verification/Heartbeat.thy ===== *)
theory Heartbeat
  imports HeartText LlmOrchestrator Complex_Main
begin

text \<open>
  The heartbeat (\<open>engine/heartbeat.go\<close>, \<open>heartbeat_phase2.go\<close>): the decision of the gatekeeper or of
  the orchestrator, the pursuit of objectives (\<open>objective_pursuit.go\<close>), curiosity (\<open>curiosity.go\<close>),
  maintenance and cognitive processing (\<open>cognitive.go\<close>), objective inference (\<open>objectives.go\<close>), and the
  adaptive parameters (\<open>adaptive/adaptive.go\<close>).

  The parameters of \<open>adaptive\<close> are rational numbers here: the rounding of \<open>float64\<close> is left out.
\<close>

section \<open>State\<close>

record curiosity_signal =
  sg_source :: string
  sg_query :: string
  sg_priority :: int
  sg_objective :: int

text \<open>
  The engine as its loop sees it. \<open>'h\<close> are the values of SHA-256; no text has the zero value. A
  channel of signals holds ten, \<open>None\<close> for nil.
\<close>

record 'h heart =
  ht_sm :: state_manager
  ht_tracker :: tracker
  ht_actions :: "action_record list"
  ht_last_hash :: "'h option"
  ht_sent :: "string list"
  ht_signals :: "curiosity_signal list option"
  ht_params :: "string \<rightharpoonup> rat"
  ht_nudged :: bool
  ht_last_pursuit :: gotime
  ht_last_curiosity :: gotime
  ht_last_inference :: gotime
  ht_last_cognitive :: gotime
  ht_last_maintenance :: gotime

record heart_config =
  hc_db :: bool
  hc_embed :: bool
  hc_cog :: bool
  hc_gatekeeper :: bool
  hc_notifier :: bool
  hc_interval :: duration
  hc_buffer :: int
  hc_lull :: duration
  hc_ceiling :: duration
  hc_reflection_after :: int
  hc_reflection_prompt :: string
  hc_pursuit_cooldown :: duration
  hc_inference_cooldown :: duration
  hc_curiosity_cooldown :: duration
  hc_maintenance :: duration
  hc_work_ttl :: int

section \<open>Messages to the user\<close>

definition notify :: "heart_config \<Rightarrow> string \<Rightarrow> 'h heart \<Rightarrow> 'h heart" where
  "notify cfg t h = (if hc_notifier cfg then h\<lparr>ht_sent := ht_sent h @ [t]\<rparr> else h)"

definition send_deduped :: "(string \<Rightarrow> 'h) \<Rightarrow> heart_config \<Rightarrow> string \<Rightarrow> 'h heart \<Rightarrow> bool \<times> 'h heart" where
  "send_deduped sha cfg t h =
     (if Some (sha t) = ht_last_hash h then (False, h)
      else (True, notify cfg t (h\<lparr>ht_last_hash := Some (sha t)\<rparr>)))"

definition deliver_chat :: "(string \<Rightarrow> 'h) \<Rightarrow> heart_config \<Rightarrow> gotime \<Rightarrow> string \<Rightarrow> 'h heart \<Rightarrow> 'h heart" where
  "deliver_chat sha cfg now t h =
     (let (ok, h') = send_deduped sha cfg t h in
      if ok then h'\<lparr>ht_actions := record_action now ''heartbeat'' (truncate_str t 100) (ht_actions h')\<rparr> else h')"

definition append_all :: "gotime \<Rightarrow> message list \<Rightarrow> 'h heart \<Rightarrow> 'h heart" where
  "append_all now ms h = h\<lparr>ht_sm := fold (append_message now) ms (ht_sm h)\<rparr>"

text \<open>
  What a routine leaves behind when its query has answered (\<open>executeSingleRoutine\<close>): its goroutine shares
  the hash, the recent actions and the conversation with the heartbeat.
\<close>

definition deliver_routine ::
  "(string \<Rightarrow> 'h) \<Rightarrow> heart_config \<Rightarrow> gotime \<Rightarrow> string \<Rightarrow> string \<Rightarrow> 'h heart \<Rightarrow> 'h heart" where
  "deliver_routine sha cfg now name reply h =
     (case routine_output reply of
        None \<Rightarrow> h\<lparr>ht_actions := record_action now ''routine'' (''Executed '' @ go_quote name @ '' (silent)'') (ht_actions h)\<rparr>
      | Some t \<Rightarrow>
          (let (ok, h1) = send_deduped sha cfg t h in
           if ok
           then append_all now [text_message ''assistant'' (''[ROUTINE: '' @ name @ '']'' @ nl @ truncate_str t 500)]
                  (h1\<lparr>ht_actions := record_action now ''routine''
                     (''Sent '' @ go_quote name @ '' output: '' @ truncate_str t 80) (ht_actions h1)\<rparr>)
           else h1))"

section \<open>Phase 2: is there something to do?\<close>

text \<open>
  What phase 2 calls: the orchestrator with the options of \<open>baseOrchestratorOpts\<close> and the callbacks
  of \<open>runOrchestrator\<close>, the gatekeeper, and the two prompt templates.
\<close>

record 's heart_env =
  he_orch :: "'s orch_env"
  he_model :: string
  he_opts :: "'s query_opts"
  he_gate :: "string \<Rightarrow> string \<Rightarrow> 's \<Rightarrow> (string + string) \<times> 's"
  he_gate_prompt :: string
  he_executive_prompt :: string
  he_err_text :: "loop_error \<Rightarrow> string"

definition heart_query ::
  "'s heart_env \<Rightarrow> string \<Rightarrow> message list \<Rightarrow> 's \<Rightarrow> (loop_error + string) \<times> message list \<times> 's" where
  "heart_query env prompt history s =
     query_orchestrator (he_orch env) (he_model env) prompt (Some default_trim_fn)
       (Some ((he_opts env)\<lparr>qo_history := history\<rparr>)) s"

definition executive_tag :: string where "executive_tag = ''[EXECUTIVE ROUTINE]'' @ nl"

definition phase2_orchestrator ::
  "(string \<Rightarrow> 'h) \<Rightarrow> 's heart_env \<Rightarrow> heart_config \<Rightarrow> gotime \<Rightarrow> string \<Rightarrow> string \<Rightarrow> bool \<Rightarrow> 's \<Rightarrow> 'h heart \<Rightarrow> 's \<times> 'h heart" where
  "phase2_orchestrator sha env cfg now xml note stale s h =
     (let prompt = replace_first (he_executive_prompt env) ''%s'' note;
          history = (if stale then [] else messages (ht_sm h)) @ [text_message ''user'' (executive_tag @ prompt)];
          (res, ms, s') = heart_query env xml history s;
          h1 = (if stale then h else append_all now ms h)
      in (s', case res of
           Inl e \<Rightarrow>
             if str_contains (he_err_text env e) ''too many tool call rounds''
             then notify cfg (''I started a background task but couldn'' @ [CHR 0x27]
                    @ ''t complete it. You may want to check in.'') h1
             else h1
         | Inr reply \<Rightarrow>
             if str_contains reply no_action_tag then h1
             else if trim_space reply \<noteq> [] then deliver_chat sha cfg now (trim_space reply) h1
             else h1))"

text \<open>The decision of the gatekeeper: \<open>json.Unmarshal\<close> into its three fields.\<close>

definition gate_decision :: "string \<Rightarrow> (string \<times> string \<times> string) option" where
  "gate_decision raw =
     (case struct_members (Some raw) of
        None \<Rightarrow> None
      | Some ms \<Rightarrow>
          (let names = [''action'', ''intent'', ''text''];
               (a, e1) = arg_string names ''action'' ms;
               (i, e2) = arg_string names ''intent'' ms;
               (t, e3) = arg_string names ''text'' ms
           in if e1 \<or> e2 \<or> e3 then None else Some (a, i, t)))"

definition tool_prompt :: "string \<Rightarrow> string \<Rightarrow> string" where
  "tool_prompt xml intent =
     xml @ paragraph_break @ ''ROUTINE: '' @ intent @ nl @ ''Execute this action now. Use your tools to complete it.'' @ nl
     @ ''Do not message the user unless the action explicitly requires it.''"

definition phase2_gatekeeper ::
  "(string \<Rightarrow> 'h) \<Rightarrow> 's heart_env \<Rightarrow> heart_config \<Rightarrow> gotime \<Rightarrow> string \<Rightarrow> string \<Rightarrow> bool \<Rightarrow> 's \<Rightarrow> 'h heart \<Rightarrow> 's \<times> 'h heart" where
  "phase2_gatekeeper sha env cfg now xml note stale s h =
     (case he_gate env (replace_first (he_gate_prompt env) ''%s'' note) xml s of
        (Inl err, s1) \<Rightarrow> (s1, h)
      | (Inr raw, s1) \<Rightarrow>
          if trim_space raw = [] then (s1, h)
          else (case gate_decision (trim_space raw) of
              None \<Rightarrow> phase2_orchestrator sha env cfg now xml note stale s1 h
            | Some (action, intent, t) \<Rightarrow>
                if action = ''tool'' then
                  (let (res, ms, s2) = heart_query env (tool_prompt xml intent) (if stale then [] else messages (ht_sm h)) s1;
                       h1 = (if stale then h else append_all now ms h)
                   in (s2, case res of
                        Inl e \<Rightarrow> h1
                      | Inr reply \<Rightarrow>
                          if trim_space reply \<noteq> [] \<and> \<not> str_contains (trim_space reply) no_action_tag
                          then deliver_chat sha cfg now (trim_space reply) h1 else h1))
                else if action = ''message'' then
                  (s1, if trim_space t = [] then h else deliver_chat sha cfg now (trim_space t) h)
                else (s1, h)))"

definition stale_after :: "heart_config \<Rightarrow> duration" where
  "stale_after cfg = (if 2 * hc_interval cfg < 10 * minute then 10 * minute else 2 * hc_interval cfg)"

definition conversation_stale :: "heart_config \<Rightarrow> gotime \<Rightarrow> state_manager \<Rightarrow> bool" where
  "conversation_stale cfg now sm \<longleftrightarrow>
     \<not> is_zero (last_user_activity sm) \<and> time_sub now (last_user_activity sm) > stale_after cfg"

definition staleness_note :: "heart_config \<Rightarrow> gotime \<Rightarrow> state_manager \<Rightarrow> string" where
  "staleness_note cfg now sm =
     (if is_zero (last_user_activity sm)
      then ''The user has not sent any messages this session. Do NOT initiate conversation.''
      else if conversation_stale cfg now sm
      then ''The user has been inactive for '' @ duration_str (time_sub now (last_user_activity sm) div minute * minute)
           @ ''. The conversation is STALE'' @ em_dash @ ''do NOT continue, revisit, or follow up on it.''
      else ''The user is actively chatting. Only take proactive action if truly urgent.'')"

section \<open>Pursuit of objectives\<close>

definition or_default :: "duration \<Rightarrow> duration \<Rightarrow> duration" where
  "or_default d x = (if x = 0 then d else x)"

definition pursuit_max_inactive :: duration where "pursuit_max_inactive = 24 * hour"

definition recently_active :: "duration \<Rightarrow> gotime \<Rightarrow> state_manager \<Rightarrow> bool" where
  "recently_active limit now sm \<longleftrightarrow>
     \<not> is_zero (last_user_activity sm) \<and> \<not> time_sub now (last_user_activity sm) > limit"

text \<open>The running tasks whose directive begins with a tag, as \<open>LIKE\<close> finds them.\<close>

definition tag_running :: "string \<Rightarrow> work_db \<Rightarrow> bool" where
  "tag_running tag db \<longleftrightarrow> list_ex (\<lambda>r. wi_status r = ''running'' \<and> like (tag @ ''%'') (wi_directive r)) (wi_rows db)"

definition pursuit_choice :: "duration \<Rightarrow> gotime \<Rightarrow> objective list \<Rightarrow> objective option" where
  "pursuit_choice cooldown now gs =
     find (\<lambda>g. case ob_last_pursued g of None \<Rightarrow> True | Some t \<Rightarrow> \<not> time_sub now t < cooldown) gs"

definition signal_capacity :: nat where "signal_capacity = 10"

definition push_signal :: "curiosity_signal \<Rightarrow> curiosity_signal list \<Rightarrow> curiosity_signal list" where
  "push_signal sg q = (if length q < signal_capacity then q @ [sg] else q)"

definition stuck_signal :: "objective \<Rightarrow> curiosity_signal" where
  "stuck_signal g = \<lparr>sg_source = ''objective'', sg_query = ''alternative approaches to: '' @ ob_summary g,
     sg_priority = 7, sg_objective = ob_id g\<rparr>"

text \<open>\<open>ok 0\<close> and \<open>ok 1\<close> are the two queries, the rest those of the launch.\<close>

definition pursue_objective ::
  "'s plan_env \<Rightarrow> (nat \<Rightarrow> bool) \<Rightarrow> string \<Rightarrow> heart_config \<Rightarrow> gotime \<Rightarrow> 's \<Rightarrow> 'h heart \<Rightarrow> 's \<times> 'h heart" where
  "pursue_objective penv ok err cfg now s h =
     (let cooldown = or_default (4 * hour) (hc_pursuit_cooldown cfg); db = ht_tracker h in
      if \<not> hc_cog cfg \<or> \<not> hc_db cfg then (s, h)
      else if time_sub now (ht_last_pursuit h) < cooldown then (s, h)
      else if \<not> recently_active pursuit_max_inactive now (ht_sm h) then (s, h)
      else if ok 0 \<and> tag_running ''[objective]'' (wt_items db) then (s, h)
      else (case Option.bind (list_active (ok 1) (wt_objectives db)) (pursuit_choice cooldown now) of
          None \<Rightarrow> (s, h)
        | Some g \<Rightarrow>
            (case (if ob_attempts g \<ge> 3 then ht_signals h else None) of
               Some q \<Rightarrow> (s, h\<lparr>ht_signals := Some (push_signal (stuck_signal g) q), ht_last_pursuit := now\<rparr>)
             | None \<Rightarrow>
                 (case launch_background_plan penv (\<lambda>n. ok (n + 2)) err now (''[objective] '' @ ob_summary g) 5 (ob_id g) s db of
                    (Inl e, s', tk) \<Rightarrow> (s', h\<lparr>ht_tracker := tk\<rparr>)
                  | (Inr i, s', tk) \<Rightarrow> (s', h\<lparr>ht_tracker := tk, ht_last_pursuit := now\<rparr>)))))"

section \<open>Curiosity\<close>

text \<open>\<open>Get\<close>, \<open>Set\<close>, \<open>Clamp\<close> and \<open>IsValidKey\<close> of \<open>adaptive\<close>.\<close>

definition adaptive_get :: "bool \<Rightarrow> (string \<rightharpoonup> rat) \<Rightarrow> string \<Rightarrow> rat \<Rightarrow> rat" where
  "adaptive_get ok ps key d = (case (if ok then ps key else None) of None \<Rightarrow> d | Some v \<Rightarrow> v)"

definition param_ranges :: "string \<rightharpoonup> rat \<times> rat" where
  "param_ranges = [''triage_conversation_threshold'' \<mapsto> (1, 8), ''triage_conversation_unverified_threshold'' \<mapsto> (3, 8),
     ''triage_email_threshold'' \<mapsto> (1, 5), ''curiosity_cooldown_hours'' \<mapsto> (1 / 2, 6)]"

definition adaptive_clamp :: "string \<Rightarrow> rat \<Rightarrow> rat" where
  "adaptive_clamp key v =
     (case param_ranges key of None \<Rightarrow> v | Some (lo, hi) \<Rightarrow> if v < lo then lo else if v > hi then hi else v)"

definition is_valid_key :: "string \<Rightarrow> bool" where
  "is_valid_key key \<longleftrightarrow> param_ranges key \<noteq> None"

definition adaptive_set :: "bool \<Rightarrow> string \<Rightarrow> rat \<Rightarrow> (string \<rightharpoonup> rat) \<Rightarrow> (string \<rightharpoonup> rat)" where
  "adaptive_set ok key v ps = (if ok then ps(key \<mapsto> v) else ps)"

definition to_duration :: "rat \<Rightarrow> duration" where
  "to_duration q = (if 0 \<le> q then \<lfloor>q\<rfloor> else \<lceil>q\<rceil>)"

definition curiosity_cooldown :: "bool \<Rightarrow> heart_config \<Rightarrow> 'h heart \<Rightarrow> duration" where
  "curiosity_cooldown ok cfg h =
     (let c = or_default (2 * hour) (hc_curiosity_cooldown cfg) in
      if hc_db cfg
      then to_duration (adaptive_get ok (ht_params h) ''curiosity_cooldown_hours'' (of_int c / of_int hour) * of_int hour)
      else c)"

text \<open>
  \<open>runCuriosityIfReady\<close>; \<open>summaries\<close> are the recent memories (\<open>None\<close>: the query failed), \<open>gate\<close> is the
  gatekeeper for the content of the prompt.
\<close>

definition curiosity_content :: "objective list \<Rightarrow> string list \<Rightarrow> string" where
  "curiosity_content gs summaries =
     (if gs \<noteq> [] then ''Active objectives:'' @ nl
        @ concat (map (\<lambda>(i, g). nat_dec (i + 1) @ ''. '' @ ob_summary g @ nl) (enumerate 0 gs)) @ nl else [])
     @ ''Recent memories:'' @ nl @ str_join nl summaries"

definition research_question :: "string \<Rightarrow> string option" where
  "research_question raw =
     (case struct_members (Some (clean_llm_json raw)) of
        None \<Rightarrow> None
      | Some ms \<Rightarrow>
          (let names = [''directive'', ''reasoning'']; (d, e1) = arg_string names ''directive'' ms;
               (r, e2) = arg_string names ''reasoning'' ms
           in if e1 \<or> e2 \<or> d = [] then None else Some d))"

definition run_curiosity ::
  "'s plan_env \<Rightarrow> (nat \<Rightarrow> bool) \<Rightarrow> string \<Rightarrow> heart_config \<Rightarrow> gotime \<Rightarrow> string list option
     \<Rightarrow> (string \<Rightarrow> 's \<Rightarrow> (string + string) \<times> 's) \<Rightarrow> 's \<Rightarrow> 'h heart \<Rightarrow> 's \<times> 'h heart" where
  "run_curiosity penv ok err cfg now summaries gate s h =
     (if \<not> hc_cog cfg \<or> \<not> hc_db cfg \<or> \<not> hc_gatekeeper cfg then (s, h)
      else if time_sub now (ht_last_curiosity h) < curiosity_cooldown (ok 0) cfg h then (s, h)
      else if \<not> recently_active (6 * hour) now (ht_sm h) then (s, h)
      else if ok 1 \<and> tag_running ''[curiosity]'' (wt_items (ht_tracker h)) then (s, h)
      else (case summaries of
          None \<Rightarrow> (s, h)
        | Some ms \<Rightarrow>
            if length ms < 15 then (s, h)
            else
              (let gs = (case list_active (ok 2) (wt_objectives (ht_tracker h)) of None \<Rightarrow> [] | Some gs \<Rightarrow> gs) in
               case gate (curiosity_content gs ms) s of
                 (Inl e, s1) \<Rightarrow> (s1, h)
               | (Inr raw, s1) \<Rightarrow>
                   (case research_question raw of
                      None \<Rightarrow> (s1, h)
                    | Some q \<Rightarrow>
                        (case launch_background_plan penv (\<lambda>n. ok (n + 3)) err now (''[curiosity] '' @ q) 3 0 s1 (ht_tracker h) of
                           (Inl e, s2, tk) \<Rightarrow> (s2, h\<lparr>ht_tracker := tk\<rparr>)
                         | (Inr i, s2, tk) \<Rightarrow> (s2, h\<lparr>ht_tracker := tk, ht_last_curiosity := now\<rparr>))))))"

text \<open>The signal that the drain keeps: of the highest priority, the first.\<close>

definition best_signal :: "curiosity_signal list \<Rightarrow> curiosity_signal option" where
  "best_signal q = fold (\<lambda>sg best. case best of
     None \<Rightarrow> Some sg | Some b \<Rightarrow> if sg_priority sg > sg_priority b then Some sg else Some b) q None"

definition drain_signals ::
  "'s plan_env \<Rightarrow> (nat \<Rightarrow> bool) \<Rightarrow> string \<Rightarrow> heart_config \<Rightarrow> gotime \<Rightarrow> 's \<Rightarrow> 'h heart \<Rightarrow> 's \<times> 'h heart" where
  "drain_signals penv ok err cfg now s h =
     (case (if hc_cog cfg then ht_signals h else None) of
        None \<Rightarrow> (s, h)
      | Some q \<Rightarrow>
          (let h0 = h\<lparr>ht_signals := Some []\<rparr> in
           case best_signal q of
             None \<Rightarrow> (s, h0)
           | Some b \<Rightarrow>
               (let c = curiosity_cooldown (ok 0) cfg h; gap = (if c < 30 * minute then c else 30 * minute) in
                if time_sub now (ht_last_curiosity h) < gap then (s, h0)
                else (case launch_background_plan penv (\<lambda>n. ok (n + 1)) err now
                          (''[curiosity:'' @ sg_source b @ ''] '' @ sg_query b) (sg_priority b) (sg_objective b) s (ht_tracker h) of
                    (Inl e, s1, tk) \<Rightarrow> (s1, h0\<lparr>ht_tracker := tk\<rparr>)
                  | (Inr i, s1, tk) \<Rightarrow> (s1, h0\<lparr>ht_tracker := tk, ht_last_curiosity := now\<rparr>)))))"

section \<open>Maintenance and cognitive processing\<close>

text \<open>\<open>runMaintenanceIfDue\<close>, as far as it concerns the tables of the model.\<close>

definition prune_work_items :: "bool \<Rightarrow> gotime \<Rightarrow> int \<Rightarrow> work_db \<Rightarrow> work_db" where
  "prune_work_items ok now days db =
     (if ok then db\<lparr>wi_rows := filter (\<lambda>r. \<not> (finished_status (wi_status r)
        \<and> (case wi_completed r of None \<Rightarrow> False | Some t \<Rightarrow> t < now - days * day))) (wi_rows db)\<rparr>
      else db)"

definition with_items :: "(work_db \<Rightarrow> work_db) \<Rightarrow> 'h heart \<Rightarrow> 'h heart" where
  "with_items f h = h\<lparr>ht_tracker := (ht_tracker h)\<lparr>wt_items := f (wt_items (ht_tracker h))\<rparr>\<rparr>"

definition run_maintenance :: "bool \<Rightarrow> heart_config \<Rightarrow> gotime \<Rightarrow> 'h heart \<Rightarrow> 'h heart" where
  "run_maintenance ok cfg now h =
     (if \<not> hc_db cfg \<or> time_sub now (ht_last_maintenance h) < hc_maintenance cfg then h
      else with_items (if hc_work_ttl cfg > 0 then prune_work_items ok now (hc_work_ttl cfg) else id)
             (h\<lparr>ht_last_maintenance := now\<rparr>))"

text \<open>What a reflection does: the adaptive parameters it writes, and the insight it leaves in the conversation.\<close>

definition adaptive_write :: "bool \<Rightarrow> string \<times> rat \<times> string \<Rightarrow> 'h heart \<Rightarrow> 'h heart" where
  "adaptive_write ok w h =
     (case w of (key, v, reason) \<Rightarrow>
        (case (if key = ''curiosity_signal'' then ht_signals h else None) of
           Some q \<Rightarrow> h\<lparr>ht_signals := Some (push_signal
             \<lparr>sg_source = ''reflection'', sg_query = reason, sg_priority = to_duration v, sg_objective = 0\<rparr> q)\<rparr>
         | None \<Rightarrow>
             if \<not> is_valid_key key then h
             else h\<lparr>ht_params := adaptive_set ok key (adaptive_clamp key v) (ht_params h)\<rparr>))"

definition reflection_message :: "string \<Rightarrow> message" where
  "reflection_message summary = text_message ''user''
     (''[REFLECTION] A pattern was identified from recent memories:'' @ nl @ summary @ nl
      @ ''Use this if relevant to future interactions.'')"

definition trigger_reflection ::
  "(nat \<Rightarrow> bool) \<Rightarrow> gotime \<Rightarrow> (string \<times> rat \<times> string) list \<Rightarrow> string option \<Rightarrow> 'h heart \<Rightarrow> 'h heart" where
  "trigger_reflection ok now writes summary h =
     (let h1 = fold (\<lambda>(i, w). adaptive_write (ok i) w) (enumerate 0 writes) h in
      case summary of
        None \<Rightarrow> h1
      | Some t \<Rightarrow> if trim_space t = [] then h1 else append_all now [reflection_message t] h1)"

text \<open>
  \<open>runObjectiveInferenceIfReady\<close> and \<open>RunObjectiveInference\<close>: \<open>count\<close> and \<open>mems\<close> are the recent memories,
  \<open>think\<close> is the deep thinker on the content of its prompt.
\<close>

fun decode_inferred :: "json \<Rightarrow> (string \<times> string) \<times> bool" where
  "decode_inferred JNull = (([], []), False)"
| "decode_inferred (JObj ms) =
     (let names = [''objective'', ''evidence'', ''priority''];
          (g, e1) = arg_string names ''objective'' ms; (v, e2) = arg_string names ''evidence'' ms;
          (p, e3) = arg_string names ''priority'' ms
      in ((g, p), e1 \<or> e2 \<or> e3))"
| "decode_inferred _ = (([], []), True)"

fun decode_inferred_list :: "json \<Rightarrow> (string \<times> string) list \<times> bool" where
  "decode_inferred_list JNull = ([], False)"
| "decode_inferred_list (JArr vs) = (let rs = map decode_inferred vs in (map fst rs, list_ex snd rs))"
| "decode_inferred_list _ = ([], True)"

definition parse_inferred :: "string \<Rightarrow> (string \<times> string) list option" where
  "parse_inferred raw =
     (case struct_members (Some (clean_llm_json raw)) of
        None \<Rightarrow> None
      | Some ms \<Rightarrow>
          (let gs = map decode_inferred_list (arg_values [''objectives''] ''objectives'' ms)
           in if list_ex snd gs then None else Some (if gs = [] then [] else fst (last gs))))"

definition inference_content :: "string \<Rightarrow> string list \<Rightarrow> string" where
  "inference_content profile mems =
     ''## Identity Profile'' @ nl @ profile @ paragraph_break @ ''## Recent Memories (last 48h, high-salience)'' @ nl
     @ concat (map (\<lambda>(i, m). nat_dec (i + 1) @ ''. '' @ m @ nl) (enumerate 0 mems))"

definition inference_min_memories :: nat where "inference_min_memories = 10"

text \<open>The flag is false when the inference failed.\<close>

definition infer_objectives ::
  "(nat \<Rightarrow> bool) \<Rightarrow> gotime \<Rightarrow> string list option \<Rightarrow> string option \<Rightarrow> (string \<Rightarrow> 's \<Rightarrow> (string + string) \<times> 's)
     \<Rightarrow> 's \<Rightarrow> objectives_db \<Rightarrow> bool \<times> 's \<times> objectives_db" where
  "infer_objectives ok now mems profile think s db =
     (case mems of
        None \<Rightarrow> (False, s, db)
      | Some ms \<Rightarrow>
          if length ms < inference_min_memories then (True, s, db)
          else (case think (inference_content (case profile of None \<Rightarrow> ''{}'' | Some p \<Rightarrow> p) ms) s of
              (Inl e, s') \<Rightarrow> (False, s', db)
            | (Inr raw, s') \<Rightarrow>
                (case parse_inferred raw of
                   None \<Rightarrow> (False, s', db)
                 | Some gs \<Rightarrow> (True, s', snd (save_inferred ok now gs db)))))"

definition run_inference ::
  "(nat \<Rightarrow> bool) \<Rightarrow> heart_config \<Rightarrow> gotime \<Rightarrow> nat option \<Rightarrow> string list option \<Rightarrow> string option
     \<Rightarrow> (string \<Rightarrow> 's \<Rightarrow> (string + string) \<times> 's) \<Rightarrow> 's \<Rightarrow> 'h heart \<Rightarrow> 's \<times> 'h heart" where
  "run_inference ok cfg now count mems profile think s h =
     (if \<not> hc_cog cfg then (s, h)
      else if time_sub now (ht_last_inference h) < or_default (8 * hour) (hc_inference_cooldown cfg) then (s, h)
      else if \<not> recently_active (24 * hour) now (ht_sm h) then (s, h)
      else if (case count of None \<Rightarrow> True | Some n \<Rightarrow> n < inference_min_memories) then (s, h)
      else (let (done, s', db) = infer_objectives ok now mems profile think s (wt_objectives (ht_tracker h));
                h' = h\<lparr>ht_tracker := (ht_tracker h)\<lparr>wt_objectives := db\<rparr>\<rparr>
            in (s', if done then h'\<lparr>ht_last_inference := now\<rparr> else h')))"

text \<open>What the cognitive run finds in the memories, and the models it asks.\<close>

record 's cog_inputs =
  cg_count :: "int option"
  cg_since_reflection :: "int option"
  cg_writes :: "(string \<times> rat \<times> string) list"
  cg_insight :: "string option"
  cg_summaries :: "string list option"
  cg_gate :: "string \<Rightarrow> 's \<Rightarrow> (string + string) \<times> 's"
  cg_recent :: "nat option"
  cg_mems :: "string list option"
  cg_profile :: "string option"
  cg_think :: "string \<Rightarrow> 's \<Rightarrow> (string + string) \<times> 's"

definition cognitive_due :: "heart_config \<Rightarrow> gotime \<Rightarrow> int \<Rightarrow> 'h heart \<Rightarrow> bool" where
  "cognitive_due cfg now count h \<longleftrightarrow>
     (let lull = is_zero (last_user_activity (ht_sm h)) \<or> time_sub now (last_user_activity (ht_sm h)) \<ge> hc_lull cfg
      in (count \<ge> hc_buffer cfg \<and> lull) \<or> time_sub now (ht_last_cognitive h) \<ge> hc_ceiling cfg \<or> (ht_nudged h \<and> lull))"

definition reflection_due :: "heart_config \<Rightarrow> 's cog_inputs \<Rightarrow> bool" where
  "reflection_due cfg ci \<longleftrightarrow> hc_cog cfg \<and> hc_reflection_prompt cfg \<noteq> [] \<and> hc_reflection_after cfg > 0
     \<and> (case cg_since_reflection ci of None \<Rightarrow> False | Some n \<Rightarrow> n \<ge> hc_reflection_after cfg)"

text \<open>The sub-run \<open>ok k\<close> has its own queries. Episodes and profile only touch the memories.\<close>

definition run_cognitive ::
  "'s plan_env \<Rightarrow> (nat \<Rightarrow> nat \<Rightarrow> bool) \<Rightarrow> string \<Rightarrow> heart_config \<Rightarrow> gotime \<Rightarrow> 's cog_inputs \<Rightarrow> 's \<Rightarrow> 'h heart \<Rightarrow> 's \<times> 'h heart" where
  "run_cognitive penv ok err cfg now ci s h =
     (case (if hc_db cfg \<and> hc_embed cfg then cg_count ci else None) of
        None \<Rightarrow> (s, h)
      | Some n \<Rightarrow>
          if \<not> cognitive_due cfg now n h then (s, h)
          else
            (let h1 = h\<lparr>ht_nudged := False\<rparr>;
                 h2 = (if reflection_due cfg ci then trigger_reflection (ok 0) now (cg_writes ci) (cg_insight ci) h1 else h1);
                 (s3, h3) = run_curiosity penv (ok 1) err cfg now (cg_summaries ci) (cg_gate ci) s h2;
                 (s4, h4) = run_inference (ok 2) cfg now (cg_recent ci) (cg_mems ci) (cg_profile ci) (cg_think ci) s3 h3
             in (s4, h4\<lparr>ht_last_cognitive := now\<rparr>)))"

section \<open>The tick\<close>

text \<open>
  What a tick meets: for each query whether it succeeds, what the other tables hold, and what other
  goroutines do to the conversation between the critical sections of the slide.
\<close>

record 's tick_inputs =
  ti_env :: "'s heart_env"
  ti_plan :: "'s plan_env"
  ti_ok :: "nat \<Rightarrow> nat \<Rightarrow> bool"
  ti_err :: string
  ti_now :: gotime
  ti_zone :: duration
  ti_prefs :: "state_db"
  ti_scans :: "string \<Rightarrow> bool"
  ti_failures :: "failure_summary list"
  ti_max_messages :: int
  ti_cog :: "'s cog_inputs"
  ti_others :: "nat \<Rightarrow> state_manager \<Rightarrow> state_manager"

definition phase2 ::
  "(string \<Rightarrow> 'h) \<Rightarrow> heart_config \<Rightarrow> 's tick_inputs \<Rightarrow> 's \<Rightarrow> 'h heart \<Rightarrow> 's \<times> 'h heart" where
  "phase2 sha cfg ti s h =
     (let now = ti_now ti;
          xml = to_xml (ti_zone ti) (gather_heartbeat_context (ti_ok ti 0) (ti_zone ti) now (hc_db cfg) (ht_sm h)
                  (ht_tracker h) (ht_actions h) (ti_failures ti));
          stale = conversation_stale cfg now (ht_sm h); note = staleness_note cfg now (ht_sm h)
      in (if hc_gatekeeper cfg then phase2_gatekeeper else phase2_orchestrator) sha (ti_env ti) cfg now xml note stale s h)"

text \<open>\<open>heartbeatTick\<close>; a panic of the slide ends the tick, and is recovered.\<close>

definition heartbeat_tick ::
  "(string \<Rightarrow> 'h) \<Rightarrow> heart_config \<Rightarrow> 's tick_inputs \<Rightarrow> 's \<Rightarrow> 'h heart \<Rightarrow> 's \<times> 'h heart" where
  "heartbeat_tick sha cfg ti s h =
     (let now = ti_now ti; ok = ti_ok ti;
          h0 = h\<lparr>ht_tracker := snd (kill_hung_work (ok 1 0) now (ht_tracker h)),
                 ht_sm := refresh_prefs (ok 2 0) (ti_scans ti) (ti_prefs ti) (ht_sm h)\<rparr>;
          (s1, h1) = phase2 sha cfg ti s h0
      in case (if hc_db cfg \<and> hc_embed cfg
               then slide_context sha (ti_zone ti) now (ti_max_messages ti) (ti_others ti) (ht_sm h1)
               else Ret (None, False, ht_sm h1)) of
           Panic \<Rightarrow> (s1, h1)
         | Ret (arch, done, sm) \<Rightarrow>
             (let (s2, h2) = pursue_objective (ti_plan ti) (ok 3) (ti_err ti) cfg now s1 (h1\<lparr>ht_sm := sm\<rparr>);
                  (s3, h3) = drain_signals (ti_plan ti) (ok 4) (ti_err ti) cfg now s2 h2;
                  h4 = run_maintenance (ok 5 0) cfg now h3
              in run_cognitive (ti_plan ti) (\<lambda>k. ok (k + 6)) (ti_err ti) cfg now (ti_cog ti) s3 h4))"

end
