(* ===== verification/HeartSystem.thy ===== *)
theory HeartSystem
  imports Heartbeat
begin

text \<open>
  The heartbeat over time: what a tick says to the user, the bounds that every tick keeps, how often
  curiosity runs, and that objectives are pursued one at a time.
\<close>

section \<open>Phase 2\<close>

text \<open>The notice that the orchestrator ran out of rounds is not subject to the comparison of hashes.\<close>

definition unfinished_notice :: string where
  "unfinished_notice = ''I started a background task but couldn'' @ [CHR 0x27] @ ''t complete it. You may want to check in.''"

text \<open>What a phase may do: nothing, a notice, or one new message, which is recorded as an action.\<close>

definition says :: "(string \<Rightarrow> 'h) \<Rightarrow> heart_config \<Rightarrow> gotime \<Rightarrow> 'h heart \<Rightarrow> 'h heart \<Rightarrow> bool" where
  "says sha cfg now h h' \<longleftrightarrow>
     (ht_sent h' = ht_sent h \<and> ht_last_hash h' = ht_last_hash h \<and> ht_actions h' = ht_actions h) \<or>
     (ht_sent h' = ht_sent h @ [unfinished_notice] \<and> ht_last_hash h' = ht_last_hash h \<and> ht_actions h' = ht_actions h) \<or>
     (\<exists>t. t \<noteq> [] \<and> ht_last_hash h \<noteq> Some (sha t) \<and> ht_last_hash h' = Some (sha t) \<and>
        ht_sent h' = ht_sent h @ (if hc_notifier cfg then [t] else []) \<and>
        ht_actions h' = record_action now ''heartbeat'' (truncate_str t 100) (ht_actions h))"

definition spoke :: "(string \<Rightarrow> 'h) \<Rightarrow> heart_config \<Rightarrow> 'h heart \<Rightarrow> 'h heart \<Rightarrow> bool" where
  "spoke sha cfg h h' \<longleftrightarrow>
     (ht_sent h' \<in> {ht_sent h, ht_sent h @ [unfinished_notice]} \<and> ht_last_hash h' = ht_last_hash h) \<or>
     (\<exists>t. ht_last_hash h \<noteq> Some (sha t) \<and> ht_last_hash h' = Some (sha t)
        \<and> ht_sent h' = ht_sent h @ (if hc_notifier cfg then [t] else []))"

lemma says_spoke: "says sha cfg now h h' \<Longrightarrow> spoke sha cfg h h'"
  by (auto simp: says_def spoke_def)

lemma deliver_routine_spoke: "spoke sha cfg h (deliver_routine sha cfg now name reply h)"
proof (cases "routine_output reply")
  case (Some t)
  show ?thesis
  proof (cases "Some (sha t) = ht_last_hash h")
    case False
    then have "ht_last_hash h \<noteq> Some (sha t) \<and> ht_last_hash (deliver_routine sha cfg now name reply h) = Some (sha t)
        \<and> ht_sent (deliver_routine sha cfg now name reply h) = ht_sent h @ (if hc_notifier cfg then [t] else [])"
      using Some by (simp add: deliver_routine_def send_deduped_def notify_def append_all_def)
    then show ?thesis unfolding spoke_def by blast
  qed (use Some in \<open>simp add: spoke_def deliver_routine_def send_deduped_def\<close>)
qed (simp add: spoke_def deliver_routine_def)

text \<open>The parts of the state that phase 2 leaves alone.\<close>

definition same_rest :: "'h heart \<Rightarrow> 'h heart \<Rightarrow> bool" where
  "same_rest h h' \<longleftrightarrow> ht_tracker h' = ht_tracker h \<and> ht_signals h' = ht_signals h \<and> ht_params h' = ht_params h
     \<and> ht_nudged h' = ht_nudged h \<and> ht_last_pursuit h' = ht_last_pursuit h \<and> ht_last_curiosity h' = ht_last_curiosity h
     \<and> ht_last_inference h' = ht_last_inference h \<and> ht_last_cognitive h' = ht_last_cognitive h
     \<and> ht_last_maintenance h' = ht_last_maintenance h"

lemma says_refl [simp]: "says sha cfg now h h"
  by (simp add: says_def)

lemma deliver_says: "t \<noteq> [] \<Longrightarrow> says sha cfg now h (deliver_chat sha cfg now t h)"
  by (auto simp: says_def deliver_chat_def send_deduped_def notify_def)

lemma notice_says: "says sha cfg now h (notify cfg unfinished_notice h)"
  by (simp add: says_def notify_def)

lemma append_says: "says sha cfg now (if stale then h else append_all n ms h) x = says sha cfg now h x"
  by (simp add: says_def append_all_def)

lemma deliver_keeps [simp]:
  "ht_sm (deliver_chat sha cfg now t h) = ht_sm h" "same_rest h0 (deliver_chat sha cfg now t h) = same_rest h0 h"
  by (simp_all add: deliver_chat_def send_deduped_def notify_def same_rest_def)

lemma notify_keeps [simp]:
  "ht_sm (notify cfg t h) = ht_sm h" "same_rest h0 (notify cfg t h) = same_rest h0 h"
  by (simp_all add: notify_def same_rest_def)

lemma append_keeps [simp]: "same_rest h0 (append_all now ms h) = same_rest h0 h"
  by (simp add: append_all_def same_rest_def)

lemma same_rest_refl [simp]: "same_rest h h"
  by (simp add: same_rest_def)

lemma append_rest: "same_rest h (if stale then h else append_all n ms h)"
  by simp

lemma phase2_orchestrator_says:
  assumes "phase2_orchestrator sha env cfg now xml note stale s h = (s', h')"
  shows "says sha cfg now h h'" "same_rest h h'" "stale \<Longrightarrow> ht_sm h' = ht_sm h"
proof -
  obtain res ms s2 where q: "heart_query env xml ((if stale then [] else messages (ht_sm h))
      @ [text_message ''user'' (executive_tag @ replace_first (he_executive_prompt env) ''%s'' note)]) s = (res, ms, s2)"
    by (rule prod_cases3)
  define h1 where "h1 = (if stale then h else append_all now ms h)"
  have h1: "says sha cfg now h x = says sha cfg now h1 x" "same_rest h h1" "stale \<Longrightarrow> h1 = h" for x
    by (simp_all add: h1_def append_says)
  note e = assms [unfolded phase2_orchestrator_def Let_def q prod.case, folded h1_def]
  have "h' = h1 \<or> h' = notify cfg unfinished_notice h1 \<or> (\<exists>t. t \<noteq> [] \<and> h' = deliver_chat sha cfg now t h1)"
    using e unfolding unfinished_notice_def by (cases res) (simp_all split: if_splits, blast+)
  then have "says sha cfg now h1 h' \<and> same_rest h h' \<and> ht_sm h' = ht_sm h1"
    by (elim disjE exE conjE) (simp_all add: h1(2) notice_says deliver_says)
  note r = this
  show "says sha cfg now h h'" using r by (simp only: h1(1))
  show "same_rest h h'" using r by simp
  show "stale \<Longrightarrow> ht_sm h' = ht_sm h" using r h1(3) by simp
qed

lemma phase2_gatekeeper_says:
  assumes "phase2_gatekeeper sha env cfg now xml note stale s h = (s', h')"
  shows "says sha cfg now h h'" "same_rest h h'" "stale \<Longrightarrow> ht_sm h' = ht_sm h"
proof -
  have quiet: "says sha cfg now h h \<and> same_rest h h \<and> ht_sm h = ht_sm h" by simp
  have tool: "says sha cfg now h h' \<and> same_rest h h' \<and> (stale \<longrightarrow> ht_sm h' = ht_sm h)"
    if q: "heart_query env p hist s1 = (res, ms, s2)"
      and e: "(case res of Inl e \<Rightarrow> (if stale then h else append_all now ms h)
             | Inr reply \<Rightarrow> if trim_space reply \<noteq> [] \<and> \<not> str_contains (trim_space reply) no_action_tag
                 then deliver_chat sha cfg now (trim_space reply) (if stale then h else append_all now ms h)
                 else (if stale then h else append_all now ms h)) = h'" for p hist s1 res ms s2
  proof -
    define h1 where "h1 = (if stale then h else append_all now ms h)"
    have h1: "says sha cfg now h x = says sha cfg now h1 x" "same_rest h h1" "stale \<Longrightarrow> h1 = h" for x
      by (simp_all add: h1_def append_says)
    have "h' = h1 \<or> (\<exists>t. t \<noteq> [] \<and> h' = deliver_chat sha cfg now t h1)"
      using e [folded h1_def] by (cases res) (simp_all split: if_splits, blast+)
    then have "says sha cfg now h1 h' \<and> same_rest h h' \<and> ht_sm h' = ht_sm h1"
      by (elim disjE exE conjE) (simp_all add: h1(2) deliver_says)
    note r = this
    have "says sha cfg now h h'" unfolding h1(1) by (rule r [THEN conjunct1])
    moreover have "stale \<longrightarrow> ht_sm h' = ht_sm h" using r h1(3) by auto
    ultimately show ?thesis using r by blast
  qed
  have said: "says sha cfg now h h' \<and> same_rest h h' \<and> (stale \<longrightarrow> ht_sm h' = ht_sm h)"
    if "h' = h \<or> (\<exists>t. t \<noteq> [] \<and> h' = deliver_chat sha cfg now t h)"
    using that by (elim disjE exE conjE) (simp_all add: deliver_says)
  obtain out s1 where g: "he_gate env (replace_first (he_gate_prompt env) ''%s'' note) xml s = (out, s1)"
    by (rule prod.exhaust)
  have "says sha cfg now h h' \<and> same_rest h h' \<and> (stale \<longrightarrow> ht_sm h' = ht_sm h)"
  proof (cases out)
    case (Inl err)
    then have "h' = h" using assms by (simp add: phase2_gatekeeper_def g)
    then show ?thesis using said by blast
  next
    case (Inr raw)
    show ?thesis
    proof (cases "gate_decision (trim_space raw)")
      case None
      then have "h' = h \<or> phase2_orchestrator sha env cfg now xml note stale s1 h = (s', h')"
        using assms Inr by (simp add: phase2_gatekeeper_def g split: if_splits)
      then show ?thesis
      proof
        assume "phase2_orchestrator sha env cfg now xml note stale s1 h = (s', h')"
        from phase2_orchestrator_says [OF this] show ?thesis by blast
      qed (use said in blast)
    next
      case (Some d)
      obtain action intent t where d: "d = (action, intent, t)" by (rule prod_cases3)
      obtain res ms s2 where q: "heart_query env (tool_prompt xml intent) (if stale then [] else messages (ht_sm h)) s1 = (res, ms, s2)"
        by (rule prod_cases3)
      note e = assms [unfolded phase2_gatekeeper_def g Inr prod.case sum.case Some option.case d Let_def q]
      show ?thesis
      proof (cases "trim_space raw \<noteq> [] \<and> action = ''tool''")
        case True
        show ?thesis by (rule tool [OF q]) (use e True in simp)
      next
        case False
        with e have "h' = h \<or> (\<exists>t. t \<noteq> [] \<and> h' = deliver_chat sha cfg now t h)" by (simp split: if_splits) blast+
        then show ?thesis by (rule said)
      qed
    qed
  qed
  then show "says sha cfg now h h'" "same_rest h h'" "stale \<Longrightarrow> ht_sm h' = ht_sm h" by auto
qed

lemma phase2_says:
  assumes "phase2 sha cfg ti s h = (s', h')"
  shows "says sha cfg (ti_now ti) h h'" "same_rest h h'"
    "conversation_stale cfg (ti_now ti) (ht_sm h) \<Longrightarrow> ht_sm h' = ht_sm h"
  using assms phase2_orchestrator_says [of sha "ti_env ti" cfg "ti_now ti" _ _ _ s h s' h']
    phase2_gatekeeper_says [of sha "ti_env ti" cfg "ti_now ti" _ _ _ s h s' h']
  unfolding phase2_def Let_def by (simp_all split: if_splits)

section \<open>Launches\<close>

definition tagged :: "string \<Rightarrow> work_item \<Rightarrow> bool" where
  "tagged tag r \<longleftrightarrow> wi_status r = ''running'' \<and> like (tag @ ''%'') (wi_directive r)"

definition running_tagged :: "string \<Rightarrow> work_db \<Rightarrow> nat" where
  "running_tagged tag db = length (filter (tagged tag) (wi_rows db))"

lemma tag_running_count: "tag_running tag db \<longleftrightarrow> running_tagged tag db \<noteq> 0"
  by (auto simp: tag_running_def running_tagged_def tagged_def list_ex_iff filter_empty_conv)

lemma launch_rows:
  assumes "launch_background_plan penv ok err now d prio oid s tk = (res, s', tk')"
  shows "case res of Inl e \<Rightarrow> tk' = tk
     | Inr i \<Rightarrow> \<exists>r. wi_rows (wt_items tk') = wi_rows (wt_items tk) @ [r] \<and> wi_directive r = d \<and> wi_status r = ''running''"
  using assms
  by (auto simp: launch_background_plan_def start_work_def insert_item_def blank_item_def Let_def
      split: prod.splits sum.splits if_splits)

lemma launch_tagged:
  assumes "launch_background_plan penv ok err now d prio oid s tk = (res, s', tk')"
  shows "running_tagged tag (wt_items tk')
     = running_tagged tag (wt_items tk) + (case res of Inl e \<Rightarrow> 0 | Inr i \<Rightarrow> if like (tag @ ''%'') d then 1 else 0)"
  using launch_rows [OF assms] by (auto simp: running_tagged_def tagged_def split: sum.splits)

text \<open>The rows from a given id on, and what the launch of a plan adds to them.\<close>

definition fresh :: "int \<Rightarrow> work_db \<Rightarrow> work_item list" where
  "fresh n db = filter (\<lambda>r. n \<le> wi_id r) (wi_rows db)"

definition adds :: "int \<Rightarrow> (string \<Rightarrow> bool) \<Rightarrow> bool \<Rightarrow> work_db \<Rightarrow> work_db \<Rightarrow> bool" where
  "adds n P launched db db' \<longleftrightarrow> wi_next db \<le> wi_next db' \<and>
     (if launched then \<exists>r. fresh n db' = fresh n db @ [r] \<and> P (wi_directive r) \<and> wi_status r = ''running''
      else fresh n db' = fresh n db)"

lemma adds_refl [simp]: "adds n P False db db"
  by (simp add: adds_def)

lemma launch_adds:
  assumes "launch_background_plan penv ok err now d prio oid s tk = (res, s', tk')" "n \<le> wi_next (wt_items tk)" "P d"
  shows "adds n P (\<exists>i. res = Inr i) (wt_items tk) (wt_items tk')"
  using assms
  by (auto simp: launch_background_plan_def start_work_def insert_item_def blank_item_def Let_def adds_def fresh_def
      split: prod.splits sum.splits if_splits)

lemma objective_tag_likes [simp]:
  "\<not> like ''[objective]%'' (''[curiosity:'' @ x)" "\<not> like ''[objective]%'' (''[curiosity] '' @ x)"
  "\<not> like ''[curiosity]%'' (''[curiosity:'' @ x)"
  by simp_all

lemma running_change_items:
  assumes "\<And>r. P r \<Longrightarrow> wi_status (f r) \<noteq> ''running''"
  shows "running_tagged tag (change_items P f db) \<le> running_tagged tag db"
proof -
  have "length (filter (tagged tag) (map (\<lambda>r. if P r then f r else r) rs)) \<le> length (filter (tagged tag) rs)" for rs
    using assms by (induction rs) (auto simp: tagged_def)
  then show ?thesis by (simp add: running_tagged_def change_items_def)
qed

lemma kill_tagged: "running_tagged tag (wt_items (snd (kill_hung_work ok now tk))) \<le> running_tagged tag (wt_items tk)"
proof -
  have kill: "running_tagged tag (wt_items (kill_row ok now i t)) \<le> running_tagged tag (wt_items t)" for i t
    by (auto simp: kill_row_def update_work_def intro: running_change_items)
  have "running_tagged tag (wt_items (foldl (\<lambda>t i. kill_row ok now i t) t is)) \<le> running_tagged tag (wt_items t)" for t "is"
  proof (induction "is" arbitrary: t)
    case (Cons i "is")
    from Cons.IH [of "kill_row ok now i t"] kill [of i t] show ?case by simp
  qed simp
  from this [of "watch_query ok now tk"] show ?thesis by (simp add: kill_hung_work_def watch_query_def Let_def)
qed

lemma kill_fresh:
  "map wi_id (wi_rows (wt_items (snd (kill_hung_work ok now tk)))) = map wi_id (wi_rows (wt_items tk))
   \<and> wi_next (wt_items (snd (kill_hung_work ok now tk))) = wi_next (wt_items tk)"
proof -
  have kill: "map wi_id (wi_rows (wt_items (kill_row ok now i t))) = map wi_id (wi_rows (wt_items t))
      \<and> wi_next (wt_items (kill_row ok now i t)) = wi_next (wt_items t)" for i t
    by (simp add: kill_row_def update_work_def change_items_def)
  have "map wi_id (wi_rows (wt_items (foldl (\<lambda>t i. kill_row ok now i t) t is))) = map wi_id (wi_rows (wt_items t))
      \<and> wi_next (wt_items (foldl (\<lambda>t i. kill_row ok now i t) t is)) = wi_next (wt_items t)" for t "is"
    using kill by (induction "is" arbitrary: t) simp_all
  from this [of "watch_query ok now tk" "wt_hung (watch_query ok now tk)"] show ?thesis
    by (simp add: kill_hung_work_def watch_query_def Let_def)
qed

section \<open>What the later phases touch\<close>

lemma pursue_frame:
  assumes "pursue_objective penv ok err cfg now s h = (s', h')"
  shows "ht_sent h' = ht_sent h \<and> ht_last_hash h' = ht_last_hash h \<and> ht_params h' = ht_params h \<and> ht_actions h' = ht_actions h \<and> ht_last_curiosity h' = ht_last_curiosity h
     \<and> (ht_signals h' = ht_signals h \<or> (\<exists>q sg. ht_signals h = Some q \<and> ht_signals h' = Some (push_signal sg q)))
     \<and> (ht_last_pursuit h' = ht_last_pursuit h \<or>
        (ht_last_pursuit h' = now \<and> or_default (4 * hour) (hc_pursuit_cooldown cfg) \<le> time_sub now (ht_last_pursuit h)))
     \<and> (ok 0 \<longrightarrow> running_tagged ''[objective]'' (wt_items (ht_tracker h)) \<le> 1
         \<longrightarrow> running_tagged ''[objective]'' (wt_items (ht_tracker h')) \<le> 1)"
proof -
  have l: "running_tagged ''[objective]'' (wt_items tk') \<le> 1"
    if "launch_background_plan penv okl err now d prio oid s tk = (res, s1, tk')"
      "ok 0 \<longrightarrow> \<not> tag_running ''[objective]'' (wt_items tk)" "ok 0" for okl d prio oid tk res s1 tk'
    using launch_tagged [OF that(1), of "''[objective]''"] that(2,3) by (auto simp: tag_running_count split: sum.splits if_splits)
  show ?thesis
    using assms unfolding pursue_objective_def Let_def
    by (auto simp: not_less split: if_splits option.splits prod.splits sum.splits dest: l)
qed

lemma drain_frame:
  assumes "drain_signals penv ok err cfg now s h = (s', h')"
  shows "ht_sent h' = ht_sent h \<and> ht_last_hash h' = ht_last_hash h \<and> ht_params h' = ht_params h \<and> ht_actions h' = ht_actions h \<and> ht_last_pursuit h' = ht_last_pursuit h
     \<and> (ht_signals h' = ht_signals h \<or> ht_signals h' = Some [])
     \<and> (ht_last_curiosity h' = ht_last_curiosity h \<or>
        (ht_last_curiosity h' = now \<and> min (curiosity_cooldown (ok 0) cfg h) (30 * minute) \<le> time_sub now (ht_last_curiosity h)))
     \<and> running_tagged ''[objective]'' (wt_items (ht_tracker h')) = running_tagged ''[objective]'' (wt_items (ht_tracker h))"
proof -
  have l: "running_tagged ''[objective]'' (wt_items tk') = running_tagged ''[objective]'' (wt_items tk)"
    if "launch_background_plan penv okl err now (''[curiosity:'' @ d) prio oid s tk = (res, s1, tk')"
    for okl d prio oid tk res s1 tk'
    using launch_tagged [OF that(1), of "''[objective]''"] objective_tag_likes(1) by (auto split: sum.splits)
  show ?thesis
  proof (cases "if hc_cog cfg then ht_signals h else None")
    case None
    then show ?thesis using assms by (simp add: drain_signals_def)
  next
    case (Some q)
    show ?thesis
    proof (cases "best_signal q")
      case None
      then show ?thesis using assms Some by (auto simp: drain_signals_def Let_def)
    next
      case b: (Some b)
      obtain res s1 tk where L: "launch_background_plan penv (\<lambda>n. ok (n + 1)) err now
          (''[curiosity:'' @ sg_source b @ ''] '' @ sg_query b) (sg_priority b) (sg_objective b) s (ht_tracker h) = (res, s1, tk)"
        by (rule prod_cases3)
      note e = assms [unfolded drain_signals_def Some option.case b Let_def L prod.case]
      show ?thesis
        using e l [OF L] by (cases res) (auto simp: not_less min_def split: if_splits)
    qed
  qed
qed

lemma curiosity_frame:
  assumes "run_curiosity penv ok err cfg now summaries gate s h = (s', h')"
  shows "ht_sent h' = ht_sent h \<and> ht_last_hash h' = ht_last_hash h \<and> ht_params h' = ht_params h \<and> ht_actions h' = ht_actions h \<and> ht_signals h' = ht_signals h
     \<and> ht_last_pursuit h' = ht_last_pursuit h
     \<and> (ht_last_curiosity h' = ht_last_curiosity h \<or>
        (ht_last_curiosity h' = now \<and> curiosity_cooldown (ok 0) cfg h \<le> time_sub now (ht_last_curiosity h)))
     \<and> running_tagged ''[objective]'' (wt_items (ht_tracker h')) = running_tagged ''[objective]'' (wt_items (ht_tracker h))"
proof -
  have l: "running_tagged ''[objective]'' (wt_items tk') = running_tagged ''[objective]'' (wt_items tk)"
    if "launch_background_plan penv okl err now (''[curiosity] '' @ d) prio oid s tk = (res, s1, tk')"
    for okl d prio oid tk res s1 tk' s
    using launch_tagged [OF that(1), of "''[objective]''"] objective_tag_likes(2) by (auto split: sum.splits)
  have quiet: ?thesis if "h' = h" using that by simp
  obtain out s1 where g: "gate (curiosity_content (case list_active (ok 2) (wt_objectives (ht_tracker h)) of None \<Rightarrow> [] | Some gs \<Rightarrow> gs)
      (the summaries)) s = (out, s1)" by (rule prod.exhaust)
  show ?thesis
  proof (cases "\<exists>raw q. out = Inr raw \<and> research_question raw = Some q")
    case False
    then have "h' = h" using assms g unfolding run_curiosity_def Let_def
      by (auto split: if_splits option.splits sum.splits)
    then show ?thesis by (rule quiet)
  next
    case True
    then obtain raw q where r: "out = Inr raw" "research_question raw = Some q" by blast
    obtain res s2 tk where L: "launch_background_plan penv (\<lambda>n. ok (n + 3)) err now (''[curiosity] '' @ q) 3 0 s1 (ht_tracker h)
        = (res, s2, tk)" by (rule prod_cases3)
    have "h' = h \<or> (case res of Inl e \<Rightarrow> h' = h\<lparr>ht_tracker := tk\<rparr> | Inr i \<Rightarrow> h' = h\<lparr>ht_tracker := tk, ht_last_curiosity := now\<rparr>
        \<and> curiosity_cooldown (ok 0) cfg h \<le> time_sub now (ht_last_curiosity h))"
    proof (cases summaries)
      case (Some ms)
      with g r L assms show ?thesis unfolding run_curiosity_def Let_def
        by (cases res) (simp_all add: not_less split: if_splits)
    qed (use assms in \<open>simp add: run_curiosity_def split: if_splits\<close>)
    then show ?thesis using l [OF L] by (cases res) auto
  qed
qed

section \<open>What the later phases launch\<close>

definition pursuit_work :: "string \<Rightarrow> bool" where "pursuit_work d \<longleftrightarrow> has_prefix d ''[objective] ''"

definition curiosity_work :: "string \<Rightarrow> bool" where "curiosity_work d \<longleftrightarrow> has_prefix d ''[curiosity''"

abbreviation items_of :: "'h heart \<Rightarrow> work_db" where "items_of h \<equiv> wt_items (ht_tracker h)"

lemma pursue_adds:
  assumes "pursue_objective penv ok err cfg now s h = (s', h')" "n \<le> wi_next (items_of h)"
  shows "\<exists>b. adds n pursuit_work b (items_of h) (items_of h') \<and>
     (b \<longrightarrow> ht_last_pursuit h' = now \<and> or_default (4 * hour) (hc_pursuit_cooldown cfg) \<le> time_sub now (ht_last_pursuit h))"
proof -
  let ?c = "or_default (4 * hour) (hc_pursuit_cooldown cfg)"
  have "ht_tracker h' = ht_tracker h \<or>
      (\<exists>okl x prio oid res s1. launch_background_plan penv okl err now (''[objective] '' @ x) prio oid s (ht_tracker h) = (res, s1, ht_tracker h')
        \<and> ((\<exists>i. res = Inr i) \<longrightarrow> ht_last_pursuit h' = now \<and> ?c \<le> time_sub now (ht_last_pursuit h)))"
    using assms(1) unfolding pursue_objective_def Let_def
    by (auto simp: not_less split: if_splits option.splits prod.splits sum.splits) blast+
  then show ?thesis
  proof (elim disjE exE conjE)
    fix okl x prio oid res s1
    assume L: "launch_background_plan penv okl err now (''[objective] '' @ x) prio oid s (ht_tracker h) = (res, s1, ht_tracker h')"
      and l: "(\<exists>i. res = Inr i) \<longrightarrow> ht_last_pursuit h' = now \<and> ?c \<le> time_sub now (ht_last_pursuit h)"
    from launch_adds [OF L assms(2), of pursuit_work] l show ?thesis by (auto simp: pursuit_work_def has_prefix_def)
  qed (auto intro!: exI [of _ False])
qed

lemma drain_adds:
  assumes "drain_signals penv ok err cfg now s h = (s', h')" "n \<le> wi_next (items_of h)"
  shows "\<exists>b. adds n curiosity_work b (items_of h) (items_of h') \<and>
     (b \<longrightarrow> ht_last_curiosity h' = now \<and> min (curiosity_cooldown (ok 0) cfg h) (30 * minute) \<le> time_sub now (ht_last_curiosity h))"
proof -
  let ?c = "min (curiosity_cooldown (ok 0) cfg h) (30 * minute)"
  have "ht_tracker h' = ht_tracker h \<or>
      (\<exists>okl x prio oid res s1. launch_background_plan penv okl err now (''[curiosity:'' @ x) prio oid s (ht_tracker h) = (res, s1, ht_tracker h')
        \<and> ((\<exists>i. res = Inr i) \<longrightarrow> ht_last_curiosity h' = now \<and> ?c \<le> time_sub now (ht_last_curiosity h)))"
  proof (cases "Option.bind (if hc_cog cfg then ht_signals h else None) best_signal")
    case None
    then show ?thesis using assms(1) by (auto simp: drain_signals_def Let_def split: option.splits if_splits)
  next
    case (Some b)
    then obtain q where q: "(if hc_cog cfg then ht_signals h else None) = Some q" "best_signal q = Some b"
      by (auto simp: bind_eq_Some_conv)
    obtain res s1 tk where L: "launch_background_plan penv (\<lambda>n. ok (n + 1)) err now
        (''[curiosity:'' @ sg_source b @ ''] '' @ sg_query b) (sg_priority b) (sg_objective b) s (ht_tracker h) = (res, s1, tk)"
      by (rule prod_cases3)
    note e = assms(1) [unfolded drain_signals_def q option.case Let_def L prod.case]
    show ?thesis
    proof (cases "ht_tracker h' = ht_tracker h")
      case False
      with e have "ht_tracker h' = tk" "(\<exists>i. res = Inr i) \<longrightarrow> ht_last_curiosity h' = now \<and> ?c \<le> time_sub now (ht_last_curiosity h)"
        by (cases res; auto simp: not_less min_def split: if_splits)+
      with L show ?thesis by blast
    qed simp
  qed
  then show ?thesis
  proof (elim disjE exE conjE)
    fix okl x prio oid res s1
    assume L: "launch_background_plan penv okl err now (''[curiosity:'' @ x) prio oid s (ht_tracker h) = (res, s1, ht_tracker h')"
      and l: "(\<exists>i. res = Inr i) \<longrightarrow> ht_last_curiosity h' = now \<and> ?c \<le> time_sub now (ht_last_curiosity h)"
    from launch_adds [OF L assms(2), of curiosity_work] l show ?thesis by (auto simp: curiosity_work_def has_prefix_def)
  qed (auto intro!: exI [of _ False])
qed

lemma curiosity_adds:
  assumes "run_curiosity penv ok err cfg now summaries gate s h = (s', h')" "n \<le> wi_next (items_of h)"
  shows "\<exists>b. adds n curiosity_work b (items_of h) (items_of h') \<and>
     (b \<longrightarrow> ht_last_curiosity h' = now \<and> curiosity_cooldown (ok 0) cfg h \<le> time_sub now (ht_last_curiosity h))"
proof -
  let ?c = "curiosity_cooldown (ok 0) cfg h"
  have "ht_tracker h' = ht_tracker h \<or>
      (\<exists>okl x prio oid res s0 s1. launch_background_plan penv okl err now (''[curiosity] '' @ x) prio oid s0 (ht_tracker h) = (res, s1, ht_tracker h')
        \<and> ((\<exists>i. res = Inr i) \<longrightarrow> ht_last_curiosity h' = now \<and> ?c \<le> time_sub now (ht_last_curiosity h)))"
    using assms(1) unfolding run_curiosity_def Let_def
    by (auto simp: not_less split: if_splits option.splits prod.splits sum.splits) blast+
  then show ?thesis
  proof (elim disjE exE conjE)
    fix okl x prio oid res s0 s1
    assume L: "launch_background_plan penv okl err now (''[curiosity] '' @ x) prio oid s0 (ht_tracker h) = (res, s1, ht_tracker h')"
      and l: "(\<exists>i. res = Inr i) \<longrightarrow> ht_last_curiosity h' = now \<and> ?c \<le> time_sub now (ht_last_curiosity h)"
    from launch_adds [OF L assms(2), of curiosity_work] l show ?thesis by (auto simp: curiosity_work_def has_prefix_def)
  qed (auto intro!: exI [of _ False])
qed

section \<open>Bounds\<close>

definition params_ok :: "(string \<rightharpoonup> rat) \<Rightarrow> bool" where
  "params_ok ps \<longleftrightarrow> (\<forall>key lo hi v. param_ranges key = Some (lo, hi) \<longrightarrow> ps key = Some v \<longrightarrow> lo \<le> v \<and> v \<le> hi)"

definition heart_ok :: "'h heart \<Rightarrow> bool" where
  "heart_ok h \<longleftrightarrow> length (ht_actions h) \<le> 5 \<and> (\<forall>q. ht_signals h = Some q \<longrightarrow> length q \<le> signal_capacity) \<and> params_ok (ht_params h)"

lemma length_push_signal: "length q \<le> signal_capacity \<Longrightarrow> length (push_signal sg q) \<le> signal_capacity"
  by (simp add: push_signal_def)

lemma param_range_order: "param_ranges key = Some (lo, hi) \<Longrightarrow> lo \<le> hi"
  by (auto simp: param_ranges_def split: if_splits)

lemma params_ok_set: "params_ok ps \<Longrightarrow> params_ok (adaptive_set ok key (adaptive_clamp key v) ps)"
  using param_range_order [of key] by (auto simp: params_ok_def adaptive_set_def adaptive_clamp_def)

lemma adaptive_write_frame:
  "heart_ok h \<Longrightarrow> heart_ok (adaptive_write ok w h)"
  "ht_tracker (adaptive_write ok w h) = ht_tracker h"
  "ht_last_curiosity (adaptive_write ok w h) = ht_last_curiosity h"
  "ht_last_pursuit (adaptive_write ok w h) = ht_last_pursuit h"
  "ht_sent (adaptive_write ok w h) = ht_sent h" "ht_last_hash (adaptive_write ok w h) = ht_last_hash h"
  by (auto simp: adaptive_write_def heart_ok_def length_push_signal params_ok_set split: prod.splits option.splits)

lemma reflection_frame:
  "heart_ok h \<Longrightarrow> heart_ok (trigger_reflection ok now writes insight h)"
  "ht_tracker (trigger_reflection ok now writes insight h) = ht_tracker h"
  "ht_last_curiosity (trigger_reflection ok now writes insight h) = ht_last_curiosity h"
  "ht_last_pursuit (trigger_reflection ok now writes insight h) = ht_last_pursuit h"
  "ht_sent (trigger_reflection ok now writes insight h) = ht_sent h"
  "ht_last_hash (trigger_reflection ok now writes insight h) = ht_last_hash h"
proof -
  have "(heart_ok h \<longrightarrow> heart_ok (fold (\<lambda>(i, w). adaptive_write (ok i) w) ws h))
      \<and> ht_tracker (fold (\<lambda>(i, w). adaptive_write (ok i) w) ws h) = ht_tracker h
      \<and> ht_last_curiosity (fold (\<lambda>(i, w). adaptive_write (ok i) w) ws h) = ht_last_curiosity h
      \<and> ht_last_pursuit (fold (\<lambda>(i, w). adaptive_write (ok i) w) ws h) = ht_last_pursuit h
      \<and> ht_sent (fold (\<lambda>(i, w). adaptive_write (ok i) w) ws h) = ht_sent h
      \<and> ht_last_hash (fold (\<lambda>(i, w). adaptive_write (ok i) w) ws h) = ht_last_hash h" for ws
    by (induction ws arbitrary: h) (auto simp: adaptive_write_frame)
  note f = this [of "enumerate 0 writes"]
  then show "heart_ok h \<Longrightarrow> heart_ok (trigger_reflection ok now writes insight h)"
    "ht_tracker (trigger_reflection ok now writes insight h) = ht_tracker h"
    "ht_last_curiosity (trigger_reflection ok now writes insight h) = ht_last_curiosity h"
    "ht_last_pursuit (trigger_reflection ok now writes insight h) = ht_last_pursuit h"
    "ht_sent (trigger_reflection ok now writes insight h) = ht_sent h"
    "ht_last_hash (trigger_reflection ok now writes insight h) = ht_last_hash h"
    by (auto simp: trigger_reflection_def Let_def append_all_def heart_ok_def split: option.splits)
qed

lemma inference_frame:
  assumes "run_inference ok cfg now count mems profile think s h = (s', h')"
  shows "heart_ok h' = heart_ok h \<and> ht_sent h' = ht_sent h \<and> ht_last_hash h' = ht_last_hash h \<and> wt_items (ht_tracker h') = wt_items (ht_tracker h)
    \<and> ht_last_curiosity h' = ht_last_curiosity h \<and> ht_last_pursuit h' = ht_last_pursuit h"
  using assms by (auto simp: run_inference_def heart_ok_def Let_def split: if_splits option.splits prod.splits)

lemma maintenance_frame:
  "heart_ok (run_maintenance ok cfg now h) = heart_ok h"
  "ht_params (run_maintenance ok cfg now h) = ht_params h"
  "ht_sent (run_maintenance ok cfg now h) = ht_sent h"
  "ht_last_hash (run_maintenance ok cfg now h) = ht_last_hash h"
  "ht_last_curiosity (run_maintenance ok cfg now h) = ht_last_curiosity h"
  "ht_last_pursuit (run_maintenance ok cfg now h) = ht_last_pursuit h"
  "running_tagged tag (wt_items (ht_tracker (run_maintenance ok cfg now h))) = running_tagged tag (wt_items (ht_tracker h))"
proof -
  have "filter (tagged tag) (filter (\<lambda>r. \<not> (finished_status (wi_status r) \<and> P r)) rs) = filter (tagged tag) rs" for P rs
    by (induction rs) (auto simp: tagged_def finished_status_def)
  then show "running_tagged tag (wt_items (ht_tracker (run_maintenance ok cfg now h))) = running_tagged tag (wt_items (ht_tracker h))"
    by (simp add: run_maintenance_def with_items_def prune_work_items_def running_tagged_def)
qed (simp_all add: run_maintenance_def with_items_def heart_ok_def)

lemma curiosity_cooldown_bounds:
  assumes "params_ok (ht_params h)" "hc_curiosity_cooldown cfg = 0 \<or> 30 * minute \<le> hc_curiosity_cooldown cfg"
  shows "30 * minute \<le> curiosity_cooldown ok cfg h"
proof -
  let ?c = "or_default (2 * hour) (hc_curiosity_cooldown cfg)" and ?k = "''curiosity_cooldown_hours''"
  have c: "30 * minute \<le> ?c" using assms(2) by (auto simp: or_default_def minute_def hour_def second_def)
  have r: "param_ranges ?k = Some (1 / 2, 6)" by (simp add: param_ranges_def)
  show ?thesis
  proof (cases "if ok then ht_params h ?k else None")
    case None
    have "(of_int ?c / of_int hour * of_int hour :: rat) = of_int ?c" by (simp add: hour_def minute_def second_def)
    moreover have "(0 :: rat) \<le> of_int ?c" using c by (simp add: minute_def second_def)
    ultimately show ?thesis using None c by (simp add: curiosity_cooldown_def adaptive_get_def to_duration_def Let_def)
  next
    case (Some v)
    then have "ht_params h ?k = Some v" by (simp split: if_splits)
    then have v: "1 / 2 \<le> v" using assms(1) r unfolding params_ok_def by blast
    have "(of_int (30 * minute) :: rat) \<le> v * of_int hour" using v by (simp add: hour_def minute_def second_def)
    then have "30 * minute \<le> \<lfloor>v * of_int hour\<rfloor>" by (simp only: le_floor_iff)
    moreover have "0 \<le> v * of_int hour" using v by (simp add: hour_def minute_def second_def)
    ultimately show ?thesis using Some c by (simp add: curiosity_cooldown_def adaptive_get_def to_duration_def Let_def)
  qed
qed

section \<open>A whole tick\<close>

text \<open>The cognitive run after a drain that may have started a curiosity task in the same tick.\<close>

lemma cognitive_frame:
  assumes "run_cognitive penv ok err cfg now ci s h = (s', h')" "heart_ok h"
    and "hc_curiosity_cooldown cfg = 0 \<or> 30 * minute \<le> hc_curiosity_cooldown cfg"
  shows "heart_ok h' \<and> ht_sent h' = ht_sent h \<and> ht_last_hash h' = ht_last_hash h \<and> ht_last_pursuit h' = ht_last_pursuit h
     \<and> (ht_last_curiosity h' = ht_last_curiosity h \<or>
        (ht_last_curiosity h' = now \<and> 30 * minute \<le> time_sub now (ht_last_curiosity h)))
     \<and> running_tagged ''[objective]'' (wt_items (ht_tracker h')) = running_tagged ''[objective]'' (wt_items (ht_tracker h))"
proof (cases "\<exists>n. hc_db cfg \<and> hc_embed cfg \<and> cg_count ci = Some n \<and> cognitive_due cfg now n h")
  case False
  then have "h' = h" using assms(1) by (auto simp: run_cognitive_def split: option.splits if_splits)
  then show ?thesis using assms(2) by simp
next
  case True
  then obtain n where n: "hc_db cfg" "hc_embed cfg" "cg_count ci = Some n" "cognitive_due cfg now n h" by blast
  define h2 where "h2 = (if reflection_due cfg ci
      then trigger_reflection (ok 0) now (cg_writes ci) (cg_insight ci) (h\<lparr>ht_nudged := False\<rparr>) else h\<lparr>ht_nudged := False\<rparr>)"
  have "heart_ok (h\<lparr>ht_nudged := False\<rparr>)" using assms(2) by (simp add: heart_ok_def)
  then have h2: "heart_ok h2" "ht_tracker h2 = ht_tracker h" "ht_last_curiosity h2 = ht_last_curiosity h"
      "ht_last_pursuit h2 = ht_last_pursuit h" "ht_sent h2 = ht_sent h" "ht_last_hash h2 = ht_last_hash h"
    by (simp_all add: h2_def reflection_frame)
  obtain s3 h3 where c: "run_curiosity penv (ok 1) err cfg now (cg_summaries ci) (cg_gate ci) s h2 = (s3, h3)" by (rule prod.exhaust)
  obtain s4 h4 where i: "run_inference (ok 2) cfg now (cg_recent ci) (cg_mems ci) (cg_profile ci) (cg_think ci) s3 h3 = (s4, h4)"
    by (rule prod.exhaust)
  have h': "h' = h4\<lparr>ht_last_cognitive := now\<rparr>"
    using assms(1) n c i by (simp add: run_cognitive_def h2_def Let_def)
  note cf = curiosity_frame [OF c]
  have "heart_ok h3" using cf h2(1) unfolding heart_ok_def by simp
  moreover have "30 * minute \<le> curiosity_cooldown (ok 1 0) cfg h2"
    using curiosity_cooldown_bounds h2(1) assms(3) unfolding heart_ok_def by blast
  ultimately show ?thesis
    using cf inference_frame [OF i] h2 unfolding h' heart_ok_def by auto
qed

text \<open>A tick in its parts; it ends early when the slide panics.\<close>

lemma tick_parts:
  assumes "heartbeat_tick sha cfg ti s h = (s', h')"
  obtains (early) s1 where "phase2 sha cfg ti s (h\<lparr>ht_tracker := snd (kill_hung_work (ti_ok ti 1 0) (ti_now ti) (ht_tracker h)),
        ht_sm := refresh_prefs (ti_ok ti 2 0) (ti_scans ti) (ti_prefs ti) (ht_sm h)\<rparr>) = (s1, h')"
  | (full) s1 h1 sm s2 h2 s3 h3 where
      "phase2 sha cfg ti s (h\<lparr>ht_tracker := snd (kill_hung_work (ti_ok ti 1 0) (ti_now ti) (ht_tracker h)),
        ht_sm := refresh_prefs (ti_ok ti 2 0) (ti_scans ti) (ti_prefs ti) (ht_sm h)\<rparr>) = (s1, h1)"
      "pursue_objective (ti_plan ti) (ti_ok ti 3) (ti_err ti) cfg (ti_now ti) s1 (h1\<lparr>ht_sm := sm\<rparr>) = (s2, h2)"
      "drain_signals (ti_plan ti) (ti_ok ti 4) (ti_err ti) cfg (ti_now ti) s2 h2 = (s3, h3)"
      "run_cognitive (ti_plan ti) (\<lambda>k. ti_ok ti (k + 6)) (ti_err ti) cfg (ti_now ti) (ti_cog ti) s3
         (run_maintenance (ti_ok ti 5 0) cfg (ti_now ti) h3) = (s', h')"
  using assms unfolding heartbeat_tick_def Let_def
  by (simp split: prod.splits go.splits)

lemma cooldown_at_least:
  assumes "heart_ok h" "hc_curiosity_cooldown cfg = 0 \<or> 30 * minute \<le> hc_curiosity_cooldown cfg"
  shows "30 * minute \<le> curiosity_cooldown ok cfg h"
  using curiosity_cooldown_bounds assms unfolding heart_ok_def by blast

lemma tick_frame:
  assumes "heartbeat_tick sha cfg ti s h = (s', h')" "heart_ok h"
    and "hc_curiosity_cooldown cfg = 0 \<or> 30 * minute \<le> hc_curiosity_cooldown cfg"
  shows "heart_ok h' \<and> spoke sha cfg h h' \<and> (ht_last_curiosity h' = ht_last_curiosity h \<or>
        (ht_last_curiosity h' = ti_now ti \<and> 30 * minute \<le> time_sub (ti_now ti) (ht_last_curiosity h)))
     \<and> (ht_last_pursuit h' = ht_last_pursuit h \<or>
        (ht_last_pursuit h' = ti_now ti
         \<and> or_default (4 * hour) (hc_pursuit_cooldown cfg) \<le> time_sub (ti_now ti) (ht_last_pursuit h)))
     \<and> (ti_ok ti 3 0 \<longrightarrow> running_tagged ''[objective]'' (wt_items (ht_tracker h)) \<le> 1
         \<longrightarrow> running_tagged ''[objective]'' (wt_items (ht_tracker h')) \<le> 1)"
proof -
  let ?now = "ti_now ti" and ?ok = "ti_ok ti"
  define h0 where "h0 = h\<lparr>ht_tracker := snd (kill_hung_work (?ok 1 0) ?now (ht_tracker h)),
      ht_sm := refresh_prefs (?ok 2 0) (ti_scans ti) (ti_prefs ti) (ht_sm h)\<rparr>"
  have k: "running_tagged ''[objective]'' (wt_items (ht_tracker h0)) \<le> running_tagged ''[objective]'' (wt_items (ht_tracker h))"
    by (simp add: h0_def kill_tagged)
  have h0: "heart_ok h0" "ht_last_curiosity h0 = ht_last_curiosity h" "ht_last_pursuit h0 = ht_last_pursuit h"
    using assms(2) by (simp_all add: h0_def heart_ok_def)
  have ph: "heart_ok h1 \<and> ht_last_curiosity h1 = ht_last_curiosity h \<and> ht_last_pursuit h1 = ht_last_pursuit h
      \<and> ht_tracker h1 = ht_tracker h0 \<and> spoke sha cfg h h1" if p: "phase2 sha cfg ti s h0 = (s1, h1)" for s1 h1
  proof -
    have r: "same_rest h0 h1" "says sha cfg ?now h0 h1" using phase2_says [OF p] by blast+
    then have "spoke sha cfg h h1" using says_spoke [OF r(2)] by (simp add: spoke_def h0_def)
    with r h0 show ?thesis by (auto simp: same_rest_def says_def heart_ok_def length_record_action)
  qed
  from assms(1) show ?thesis
  proof (cases rule: tick_parts)
    case (early s1)
    from ph [OF this [folded h0_def]] k show ?thesis by auto
  next
    case (full s1 h1 sm s2 h2 s3 h3)
    note h1 = ph [OF full(1) [folded h0_def]]
    note pf = pursue_frame [OF full(2), simplified]
    have h2: "heart_ok h2" using pf h1 by (auto simp: heart_ok_def length_push_signal)
    note df = drain_frame [OF full(3)]
    have h3: "heart_ok h3" using df h2 by (auto simp: heart_ok_def)
    note cc = cooldown_at_least [OF h2 assms(3), of "?ok 4 0"]
    have "heart_ok (run_maintenance (?ok 5 0) cfg ?now h3)" using h3 by (simp add: maintenance_frame)
    note cf = cognitive_frame [OF full(4) this assms(3), unfolded maintenance_frame]
    have z: "time_sub ?now ?now < 30 * minute" by (simp add: time_sub_def minute_def second_def max_dur_def min_dur_def)
    have a: "ht_last_curiosity h' = ht_last_curiosity h \<or>
        (ht_last_curiosity h' = ?now \<and> 30 * minute \<le> time_sub ?now (ht_last_curiosity h))"
    proof (cases "ht_last_curiosity h3 = ht_last_curiosity h2")
      case True
      with pf cf h1 show ?thesis by simp
    next
      case False
      with df cc pf h1 have "ht_last_curiosity h3 = ?now" "30 * minute \<le> time_sub ?now (ht_last_curiosity h)" by auto
      with cf z show ?thesis by auto
    qed
    have b: "ht_last_pursuit h' = ht_last_pursuit h \<or> (ht_last_pursuit h' = ?now
        \<and> or_default (4 * hour) (hc_pursuit_cooldown cfg) \<le> time_sub ?now (ht_last_pursuit h))"
      using pf df cf h1 by auto
    have c: "?ok 3 0 \<longrightarrow> running_tagged ''[objective]'' (wt_items (ht_tracker h)) \<le> 1
        \<longrightarrow> running_tagged ''[objective]'' (wt_items (ht_tracker h')) \<le> 1"
      using pf df cf h1 k by auto
    have d: "spoke sha cfg h h'" using h1 pf df cf by (simp add: spoke_def)
    show ?thesis using a b c d cf by blast
  qed
qed

section \<open>The launches of a tick\<close>

text \<open>
  The background tasks that a tick starts: the rows of the table after it with an id that the
  sequence of the table had not given out before it.
\<close>

definition started :: "'h heart \<Rightarrow> 'h heart \<Rightarrow> string list" where
  "started h h' = map wi_directive (fresh (wi_next (items_of h)) (items_of h'))"

definition ids_given :: "'h heart \<Rightarrow> bool" where
  "ids_given h \<longleftrightarrow> list_all (\<lambda>r. wi_id r < wi_next (items_of h)) (wi_rows (items_of h))"

lemma prune_fresh:
  assumes "list_all (\<lambda>r. wi_status r = ''running'') (fresh n (items_of h))"
  shows "fresh n (items_of (run_maintenance ok cfg now h)) = fresh n (items_of h)"
    and "wi_next (items_of (run_maintenance ok cfg now h)) = wi_next (items_of h)"
proof -
  have "fresh n (prune_work_items ok now d db) = fresh n db" if "list_all (\<lambda>r. wi_status r = ''running'') (fresh n db)" for d db
    using that by (auto simp: prune_work_items_def fresh_def list_all_iff finished_status_def intro: filter_cong)
  with assms show "fresh n (items_of (run_maintenance ok cfg now h)) = fresh n (items_of h)"
    by (simp add: run_maintenance_def with_items_def)
qed (simp add: run_maintenance_def with_items_def prune_work_items_def)

lemma cognitive_adds:
  assumes "run_cognitive penv ok err cfg now ci s h = (s', h')" "heart_ok h" "n \<le> wi_next (items_of h)"
    and "hc_curiosity_cooldown cfg = 0 \<or> 30 * minute \<le> hc_curiosity_cooldown cfg"
  shows "\<exists>b. adds n curiosity_work b (items_of h) (items_of h') \<and>
     (b \<longrightarrow> ht_last_curiosity h' = now \<and> 30 * minute \<le> time_sub now (ht_last_curiosity h))"
proof (cases "\<exists>n. hc_db cfg \<and> hc_embed cfg \<and> cg_count ci = Some n \<and> cognitive_due cfg now n h")
  case False
  then have "h' = h" using assms(1) by (auto simp: run_cognitive_def split: option.splits if_splits)
  then show ?thesis by (auto intro!: exI [of _ False])
next
  case True
  then obtain k where k: "hc_db cfg" "hc_embed cfg" "cg_count ci = Some k" "cognitive_due cfg now k h" by blast
  define h2 where "h2 = (if reflection_due cfg ci
      then trigger_reflection (ok 0) now (cg_writes ci) (cg_insight ci) (h\<lparr>ht_nudged := False\<rparr>) else h\<lparr>ht_nudged := False\<rparr>)"
  have "heart_ok (h\<lparr>ht_nudged := False\<rparr>)" using assms(2) by (simp add: heart_ok_def)
  then have h2: "heart_ok h2" "ht_tracker h2 = ht_tracker h" "ht_last_curiosity h2 = ht_last_curiosity h"
    by (simp_all add: h2_def reflection_frame)
  obtain s3 h3 where c: "run_curiosity penv (ok 1) err cfg now (cg_summaries ci) (cg_gate ci) s h2 = (s3, h3)" by (rule prod.exhaust)
  obtain s4 h4 where i: "run_inference (ok 2) cfg now (cg_recent ci) (cg_mems ci) (cg_profile ci) (cg_think ci) s3 h3 = (s4, h4)"
    by (rule prod.exhaust)
  have h': "h' = h4\<lparr>ht_last_cognitive := now\<rparr>"
    using assms(1) k c i by (simp add: run_cognitive_def h2_def Let_def)
  from curiosity_adds [OF c, of n] assms(3) h2(2) obtain b where "adds n curiosity_work b (items_of h) (items_of h3)"
      "b \<longrightarrow> ht_last_curiosity h3 = now \<and> curiosity_cooldown (ok 1 0) cfg h2 \<le> time_sub now (ht_last_curiosity h2)" by auto
  with inference_frame [OF i] cooldown_at_least [OF h2(1) assms(4), of "ok 1 0"] h2(3) show ?thesis
    unfolding h' by (intro exI [of _ b]) auto
qed

text \<open>What a tick starts: at most one task for an objective, then at most one out of curiosity.\<close>

definition paced :: "heart_config \<Rightarrow> gotime \<Rightarrow> 'h heart \<Rightarrow> 'h heart \<Rightarrow> string list \<Rightarrow> string list \<Rightarrow> bool" where
  "paced cfg now h h' os cs \<longleftrightarrow> length os \<le> 1 \<and> length cs \<le> 1 \<and> list_all pursuit_work os \<and> list_all curiosity_work cs \<and>
     (os \<noteq> [] \<longrightarrow> ht_last_pursuit h' = now \<and> or_default (4 * hour) (hc_pursuit_cooldown cfg) \<le> time_sub now (ht_last_pursuit h)) \<and>
     (cs \<noteq> [] \<longrightarrow> ht_last_curiosity h' = now \<and> 30 * minute \<le> time_sub now (ht_last_curiosity h))"

lemma addsD:
  assumes "adds n P b db db'"
  obtains rs where "fresh n db' = fresh n db @ rs" "length rs = (if b then 1 else 0)" "list_all P (map wi_directive rs)"
    "list_all (\<lambda>r. wi_status r = ''running'') rs" "wi_next db \<le> wi_next db'"
proof (cases b)
  case True
  then obtain r where "fresh n db' = fresh n db @ [r]" "P (wi_directive r)" "wi_status r = ''running''" "wi_next db \<le> wi_next db'"
    using assms by (auto simp: adds_def)
  with that [of "[r]"] True show ?thesis by simp
next
  case False
  with assms that [of "[]"] show ?thesis by (simp add: adds_def)
qed

lemma tick_started:
  assumes "heartbeat_tick sha cfg ti s h = (s', h')" "heart_ok h" "ids_given h"
    and "hc_curiosity_cooldown cfg = 0 \<or> 30 * minute \<le> hc_curiosity_cooldown cfg"
  shows "\<exists>os cs. started h h' = os @ cs \<and> paced cfg (ti_now ti) h h' os cs"
proof -
  let ?now = "ti_now ti" and ?ok = "ti_ok ti" and ?n = "wi_next (items_of h)"
  define h0 where "h0 = h\<lparr>ht_tracker := snd (kill_hung_work (?ok 1 0) ?now (ht_tracker h)),
      ht_sm := refresh_prefs (?ok 2 0) (ti_scans ti) (ti_prefs ti) (ht_sm h)\<rparr>"
  have ids: "map wi_id (wi_rows (items_of h0)) = map wi_id (wi_rows (items_of h))" "wi_next (items_of h0) = ?n"
    using kill_fresh [of "?ok 1 0" ?now "ht_tracker h"] by (simp_all add: h0_def)
  have "wi_id ` set (wi_rows (items_of h0)) = wi_id ` set (wi_rows (items_of h))"
    using ids(1) by (metis list.set_map)
  then have f0: "fresh ?n (items_of h0) = []"
    using assms(3) by (force simp: fresh_def filter_empty_conv ids_given_def list_all_iff)
  have h0: "heart_ok h0" "ht_last_curiosity h0 = ht_last_curiosity h" "ht_last_pursuit h0 = ht_last_pursuit h"
    using assms(2) by (simp_all add: h0_def heart_ok_def)
  have ph: "heart_ok h1 \<and> ht_last_curiosity h1 = ht_last_curiosity h \<and> ht_last_pursuit h1 = ht_last_pursuit h
      \<and> ht_tracker h1 = ht_tracker h0" if p: "phase2 sha cfg ti s h0 = (s1, h1)" for s1 h1
    using phase2_says [OF p] h0 by (auto simp: same_rest_def says_def heart_ok_def length_record_action)
  from assms(1) show ?thesis
  proof (cases rule: tick_parts)
    case (early s1)
    from ph [OF this [folded h0_def]] f0 show ?thesis by (intro exI [of _ "[]"]) (simp add: started_def paced_def)
  next
    case (full s1 h1 sm s2 h2 s3 h3)
    note h1 = ph [OF full(1) [folded h0_def]]
    let ?h4 = "run_maintenance (?ok 5 0) cfg ?now h3"
    note pf = pursue_frame [OF full(2), simplified] and df = drain_frame [OF full(3)]
    have h2: "heart_ok h2" using pf h1 by (auto simp: heart_ok_def length_push_signal)
    have h3: "heart_ok h3" using df h2 by (auto simp: heart_ok_def)
    then have h4: "heart_ok ?h4" by (simp add: maintenance_frame)
    note cc = cooldown_at_least [OF h2 assms(4), of "?ok 4 0"]
    note cf = cognitive_frame [OF full(4) h4 assms(4), unfolded maintenance_frame]
    obtain b1 where b1: "adds ?n pursuit_work b1 (items_of h0) (items_of h2)"
        "b1 \<longrightarrow> ht_last_pursuit h2 = ?now \<and> or_default (4 * hour) (hc_pursuit_cooldown cfg) \<le> time_sub ?now (ht_last_pursuit h)"
      using pursue_adds [OF full(2), of ?n] h1 ids(2) by auto
    obtain os where os: "fresh ?n (items_of h2) = os" "length os = (if b1 then 1 else 0)" "list_all pursuit_work (map wi_directive os)"
        "list_all (\<lambda>r. wi_status r = ''running'') os" "?n \<le> wi_next (items_of h2)"
      using addsD [OF b1(1)] f0 ids(2) by (metis append_Nil)
    obtain b2 where b2: "adds ?n curiosity_work b2 (items_of h2) (items_of h3)"
        "b2 \<longrightarrow> ht_last_curiosity h3 = ?now \<and> 30 * minute \<le> time_sub ?now (ht_last_curiosity h2)"
      using drain_adds [OF full(3) os(5)] cc by auto
    obtain cs where cs: "fresh ?n (items_of h3) = os @ cs" "length cs = (if b2 then 1 else 0)" "list_all curiosity_work (map wi_directive cs)"
        "list_all (\<lambda>r. wi_status r = ''running'') cs" "wi_next (items_of h2) \<le> wi_next (items_of h3)"
      using addsD [OF b2(1)] os(1) by metis
    have f4: "fresh ?n (items_of ?h4) = os @ cs" "wi_next (items_of ?h4) = wi_next (items_of h3)"
      using prune_fresh [of ?n h3] cs(1,4) os(4) by simp_all
    have n4: "?n \<le> wi_next (items_of ?h4)" using f4(2) cs(5) os(5) by simp
    obtain b3 where b3: "adds ?n curiosity_work b3 (items_of ?h4) (items_of h')"
        "b3 \<longrightarrow> ht_last_curiosity h' = ?now \<and> 30 * minute \<le> time_sub ?now (ht_last_curiosity h3)"
      using cognitive_adds [OF full(4) h4 n4 assms(4)] by (auto simp: maintenance_frame)
    obtain ds where ds: "fresh ?n (items_of h') = (os @ cs) @ ds" "length ds = (if b3 then 1 else 0)" "list_all curiosity_work (map wi_directive ds)"
      using addsD [OF b3(1)] f4(1) by metis
    have z: "time_sub ?now ?now < 30 * minute" by (simp add: time_sub_def minute_def second_def max_dur_def min_dur_def)
    have one: "\<not> (b2 \<and> b3)" using b2(2) b3(2) z by auto
    have c2: "ht_last_curiosity h2 = ht_last_curiosity h" "ht_last_pursuit h' = ht_last_pursuit h2" using pf h1 df cf by simp_all
    have c3: "b2 \<longrightarrow> ht_last_curiosity h' = ?now" using cf b2(2) by auto
    have c4: "b3 \<longrightarrow> 30 * minute \<le> time_sub ?now (ht_last_curiosity h)"
    proof (cases "ht_last_curiosity h3 = ht_last_curiosity h2")
      case False
      with df z b3(2) show ?thesis by auto
    qed (use b3(2) c2 in simp)
    have "started h h' = map wi_directive os @ map wi_directive (cs @ ds)" by (simp add: started_def ds(1))
    moreover have "paced cfg ?now h h' (map wi_directive os) (map wi_directive (cs @ ds))"
      using os(2,3) cs(2,3) ds(2,3) one b1(2) b2(2) b3(2) c2 c3 c4
      by (auto simp: paced_def split: if_splits)
    ultimately show ?thesis by blast
  qed
qed

section \<open>Ticks and everything else\<close>

text \<open>
  Between ticks the conversation and the work of the tracker change in any way, tasks that end are
  recorded, signals are sent, consolidation is nudged, and routines deliver what they found.
\<close>

inductive heart_between :: "(string \<Rightarrow> 'h) \<Rightarrow> heart_config \<Rightarrow> 'h heart \<Rightarrow> 'h heart \<Rightarrow> bool" for sha cfg where
  conversation: "heart_between sha cfg h (h\<lparr>ht_sm := sm\<rparr>)"
| work: "heart_between sha cfg h (h\<lparr>ht_tracker := tk\<rparr>)"
| completion: "heart_between sha cfg h (h\<lparr>ht_actions := record_action now typ t (ht_actions h)\<rparr>)"
| signal: "heart_between sha cfg h (h\<lparr>ht_signals := map_option (push_signal sg) (ht_signals h)\<rparr>)"
| nudge: "heart_between sha cfg h (h\<lparr>ht_nudged := True\<rparr>)"
| routine: "heart_between sha cfg h (deliver_routine sha cfg now name reply h)"

inductive heart_step :: "(string \<Rightarrow> 'h) \<Rightarrow> heart_config \<Rightarrow> 's heart_env set \<Rightarrow> 'h heart \<Rightarrow> 'h heart \<Rightarrow> bool"
  for sha cfg envs where
  tick: "ti_env ti \<in> envs \<Longrightarrow> heartbeat_tick sha cfg ti s h = (s', h') \<Longrightarrow> heart_step sha cfg envs h h'"
| between: "heart_between sha cfg h h' \<Longrightarrow> heart_step sha cfg envs h h'"

definition heart_init :: "'h heart \<Rightarrow> bool" where
  "heart_init h \<longleftrightarrow> ht_actions h = [] \<and> ht_sent h = [] \<and> ht_last_hash h = None \<and> ht_signals h \<in> {None, Some []} \<and> params_ok (ht_params h)"

inductive heart_reach :: "(string \<Rightarrow> 'h) \<Rightarrow> heart_config \<Rightarrow> 's heart_env set \<Rightarrow> 'h heart \<Rightarrow> bool" for sha cfg envs where
  start: "heart_init h \<Longrightarrow> heart_reach sha cfg envs h"
| step: "heart_reach sha cfg envs h \<Longrightarrow> heart_step sha cfg envs h h' \<Longrightarrow> heart_reach sha cfg envs h'"

text \<open>The messages so far: a message follows its equal only if it is the notice.\<close>

definition varied :: "string \<Rightarrow> string \<Rightarrow> bool" where
  "varied a b \<longleftrightarrow> a \<noteq> b \<or> a = unfinished_notice"

definition said_ok :: "(string \<Rightarrow> 'h) \<Rightarrow> heart_config \<Rightarrow> 'h heart \<Rightarrow> bool" where
  "said_ok sha cfg h \<longleftrightarrow> successively varied (ht_sent h) \<and>
     (ht_sent h \<noteq> [] \<longrightarrow> hc_notifier cfg \<longrightarrow> last (ht_sent h) \<noteq> unfinished_notice \<longrightarrow> ht_last_hash h = Some (sha (last (ht_sent h))))
     \<and> (\<not> hc_notifier cfg \<longrightarrow> set (ht_sent h) \<subseteq> {unfinished_notice})"

lemma spoke_said_ok:
  assumes "spoke sha cfg h h'" "said_ok sha cfg h"
  shows "said_ok sha cfg h'"
  using assms by (auto simp: spoke_def said_ok_def varied_def successively_append_iff split: if_splits)

definition cooldown_ok :: "heart_config \<Rightarrow> bool" where
  "cooldown_ok cfg \<longleftrightarrow> hc_curiosity_cooldown cfg = 0 \<or> 30 * minute \<le> hc_curiosity_cooldown cfg"

lemma deliver_routine_keeps:
  "heart_ok h \<Longrightarrow> heart_ok (deliver_routine sha cfg now name reply h)"
  "ht_last_curiosity (deliver_routine sha cfg now name reply h) = ht_last_curiosity h"
  "ht_last_pursuit (deliver_routine sha cfg now name reply h) = ht_last_pursuit h"
  by (auto simp: deliver_routine_def send_deduped_def notify_def append_all_def heart_ok_def length_record_action split: option.split)

lemma between_keeps:
  assumes "heart_between sha cfg h h'"
  shows "(heart_ok h \<longrightarrow> heart_ok h') \<and> (said_ok sha cfg h \<longrightarrow> said_ok sha cfg h')
    \<and> ht_last_curiosity h' = ht_last_curiosity h \<and> ht_last_pursuit h' = ht_last_pursuit h"
  using assms
proof cases
  case (routine now name reply)
  then show ?thesis by (simp add: deliver_routine_keeps spoke_said_ok [OF deliver_routine_spoke])
qed (auto simp: heart_ok_def said_ok_def length_record_action length_push_signal)

lemma heart_step_ok:
  assumes "heart_step sha cfg envs h h'" "heart_ok h \<and> said_ok sha cfg h" "cooldown_ok cfg"
  shows "heart_ok h' \<and> said_ok sha cfg h'"
  using assms(1)
proof cases
  case (tick ti s s')
  show ?thesis
    using tick_frame [OF tick(2)] assms(2,3) spoke_said_ok unfolding cooldown_ok_def by blast
next
  case between
  from between_keeps [OF this] assms(2) show ?thesis by blast
qed

lemma heart_reach_ok:
  assumes "heart_reach sha cfg envs h" "cooldown_ok cfg"
  shows "heart_ok h \<and> said_ok sha cfg h"
  using assms
proof (induction rule: heart_reach.induct)
  case (start h)
  then show ?case by (auto simp: heart_init_def heart_ok_def said_ok_def)
next
  case (step h h')
  then show ?case using heart_step_ok by blast
qed

text \<open>
  A stretch of time and the tasks that its ticks started, with their times. The ids of the table
  come from its sequence, so at the start of a tick all of them have been given out.
\<close>

inductive heart_run :: "(string \<Rightarrow> 'h) \<Rightarrow> heart_config \<Rightarrow> 's heart_env set \<Rightarrow> 'h heart \<Rightarrow> (string \<times> gotime) list \<Rightarrow> 'h heart \<Rightarrow> bool"
  for sha cfg envs h where
  nothing: "heart_run sha cfg envs h [] h"
| tick: "heart_run sha cfg envs h ls h1 \<Longrightarrow> ids_given h1 \<Longrightarrow> ti_env ti \<in> envs \<Longrightarrow> heartbeat_tick sha cfg ti s h1 = (s', h2)
     \<Longrightarrow> heart_run sha cfg envs h (ls @ map (\<lambda>d. (d, ti_now ti)) (started h1 h2)) h2"
| between: "heart_run sha cfg envs h ls h1 \<Longrightarrow> heart_between sha cfg h1 h2 \<Longrightarrow> heart_run sha cfg envs h ls h2"

definition times_of :: "(string \<Rightarrow> bool) \<Rightarrow> (string \<times> gotime) list \<Rightarrow> gotime list" where
  "times_of P ls = map snd (filter (\<lambda>l. P (fst l)) ls)"

definition apart :: "duration \<Rightarrow> gotime \<Rightarrow> gotime \<Rightarrow> bool" where
  "apart gap t u \<longleftrightarrow> gap \<le> time_sub u t"

text \<open>The launches are apart, and the last of them is not after the time on record.\<close>

definition spaced :: "duration \<Rightarrow> gotime list \<Rightarrow> gotime \<Rightarrow> bool" where
  "spaced gap ts x \<longleftrightarrow> successively (apart gap) ts \<and> (ts \<noteq> [] \<longrightarrow> last ts \<le> x)"

lemma apart_earlier: "apart gap x u \<Longrightarrow> t \<le> x \<Longrightarrow> apart gap t u"
  by (auto simp: apart_def time_sub_def)

lemma apart_le: "apart gap x u \<Longrightarrow> 0 \<le> gap \<Longrightarrow> x \<le> u"
  by (auto simp: apart_def time_sub_def min_dur_def max_dur_def split: if_splits)

lemma spaced_step:
  assumes "spaced gap ts x" "0 \<le> gap" "x' = x \<or> (x' = now \<and> apart gap x now)"
    and "length ns \<le> 1" "set ns \<subseteq> {now}" "ns \<noteq> [] \<longrightarrow> x' = now \<and> apart gap x now"
  shows "spaced gap (ts @ ns) x'"
proof (cases ns)
  case Nil
  with assms(1-3) show ?thesis using apart_le by (fastforce simp: spaced_def)
next
  case (Cons n ms)
  with assms(4-6) have "ns = [now]" "x' = now" "apart gap x now" by auto
  with assms(1) show ?thesis by (auto simp: spaced_def successively_append_iff intro: apart_earlier)
qed

lemma times_of_append [simp]: "times_of P (xs @ ys) = times_of P xs @ times_of P ys"
  by (simp add: times_of_def)

lemma times_of_started: "times_of P (map (\<lambda>d. (d, now)) ds) = map (\<lambda>_. now) (filter P ds)"
  by (simp add: times_of_def filter_map comp_def)

lemma work_kinds: "pursuit_work d \<Longrightarrow> \<not> curiosity_work d"
  by (auto simp: pursuit_work_def curiosity_work_def has_prefix_iff)

definition run_inv :: "heart_config \<Rightarrow> (string \<times> gotime) list \<Rightarrow> 'h heart \<Rightarrow> bool" where
  "run_inv cfg ls h \<longleftrightarrow> list_all (\<lambda>l. pursuit_work (fst l) \<or> curiosity_work (fst l)) ls \<and>
     spaced (or_default (4 * hour) (hc_pursuit_cooldown cfg)) (times_of pursuit_work ls) (ht_last_pursuit h) \<and>
     spaced (30 * minute) (times_of curiosity_work ls) (ht_last_curiosity h)"

lemma filter_kinds:
  assumes "paced cfg now h h' os cs"
  shows "filter pursuit_work (os @ cs) = os" "filter curiosity_work (os @ cs) = cs"
proof -
  have o: "\<forall>d \<in> set os. pursuit_work d" "\<forall>d \<in> set cs. curiosity_work d"
    using assms by (simp_all add: paced_def list_all_iff)
  then have "filter pursuit_work os = os" "filter curiosity_work cs = cs" "filter pursuit_work cs = []" "filter curiosity_work os = []"
    using work_kinds by (auto simp: filter_id_conv filter_empty_conv)
  then show "filter pursuit_work (os @ cs) = os" "filter curiosity_work (os @ cs) = cs" by simp_all
qed

lemma run_inv_tick:
  assumes "heartbeat_tick sha cfg ti s h = (s', h')" "heart_ok h" "ids_given h" "cooldown_ok cfg" "0 \<le> hc_pursuit_cooldown cfg"
    and "run_inv cfg ls h"
  shows "run_inv cfg (ls @ map (\<lambda>d. (d, ti_now ti)) (started h h')) h'"
proof -
  let ?c = "or_default (4 * hour) (hc_pursuit_cooldown cfg)"
  note cd = assms(4) [unfolded cooldown_ok_def]
  obtain os cs where p: "started h h' = os @ cs" "paced cfg (ti_now ti) h h' os cs"
    using tick_started [OF assms(1-3) cd] by blast
  have c: "0 \<le> ?c" using assms(5) by (simp add: or_default_def dur_defs)
  note tf = tick_frame [OF assms(1,2) cd]
  have "spaced ?c (times_of pursuit_work ls @ map (\<lambda>_. ti_now ti) os) (ht_last_pursuit h')"
    by (rule spaced_step [of _ _ "ht_last_pursuit h" _ "ti_now ti"]) (use assms(6) c tf p(2) in \<open>auto simp: run_inv_def paced_def apart_def\<close>)
  moreover have "spaced (30 * minute) (times_of curiosity_work ls @ map (\<lambda>_. ti_now ti) cs) (ht_last_curiosity h')"
    by (rule spaced_step [of _ _ "ht_last_curiosity h" _ "ti_now ti"])
      (use assms(6) tf p(2) in \<open>auto simp: run_inv_def paced_def apart_def dur_defs\<close>)
  moreover have "list_all (\<lambda>l. pursuit_work (fst l) \<or> curiosity_work (fst l)) (map (\<lambda>d. (d, ti_now ti)) (os @ cs))"
    using p(2) by (auto simp: paced_def list_all_iff)
  ultimately show ?thesis
    using assms(6) filter_kinds [OF p(2)] by (simp add: run_inv_def p(1) times_of_started del: filter_append map_append)
qed

lemma heart_run_inv:
  assumes "heart_run sha cfg envs h ls h'" "heart_reach sha cfg envs h" "cooldown_ok cfg" "0 \<le> hc_pursuit_cooldown cfg"
  shows "heart_reach sha cfg envs h' \<and> run_inv cfg ls h'"
  using assms(1)
proof (induction rule: heart_run.induct)
  case nothing
  show ?case using assms(2) by (simp add: run_inv_def spaced_def times_of_def)
next
  case (tick ls h1 ti s s' h2)
  then have "heart_ok h1" using heart_reach_ok assms(3) by blast
  then show ?case using tick run_inv_tick assms(3,4) heart_step.tick heart_reach.step by metis
next
  case (between ls h1 h2)
  then have "heart_reach sha cfg envs h2" using heart_step.between heart_reach.step by metis
  with between between_keeps [OF between(2)] show ?case by (simp add: run_inv_def)
qed

section \<open>Properties\<close>



text \<open>
  C30: what the engine keeps between ticks is bounded. The recent actions are at most five and the
  pending signals at most ten; whatever a reflection writes, each adaptive parameter stays within its
  range, from 1, 3, 1 and 1/2 to 8, 8, 5 and 6; and so the curiosity cooldown is half an hour or more.
\<close>

theorem heart_bounds:
  assumes "heart_reach sha cfg envs h" "cooldown_ok cfg"
  shows "length (ht_actions h) \<le> 5 \<and> (\<forall>q. ht_signals h = Some q \<longrightarrow> length q \<le> 10) \<and>
     (\<forall>v. ht_params h ''triage_conversation_threshold'' = Some v \<longrightarrow> 1 \<le> v \<and> v \<le> 8) \<and>
     (\<forall>v. ht_params h ''triage_conversation_unverified_threshold'' = Some v \<longrightarrow> 3 \<le> v \<and> v \<le> 8) \<and>
     (\<forall>v. ht_params h ''triage_email_threshold'' = Some v \<longrightarrow> 1 \<le> v \<and> v \<le> 5) \<and>
     (\<forall>v. ht_params h ''curiosity_cooldown_hours'' = Some v \<longrightarrow> 1 / 2 \<le> v \<and> v \<le> 6) \<and>
     30 * minute \<le> curiosity_cooldown ok cfg h"
proof -
  have h: "heart_ok h" using heart_reach_ok [OF assms] by blast
  then have p: "lo \<le> v \<and> v \<le> hi" if "param_ranges key = Some (lo, hi)" "ht_params h key = Some v" for key lo hi v
    using that unfolding heart_ok_def params_ok_def by blast
  have r: "param_ranges ''triage_conversation_threshold'' = Some (1, 8)" "param_ranges ''triage_conversation_unverified_threshold'' = Some (3, 8)"
      "param_ranges ''triage_email_threshold'' = Some (1, 5)" "param_ranges ''curiosity_cooldown_hours'' = Some (1 / 2, 6)"
    by (simp_all add: param_ranges_def)
  show ?thesis
    using h cooldown_at_least [OF h, of cfg ok] assms(2) p [OF r(1)] p [OF r(2)] p [OF r(3)] p [OF r(4)]
    unfolding heart_ok_def signal_capacity_def cooldown_ok_def by blast
qed


text \<open>And while its queries work, a tick leaves at most one objective under way that finds at most one.\<close>

lemma one_objective_at_a_time:
  assumes "heart_reach sha cfg envs h" "cooldown_ok cfg" "heartbeat_tick sha cfg ti s h = (s', h')" "ti_ok ti 3 0"
    and "running_tagged ''[objective]'' (wt_items (ht_tracker h)) \<le> 1"
  shows "running_tagged ''[objective]'' (wt_items (ht_tracker h')) \<le> 1"
proof -
  have "heart_ok h" using heart_reach_ok [OF assms(1,2)] by blast
  from tick_frame [OF assms(3) this] assms(2,4,5) show ?thesis unfolding cooldown_ok_def by blast
qed

text \<open>
  A stuck objective can lose its turn. When an objective that was tried three times comes up and
  a curiosity task was started within the last half hour, the tick sends a signal for it, discards
  the signal, and restarts the cooldown of the pursuit: nothing is done for the objective.
\<close>

lemma stuck_objective_loses_turn:
  assumes "hc_cog cfg" "hc_db cfg" "recently_active pursuit_max_inactive now (ht_sm h)"
    and "or_default (4 * hour) (hc_pursuit_cooldown cfg) \<le> time_sub now (ht_last_pursuit h)"
    and "\<not> tag_running ''[objective]'' (wt_items (ht_tracker h))"
    and "Option.bind (list_active (ok 1) (wt_objectives (ht_tracker h)))
           (pursuit_choice (or_default (4 * hour) (hc_pursuit_cooldown cfg)) now) = Some g" "3 \<le> ob_attempts g"
    and "ht_signals h = Some q" "time_sub now (ht_last_curiosity h) < min (curiosity_cooldown (ok' 0) cfg h) (30 * minute)"
    and "pursue_objective penv ok err cfg now s h = (s1, h1)" "drain_signals penv ok' err cfg now s1 h1 = (s2, h2)"
  shows "s2 = s \<and> h2 = h\<lparr>ht_last_pursuit := now, ht_signals := Some []\<rparr>"
proof -
  have 1: "s1 = s" "h1 = h\<lparr>ht_signals := Some (push_signal (stuck_signal g) q), ht_last_pursuit := now\<rparr>"
    using assms(1-8,10) by (simp_all add: pursue_objective_def Let_def)
  have c: "curiosity_cooldown (ok' 0) cfg h1 = curiosity_cooldown (ok' 0) cfg h"
    by (simp add: 1 curiosity_cooldown_def Let_def)
  have "push_signal (stuck_signal g) q \<noteq> []" by (auto simp: push_signal_def signal_capacity_def)
  moreover have "best_signal xs \<noteq> None" if "xs \<noteq> []" for xs
  proof -
    have "fold (\<lambda>sg best. case best of None \<Rightarrow> Some sg | Some b \<Rightarrow> if sg_priority sg > sg_priority b then Some sg else Some b) ys (Some b) \<noteq> None"
      for ys b by (induction ys arbitrary: b) auto
    then show ?thesis using that by (cases xs) (auto simp: best_signal_def)
  qed
  ultimately obtain b where b: "best_signal (push_signal (stuck_signal g) q) = Some b" by blast
  show ?thesis
    using assms(1,9,11) by (simp add: drain_signals_def 1 b c [unfolded 1] Let_def min_def split: if_splits)
qed

section \<open>An example\<close>

definition demo_gate :: string where
  "demo_gate = ''{'' @ json_quote ''action'' @ '':'' @ json_quote ''message'' @ '','' @ json_quote ''text'' @ '':''
     @ json_quote ''Rain'' @ ''}''"

definition demo_heart_env :: "nat heart_env" where
  "demo_heart_env = \<lparr>he_orch = \<lparr>oe_system_base = [], oe_tools_text = [], oe_chat = (\<lambda>r s. (Inl ''down'', s)), oe_tool = None,
       oe_clock = (\<lambda>_. 0), oe_zone = 0\<rparr>, he_model = [],
     he_opts = \<lparr>qo_parts = [], qo_history = [], qo_personality = [], qo_profile = [], qo_temporal = [], qo_prefetch = [],
       qo_max_tool_result = 0, qo_max_web = 0, qo_tool_agent = None, qo_fallbacks = None, qo_mandated = None,
       qo_on_tool_start = None, qo_on_tool_end = None, qo_on_tool_exec = None, qo_enable_thinking = False,
       qo_first_round_thinking = False\<rparr>,
     he_gate = (\<lambda>p xml s. (Inr demo_gate, s)), he_gate_prompt = [], he_executive_prompt = [], he_err_text = (\<lambda>_. [])\<rparr>"

definition demo_heart_config :: heart_config where
  "demo_heart_config = \<lparr>hc_db = True, hc_embed = False, hc_cog = True, hc_gatekeeper = True, hc_notifier = True,
     hc_interval = 5 * minute, hc_buffer = 20, hc_lull = 20 * minute, hc_ceiling = 4 * hour, hc_reflection_after = 50,
     hc_reflection_prompt = [], hc_pursuit_cooldown = 0, hc_inference_cooldown = 0, hc_curiosity_cooldown = 0,
     hc_maintenance = 100 * hour, hc_work_ttl = 7\<rparr>"

definition demo_stuck :: objective where
  "demo_stuck = \<lparr>ob_id = 1, ob_summary = ''Learn Go'', ob_status = ''active'', ob_priority = ''high'', ob_source = ''explicit'',
     ob_notes = None, ob_attempts = 3, ob_last_pursued = None, ob_created = 0, ob_updated = 0, ob_completed = None\<rparr>"

definition demo_heart :: "string heart" where
  "demo_heart = \<lparr>ht_sm = (demo_manager [])\<lparr>last_user_activity := 10 * hour\<rparr>,
     ht_tracker = new_tracker \<lparr>wi_rows = [], wi_next = 1\<rparr> \<lparr>ob_rows = [demo_stuck], ob_next = 2\<rparr>, ht_actions = [],
     ht_last_hash = None, ht_sent = [], ht_signals = Some [], ht_params = Map.empty, ht_nudged = False,
     ht_last_pursuit = 0, ht_last_curiosity = 10 * hour, ht_last_inference = 0, ht_last_cognitive = 0,
     ht_last_maintenance = 0\<rparr>"

definition demo_tick :: "nat tick_inputs" where
  "demo_tick = \<lparr>ti_env = demo_heart_env, ti_plan = idle_plan_env, ti_ok = (\<lambda>_ _. True), ti_err = [], ti_now = 10 * hour,
     ti_zone = 0, ti_prefs = \<lparr>prefs_table = Map.empty, snapshot = None\<rparr>, ti_scans = (\<lambda>_. False), ti_failures = [],
     ti_max_messages = 40,
     ti_cog = \<lparr>cg_count = None, cg_since_reflection = None, cg_writes = [], cg_insight = None, cg_summaries = None,
       cg_gate = (\<lambda>c s. (Inl [], s)), cg_recent = None, cg_mems = None, cg_profile = None, cg_think = (\<lambda>c s. (Inl [], s))\<rparr>,
     ti_others = (\<lambda>i sm. sm)\<rparr>"

lemma demo_gate_decision: "gate_decision (trim_space demo_gate) = Some (''message'', [], ''Rain'')" "trim_space demo_gate \<noteq> []"
  "trim_space ''Rain'' = ''Rain''"
  by code_simp+

lemma demo_heart_reach: "heart_reach id demo_heart_config {demo_heart_env} demo_heart"
  by (rule heart_reach.start) (simp add: heart_init_def demo_heart_def params_ok_def)

lemma demo_cooldown: "cooldown_ok demo_heart_config"
  by (simp add: cooldown_ok_def demo_heart_config_def)

lemma demo_phase2: "phase2 id demo_heart_config demo_tick s h = (s', h') \<Longrightarrow> h' = deliver_chat id demo_heart_config (10 * hour) ''Rain'' h"
  by (simp add: phase2_def phase2_gatekeeper_def demo_tick_def demo_heart_env_def demo_gate_decision Let_def
      demo_heart_config_def)

lemma demo_choice:
  "recently_active pursuit_max_inactive (10 * hour) (ht_sm demo_heart)"
  "or_default (4 * hour) (hc_pursuit_cooldown demo_heart_config) \<le> time_sub (10 * hour) (ht_last_pursuit demo_heart)"
  "\<not> tag_running ''[objective]'' (wt_items (ht_tracker demo_heart))"
  "Option.bind (list_active True (wt_objectives (ht_tracker demo_heart)))
     (pursuit_choice (or_default (4 * hour) (hc_pursuit_cooldown demo_heart_config)) (10 * hour)) = Some demo_stuck"
  "time_sub (10 * hour) (ht_last_curiosity demo_heart) < min (curiosity_cooldown True demo_heart_config demo_heart) (30 * minute)"
proof -
  have "30 * minute \<le> curiosity_cooldown True demo_heart_config demo_heart"
    by (rule curiosity_cooldown_bounds) (simp_all add: demo_heart_def params_ok_def demo_heart_config_def)
  then show "time_sub (10 * hour) (ht_last_curiosity demo_heart) < min (curiosity_cooldown True demo_heart_config demo_heart) (30 * minute)"
    by (simp add: demo_heart_def time_sub_def dur_defs max_dur_def min_dur_def)
qed (simp_all add: demo_heart_def demo_heart_config_def recently_active_def pursuit_max_inactive_def is_zero_def time_sub_def
    dur_defs max_dur_def min_dur_def or_default_def tag_running_def new_tracker_def list_active_def by_rank_def demo_stuck_def
    pursuit_choice_def)

lemma stuck_objective_loses_turn_witness:
  "snd (drain_signals idle_plan_env (\<lambda>_. True) [] demo_heart_config (10 * hour) 0
      (snd (pursue_objective idle_plan_env (\<lambda>_. True) [] demo_heart_config (10 * hour) 0 demo_heart)))
   = demo_heart\<lparr>ht_last_pursuit := 10 * hour, ht_signals := Some []\<rparr>"
proof -
  obtain s1 h1 where p: "pursue_objective idle_plan_env (\<lambda>_. True) [] demo_heart_config (10 * hour) 0 demo_heart = (s1, h1)"
    by (rule prod.exhaust)
  obtain s2 h2 where d: "drain_signals idle_plan_env (\<lambda>_. True) [] demo_heart_config (10 * hour) s1 h1 = (s2, h2)"
    by (rule prod.exhaust)
  have "s1 = 0 \<and> s2 = 0 \<and> h2 = demo_heart\<lparr>ht_last_pursuit := 10 * hour, ht_signals := Some []\<rparr>"
    using stuck_objective_loses_turn [OF _ _ demo_choice(1-3) demo_choice(4) _ _ demo_choice(5) p d, of "[]"] p demo_choice
    by (simp add: demo_heart_config_def demo_stuck_def demo_heart_def pursue_objective_def Let_def)
  with p d show ?thesis by simp
qed

lemma pursue_stuck:
  assumes "hc_cog cfg" "hc_db cfg" "or_default (4 * hour) (hc_pursuit_cooldown cfg) \<le> time_sub now (ht_last_pursuit h)"
    "recently_active pursuit_max_inactive now (ht_sm h)" "\<not> tag_running ''[objective]'' (wt_items (ht_tracker h))"
    "Option.bind (list_active (ok 1) (wt_objectives (ht_tracker h)))
       (pursuit_choice (or_default (4 * hour) (hc_pursuit_cooldown cfg)) now) = Some g"
    "3 \<le> ob_attempts g" "ht_signals h = Some q"
  shows "pursue_objective penv ok err cfg now s h
    = (s, h\<lparr>ht_signals := Some (push_signal (stuck_signal g) q), ht_last_pursuit := now\<rparr>)"
  using assms by (simp add: pursue_objective_def Let_def)

lemma demo_tick_result:
  assumes "heartbeat_tick id demo_heart_config demo_tick 0 demo_heart = (s', h')"
  shows "ht_sent h' = [''Rain'']" "ht_last_pursuit h' = 10 * hour"
proof -
  define h0 where "h0 = demo_heart\<lparr>ht_tracker := snd (kill_hung_work True (10 * hour) (ht_tracker demo_heart)),
      ht_sm := refresh_prefs True (\<lambda>_. False) \<lparr>prefs_table = Map.empty, snapshot = None\<rparr> (ht_sm demo_heart)\<rparr>"
  obtain s1 h1 where p: "phase2 id demo_heart_config demo_tick 0 h0 = (s1, h1)" by (rule prod.exhaust)
  have h1: "h1 = deliver_chat id demo_heart_config (10 * hour) ''Rain'' h0" by (rule demo_phase2 [OF p])
  obtain s2 h2 where pu: "pursue_objective idle_plan_env (\<lambda>_. True) [] demo_heart_config (10 * hour) s1 h1 = (s2, h2)"
    by (rule prod.exhaust)
  obtain s3 h3 where dr: "drain_signals idle_plan_env (\<lambda>_. True) [] demo_heart_config (10 * hour) s2 h2 = (s3, h3)"
    by (rule prod.exhaust)
  have sm: "last_user_activity (ht_sm h0) = 10 * hour"
    by (simp add: h0_def demo_heart_def refresh_prefs_def demo_manager_def new_state_manager_def Let_def)
  have tk: "ht_tracker h0 = (ht_tracker demo_heart)\<lparr>wt_hung := []\<rparr>"
    by (simp add: h0_def demo_heart_def new_tracker_def kill_hung_work_def watch_query_def Let_def)
  have same: "ht_tracker h1 = ht_tracker h0" "ht_sm h1 = ht_sm h0" "ht_last_pursuit h1 = 0" "ht_signals h1 = Some []"
      "ht_sent h1 = [''Rain'']"
    by (simp_all add: h1 deliver_chat_def send_deduped_def notify_def h0_def demo_heart_def demo_heart_config_def)
  have "recently_active pursuit_max_inactive (10 * hour) (ht_sm h1)"
    using demo_choice(1) by (simp add: recently_active_def same sm) (simp add: demo_heart_def)
  moreover have "ht_last_pursuit demo_heart = 0" by (simp add: demo_heart_def)
  ultimately have "pursue_objective idle_plan_env (\<lambda>_. True) [] demo_heart_config (10 * hour) s1 h1
      = (s1, h1\<lparr>ht_signals := Some (push_signal (stuck_signal demo_stuck) []), ht_last_pursuit := 10 * hour\<rparr>)"
    using demo_choice(2-4) same tk by (intro pursue_stuck) (simp_all add: demo_heart_config_def demo_stuck_def)
  then have "ht_last_pursuit h2 = 10 * hour" using pu by simp
  moreover have "h' = run_maintenance True demo_heart_config (10 * hour) h3"
    using assms p pu dr
    by (simp add: heartbeat_tick_def Let_def h0_def demo_tick_def demo_heart_config_def run_cognitive_def)
  ultimately show "ht_sent h' = [''Rain'']" "ht_last_pursuit h' = 10 * hour"
    using pursue_frame [OF pu] drain_frame [OF dr] same(5) by (simp_all add: maintenance_frame)
qed



text \<open>A reflection that asks for a cooldown of a hundred hours gets six.\<close>

lemma demo_written:
  "heart_ok demo_heart \<and> ht_params (adaptive_write True (''curiosity_cooldown_hours'', 100, []) demo_heart) ''curiosity_cooldown_hours'' = Some 6"
  by (simp add: heart_ok_def demo_heart_def params_ok_def adaptive_write_def is_valid_key_def param_ranges_def adaptive_set_def
      adaptive_clamp_def)

theorem heart_bounds_witness:
  "30 * minute \<le> curiosity_cooldown True demo_heart_config demo_heart \<and> length (ht_actions demo_heart) \<le> 5"
  using heart_bounds [OF demo_heart_reach demo_cooldown, of True] by blast

text \<open>The same heartbeat with an objective that was not tried yet, and a model that plans.\<close>

definition demo_plan :: string where
  "demo_plan = json_object [json_field ''steps'' (json_array [json_object [json_field ''description'' (json_quote ''Read'')]])]"

definition planning_env :: "nat plan_env" where
  "planning_env = idle_plan_env\<lparr>pe_dtc := Some (\<lambda>p c n s. (Inr demo_plan, s), \<lambda>p c n s. (Inr demo_plan, s))\<rparr>"

definition eager_heart :: "string heart" where
  "eager_heart = demo_heart\<lparr>ht_tracker := new_tracker \<lparr>wi_rows = [], wi_next = 1\<rparr>
     \<lparr>ob_rows = [demo_stuck\<lparr>ob_attempts := 0\<rparr>], ob_next = 2\<rparr>\<rparr>"

definition eager_tick :: "nat tick_inputs" where "eager_tick = demo_tick\<lparr>ti_plan := planning_env\<rparr>"

lemma demo_decomposes: "decompose_plan planning_env d [] s = (Inr [\<lparr>step_description = ''Read'', tools_needed = []\<rparr>], s)"
proof -
  have "parse_plan demo_plan = Some [\<lparr>step_description = ''Read'', tools_needed = []\<rparr>]" by code_simp
  then show ?thesis by (simp add: decompose_plan_def planning_env_def Let_def max_plan_steps_def)
qed

definition eager_choice :: objective where "eager_choice = demo_stuck\<lparr>ob_attempts := 0\<rparr>"

lemma eager_pursues:
  assumes "ht_tracker h = (ht_tracker eager_heart)\<lparr>wt_hung := []\<rparr>" "ht_last_pursuit h = 0" "recently_active pursuit_max_inactive (10 * hour) (ht_sm h)"
  shows "\<exists>tk. pursue_objective planning_env (\<lambda>_. True) [] demo_heart_config (10 * hour) s h
      = (s, h\<lparr>ht_tracker := tk, ht_last_pursuit := 10 * hour\<rparr>) \<and> map wi_directive (fresh 1 (wt_items tk)) = [''[objective] Learn Go'']"
proof -
  obtain res tk where w: "start_work (\<lambda>n. True) [] (10 * hour) (''[objective] '' @ ob_summary eager_choice) 5 (ob_id eager_choice)
      [\<lparr>step_description = ''Read'', tools_needed = []\<rparr>] (ht_tracker h) = (res, tk)" by (rule prod.exhaust)
  have "(\<exists>i. res = Inr i) \<and> map wi_directive (fresh 1 (wt_items tk)) = [''[objective] Learn Go'']"
    using w by (auto simp: start_work_def assms(1) eager_heart_def new_tracker_def insert_item_def blank_item_def fresh_def Let_def
        eager_choice_def demo_stuck_def)
  moreover have "Option.bind (list_active True (wt_objectives (ht_tracker h)))
      (pursuit_choice (or_default (4 * hour) (hc_pursuit_cooldown demo_heart_config)) (10 * hour)) = Some eager_choice"
    by (simp add: assms(1) eager_heart_def new_tracker_def list_active_def by_rank_def eager_choice_def demo_stuck_def pursuit_choice_def)
  moreover have "\<not> tag_running ''[objective]'' (items_of h)"
    by (simp add: tag_running_def assms(1) eager_heart_def new_tracker_def)
  moreover have "\<not> time_sub (10 * hour) (ht_last_pursuit h) < or_default (4 * hour) (hc_pursuit_cooldown demo_heart_config)"
    using demo_choice(2) by (simp add: assms(2) demo_heart_def)
  ultimately show ?thesis using assms(3) w
    by (auto simp: pursue_objective_def Let_def launch_background_plan_def demo_decomposes)
      (auto simp: demo_heart_config_def eager_choice_def)
qed

lemma eager_started:
  assumes "heartbeat_tick id demo_heart_config eager_tick 0 eager_heart = (s', h')"
  shows "started eager_heart h' = [''[objective] Learn Go'']"
proof -
  define h0 where "h0 = eager_heart\<lparr>ht_tracker := snd (kill_hung_work True (10 * hour) (ht_tracker eager_heart)),
      ht_sm := refresh_prefs True (\<lambda>_. False) \<lparr>prefs_table = Map.empty, snapshot = None\<rparr> (ht_sm eager_heart)\<rparr>"
  obtain s1 h1 where p: "phase2 id demo_heart_config eager_tick 0 h0 = (s1, h1)" by (rule prod.exhaust)
  have h1: "h1 = deliver_chat id demo_heart_config (10 * hour) ''Rain'' h0"
    using p by (simp add: phase2_def phase2_gatekeeper_def eager_tick_def demo_tick_def demo_heart_env_def demo_gate_decision Let_def
        demo_heart_config_def)
  have "last_user_activity (ht_sm h0) = 10 * hour"
    by (simp add: h0_def eager_heart_def demo_heart_def refresh_prefs_def demo_manager_def new_state_manager_def Let_def)
  then have act: "recently_active pursuit_max_inactive (10 * hour) (ht_sm h1)"
    by (simp add: h1 recently_active_def pursuit_max_inactive_def is_zero_def time_sub_def dur_defs max_dur_def min_dur_def)
  have same: "ht_tracker h1 = (ht_tracker eager_heart)\<lparr>wt_hung := []\<rparr>" "ht_last_pursuit h1 = 0" "ht_signals h1 = Some []"
    by (simp_all add: h1 deliver_chat_def send_deduped_def notify_def h0_def eager_heart_def demo_heart_def new_tracker_def
        kill_hung_work_def watch_query_def Let_def)
  obtain tk where pu: "pursue_objective planning_env (\<lambda>_. True) [] demo_heart_config (10 * hour) s1 h1
      = (s1, h1\<lparr>ht_tracker := tk, ht_last_pursuit := 10 * hour\<rparr>)" "map wi_directive (fresh 1 (wt_items tk)) = [''[objective] Learn Go'']"
    using eager_pursues [OF same(1,2) act, of s1] that by (elim exE conjE)
  have "h' = run_maintenance True demo_heart_config (10 * hour) (h1\<lparr>ht_tracker := tk, ht_last_pursuit := 10 * hour, ht_signals := Some []\<rparr>)"
  proof -
    have ti: "ti_ok eager_tick = (\<lambda>_ _. True)" "ti_now eager_tick = 10 * hour" "ti_plan eager_tick = planning_env" "ti_err eager_tick = []"
        "ti_scans eager_tick = (\<lambda>_. False)" "ti_prefs eager_tick = \<lparr>prefs_table = Map.empty, snapshot = None\<rparr>"
      by (simp_all add: eager_tick_def demo_tick_def)
    have cfg: "hc_embed demo_heart_config = False" "hc_cog demo_heart_config = True" by (simp_all add: demo_heart_config_def)
    note e = assms [unfolded heartbeat_tick_def Let_def ti, folded h0_def, unfolded p prod.case cfg]
    have "h1\<lparr>ht_sm := ht_sm h1\<rparr> = h1" by simp
    with e pu(1) show ?thesis
      by (simp add: drain_signals_def run_cognitive_def best_signal_def cfg same(3) Let_def)
  qed
  moreover have "ht_last_maintenance h1 = 0"
    by (simp add: h1 deliver_chat_def send_deduped_def notify_def h0_def eager_heart_def demo_heart_def)
  ultimately have "ht_tracker h' = tk"
    by (simp add: run_maintenance_def demo_heart_config_def time_sub_def dur_defs max_dur_def min_dur_def)
  with pu(2) show ?thesis by (simp add: started_def eager_heart_def new_tracker_def)
qed


end
