(* ===== verification/Confirm.thy ===== *)
theory Confirm
  imports LlmOrchestrator Registry Limiters
begin

text \<open>
  The gate in front of the tools that act outside (\<open>confirm.go\<close>): a tool of the list runs only when
  the user says yes, or said yes to a call with the same key within five minutes. The questions and
  the keys are those of the schemas in \<open>register_gmail_tools.go\<close>, \<open>register_calendar_tools.go\<close> and
  \<open>register_ai_tools.go\<close>.
\<close>

section \<open>Questions and keys\<close>

definition warning_sign :: string where
  "warning_sign = [CHR 0xE2, CHR 0x9A, CHR 0xA0, CHR 0xEF, CHR 0xB8, CHR 0x8F, CHR 0x20]"

text \<open>Two string fields of the arguments; the flag tells that the arguments did not decode.\<close>

definition two_fields :: "string \<Rightarrow> string \<Rightarrow> string option \<Rightarrow> string \<times> string \<times> bool" where
  "two_fields k1 k2 args =
     (case struct_members args of
        None \<Rightarrow> ([], [], True)
      | Some ms \<Rightarrow>
          (let (x, e1) = arg_string [k1, k2] k1 ms; (y, e2) = arg_string [k1, k2] k2 ms in (x, y, e1 \<or> e2)))"

text \<open>\<open>ConfirmFormat\<close> and \<open>ConfirmCacheKey\<close> of the three schemas that have them.\<close>

definition email_question :: "string option \<Rightarrow> string" where
  "email_question args =
     (let (to, subject, e) = two_fields ''to'' ''subject'' args
      in warning_sign @ ''Send email to '' @ to @ [CHR 0x0A] @ ''Subject: '' @ go_quote subject)"

definition email_key :: "string option \<Rightarrow> string" where
  "email_key args =
     (let (to, subject, e) = two_fields ''to'' ''subject'' args
      in if e then ''send_email'' else ''send_email:'' @ to @ '':'' @ subject)"

definition event_question :: "string option \<Rightarrow> string" where
  "event_question args =
     (let (title, start, e) = two_fields ''title'' ''start'' args
      in warning_sign @ ''Create calendar event'' @ [CHR 0x0A] @ go_quote title @ '' at '' @ start)"

definition event_key :: "string option \<Rightarrow> string" where
  "event_key args =
     (let (title, start, e) = two_fields ''title'' ''start'' args
      in if e then ''create_event'' else ''create_event:'' @ title @ '':'' @ start)"

definition skill_question :: "string option \<Rightarrow> string" where
  "skill_question args =
     (let (name, description, e) = two_fields ''name'' ''description'' args
      in warning_sign @ ''Create skill '' @ go_quote name @ [CHR 0x0A] @ description)"

definition skill_key :: "string option \<Rightarrow> string" where
  "skill_key args =
     (case struct_members args of
        None \<Rightarrow> ''create_skill''
      | Some ms \<Rightarrow> (let (name, e) = arg_string [''name''] ''name'' ms
                    in if \<not> e \<and> name \<noteq> [] then ''create_skill:'' @ name else ''create_skill''))"

definition confirm_format :: "string \<rightharpoonup> (string option \<Rightarrow> string)" where
  "confirm_format = [''send_email'' \<mapsto> email_question, ''create_event'' \<mapsto> event_question, ''create_skill'' \<mapsto> skill_question]"

definition confirm_cache_key :: "string \<rightharpoonup> (string option \<Rightarrow> string)" where
  "confirm_cache_key = [''send_email'' \<mapsto> email_key, ''create_event'' \<mapsto> event_key, ''create_skill'' \<mapsto> skill_key]"

section \<open>The gate\<close>

definition question_key :: "'s registry \<Rightarrow> string \<Rightarrow> string option \<Rightarrow> string" where
  "question_key r name args =
     (case schema_for r name of
        None \<Rightarrow> name
      | Some sc \<Rightarrow> (case confirm_cache_key (ts_name sc) of
            None \<Rightarrow> name
          | Some f \<Rightarrow> if f args \<noteq> [] then f args else name))"

definition question_text :: "'s registry \<Rightarrow> string \<Rightarrow> string option \<Rightarrow> string" where
  "question_text r name args =
     (case schema_for r name of
        None \<Rightarrow> warning_sign @ ''Execute '' @ name @ ''?''
      | Some sc \<Rightarrow> (case confirm_format (ts_name sc) of
            None \<Rightarrow> warning_sign @ ''Execute '' @ name @ ''?''
          | Some f \<Rightarrow> f args))"

text \<open>What the gate decides before it asks: run the call, or ask for a key with a text.\<close>

datatype gate_verdict = Pass | Question string string

definition gate_verdict_of :: "'s registry \<Rightarrow> (string \<Rightarrow> bool) \<Rightarrow> approval_cache \<Rightarrow> gotime \<Rightarrow> string \<Rightarrow> gate_verdict" where
  "gate_verdict_of r gate c now raw =
     (case parse_tool_call raw of
        None \<Rightarrow> Pass
      | Some (name, args) \<Rightarrow>
          if \<not> gate name then Pass
          else (let key = question_key r name args
                in if ac_check c now key then Pass else Question key (question_text r name args)))"

text \<open>\<open>Confirm\<close> of the platform (\<open>None\<close>: an error), and the clock.\<close>

record 's confirm_env =
  ce_ask :: "string \<Rightarrow> 's \<Rightarrow> bool option \<times> 's"
  ce_clock :: "'s \<Rightarrow> gotime"

definition gated_run :: "'s registry \<Rightarrow> string \<Rightarrow> approval_cache \<times> 's \<Rightarrow> (tool_error + string) \<times> approval_cache \<times> 's" where
  "gated_run r raw = (\<lambda>(c, s). (let (res, s') = reg_execute r raw s in (res, c, s')))"

text \<open>
  A call takes two steps: what happens before the question, which runs the call at once or asks, and
  what follows the answer. In between other goroutines go on, and the cache may change.
\<close>

definition confirm_enter ::
  "'s registry \<Rightarrow> (string \<Rightarrow> bool) \<Rightarrow> gotime \<Rightarrow> string \<Rightarrow> approval_cache \<times> 's
     \<Rightarrow> ((tool_error + string) \<times> approval_cache \<times> 's) + (string \<times> string)" where
  "confirm_enter r gate now raw = (\<lambda>(c, s).
     (case gate_verdict_of r gate c now raw of
        Pass \<Rightarrow> Inl (gated_run r raw (c, s))
      | Question key desc \<Rightarrow> Inr (key, desc)))"

definition confirm_answer ::
  "'s registry \<Rightarrow> string \<Rightarrow> string \<Rightarrow> bool option \<Rightarrow> gotime \<Rightarrow> approval_cache \<times> 's
     \<Rightarrow> (tool_error + string) \<times> approval_cache \<times> 's" where
  "confirm_answer r raw key answer now = (\<lambda>(c, s).
     (case answer of
        None \<Rightarrow> (Inr (''Action cancelled'' @ em_dash @ ''confirmation error.''), c, s)
      | Some True \<Rightarrow> gated_run r raw (ac_record c now key, s)
      | Some False \<Rightarrow> (Inr ''Action cancelled by user.'', c, s)))"

definition confirm_tool_exec ::
  "'s registry \<Rightarrow> (string \<Rightarrow> bool) \<Rightarrow> 's confirm_env \<Rightarrow> string \<Rightarrow> approval_cache \<times> 's
     \<Rightarrow> (tool_error + string) \<times> approval_cache \<times> 's" where
  "confirm_tool_exec r gate env raw = (\<lambda>(c, s).
     (case confirm_enter r gate (ce_clock env s) raw (c, s) of
        Inl out \<Rightarrow> out
      | Inr (key, desc) \<Rightarrow>
          (let (answer, s1) = ce_ask env desc s
           in confirm_answer r raw key answer (ce_clock env s1) (c, s1))))"

lemmas confirm_defs = confirm_tool_exec_def confirm_enter_def confirm_answer_def gated_run_def

text \<open>\<open>main\<close>: the gate of the configured tools, over an empty cache of five minutes.\<close>

definition confirm_gate :: "string list \<Rightarrow> string \<Rightarrow> bool" where
  "confirm_gate tools name \<longleftrightarrow> name \<in> set tools"

definition approval_window :: duration where "approval_window = 5 * minute"

section \<open>The gate among goroutines\<close>

text \<open>
  The message loop, the heartbeat and the background jobs share the gate, and between a question and
  its answer the others go on. Each step is one half of a call of \<open>confirm_tool_exec\<close>; the clock moves
  in between. The world is watched: its log, the latest first, holds what the user answered to which
  call, and the calls that reached a tool, written by the tools of the registry when they run.
\<close>

datatype gate_event = Said gotime string "bool option" | Ran gotime string "string option"

record 's watched =
  wa_world :: 's
  wa_now :: gotime
  wa_log :: "gate_event list"

definition watched_tool :: "string \<Rightarrow> 's tool_fn \<Rightarrow> 's watched tool_fn" where
  "watched_tool name fn = (\<lambda>args w.
     (let (res, s) = fn args (wa_world w)
      in (res, w\<lparr>wa_world := s, wa_log := Ran (wa_now w) name args # wa_log w\<rparr>)))"

definition watched_registry :: "'s registry \<Rightarrow> 's watched registry" where
  "watched_registry r = \<lparr>reg_tools = (\<lambda>name. map_option (watched_tool name) (reg_tools r name)),
     reg_schemas = reg_schemas r,
     reg_on_auth_error = map_option (\<lambda>f name w. w\<lparr>wa_world := f name (wa_world w)\<rparr>) (reg_on_auth_error r)\<rparr>"

record 's gate_system =
  gy_cache :: approval_cache
  gy_asked :: "(string \<times> string) list"
  gy_world :: "'s watched"

definition after_call :: "((tool_error + string) \<times> approval_cache \<times> 's watched) \<Rightarrow> 's gate_system \<Rightarrow> 's gate_system" where
  "after_call out y = y\<lparr>gy_cache := fst (snd out), gy_world := snd (snd out)\<rparr>"

inductive gate_step :: "'s registry \<Rightarrow> (string \<Rightarrow> bool) \<Rightarrow> 's gate_system \<Rightarrow> 's gate_system \<Rightarrow> bool" for r gate where
  pass: "confirm_enter (watched_registry r) gate (wa_now (gy_world y)) raw (gy_cache y, gy_world y) = Inl out
     \<Longrightarrow> gate_step r gate y (after_call out y)"
| question: "confirm_enter (watched_registry r) gate (wa_now (gy_world y)) raw (gy_cache y, gy_world y) = Inr (key, desc)
     \<Longrightarrow> gate_step r gate y (y\<lparr>gy_asked := (raw, key) # gy_asked y\<rparr>)"
| answer: "(raw, key) \<in> set (gy_asked y)
     \<Longrightarrow> w = (gy_world y)\<lparr>wa_log := Said (wa_now (gy_world y)) raw b # wa_log (gy_world y)\<rparr>
     \<Longrightarrow> out = confirm_answer (watched_registry r) raw key b (wa_now w) (gy_cache y, w)
     \<Longrightarrow> gate_step r gate y (after_call out (y\<lparr>gy_asked := remove1 (raw, key) (gy_asked y)\<rparr>))"
| time: "gate_step r gate y (y\<lparr>gy_world := (gy_world y)\<lparr>wa_now := t\<rparr>\<rparr>)"
| others: "gate_step r gate y (y\<lparr>gy_world := (gy_world y)\<lparr>wa_world := s\<rparr>\<rparr>)"

definition gate_start :: "'s \<Rightarrow> gotime \<Rightarrow> 's gate_system" where
  "gate_start s t = \<lparr>gy_cache = new_approval_cache approval_window, gy_asked = [],
     gy_world = \<lparr>wa_world = s, wa_now = t, wa_log = []\<rparr>\<rparr>"

inductive gate_reach :: "'s registry \<Rightarrow> (string \<Rightarrow> bool) \<Rightarrow> 's gate_system \<Rightarrow> bool" for r gate where
  start: "gate_reach r gate (gate_start s t)"
| step: "gate_reach r gate y \<Longrightarrow> gate_step r gate y y' \<Longrightarrow> gate_reach r gate y'"

text \<open>The approvals in a log: the time of a yes and the key of the call it was said to.\<close>

definition call_key :: "'s registry \<Rightarrow> string \<Rightarrow> string option" where
  "call_key r raw = map_option (\<lambda>(name, args). question_key r name args) (parse_tool_call raw)"

fun approvals_of :: "'s registry \<Rightarrow> gate_event list \<Rightarrow> (gotime \<times> string) list" where
  "approvals_of r [] = []"
| "approvals_of r (Said t raw b # es) =
     (case call_key r raw of
        Some k \<Rightarrow> if b = Some True then (t, k) # approvals_of r es else approvals_of r es
      | None \<Rightarrow> approvals_of r es)"
| "approvals_of r (Ran t name args # es) = approvals_of r es"

text \<open>A run is covered when its tool is not gated, or when a yes to its key is recent.\<close>

fun covered :: "'s registry \<Rightarrow> (string \<Rightarrow> bool) \<Rightarrow> gate_event list \<Rightarrow> bool" where
  "covered r gate [] = True"
| "covered r gate (Said t raw b # es) = covered r gate es"
| "covered r gate (Ran t name args # es) \<longleftrightarrow>
     (gate name \<longrightarrow> list_ex (\<lambda>(t0, k). k = question_key r name args \<and> t < t0 + approval_window) (approvals_of r es))
     \<and> covered r gate es"

lemma covered_suffix: "covered r gate (es @ fs) \<Longrightarrow> covered r gate fs"
proof (induction es)
  case (Cons e es)
  then show ?case by (cases e) auto
qed simp

lemma approvals_set:
  "(t, k) \<in> set (approvals_of r es) \<longleftrightarrow> (\<exists>raw. Said t raw (Some True) \<in> set es \<and> call_key r raw = Some k)"
proof (induction es)
  case (Cons e es)
  then show ?case by (cases e) (auto split: option.split)
qed simp

lemma window_pos: "0 < approval_window" "approval_window \<le> max_dur"
  by (simp_all add: approval_window_def dur_defs max_dur_def)

lemma gate_passes:
  assumes "gate_verdict_of r gate c now raw = Pass" "parse_tool_call raw = Some (name, args)" "gate name"
  shows "ac_check c now (question_key r name args)"
  using assms by (simp add: gate_verdict_of_def Let_def split: if_splits)

lemma gate_asks:
  assumes "gate_verdict_of r gate c now raw = Question key desc"
  shows "\<exists>name args. parse_tool_call raw = Some (name, args) \<and> gate name \<and> key = question_key r name args
     \<and> desc = question_text r name args"
  using assms by (auto simp: gate_verdict_of_def Let_def split: option.splits if_splits)

lemma watched_schema [simp]: "schema_for (watched_registry r) = schema_for r"
  by (simp add: fun_eq_iff watched_registry_def schema_for_def)

lemma watched_question [simp]:
  "question_key (watched_registry r) = question_key r" "question_text (watched_registry r) = question_text r"
  by (simp_all add: fun_eq_iff question_key_def question_text_def)

lemma watched_verdict [simp]: "gate_verdict_of (watched_registry r) = gate_verdict_of r"
  unfolding gate_verdict_of_def watched_question ..

text \<open>A run through the registry logs nothing, or the call that it parsed.\<close>

lemma watched_execute:
  assumes "reg_execute (watched_registry r) raw w = (res, w')"
  shows "wa_now w' = wa_now w \<and>
    (wa_log w' = wa_log w \<or>
     (\<exists>name args. parse_tool_call raw = Some (name, args) \<and> wa_log w' = Ran (wa_now w) name args # wa_log w))"
proof (cases "parse_tool_call raw")
  case None
  then show ?thesis using assms by (simp add: reg_execute_def)
next
  case (Some p)
  obtain name args where p: "p = (name, args)" by (rule prod.exhaust)
  let ?Q = "\<lambda>w'. wa_now w' = wa_now w \<and> wa_log w' = Ran (wa_now w) name args # wa_log w"
  show ?thesis
  proof (cases "reg_tools r name")
    case None
    then show ?thesis using assms Some p by (simp add: reg_execute_def watched_registry_def)
  next
    case (Some fn)
    have alert: "?Q (auth_alert (watched_registry r) n x)" if "?Q x" for n x
      using that by (simp add: auth_alert_def watched_registry_def split: option.split)
    have tools: "reg_tools (watched_registry r) name = Some (watched_tool name fn)"
      using Some by (simp add: watched_registry_def)
    have "?Q (snd (watched_tool name fn args w))"
      by (simp add: watched_tool_def split: prod.split)
    with alert assms \<open>parse_tool_call raw = Some p\<close> p tools have "?Q w'"
      by (auto simp: reg_execute_def split: prod.splits sum.splits call_error.splits if_splits)
    with \<open>parse_tool_call raw = Some p\<close> p show ?thesis by simp
  qed
qed

lemma gated_run_log:
  assumes "gated_run (watched_registry r) raw (c, w) = (res, c', w')"
  shows "c' = c \<and> wa_now w' = wa_now w \<and>
    (wa_log w' = wa_log w \<or>
     (\<exists>name args. parse_tool_call raw = Some (name, args) \<and> wa_log w' = Ran (wa_now w) name args # wa_log w))"
  using assms watched_execute [of r raw w] by (auto simp: gated_run_def split: prod.splits)

text \<open>The invariant: the cache is what the answers yes made of it, and every run is covered.\<close>

definition cache_of :: "(gotime \<times> string) list \<Rightarrow> approval_cache" where
  "cache_of as = foldl (\<lambda>c (t, k). ac_record c t k) (new_approval_cache approval_window) (rev as)"

definition gate_inv :: "'s registry \<Rightarrow> (string \<Rightarrow> bool) \<Rightarrow> 's gate_system \<Rightarrow> bool" where
  "gate_inv r gate y \<longleftrightarrow>
     gy_cache y = cache_of (approvals_of r (wa_log (gy_world y))) \<and>
     list_all (\<lambda>(raw, key). call_key r raw = Some key) (gy_asked y) \<and>
     covered r gate (wa_log (gy_world y))"

lemma cache_of_check:
  assumes "ac_check (cache_of as) now k"
  shows "\<exists>t. (t, k) \<in> set as \<and> now < t + approval_window"
proof -
  have "\<exists>t. (t, k) \<in> set (rev as) \<and> now < t + ttl (new_approval_cache approval_window)"
    by (rule ac.check_records [THEN mp, OF _ _ _ assms [unfolded cache_of_def]])
      (simp_all add: new_approval_cache_def window_pos)
  then show ?thesis by (simp add: new_approval_cache_def)
qed

lemma covered_run:
  assumes "gate_inv r gate y" "gate_verdict_of (watched_registry r) gate (gy_cache y) t raw = Pass"
    and "parse_tool_call raw = Some (name, args)"
  shows "covered r gate (Ran t name args # wa_log (gy_world y))"
proof -
  have "\<exists>t0. (t0, question_key r name args) \<in> set (approvals_of r (wa_log (gy_world y))) \<and> t < t0 + approval_window"
    if "gate name"
    using cache_of_check gate_passes [OF assms(2,3) that] assms(1) by (simp add: gate_inv_def)
  then show ?thesis using assms(1) by (fastforce simp: list_ex_iff gate_inv_def)
qed

lemma gate_step_inv:
  assumes "gate_step r gate y y'" "gate_inv r gate y"
  shows "gate_inv r gate y'"
  using assms(1)
proof cases
  case (pass raw out)
  obtain res c' w' where out: "out = (res, c', w')" by (rule prod_cases3)
  let ?w = "gy_world y"
  from pass(2) out have v: "gate_verdict_of (watched_registry r) gate (gy_cache y) (wa_now ?w) raw = Pass"
    and run: "gated_run (watched_registry r) raw (gy_cache y, ?w) = (res, c', w')"
    by (auto simp: confirm_enter_def split: gate_verdict.splits)
  from gated_run_log [OF run] covered_run [OF assms(2) v] assms(2) show ?thesis
    by (auto simp: pass(1) out after_call_def gate_inv_def)
next
  case (question raw key desc)
  then have "gate_verdict_of (watched_registry r) gate (gy_cache y) (wa_now (gy_world y)) raw = Question key desc"
    by (auto simp: confirm_enter_def split: gate_verdict.splits)
  from gate_asks [OF this] have "call_key r raw = Some key" by (auto simp: call_key_def)
  with assms(2) question(1) show ?thesis by (simp add: gate_inv_def)
next
  case (answer raw key w b out)
  obtain res c' w' where out: "out = (res, c', w')" by (rule prod_cases3)
  have key: "call_key r raw = Some key" using assms(2) answer(2) by (auto simp: gate_inv_def list_all_iff)
  have rem: "list_all (\<lambda>(raw, key). call_key r raw = Some key) (remove1 (raw, key) (gy_asked y))"
    using assms(2) set_remove1_subset [of "(raw, key)" "gy_asked y"] by (auto simp: gate_inv_def list_all_iff)
  show ?thesis
  proof (cases "b = Some True")
    case True
    have "gated_run (watched_registry r) raw (ac_record (gy_cache y) (wa_now w) key, w) = (res, c', w')"
      using answer(4) out True by (simp add: confirm_answer_def)
    from gated_run_log [OF this] assms(2) key rem True window_pos show ?thesis
      by (auto simp: answer(1,3) out after_call_def gate_inv_def cache_of_def call_key_def)
  next
    case False
    then have "c' = gy_cache y" "w' = w"
      using answer(4) out by (auto simp: confirm_answer_def split: option.splits bool.splits)
    with assms(2) key rem False show ?thesis
      by (simp add: answer(1,3) out after_call_def gate_inv_def)
  qed
qed (use assms(2) in \<open>simp_all add: gate_inv_def\<close>)

lemma gate_reach_inv: "gate_reach r gate y \<Longrightarrow> gate_inv r gate y"
proof (induction rule: gate_reach.induct)
  case (start s t)
  show ?case by (simp add: gate_inv_def gate_start_def cache_of_def)
next
  case (step y y')
  from gate_step_inv [OF step.hyps(2) step.IH] show ?case .
qed

section \<open>The gate in a run of the orchestrator\<close>

text \<open>The callbacks of the options keep a property of the world.\<close>

definition callbacks_keep :: "('s \<Rightarrow> bool) \<Rightarrow> 's query_opts option \<Rightarrow> bool" where
  "callbacks_keep P opts \<longleftrightarrow>
     (\<forall>s. P s \<longrightarrow>
        (\<forall>f. Option.bind opts qo_on_tool_start = Some f \<longrightarrow> (\<forall>t. P (f t s))) \<and>
        (\<forall>f. Option.bind opts qo_on_tool_exec = Some f \<longrightarrow> (\<forall>t e. P (f t e s))) \<and>
        (\<forall>f. Option.bind opts qo_on_tool_end = Some f \<longrightarrow> P (snd (f s))))"

lemma query_keeps_world:
  assumes "\<And>r s. P s \<Longrightarrow> P (snd (oe_chat env r s))"
    and "\<And>f raw s. oe_tool env = Some f \<Longrightarrow> P s \<Longrightarrow> P (snd (f raw s))"
    and "callbacks_keep P opts" "P s"
    and "query_orchestrator env mdl prompt trimFn opts s = (res, new, s')"
  shows "P s'"
proof -
  obtain g where g: "run_grammar_orchestrator env mdl g prompt trimFn opts s = (res, new, s')"
    using assms(5) by (simp add: query_orchestrator_def)
  let ?cfg = "orchestrator_config g prompt trimFn opts" and ?env = "orchestrator_env env mdl opts"
  have "P (snd (orchestrator_chat env mdl opts ci s))" if "P s" for ci s
    using assms(1) [OF that, of "orchestrator_request mdl opts ci"]
    by (auto simp: orchestrator_chat_def split: prod.split sum.split)
  then have "keeps P ?cfg ?env"
    using assms(2,3) unfolding keeps_def callbacks_keep_def by (auto simp: orchestrator_config_def orchestrator_env_def)
  from loop_rounds_keeps [OF this, of "start_state (orchestrator_messages env prompt opts) s"] assms(4)
  have "P (ls_world (snd (run_loop ?cfg ?env (orchestrator_messages env prompt opts) s)))"
    by (simp add: run_loop_def start_state_def)
  with g show ?thesis by (auto simp: run_grammar_orchestrator_def Let_def case_prod_beta)
qed

text \<open>A user who never says yes, and what the gate then lets through.\<close>

definition never_yes :: "('s \<Rightarrow> bool) \<Rightarrow> 's confirm_env \<Rightarrow> bool" where
  "never_yes P env \<longleftrightarrow> (\<forall>q s. P s \<longrightarrow> P (snd (ce_ask env q s)) \<and> fst (ce_ask env q s) \<noteq> Some True)"

definition open_tools_keep :: "('s \<Rightarrow> bool) \<Rightarrow> 's registry \<Rightarrow> (string \<Rightarrow> bool) \<Rightarrow> bool" where
  "open_tools_keep P r gate \<longleftrightarrow>
     (\<forall>name fn args s. \<not> gate name \<longrightarrow> reg_tools r name = Some fn \<longrightarrow> P s \<longrightarrow> P (snd (fn args s))) \<and>
     (\<forall>f t s. reg_on_auth_error r = Some f \<longrightarrow> P s \<longrightarrow> P (f t s))"

definition nothing_approved :: "approval_cache \<Rightarrow> bool" where
  "nothing_approved c \<longleftrightarrow> approvals_map c = Map.empty"

lemma refused_gate_keeps:
  assumes "never_yes P cenv" "open_tools_keep P r gate" "nothing_approved c" "P s"
  shows "nothing_approved (fst (snd (confirm_tool_exec r gate cenv raw (c, s))))
     \<and> P (snd (snd (confirm_tool_exec r gate cenv raw (c, s))))"
proof -
  have no: "\<not> ac_check c now k" for now k
    using assms(3) by (simp add: nothing_approved_def ac_check_def)
  have run: "P (snd (reg_execute r raw s))" if "\<And>name args. parse_tool_call raw = Some (name, args) \<Longrightarrow> \<not> gate name"
  proof (cases "parse_tool_call raw")
    case None
    then show ?thesis using assms(4) by (simp add: reg_execute_def)
  next
    case (Some p)
    obtain name args where p: "p = (name, args)" by (rule prod.exhaust)
    with that Some have "\<not> gate name" by blast
    then show ?thesis using assms(2,4) Some p unfolding open_tools_keep_def
      by (intro reg_execute_keeps [of r name P args s raw]) auto
  qed
  show ?thesis
  proof (cases "gate_verdict_of r gate c (ce_clock cenv s) raw")
    case Pass
    then have "\<And>name args. parse_tool_call raw = Some (name, args) \<Longrightarrow> \<not> gate name"
      using no by (auto simp: gate_verdict_of_def Let_def split: if_splits)
    with run Pass assms(3) show ?thesis
      by (auto simp: confirm_defs split: prod.split)
  next
    case (Question key desc)
    obtain a s1 where a: "ce_ask cenv desc s = (a, s1)" by (rule prod.exhaust)
    then have "P s1" "a \<noteq> Some True" using assms(1,4) unfolding never_yes_def by (metis fst_conv snd_conv)+
    with Question a assms(3) show ?thesis
      by (auto simp: confirm_defs split: option.split bool.split)
  qed
qed

section \<open>Properties\<close>


text \<open>
  C4: what the user refuses does not happen. Over a whole run of the orchestrator behind the gate,
  whatever the model writes, as long as the user says yes to nothing, a property of the world that
  the model, the callbacks and the tools outside the gate keep is kept: the gated tools have no
  influence on it.
\<close>

theorem refused_tools_have_no_effect:
  assumes "never_yes P cenv" "open_tools_keep P r gate" "nothing_approved c" "P s"
    and "oe_tool env = Some (confirm_tool_exec r gate cenv)"
    and "\<And>q c s. P s \<Longrightarrow> nothing_approved c \<Longrightarrow>
       nothing_approved (fst (snd (oe_chat env q (c, s)))) \<and> P (snd (snd (oe_chat env q (c, s))))"
    and "callbacks_keep (\<lambda>(c, s). nothing_approved c \<and> P s) opts"
    and "query_orchestrator env mdl prompt trimFn opts (c, s) = (res, new, c', s')"
  shows "P s'"
proof -
  let ?Q = "\<lambda>(c, s). nothing_approved c \<and> P s"
  have "?Q (c', s')"
  proof (rule query_keeps_world [of ?Q, OF _ _ assms(7) _ assms(8)])
    show "?Q (snd (oe_chat env q x))" if "?Q x" for q x
      using assms(6) that by (cases x) (auto simp: case_prod_beta)
    show "?Q (snd (f raw x))" if "oe_tool env = Some f" "?Q x" for f raw x
      using refused_gate_keeps [OF assms(1,2), of "fst x" "snd x" raw] that assms(5) by (cases x) (auto simp: case_prod_beta)
  qed (use assms(3,4) in simp)
  then show ?thesis by simp
qed

text \<open>
  An approval covers more than was shown. The key of an email is made of the recipient and the
  subject: once the user has agreed to one email, for five minutes every other email to the same
  recipient with the same subject is sent without a question, whatever its text.
\<close>

lemma approval_covers_other_body:
  assumes "gate ''send_email''" "map_option ts_name (schema_for r ''send_email'') = Some ''send_email''"
    and "parse_tool_call raw1 = Some (''send_email'', args1)" "parse_tool_call raw2 = Some (''send_email'', args2)"
    and "two_fields ''to'' ''subject'' args1 = two_fields ''to'' ''subject'' args2"
    and "gate_verdict_of r gate c (ce_clock env s) raw1 = Question key desc" "ce_ask env desc s = (Some True, s1)"
    and "confirm_tool_exec r gate env raw1 (c, s) = (res1, c1, s')" "ttl c = approval_window"
    and "ce_clock env s2 < ce_clock env s1 + 5 * minute"
  shows "confirm_tool_exec r gate env raw2 (c1, s2) = gated_run r raw2 (c1, s2)"
proof -
  obtain sc where sc: "schema_for r ''send_email'' = Some sc" "ts_name sc = ''send_email''" using assms(2) by auto
  have key: "question_key r ''send_email'' args1 = question_key r ''send_email'' args2"
    using assms(5) sc by (simp add: question_key_def confirm_cache_key_def email_key_def)
  have k: "key = question_key r ''send_email'' args1"
    using gate_asks [OF assms(6)] assms(3) by auto
  have c1: "c1 = ac_record c (ce_clock env s1) key"
    using assms(6-8) by (auto simp: confirm_defs split: prod.splits)
  have "ac_check c1 (ce_clock env s2) (question_key r ''send_email'' args2)"
    using ac.check_same [of c "ce_clock env s1" key "ce_clock env s2"] assms(9,10) window_pos
    by (simp add: c1 k key approval_window_def)
  then have "gate_verdict_of r gate c1 (ce_clock env s2) raw2 = Pass"
    using assms(1,4) by (simp add: gate_verdict_of_def Let_def)
  then show ?thesis by (simp add: confirm_tool_exec_def confirm_enter_def)
qed

section \<open>Witnesses\<close>

definition demo_mail :: "string \<Rightarrow> string" where
  "demo_mail body = json_object [json_field ''name'' (json_quote ''send_email''),
     json_field ''arguments'' (json_object [json_field ''to'' (json_quote ''ann''),
       json_field ''subject'' (json_quote ''Hi''), json_field ''body'' (json_quote body)])]"

definition demo_mail_args :: "string \<Rightarrow> string" where
  "demo_mail_args body = json_object [json_field ''to'' (json_quote ''ann''),
     json_field ''subject'' (json_quote ''Hi''), json_field ''body'' (json_quote body)]"

definition demo_mailer :: "string list registry" where
  "demo_mailer = \<lparr>reg_tools = [''send_email'' \<mapsto> (\<lambda>a s. (Inr ''sent'', (case a of None \<Rightarrow> [] | Some t \<Rightarrow> t) # s))],
     reg_schemas = [(''send_email'', \<lparr>ts_name = ''send_email'', ts_params = [], ts_description = [], ts_progress = [],
        ts_is_skill = False\<rparr>)], reg_on_auth_error = None\<rparr>"

definition demo_gated :: "string \<Rightarrow> bool" where
  "demo_gated = confirm_gate [''send_email'', ''create_event'']"

definition demo_user :: "bool \<Rightarrow> string list confirm_env" where
  "demo_user b = \<lparr>ce_ask = (\<lambda>q s. (Some b, s)), ce_clock = (\<lambda>s. 0)\<rparr>"

definition empty_cache :: approval_cache where "empty_cache = new_approval_cache approval_window"

lemma demo_mail_call:
  "parse_tool_call (demo_mail ''a'') = Some (''send_email'', Some (demo_mail_args ''a''))"
  "parse_tool_call (demo_mail ''b'') = Some (''send_email'', Some (demo_mail_args ''b''))"
  "two_fields ''to'' ''subject'' (Some (demo_mail_args ''a'')) = (''ann'', ''Hi'', False)"
  "two_fields ''to'' ''subject'' (Some (demo_mail_args ''b'')) = (''ann'', ''Hi'', False)"
  by code_simp+

lemma demo_mail_key: "question_key demo_mailer ''send_email'' (Some (demo_mail_args ''a'')) = ''send_email:ann:Hi''"
  using demo_mail_call(3)
  by (simp add: question_key_def demo_mailer_def schema_for_def confirm_cache_key_def email_key_def)

lemma demo_question:
  "gate_verdict_of demo_mailer demo_gated empty_cache 0 (demo_mail ''a'')
   = Question ''send_email:ann:Hi'' (email_question (Some (demo_mail_args ''a'')))"
  using demo_mail_key
  by (simp add: gate_verdict_of_def demo_mail_call Let_def demo_gated_def confirm_gate_def empty_cache_def
      new_approval_cache_def ac_check_def question_text_def demo_mailer_def schema_for_def confirm_format_def)

lemma demo_watched_question:
  "confirm_enter (watched_registry demo_mailer) demo_gated 0 (demo_mail ''a'') (empty_cache, w)
   = Inr (''send_email:ann:Hi'', email_question (Some (demo_mail_args ''a'')))"
  using demo_question by (simp add: confirm_enter_def)


definition mail_writer :: "(approval_cache \<times> string list) orch_env" where
  "mail_writer = \<lparr>oe_system_base = [], oe_tools_text = [],
     oe_chat = (\<lambda>r s. (Inr (json_object [json_field ''action'' (json_quote ''tool''), json_field ''name'' (json_quote ''send_email''),
       json_field ''arguments'' (demo_mail_args ''a'')]), s)),
     oe_tool = Some (confirm_tool_exec demo_mailer demo_gated (demo_user False)), oe_clock = (\<lambda>s. 0), oe_zone = 0\<rparr>"

theorem refused_tools_have_no_effect_witness:
  "snd (snd (snd (query_orchestrator mail_writer ''m'' ''write to ann'' None None (empty_cache, [])))) = []"
proof -
  obtain res new c' s' where q: "query_orchestrator mail_writer ''m'' ''write to ann'' None None (empty_cache, []) = (res, new, c', s')"
    by (metis prod_cases4)
  have "s' = []"
    by (rule refused_tools_have_no_effect [where P = "\<lambda>s. s = []", OF _ _ _ _ _ _ _ q, of "demo_user False" demo_mailer demo_gated])
      (auto simp: never_yes_def demo_user_def open_tools_keep_def demo_mailer_def demo_gated_def confirm_gate_def
        nothing_approved_def empty_cache_def new_approval_cache_def mail_writer_def callbacks_keep_def split: if_splits)
  with q show ?thesis by simp
qed

lemma approval_covers_other_body_witness:
  "confirm_tool_exec demo_mailer demo_gated (demo_user True) (demo_mail ''b'')
     (ac_record empty_cache 0 ''send_email:ann:Hi'', [demo_mail_args ''a''])
   = (Inr ''sent'', ac_record empty_cache 0 ''send_email:ann:Hi'', [demo_mail_args ''b'', demo_mail_args ''a''])"
proof -
  have run: "gated_run demo_mailer (demo_mail ''b'') (c, [demo_mail_args ''a''])
      = (Inr ''sent'', c, [demo_mail_args ''b'', demo_mail_args ''a''])" for c
    by (simp add: gated_run_def reg_execute_def demo_mail_call) (simp add: demo_mailer_def)
  have first: "confirm_tool_exec demo_mailer demo_gated (demo_user True) (demo_mail ''a'') (empty_cache, [])
      = (Inr ''sent'', ac_record empty_cache 0 ''send_email:ann:Hi'', [demo_mail_args ''a''])"
    using demo_question
    by (simp add: confirm_defs demo_user_def reg_execute_def demo_mail_call) (simp add: demo_mailer_def)
  have q: "gate_verdict_of demo_mailer demo_gated empty_cache (ce_clock (demo_user True) []) (demo_mail ''a'')
      = Question ''send_email:ann:Hi'' (email_question (Some (demo_mail_args ''a'')))"
    using demo_question by (simp add: demo_user_def)
  have "confirm_tool_exec demo_mailer demo_gated (demo_user True) (demo_mail ''b'')
      (ac_record empty_cache 0 ''send_email:ann:Hi'', [demo_mail_args ''a''])
    = gated_run demo_mailer (demo_mail ''b'') (ac_record empty_cache 0 ''send_email:ann:Hi'', [demo_mail_args ''a''])"
    by (rule approval_covers_other_body [OF _ _ demo_mail_call(1,2) _ q _ first, of "[]"])
      (simp_all add: demo_gated_def confirm_gate_def demo_mailer_def schema_for_def demo_mail_call demo_user_def empty_cache_def
        new_approval_cache_def dur_defs)
  with run show ?thesis by simp
qed

end
