(* ===== verification/MessageLoop.thy ===== *)
theory MessageLoop
  imports Jobs Heartbeat SlotRouter Durations
begin

text \<open>
  The message loop: what happens to a message of the user (\<open>message_loop.go\<close>, the loop of
  \<open>main.go\<close>), the condensation of tool results (\<open>condense.go\<close>) and the trajectory of the prefetch
  (\<open>prefetch.go\<close>). The platform, the search in the memories and the texts of \<open>prompts/\<close> are
  parameters.
\<close>

section \<open>Condensation of tool results\<close>

definition max_condensed_len :: nat where "max_condensed_len = 400"

definition result_prefix :: string where "result_prefix = ''Tool result: ''"

definition extract_tool_name :: "string \<Rightarrow> string" where
  "extract_tool_name c =
     (case struct_members (Some (clean_llm_json c)) of
        None \<Rightarrow> ''unknown''
      | Some ms \<Rightarrow> (let (name, e) = arg_string [''name''] ''name'' ms in if \<not> e \<and> name \<noteq> [] then name else ''unknown''))"

definition is_result :: "message \<Rightarrow> bool" where
  "is_result m \<longleftrightarrow> role m = ''user'' \<and> has_prefix (content m) result_prefix"

text \<open>The name of the tool of a result, from the message before it.\<close>

definition tool_before :: "string \<Rightarrow> message list \<Rightarrow> nat \<Rightarrow> string" where
  "tool_before none ms i =
     (if i > 0 \<and> role (ms ! (i - 1)) = ''assistant'' then extract_tool_name (content (ms ! (i - 1))) else none)"

definition summarize_tool_context :: "message list \<Rightarrow> string \<times> bool" where
  "summarize_tool_context ms =
     (let is = filter (\<lambda>i. is_result (ms ! i)) [0..<length ms] in
      if is = [] then ([], False)
      else (concat (map (\<lambda>i. ''['' @ tool_before ''tool'' ms i @ '' result] ''
              @ trim_prefix (content (ms ! i)) result_prefix @ [CHR 0x0A]) is), True))"

text \<open>The index of the last message of the assistant, or -1.\<close>

definition last_assistant :: "message list \<Rightarrow> int" where
  "last_assistant ms =
     (case rev (filter (\<lambda>i. role (ms ! i) = ''assistant'') [0..<length ms]) of [] \<Rightarrow> - 1 | i # _ \<Rightarrow> int i)"

definition condense_at :: "message list \<Rightarrow> nat \<Rightarrow> message" where
  "condense_at ms i =
     (let m = ms ! i; body = trim_prefix (content m) result_prefix in
      if int i \<ge> last_assistant ms \<or> \<not> is_result m \<or> has_prefix (content m) ''Tool error: ''
         \<or> length body \<le> max_condensed_len then m
      else \<lparr>role = role m,
            content = result_prefix @ ''['' @ tool_before ''unknown'' ms i @ ''] '' @ truncate_str body max_condensed_len,
            parts = [], msg_time = msg_time m\<rparr>)"

definition condense_tool_results :: "message list \<Rightarrow> message list" where
  "condense_tool_results ms =
     (if last_assistant ms < 0 then ms else map (condense_at ms) [0..<length ms])"

section \<open>The trajectory of the prefetch\<close>

text \<open>The last three texts of the user, without the state that was appended to them, the latest first.\<close>

definition trajectory_text :: "message \<Rightarrow> string" where
  "trajectory_text m =
     (let c = content m;
          t = (case str_index c (paragraph_break @ ''[Current Agent State]'') of
                 Some i \<Rightarrow> if i > 0 then take i c else c | None \<Rightarrow> c)
      in trim_space (truncate_str t 200))"

fun recent_texts :: "nat \<Rightarrow> message list \<Rightarrow> string list" where
  "recent_texts n [] = []"
| "recent_texts 0 (m # ms) = []"
| "recent_texts (Suc n) (m # ms) =
     (if role m \<noteq> ''user'' \<or> trajectory_text m = [] then recent_texts (Suc n) ms
      else trajectory_text m # recent_texts n ms)"

definition trajectory :: "message list \<Rightarrow> string \<Rightarrow> string" where
  "trajectory history msgText = str_join '' | '' (rev (recent_texts 3 (rev history)) @ [msgText])"

section \<open>The window after a pause\<close>

definition stale_gap :: duration where "stale_gap = 30 * minute"

definition stale_trim :: "gotime \<Rightarrow> message list \<Rightarrow> message list" where
  "stale_trim now history =
     (if length history > 4 \<and> \<not> is_zero (msg_time (last history)) \<and> time_sub now (msg_time (last history)) > stale_gap
      then drop (length history - 4) history else history)"

section \<open>Signals of uncertainty\<close>

text \<open>
  The expression \<open>uncertaintyPatterns\<close>, which ignores the case; the two non-ASCII letters that fold
  to k and s are left out.
\<close>

definition uncertainty_patterns :: "string list" where
  "uncertainty_patterns = map to_lower
     [''I don'' @ [CHR 0x27] @ ''t have enough information'', ''I don'' @ [CHR 0x27] @ ''t have information'',
      ''I'' @ [CHR 0x27] @ ''m not sure'', ''I couldn'' @ [CHR 0x27] @ ''t find'', ''I don'' @ [CHR 0x27] @ ''t know'',
      ''I wasn'' @ [CHR 0x27] @ ''t able to find'', ''I lack information'']"

fun find_uncertainty :: "string \<Rightarrow> string" where
  "find_uncertainty [] = []"
| "find_uncertainty (c # cs) =
     (case find (\<lambda>p. to_lower (take (length p) (c # cs)) = p) uncertainty_patterns of
        Some p \<Rightarrow> take (length p) (c # cs)
      | None \<Rightarrow> find_uncertainty cs)"

definition gap_signal :: "string \<Rightarrow> curiosity_signal option" where
  "gap_signal reply =
     (let hit = find_uncertainty reply in
      if length reply < 20 \<or> hit = [] then None
      else Some \<lparr>sg_source = ''conversation'',
         sg_query = (case str_index reply hit of
              Some i \<Rightarrow> take (length hit + 120) (drop i reply) | None \<Rightarrow> reply),
         sg_priority = 5, sg_objective = 0\<rparr>)"

section \<open>State\<close>

text \<open>
  What the handling of a message touches: the jobs with the conversation and the sent texts, the
  slots, the recent actions, the signals, what was handed to the triage and to the evaluation of the
  memories, and the rest of the world.
\<close>

record 'w chat_world =
  cw_jobs :: job_system
  cw_slots :: "prio_sem rstate"
  cw_actions :: "action_record list"
  cw_signals :: "curiosity_signal list option"
  cw_triaged :: "(string \<times> bool \<times> int) list"
  cw_evaluated :: "(int list \<times> string \<times> string \<times> string) list"
  cw_rest :: 'w

record message_config =
  mc_db :: bool
  mc_embed :: bool
  mc_dtc :: bool
  mc_triage :: bool
  mc_subagent :: bool
  mc_max_messages :: int
  mc_zone :: duration
  mc_heartbeat :: duration
  mc_max_tool_result :: int
  mc_max_web :: int
  mc_tool_agent :: tool_agent
  mc_profile :: string
  mc_personality :: string

text \<open>
  The environment: the orchestrator over each client (its tools are behind the gate), the router
  (\<open>Inr\<close>: without a second model), what goes on while the goroutine waits for a slot, the search in
  the memories with their numbers, the choice of tools, the labels of the tools, and what other
  goroutines do to the conversation between the critical sections of the handling.
\<close>

record 'w message_env =
  me_orch :: "nat \<Rightarrow> 'w chat_world orch_env"
  me_router :: "router_cfg + nat \<times> string"
  me_wait :: "prio_sem env"
  me_rewait :: "'w chat_world \<Rightarrow> prio_sem env"
  me_prefetch :: "string \<Rightarrow> string \<Rightarrow> int \<Rightarrow> (string \<times> int list) option"
  me_temporal :: string
  me_select :: "string \<Rightarrow> tool_agent option"
  me_label :: "string \<Rightarrow> string"
  me_progress_ok :: "'w chat_world \<Rightarrow> bool"
  me_texts :: session_texts
  me_random :: "string option"
  me_job_order :: "string list"
  me_others :: "nat \<Rightarrow> state_manager \<Rightarrow> state_manager"

definition cw_say :: "string \<Rightarrow> string \<Rightarrow> 'w chat_world \<Rightarrow> 'w chat_world" where
  "cw_say channel t w = w\<lparr>cw_jobs := jy_send channel t (cw_jobs w)\<rparr>"

definition cw_state :: "'w chat_world \<Rightarrow> state_manager" where
  "cw_state w = jy_state (cw_jobs w)"

definition cw_set_state :: "state_manager \<Rightarrow> 'w chat_world \<Rightarrow> 'w chat_world" where
  "cw_set_state sm w = w\<lparr>cw_jobs := (cw_jobs w)\<lparr>jy_state := sm\<rparr>\<rparr>"

definition emit_gap_signal :: "string \<Rightarrow> 'w chat_world \<Rightarrow> 'w chat_world" where
  "emit_gap_signal reply w =
     (case (cw_signals w, gap_signal reply) of
        (Some q, Some sg) \<Rightarrow> w\<lparr>cw_signals := Some (push_signal sg q)\<rparr>
      | _ \<Rightarrow> w)"

section \<open>Handling a message\<close>

definition pick_orchestrator :: "'w message_env \<Rightarrow> prio_sem rstate \<Rightarrow> prio_sem choice \<times> prio_sem rstate" where
  "pick_orchestrator env st =
     (case me_router env of
        Inl cfg \<Rightarrow> acquire_or_fallback prio_ops cfg (me_wait env) False PriorityUser st
      | Inr (c, m) \<Rightarrow> passthrough_acquire_or_fallback c m st)"

text \<open>The local variables \<open>acquired\<close> and \<open>ph\<close>, that the callbacks of the tool loop share.\<close>

record run_flags =
  rf_acquired :: bool
  rf_progress :: bool

definition message_tool_start ::
  "'w message_env \<Rightarrow> string \<Rightarrow> prio_sem choice \<Rightarrow> string \<Rightarrow> 'w chat_world \<times> run_flags \<Rightarrow> 'w chat_world \<times> run_flags" where
  "message_tool_start env channel c tool = (\<lambda>(w, fl).
     (let w1 = w\<lparr>cw_slots := c_release_reserved c (cw_slots w)\<rparr>; fl1 = fl\<lparr>rf_acquired := False\<rparr> in
      if rf_progress fl then (w1, fl1)
      else if me_progress_ok env w1 then (cw_say channel (me_label env tool) w1, fl1\<lparr>rf_progress := True\<rparr>)
      else (w1, fl1)))"

definition message_tool_end ::
  "'w message_env \<Rightarrow> prio_sem choice \<Rightarrow> 'w chat_world \<times> run_flags \<Rightarrow> string option \<times> 'w chat_world \<times> run_flags" where
  "message_tool_end env c = (\<lambda>(w, fl).
     (case c_reacquire c (me_rewait env w) (cw_slots w) of
        (True, st) \<Rightarrow> (None, w\<lparr>cw_slots := st\<rparr>, fl\<lparr>rf_acquired := True\<rparr>)
      | (False, st) \<Rightarrow> (Some ''context canceled'', w\<lparr>cw_slots := st\<rparr>, fl)))"

definition flag_env :: "'s orch_env \<Rightarrow> ('s \<times> 'f) orch_env" where
  "flag_env env =
     \<lparr>oe_system_base = oe_system_base env, oe_tools_text = oe_tools_text env,
      oe_chat = (\<lambda>r (s, f). (let (x, s') = oe_chat env r s in (x, s', f))),
      oe_tool = map_option (\<lambda>g raw (s, f). (let (x, s') = g raw s in (x, s', f))) (oe_tool env),
      oe_clock = (\<lambda>(s, f). oe_clock env s), oe_zone = oe_zone env\<rparr>"

definition message_prompt :: "message_config \<Rightarrow> 'w message_env \<Rightarrow> gotime \<Rightarrow> string \<Rightarrow> 'w chat_world \<Rightarrow> string" where
  "message_prompt cfg env now userPrompt w =
     (let xml = format_recent_actions_xml (mc_zone cfg) now (2 * mc_heartbeat cfg) (cw_actions w);
          jobs = build_job_context (get_jobs (me_job_order env) (jy_store (cw_jobs w)))
      in userPrompt @ (if xml \<noteq> [] then paragraph_break @ xml else [])
           @ (if jobs \<noteq> [] then paragraph_break @ jobs else []))"

definition message_opts ::
  "message_config \<Rightarrow> 'w message_env \<Rightarrow> string \<Rightarrow> prio_sem choice \<Rightarrow> string \<Rightarrow> content_part list \<Rightarrow> message list
     \<Rightarrow> string \<Rightarrow> ('w chat_world \<times> run_flags) query_opts" where
  "message_opts cfg env channel c msgText vision history memories =
     \<lparr>qo_parts = vision, qo_history = history, qo_personality = mc_personality cfg, qo_profile = mc_profile cfg,
      qo_temporal = (if mc_db cfg then me_temporal env else []), qo_prefetch = memories,
      qo_max_tool_result = mc_max_tool_result cfg, qo_max_web = mc_max_web cfg,
      qo_tool_agent = Some (case me_select env msgText of Some ta \<Rightarrow> ta | None \<Rightarrow> mc_tool_agent cfg),
      qo_fallbacks = None, qo_mandated = Some mandated_brain_tools,
      qo_on_tool_start = Some (message_tool_start env channel c), qo_on_tool_end = Some (message_tool_end env c),
      qo_on_tool_exec = None, qo_enable_thinking = False, qo_first_round_thinking = True\<rparr>"

record message_result =
  mr_reply :: string
  mr_messages :: "message list"
  mr_context :: string
  mr_tools_used :: bool
  mr_text :: string
  mr_ids :: "int list"
  mr_summaries :: string
  mr_pipeline :: int
  mr_failed :: bool

definition apology :: string where "apology = ''Sorry, something went wrong processing your message.''"

definition triage_exchange :: "message_config \<Rightarrow> message_result \<Rightarrow> 'w chat_world \<Rightarrow> 'w chat_world" where
  "triage_exchange cfg mr w =
     (if \<not> mr_failed mr \<and> mc_db cfg \<and> mc_embed cfg \<and> mc_dtc cfg \<and> mc_triage cfg
      then w\<lparr>cw_triaged := cw_triaged w
        @ [(mr_context mr @ ''user: '' @ mr_text mr @ [CHR 0x0A] @ ''assistant: '' @ mr_reply mr, mr_tools_used mr, mr_pipeline mr)]\<rparr>
      else w)"

definition evaluate_memories :: "message_config \<Rightarrow> message_result \<Rightarrow> 'w chat_world \<Rightarrow> 'w chat_world" where
  "evaluate_memories cfg mr w =
     (if \<not> mr_failed mr \<and> mr_ids mr \<noteq> [] \<and> mc_db cfg \<and> mc_subagent cfg
      then w\<lparr>cw_evaluated := cw_evaluated w @ [(mr_ids mr, mr_text mr, mr_reply mr, mr_summaries mr)]\<rparr>
      else w)"

definition remember_pipeline :: "message_result \<Rightarrow> state_manager \<Rightarrow> state_manager" where
  "remember_pipeline mr sm = (if mr_pipeline mr \<noteq> 0 then set_last_pipeline_id (mr_pipeline mr) sm else sm)"

definition send_reply :: "string \<Rightarrow> message_result \<Rightarrow> 'w chat_world \<Rightarrow> 'w chat_world" where
  "send_reply channel mr w =
     (let reply = (if mr_failed mr then apology else mr_reply mr) in
      if str_contains reply no_action_tag then w else emit_gap_signal reply (cw_say channel reply w))"

text \<open>
  The appends, the count, the copy, the slide and the number of the pipeline are critical sections of
  their own; before the \<open>i\<close>-th of them the other goroutines act on the manager by \<open>others i\<close>.
\<close>

definition complete_message_handling ::
  "(string \<Rightarrow> 'h) \<Rightarrow> message_config \<Rightarrow> (nat \<Rightarrow> state_manager \<Rightarrow> state_manager) \<Rightarrow> gotime \<Rightarrow> string \<Rightarrow> message_result
     \<Rightarrow> 'w chat_world \<Rightarrow> 'w chat_world go" where
  "complete_message_handling sha cfg others now channel mr w =
     (let k = length (mr_messages mr);
          sm = others k (append_between now others (mr_messages mr) (cw_state w)) in
      case (if mc_db cfg \<and> mc_embed cfg
            then slide_context sha (mc_zone cfg) now (mc_max_messages cfg) (\<lambda>i. others (k + 1 + i)) sm
            else Ret (None, False, sm)) of
        Panic \<Rightarrow> Panic
      | Ret (arch, slid, sm1) \<Rightarrow>
          Ret (send_reply channel mr (evaluate_memories cfg mr
            (cw_set_state (remember_pipeline mr (others (k + 3) sm1)) (triage_exchange cfg mr w)))))"

text \<open>The call of the orchestrator: the chosen client, and the outcome with the flags.\<close>

definition message_call ::
  "message_config \<Rightarrow> 'w message_env \<Rightarrow> gotime \<Rightarrow> string \<Rightarrow> string \<Rightarrow> string \<Rightarrow> content_part list \<Rightarrow> string \<Rightarrow> 'w chat_world
     \<Rightarrow> prio_sem choice \<times> (loop_error + string) \<times> message list \<times> 'w chat_world \<times> run_flags" where
  "message_call cfg env now channel msgText userPrompt vision memories w =
     (let history = stale_trim now (messages (cw_state w));
          (c, st) = pick_orchestrator env (cw_slots w)
      in (c, query_orchestrator (flag_env (me_orch env (client c))) (model c) (message_prompt cfg env now userPrompt w)
               (Some default_trim_fn) (Some (message_opts cfg env channel c msgText vision history memories))
               (w\<lparr>cw_slots := st\<rparr>, \<lparr>rf_acquired = True, rf_progress = False\<rparr>)))"

definition process_message ::
  "(string \<Rightarrow> 'h) \<Rightarrow> message_config \<Rightarrow> 'w message_env \<Rightarrow> gotime \<Rightarrow> string \<Rightarrow> int \<Rightarrow> string \<Rightarrow> string \<Rightarrow> content_part list
     \<Rightarrow> 'w chat_world \<Rightarrow> 'w chat_world go" where
  "process_message sha cfg env now channel pipeline msgText userPrompt vision w =
     (let history = stale_trim now (messages (cw_state w));
          pf = (if mc_db cfg \<and> mc_embed cfg \<and> trim_space msgText \<noteq> []
                then me_prefetch env (trajectory history msgText) msgText (last_pipeline_id (cw_state w)) else None);
          (memories, ids) = (case pf of None \<Rightarrow> ([], []) | Some p \<Rightarrow> p);
          (c, res, new, w1, fl) = message_call cfg env now channel msgText userPrompt vision memories w
      in case res of
           Inl (BackgroundRequested bjr) \<Rightarrow>
             Ret (w1\<lparr>cw_slots := c_release c (cw_slots w1),
                     cw_jobs := spawn_job (me_texts env) (me_random env) now channel msgText bjr (cw_jobs w1)\<rparr>)
         | _ \<Rightarrow>
             (let (context, used) = summarize_tool_context new in
              case complete_message_handling sha cfg (me_others env) now channel
                     \<lparr>mr_reply = (case res of Inl e \<Rightarrow> [] | Inr t \<Rightarrow> t), mr_messages = condense_tool_results new,
                      mr_context = context, mr_tools_used = used, mr_text = msgText, mr_ids = ids, mr_summaries = memories,
                      mr_pipeline = pipeline, mr_failed = (case res of Inl e \<Rightarrow> True | Inr t \<Rightarrow> False)\<rparr> w1 of
                Panic \<Rightarrow> Panic
              | Ret w2 \<Rightarrow> Ret (if rf_acquired fl then w2\<lparr>cw_slots := c_release c (cw_slots w2)\<rparr> else w2)))"


section \<open>The loop of main\<close>

text \<open>\<open>strconv.ParseInt\<close> with its error ignored: zero for what is no number, the nearest bound for what is too large.\<close>

definition go_parse_int :: "string \<Rightarrow> int" where
  "go_parse_int s =
     (let neg = has_prefix s ''-''; ds = (if neg \<or> has_prefix s ''+'' then drop 1 s else s);
          n = (if neg then - dec_int 0 ds else dec_int 0 ds)
      in if ds = [] \<or> \<not> list_all is_digit ds then 0 else max (- two63) (min (two63 - 1) n))"

text \<open>The standard encoding of \<open>encoding/base64\<close>, with padding.\<close>

definition base64_alphabet :: string where
  "base64_alphabet = ''ABCDEFGHIJKLMNOPQRSTUVWXYZabcdefghijklmnopqrstuvwxyz0123456789+/''"

definition b64 :: "nat \<Rightarrow> char" where "b64 n = base64_alphabet ! n"

fun base64_encode :: "string \<Rightarrow> string" where
  "base64_encode [] = []"
| "base64_encode [a] = (let n = nat (byte_of a) * 16 in [b64 (n div 64), b64 (n mod 64), CHR ''='', CHR ''=''])"
| "base64_encode [a, b] =
     (let n = (nat (byte_of a) * 256 + nat (byte_of b)) * 4
      in [b64 (n div 4096), b64 (n div 64 mod 64), b64 (n mod 64), CHR ''=''])"
| "base64_encode (a # b # c # cs) =
     (let n = (nat (byte_of a) * 256 + nat (byte_of b)) * 256 + nat (byte_of c)
      in [b64 (n div 262144), b64 (n div 4096 mod 64), b64 (n div 64 mod 64), b64 (n mod 64)] @ base64_encode cs)"

text \<open>\<open>ToMarkdown\<close>; \<open>order\<close> are the keys in the order in which Go walks the map.\<close>

definition agent_markdown :: "string list \<Rightarrow> agent_state \<Rightarrow> string" where
  "agent_markdown order a =
     ''**Status:** '' @ status a @ nl @ ''**Current Task:** '' @ current_task a @ nl
     @ ''**Step Count:** '' @ itoa (step_count a) @ nl
     @ (if dom (user_prefs a) = {} then []
        else ''**User Preferences:**'' @ nl
          @ concat (map (\<lambda>k. case user_prefs a k of None \<Rightarrow> [] | Some v \<Rightarrow> ''- '' @ k @ '': '' @ v @ nl) order))"

record incoming =
  im_id :: string
  im_channel :: string
  im_text :: string
  im_sender :: string
  im_photo :: "string option"
  im_mime :: string

text \<open>
  What the loop has at hand beside the handling: who may write (nobody is excluded when the list is
  empty), the model that describes images (\<open>None\<close>: there is none; its answer \<open>None\<close>: an error), the
  list of tasks, and the commands that begin with a slash.
\<close>

record 'w main_env =
  mn_message :: "'w message_env"
  mn_allowed :: "int list"
  mn_caption :: "(string \<Rightarrow> string option) option"
  mn_prefs_order :: "string list"
  mn_tasks :: string
  mn_command :: "string \<Rightarrow> string \<Rightarrow> 'w chat_world \<Rightarrow> string \<times> 'w chat_world"

definition sender_allowed :: "int list \<Rightarrow> incoming \<Rightarrow> bool" where
  "sender_allowed allowed msg \<longleftrightarrow> allowed = [] \<or> go_parse_int (im_sender msg) \<in> set allowed"

definition data_uri :: "incoming \<Rightarrow> string \<Rightarrow> string" where
  "data_uri msg bytes = ''data:'' @ im_mime msg @ '';base64,'' @ base64_encode bytes"

definition photo_caption :: "(string \<Rightarrow> string option) option \<Rightarrow> incoming \<Rightarrow> string \<Rightarrow> string" where
  "photo_caption describe msg uri =
     (let caption = (if im_text msg = [] then ''What'' @ [CHR 0x27] @ ''s in this image?'' else im_text msg) in
      case Option.bind describe (\<lambda>f. f uri) of
        None \<Rightarrow> caption
      | Some t \<Rightarrow> if trim_space t = [] then caption else ''[Image: '' @ trim_space t @ '']'' @ nl @ caption)"

definition state_context :: "message_config \<Rightarrow> 'w main_env \<Rightarrow> gotime \<Rightarrow> 'w chat_world \<Rightarrow> string" where
  "state_context cfg env now w =
     ''**Current Time:** '' @ format_rfc3339 (mc_zone cfg) now @ nl
     @ agent_markdown (mn_prefs_order env) (get_state (cw_state w))
     @ (if mc_db cfg then mn_tasks env else [])"

text \<open>The text of a message, its prompt and its vision parts; \<open>None\<close> for an empty message.\<close>

definition message_parts ::
  "message_config \<Rightarrow> 'w main_env \<Rightarrow> gotime \<Rightarrow> incoming \<Rightarrow> 'w chat_world \<Rightarrow> (string \<times> string \<times> content_part list) option" where
  "message_parts cfg env now msg w =
     (let prompt_of = (\<lambda>t. t @ paragraph_break @ ''[Current Agent State]'' @ nl @ state_context cfg env now w) in
      case im_photo msg of
        Some bytes \<Rightarrow>
          (let uri = data_uri msg bytes; caption = photo_caption (mn_caption env) msg uri
           in Some (caption, prompt_of caption,
                [\<lparr>part_type = ''text'', part_text = prompt_of caption, part_image = None\<rparr>,
                 \<lparr>part_type = ''image_url'', part_text = [], part_image = Some uri\<rparr>]))
      | None \<Rightarrow> if im_text msg \<noteq> [] then Some (im_text msg, prompt_of (im_text msg), []) else None)"

definition slash_command :: "string \<Rightarrow> (string \<times> string) option" where
  "slash_command msgText =
     (let t = trim_space msgText in
      if t = ''/reload'' then Some (''reload'', []) else if t = ''/bootstrap'' then Some (''bootstrap'', [])
      else if t = ''/google'' then Some (''google'', [])
      else if t = ''/metrics'' \<or> has_prefix t ''/metrics '' then Some (''metrics'', trim_space (trim_prefix t ''/metrics''))
      else None)"

definition receive_message ::
  "(string \<Rightarrow> 'h) \<Rightarrow> message_config \<Rightarrow> 'w main_env \<Rightarrow> gotime \<Rightarrow> incoming \<Rightarrow> 'w chat_world \<Rightarrow> 'w chat_world go" where
  "receive_message sha cfg env now msg w =
     (if \<not> sender_allowed (mn_allowed env) msg then Ret w
      else (let w1 = cw_set_state (touch_user_activity now (cw_state w)) w in
            case message_parts cfg env now msg w1 of
              None \<Rightarrow> Ret w1
            | Some (msgText, userPrompt, vision) \<Rightarrow>
                (case slash_command msgText of
                   Some (c, args) \<Rightarrow> (let (t, w2) = mn_command env c args w1 in Ret (cw_say (im_channel msg) t w2))
                 | None \<Rightarrow> process_message sha cfg (mn_message env) now (im_channel msg) (go_parse_int (im_id msg))
                     msgText userPrompt vision w1)))"

end
