(* ===== verification/MessageSystem.thy ===== *)
theory MessageSystem
  imports MessageLoop SemSystem
begin

text \<open>
  What the handling of a message guarantees: the condensation is invisible to the slide, the slot of
  the orchestrator is given back, every message is answered; and what it gets wrong after a pause.
\<close>

section \<open>Condensation\<close>

lemma length_condense [simp]: "length (condense_tool_results ms) = length ms"
  by (simp add: condense_tool_results_def)

lemma condense_nth: "i < length ms \<Longrightarrow> condense_tool_results ms ! i = condense_at ms i"
  by (auto simp: condense_tool_results_def condense_at_def Let_def)

text \<open>What the trimming, the slide and the archive see of a message.\<close>

definition alike :: "message \<Rightarrow> message \<Rightarrow> bool" where
  "alike m m' \<longleftrightarrow> role m = role m' \<and> msg_time m = msg_time m' \<and> is_tool_message m = is_tool_message m' \<and>
     is_safe_boundary m = is_safe_boundary m' \<and> (\<forall>off. archive_line off m = archive_line off m')"

lemma alike_refl [simp]: "alike m m"
  by (simp add: alike_def)

lemma result_is_tool_message: "is_result m \<Longrightarrow> is_tool_message m"
  by (auto simp: is_result_def is_tool_message_def result_prefix_def has_prefix_iff)

lemma condense_alike: "alike (condense_at ms i) (ms ! i)"
proof (cases "condense_at ms i = ms ! i")
  case False
  then have m: "is_result (ms ! i)" and c: "is_result (condense_at ms i)" "role (condense_at ms i) = role (ms ! i)"
      "msg_time (condense_at ms i) = msg_time (ms ! i)"
    by (auto simp: condense_at_def Let_def is_result_def has_prefix_iff split: if_splits)
  note t = result_is_tool_message [OF m] result_is_tool_message [OF c(1)]
  have "role (ms ! i) = ''user''" using m by (simp add: is_result_def)
  with t c(2,3) show ?thesis by (simp add: alike_def is_safe_boundary_def archive_line_def)
qed simp

lemma condense_alike_list: "list_all2 alike (condense_tool_results ms) ms"
  by (simp add: list_all2_conv_all_nth condense_nth condense_alike)

lemma alike_append: "list_all2 alike (old @ condense_tool_results ms) (old @ ms)"
  by (rule list_all2_appendI) (simp_all add: condense_alike_list list_all2_refl)

lemma at_index_alike:
  assumes "list_all2 alike xs ys"
  shows "at_index xs i = None \<and> at_index ys i = None \<or> (\<exists>x y. at_index xs i = Some x \<and> at_index ys i = Some y \<and> alike x y)"
  using assms by (auto simp: at_index_def list_all2_conv_all_nth)

lemma safe_backward_alike: "list_all2 alike xs ys \<Longrightarrow> safe_backward xs i = safe_backward ys i"
proof (induction xs i rule: safe_backward.induct)
  case (1 xs i)
  then show ?case using at_index_alike [OF "1.prems", of i]
    by (subst (1 2) safe_backward.simps) (auto simp: alike_def)
qed

lemma safe_forward_alike: "list_all2 alike xs ys \<Longrightarrow> safe_forward xs i = safe_forward ys i"
proof (induction xs i rule: safe_forward.induct)
  case (1 xs i)
  then show ?case using at_index_alike [OF "1.prems", of i] list_all2_lengthD [OF "1.prems"]
    by (subst (1 2) safe_forward.simps) (auto simp: alike_def)
qed

lemma slide_cutoff_alike:
  assumes "list_all2 alike xs ys"
  shows "slide_cutoff xs k = slide_cutoff ys k"
proof -
  have l: "length xs = length ys" by (rule list_all2_lengthD [OF assms])
  have b: "safe_backward xs = safe_backward ys" and f: "safe_forward xs = safe_forward ys"
    using safe_backward_alike [OF assms] safe_forward_alike [OF assms] by blast+
  have s: "(slice_range xs 1 c = None) = (slice_range ys 1 c = None)" for c
    using l by (simp add: slice_range_def)
  show ?thesis unfolding slide_cutoff_def l b f s ..
qed

lemma archive_text_alike:
  assumes "list_all2 alike xs ys"
  shows "archive_text off now xs = archive_text off now ys"
proof -
  have "map (archive_line off) xs = map (archive_line off) ys"
    using assms by (induction rule: list_all2_induct) (auto simp: alike_def)
  then show ?thesis by (simp add: archive_text_def)
qed

lemma condensed_length:
  assumes "int i < last_assistant ms" "is_result (ms ! i)"
  shows "length (content (condense_at ms i)) \<le> 419 + length (tool_before ''unknown'' ms i)"
proof -
  obtain body where c: "content (ms ! i) = result_prefix @ body" using assms(2) by (auto simp: is_result_def has_prefix_iff)
  then have "trim_prefix (content (ms ! i)) result_prefix = body"
    by (simp add: trim_prefix_def has_prefix_def)
  moreover have "length (truncate_str body 400) \<le> 403"
    using back_off_bounds [of body 400] by (auto simp: truncate_str_def)
  moreover have "\<not> has_prefix (content (ms ! i)) ''Tool error: ''"
    by (simp add: c result_prefix_def has_prefix_def)
  ultimately show ?thesis using assms
    by (auto simp: condense_at_def Let_def c max_condensed_len_def) (auto simp: result_prefix_def)
qed


text \<open>
  C10: condensation does not show. Whatever the conversation before it, the condensed messages are cut
  by the slide where the full ones would be, and leave the same text in the archive; each message
  keeps its place, and all that changes are tool results that the model has answered, to 419 bytes
  and the name of the tool at most.
\<close>

theorem condensation_is_invisible:
  "slide_cutoff (old @ condense_tool_results ms) k = slide_cutoff (old @ ms) k \<and>
   archive_text off now (drop i (take n (old @ condense_tool_results ms))) = archive_text off now (drop i (take n (old @ ms))) \<and>
   list_all (\<lambda>i. if int i < last_assistant ms \<and> is_result (ms ! i)
       then length (content (condense_tool_results ms ! i)) \<le> 419 + length (tool_before ''unknown'' ms i)
       else condense_tool_results ms ! i = ms ! i) [0..<length ms]"
proof (intro conjI)
  show "slide_cutoff (old @ condense_tool_results ms) k = slide_cutoff (old @ ms) k"
    by (rule slide_cutoff_alike [OF alike_append])
  show "archive_text off now (drop i (take n (old @ condense_tool_results ms))) = archive_text off now (drop i (take n (old @ ms)))"
    by (intro archive_text_alike list_all2_dropI list_all2_takeI alike_append)
  show "list_all (\<lambda>i. if int i < last_assistant ms \<and> is_result (ms ! i)
       then length (content (condense_tool_results ms ! i)) \<le> 419 + length (tool_before ''unknown'' ms i)
       else condense_tool_results ms ! i = ms ! i) [0..<length ms]"
    using condensed_length by (auto simp: list_all_iff condense_nth) (auto simp: condense_at_def Let_def)
qed

section \<open>After a pause\<close>

text \<open>
  After a pause the window can begin with an answer without its question. When the last message
  is older than half an hour and the fourth from the end is the result of a tool, the request of the
  next message holds that result right after the system prompt; the call it answers is cut away.
\<close>

lemma stale_window_orphans_result:
  assumes "4 < length h" "msg_time (last h) \<noteq> 0" "30 * minute < time_sub now (msg_time (last h))"
    and "is_tool_message (h ! (length h - 4))"
  shows "is_tool_message (cr_messages (first_request env mdl g prompt (Some default_trim_fn)
      (Some (message_opts cfg menv channel c msgText vision (stale_trim now h) memories)) s) ! 1)"
proof -
  let ?q = "message_opts cfg menv channel c msgText vision (stale_trim now h) memories"
  have t: "stale_trim now h = drop (length h - 4) h"
    using assms(1-3) by (simp add: stale_trim_def stale_gap_def is_zero_def)
  have h: "history_of (Some ?q) = drop (length h - 4) h"
    by (simp add: history_of_def message_opts_def t)
  let ?M = "orchestrator_messages env prompt (Some ?q)"
  have l: "length ?M = 6" using length_orchestrator_messages [of env prompt "Some ?q"] h assms(1) by simp
  have "?M ! 1 = from_llm (h ! (length h - 4))"
    using orchestrator_messages_history [of 1 "Some ?q" env prompt] h assms(1) by (simp add: hd_drop_conv_nth nth_drop)
  moreover have "default_trim_fn (map to_llm ?M) = map to_llm ?M" using l by (intro default_trim_short) simp
  moreover have "history_len (Some ?q) = 5" using h assms(1) by (simp add: history_len_def)
  ultimately show ?thesis using l assms(4)
    by (simp add: first_request_messages attach_parts_def stamp_system_nth comp_def)
qed


section \<open>The slot of the orchestrator\<close>

text \<open>Two states of the router with the same slots free in each semaphore.\<close>

definition same_free :: "prio_sem rstate \<Rightarrow> prio_sem rstate \<Rightarrow> bool" where
  "same_free st st' \<longleftrightarrow> st_wf sem_wf st' \<and> balance (primary_slots st') = balance (primary_slots st)
     \<and> balance (fallback_slots st') = balance (fallback_slots st)"

text \<open>A wait that is served: when a slot is free, the caller gets it in the end.\<close>

definition served :: "prio_sem env \<Rightarrow> prio_sem \<Rightarrow> bool" where
  "served e s \<longleftrightarrow> (sem_wf s \<and> 0 < balance s \<longrightarrow>
     sem_env_ok e PriorityUser s \<and> balance (sem_after e PriorityUser s) = balance s \<and> fst (acquire e PriorityUser s))"

text \<open>
  The rest of the program as the handling of a message meets it: what runs during the calls of the
  model and of the tools gives back the slots it takes, and the waits after the tools are served.
\<close>

definition slots_shared_fairly :: "'w message_env \<Rightarrow> bool" where
  "slots_shared_fairly env \<longleftrightarrow>
     (\<forall>w. served (me_rewait env w) (primary_slots (cw_slots w)) \<and> served (me_rewait env w) (fallback_slots (cw_slots w)) \<and>
       (st_wf sem_wf (cw_slots w) \<longrightarrow>
          (\<forall>k r. same_free (cw_slots w) (cw_slots (snd (oe_chat (me_orch env k) r w)))) \<and>
          (\<forall>k f raw. oe_tool (me_orch env k) = Some f \<longrightarrow> same_free (cw_slots w) (cw_slots (snd (f raw w))))))"

text \<open>A choice that stands for \<open>a\<close> slots of the first semaphore and \<open>b\<close> of the second.\<close>

definition stands_for :: "prio_sem choice \<Rightarrow> int \<Rightarrow> int \<Rightarrow> bool" where
  "stands_for c a b \<longleftrightarrow>
     (\<forall>st. st_wf sem_wf st \<longrightarrow>
        (st_wf sem_wf (c_release c st) \<and> balance (primary_slots (c_release c st)) = balance (primary_slots st) + a
           \<and> balance (fallback_slots (c_release c st)) = balance (fallback_slots st) + b) \<and>
        (st_wf sem_wf (c_release_reserved c st) \<and> balance (primary_slots (c_release_reserved c st)) = balance (primary_slots st) + a
           \<and> balance (fallback_slots (c_release_reserved c st)) = balance (fallback_slots st) + b) \<and>
        (\<forall>e. served e (primary_slots st) \<longrightarrow> served e (fallback_slots st) \<longrightarrow> a \<le> balance (primary_slots st)
           \<longrightarrow> b \<le> balance (fallback_slots st) \<longrightarrow>
           (\<exists>st'. c_reacquire c e st = (True, st') \<and> st_wf sem_wf st' \<and> balance (primary_slots st') = balance (primary_slots st) - a
              \<and> balance (fallback_slots st') = balance (fallback_slots st) - b)))"

lemma served_acquire:
  assumes "served e s" "sem_wf s" "1 \<le> balance s"
  shows "\<exists>t. sc_acquire prio_ops e PriorityUser s = (True, t) \<and> sem_wf t \<and> balance t = balance s - 1"
proof -
  obtain ok t where a: "acquire e PriorityUser s = (ok, t)" by (rule prod.exhaust)
  have "sem_env_ok e PriorityUser s" "balance (sem_after e PriorityUser s) = balance s" "ok"
    using assms a by (auto simp: served_def)
  with acquire_balance [OF assms(2) this(1) a] a show ?thesis by (simp add: prio_ops_def)
qed

lemma brain_stands: "stands_for (brain_choice prio_ops r PriorityUser) 0 1"
  unfolding stands_for_def
proof (intro allI impI conjI)
  fix st :: "prio_sem rstate" and e
  assume wf: "st_wf sem_wf st"
  then have w: "sem_wf (primary_slots st)" "sem_wf (fallback_slots st)" by (simp_all add: st_wf_def)
  let ?c = "brain_choice prio_ops r PriorityUser"
  show "st_wf sem_wf (c_release ?c st)" "balance (primary_slots (c_release ?c st)) = balance (primary_slots st) + 0"
      "balance (fallback_slots (c_release ?c st)) = balance (fallback_slots st) + 1"
      "st_wf sem_wf (c_release_reserved ?c st)" "balance (primary_slots (c_release_reserved ?c st)) = balance (primary_slots st) + 0"
      "balance (fallback_slots (c_release_reserved ?c st)) = balance (fallback_slots st) + 1"
    using w ps.release_law [of "fallback_slots st"] ps.reserve_law [of "fallback_slots st"]
    by (simp_all add: st_wf_def brain_choice_def)
  assume "served e (fallback_slots st)" "1 \<le> balance (fallback_slots st)"
  from served_acquire [OF this(1) w(2) this(2)] w
  show "\<exists>st'. c_reacquire ?c e st = (True, st') \<and> st_wf sem_wf st' \<and> balance (primary_slots st') = balance (primary_slots st) - 0
      \<and> balance (fallback_slots st') = balance (fallback_slots st) - 1"
    by (auto simp: brain_choice_def st_wf_def)
qed

lemma primary_stands: "stands_for (primary_choice prio_ops r PriorityUser) 1 0"
  unfolding stands_for_def
proof (intro allI impI conjI)
  fix st :: "prio_sem rstate" and e
  assume wf: "st_wf sem_wf st"
  then have w: "sem_wf (primary_slots st)" "sem_wf (fallback_slots st)" by (simp_all add: st_wf_def)
  let ?c = "primary_choice prio_ops r PriorityUser"
  show "st_wf sem_wf (c_release ?c st)" "balance (primary_slots (c_release ?c st)) = balance (primary_slots st) + 1"
      "balance (fallback_slots (c_release ?c st)) = balance (fallback_slots st) + 0"
      "st_wf sem_wf (c_release_reserved ?c st)" "balance (primary_slots (c_release_reserved ?c st)) = balance (primary_slots st) + 1"
      "balance (fallback_slots (c_release_reserved ?c st)) = balance (fallback_slots st) + 0"
    using w ps.release_law [of "primary_slots st"] ps.reserve_law [of "primary_slots st"]
    by (simp_all add: st_wf_def primary_choice_def)
  assume "served e (primary_slots st)" "1 \<le> balance (primary_slots st)"
  from served_acquire [OF this(1) w(1) this(2)] w
  show "\<exists>st'. c_reacquire ?c e st = (True, st') \<and> st_wf sem_wf st' \<and> balance (primary_slots st') = balance (primary_slots st) - 1
      \<and> balance (fallback_slots st') = balance (fallback_slots st) - 0"
    by (auto simp: primary_choice_def st_wf_def)
qed

lemma nothing_stands: "stands_for (uncoordinated_choice r) 0 0" "stands_for (noop_choice k m) 0 0"
  by (simp_all add: stands_for_def uncoordinated_choice_def noop_choice_def)

lemma picked_stands:
  assumes "pick_orchestrator env st = (c, st')" "st_wf sem_wf st" "sem_env_ok (me_wait env) PriorityUser (fallback_slots st)"
  shows "\<exists>a b. stands_for c a b \<and> st_wf sem_wf st'"
proof (cases "me_router env")
  case (Inl cfg)
  with assms(1) have "acquire_or_fallback prio_ops cfg (me_wait env) False PriorityUser st = (c, st')"
    by (simp add: pick_orchestrator_def)
  then show ?thesis
  proof (cases rule: acquire_or_fallback_cases)
    case (fallback_try m)
    then show ?thesis using brain_stands ps.try_true assms(2) by (metis st_wf_def)
  next
    case (primary_try m n)
    then have "n = fallback_slots st" by (auto dest: ps.try_false)
    with primary_try show ?thesis using primary_stands ps.try_true assms(2) by (metis st_wf_def)
  next
    case (blocked m n k ok)
    then have k: "n = primary_slots st" "k = fallback_slots st" by (auto dest: ps.try_false)
    have "sem_wf m" using ps.acquire_law [of k "me_wait env" PriorityUser ok m] blocked(3) k assms(2,3) by (simp add: st_wf_def)
    with blocked k assms(2) show ?thesis using brain_stands nothing_stands(1) by (cases ok) (auto simp: st_wf_def)
  qed
next
  case (Inr p)
  then show ?thesis using assms(1,2) nothing_stands(2)
    by (auto simp: pick_orchestrator_def passthrough_acquire_or_fallback_def split: prod.splits)
qed

lemma query_keeps_calls:
  assumes "\<And>r s. P s \<Longrightarrow> P (snd (oe_chat env r s))"
    and "\<And>g f t raw s. oe_tool env = Some f \<Longrightarrow> P s
       \<Longrightarrow> P (snd ((call_tool (orchestrator_config g prompt trimFn opts) f t raw s)))"
    and "P s" "query_orchestrator env mdl prompt trimFn opts s = (res, new, s')"
  shows "P s'"
proof -
  obtain g where g: "run_grammar_orchestrator env mdl g prompt trimFn opts s = (res, new, s')"
    using assms(4) by (simp add: query_orchestrator_def)
  let ?cfg = "orchestrator_config g prompt trimFn opts" and ?env = "orchestrator_env env mdl opts"
  have "P (snd (orchestrator_chat env mdl opts ci s))" if "P s" for ci s
    using assms(1) [OF that, of "orchestrator_request mdl opts ci"]
    by (auto simp: orchestrator_chat_def split: prod.split sum.split)
  then have "keeps_calls P ?cfg ?env"
    using assms(2) unfolding keeps_calls_def by (auto simp: orchestrator_config_def orchestrator_env_def)
  from loop_rounds_keeps_calls [OF this, of "start_state (orchestrator_messages env prompt opts) s"] assms(3)
  have "P (ls_world (snd (run_loop ?cfg ?env (orchestrator_messages env prompt opts) s)))"
    by (simp add: run_loop_def start_state_def)
  with g show ?thesis by (auto simp: run_grammar_orchestrator_def Let_def case_prod_beta)
qed

text \<open>Between the tools the slot is held, and the others leave the rest as it was.\<close>

definition holding_slot :: "prio_sem rstate \<Rightarrow> 'w chat_world \<times> run_flags \<Rightarrow> bool" where
  "holding_slot st0 = (\<lambda>(w, fl). rf_acquired fl \<and> st_wf sem_wf (cw_slots w) \<and> same_free st0 (cw_slots w))"

lemma sem_wf_balance: "sem_wf s \<Longrightarrow> 0 \<le> balance s"
  by (simp add: sem_wf_def balance_def)

lemma cw_say_slots [simp]: "cw_slots (cw_say ch t w) = cw_slots w"
  by (simp add: cw_say_def)

lemma message_tool_holds:
  assumes "slots_shared_fairly env" "stands_for c a b" "oe_tool (me_orch env k) = Some g"
    and "lc_on_tool_start cfg = Some (message_tool_start env channel c)"
    and "lc_on_tool_end cfg = Some (message_tool_end env c)" "lc_on_tool_exec cfg = None"
    and "holding_slot st0 x"
  shows "holding_slot st0 (snd ((call_tool cfg (\<lambda>raw (s, f). (let (y, s') = g raw s in (y, s', f))) t raw x)))"
proof -
  obtain w fl where x: "x = (w, fl)" by (rule prod.exhaust)
  have h: "st_wf sem_wf (cw_slots w)" "same_free st0 (cw_slots w)" using assms(7) by (simp_all add: holding_slot_def x)
  let ?st1 = "c_release_reserved c (cw_slots w)"
  have st1: "st_wf sem_wf ?st1" "balance (primary_slots ?st1) = balance (primary_slots (cw_slots w)) + a"
      "balance (fallback_slots ?st1) = balance (fallback_slots (cw_slots w)) + b"
    using assms(2) h(1) unfolding stands_for_def by blast+
  obtain w1 fl1 where s: "message_tool_start env channel c t (w, fl) = (w1, fl1)" by (rule prod.exhaust)
  then have w1: "cw_slots w1 = ?st1" by (auto simp: message_tool_start_def Let_def split: if_splits)
  obtain y w2 where e: "g raw w1 = (y, w2)" by (rule prod.exhaust)
  have "same_free (cw_slots w1) (cw_slots (snd (g raw w1)))"
    using assms(1,3) st1(1) w1 unfolding slots_shared_fairly_def by metis
  then have st2: "st_wf sem_wf (cw_slots w2)" "balance (primary_slots (cw_slots w2)) = balance (primary_slots (cw_slots w)) + a"
      "balance (fallback_slots (cw_slots w2)) = balance (fallback_slots (cw_slots w)) + b"
    using st1 w1 e by (simp_all add: same_free_def)
  have "0 \<le> balance (primary_slots (cw_slots w))" "0 \<le> balance (fallback_slots (cw_slots w))"
    using h(1) sem_wf_balance by (simp_all add: st_wf_def)
  then obtain st3 where r: "c_reacquire c (me_rewait env w2) (cw_slots w2) = (True, st3)" "st_wf sem_wf st3"
      "balance (primary_slots st3) = balance (primary_slots (cw_slots w))"
      "balance (fallback_slots st3) = balance (fallback_slots (cw_slots w))"
    using assms(1,2) st2 unfolding stands_for_def slots_shared_fairly_def by (metis add_diff_cancel_right' le_add_same_cancel2)
  have "snd ((call_tool cfg (\<lambda>raw (s, f). (let (y, s') = g raw s in (y, s', f))) t raw x))
      = (w2\<lparr>cw_slots := st3\<rparr>, fl1\<lparr>rf_acquired := True\<rparr>)"
    using s e r(1) by (simp add: call_tool_def assms(4-6) x message_tool_end_def)
  with r h(2) show ?thesis by (simp add: holding_slot_def same_free_def)
qed

lemma message_call_holds:
  assumes "slots_shared_fairly env" "st_wf sem_wf (cw_slots w)" "sem_env_ok (me_wait env) PriorityUser (fallback_slots (cw_slots w))"
    and "pick_orchestrator env (cw_slots w) = (c, st)"
    and "message_call cfg env now channel msgText userPrompt vision memories w = (c', res, new, w1, fl)"
  shows "c' = c \<and> holding_slot st (w1, fl)"
proof -
  obtain a b where c: "stands_for c a b" "st_wf sem_wf st" using picked_stands [OF assms(4,2,3)] by blast
  let ?env = "flag_env (me_orch env (client c)) :: ('a chat_world \<times> run_flags) orch_env"
    and ?opts = "Some (message_opts cfg env channel c msgText vision (stale_trim now (messages (cw_state w))) memories)"
  have q: "c' = c" "query_orchestrator ?env (model c) (message_prompt cfg env now userPrompt w) (Some default_trim_fn)
      ?opts (w\<lparr>cw_slots := st\<rparr>, \<lparr>rf_acquired = True, rf_progress = False\<rparr>) = (res, new, w1, fl)"
    using assms(4,5) by (auto simp: message_call_def Let_def)
  have "holding_slot st (w1, fl)"
  proof (rule query_keeps_calls [OF _ _ _ q(2)])
    show "holding_slot st (w\<lparr>cw_slots := st\<rparr>, \<lparr>rf_acquired = True, rf_progress = False\<rparr>)"
      using c(2) by (simp add: holding_slot_def same_free_def)
    show "holding_slot st (snd (oe_chat ?env r x))" if "holding_slot st x" for r x
    proof -
      obtain w fl where x: "x = (w, fl)" by (rule prod.exhaust)
      have "same_free (cw_slots w) (cw_slots (snd (oe_chat (me_orch env (client c)) r w)))"
        using assms(1) that unfolding slots_shared_fairly_def holding_slot_def x by blast
      then show ?thesis using that
        by (auto simp: x flag_env_def holding_slot_def same_free_def split: prod.split)
    qed
    show "holding_slot st (snd ((call_tool (orchestrator_config g (message_prompt cfg env now userPrompt w) (Some default_trim_fn) ?opts) f t raw x)))"
      if f: "oe_tool ?env = Some f" and x: "holding_slot st x" for g f t raw x
    proof -
      obtain g0 where g0: "oe_tool (me_orch env (client c)) = Some g0"
          "f = (\<lambda>raw (s, f). (let (y, s') = g0 raw s in (y, s', f)))"
        using f by (auto simp: flag_env_def)
      show ?thesis unfolding g0(2)
        by (rule message_tool_holds [OF assms(1) c(1) g0(1) _ _ _ x])
          (simp_all add: orchestrator_config_def message_opts_def)
    qed
  qed
  with q(1) show ?thesis by simp
qed


section \<open>Every message is answered\<close>

lemma slide_context_returns:
  assumes "1 \<le> k" "length (messages sm) \<le> length (messages (between 0 sm))"
  shows "\<exists>r. slide_context sha off now k between sm = Ret r"
proof (cases "int (length (messages sm)) \<le> k")
  case False
  then obtain c where "slide_cutoff (messages (between 0 sm)) k = Ret c"
    using slide_cutoff_spec [of k "messages (between 0 sm)"] assms by auto
  with False show ?thesis by (simp add: slide_context_def slide_and_archive_def Let_def case_prod_beta)
qed (auto simp: slide_context_def slide_and_archive_def Let_def)

text \<open>Another goroutine shortens the conversation between two looks of the handling.\<close>

definition others_shorten :: "(nat \<Rightarrow> state_manager \<Rightarrow> state_manager) \<Rightarrow> bool" where
  "others_shorten others \<longleftrightarrow> (\<exists>i sm. length (messages (others i sm)) < length (messages sm))"

lemma emit_gap_keeps [simp]:
  "cw_jobs (emit_gap_signal t w) = cw_jobs w" "cw_slots (emit_gap_signal t w) = cw_slots w"
  "cw_triaged (emit_gap_signal t w) = cw_triaged w"
  by (auto simp: emit_gap_signal_def split: option.split)

lemma handling_keeps:
  "cw_jobs (triage_exchange cfg mr w) = cw_jobs w" "cw_slots (triage_exchange cfg mr w) = cw_slots w"
  "mr_failed mr \<Longrightarrow> cw_triaged (triage_exchange cfg mr w) = cw_triaged w"
  "cw_jobs (evaluate_memories cfg mr w) = cw_jobs w" "cw_slots (evaluate_memories cfg mr w) = cw_slots w"
  "cw_triaged (evaluate_memories cfg mr w) = cw_triaged w"
  "jy_sent (cw_jobs (cw_set_state sm w)) = jy_sent (cw_jobs w)" "cw_slots (cw_set_state sm w) = cw_slots w"
  "cw_triaged (cw_set_state sm w) = cw_triaged w"
  by (simp_all add: triage_exchange_def evaluate_memories_def cw_set_state_def)

lemma complete_message_outcome:
  assumes "reply = (if mr_failed mr then apology else mr_reply mr)"
    and "complete_message_handling sha cfg others now channel mr w = Ret w'"
  shows "cw_slots w' = cw_slots w \<and>
     jy_sent (cw_jobs w') = jy_sent (cw_jobs w) @ (if str_contains reply no_action_tag then [] else [(channel, reply)]) \<and>
     (mr_failed mr \<longrightarrow> cw_triaged w' = cw_triaged w)"
proof -
  obtain sm where "w' = send_reply channel mr (evaluate_memories cfg mr (cw_set_state sm (triage_exchange cfg mr w)))"
    using assms(2) unfolding complete_message_handling_def Let_def by (auto split: go.splits)
  then show ?thesis
    by (simp add: assms(1) send_reply_def Let_def cw_say_def jy_send_def handling_keeps)
qed

lemma complete_message_panics:
  assumes "1 \<le> mc_max_messages cfg" "complete_message_handling sha cfg others now channel mr w = Panic"
  shows "others_shorten others"
proof -
  let ?k = "length (mr_messages mr)"
  define sm where "sm = others ?k (append_between now others (mr_messages mr) (cw_state w))"
  have "slide_context sha (mc_zone cfg) now (mc_max_messages cfg) (\<lambda>i. others (?k + 1 + i)) sm = Panic"
    using assms(2) unfolding complete_message_handling_def Let_def sm_def [symmetric]
    by (auto split: go.splits if_splits)
  then have "\<not> length (messages sm) \<le> length (messages (others (?k + 1) sm))"
    using slide_context_returns [OF assms(1), of sm "\<lambda>i. others (?k + 1 + i)" sha "mc_zone cfg" now] by auto
  then show ?thesis unfolding others_shorten_def by (meson not_le)
qed

definition answers :: "string \<Rightarrow> loop_error + string \<Rightarrow> (string \<times> string) list" where
  "answers channel res =
     (case res of
        Inl (BackgroundRequested b) \<Rightarrow> [(channel, session_ack (bj_tool b))]
      | Inl _ \<Rightarrow> [(channel, apology)]
      | Inr t \<Rightarrow> if str_contains t no_action_tag then [] else [(channel, t)])"

lemma apology_plain: "\<not> str_contains apology no_action_tag"
  by code_simp

lemma spawn_sent: "jy_sent (spawn_job tx bytes now channel t b y) = jy_sent y @ [(channel, session_ack (bj_tool b))]"
  by (simp add: spawn_job_def Let_def create_job_def jy_session_def jy_send_def)

definition prefetched :: "message_config \<Rightarrow> 'w message_env \<Rightarrow> gotime \<Rightarrow> string \<Rightarrow> 'w chat_world \<Rightarrow> string \<times> int list" where
  "prefetched cfg env now msgText w =
     (case (if mc_db cfg \<and> mc_embed cfg \<and> trim_space msgText \<noteq> []
            then me_prefetch env (trajectory (stale_trim now (messages (cw_state w))) msgText) msgText (last_pipeline_id (cw_state w))
            else None) of None \<Rightarrow> ([], []) | Some p \<Rightarrow> p)"

text \<open>The result of a call as it is handed on.\<close>

definition result_of :: "(loop_error + string) \<Rightarrow> message list \<Rightarrow> string \<Rightarrow> string \<times> int list \<Rightarrow> int \<Rightarrow> message_result" where
  "result_of res new msgText pf pipeline =
     \<lparr>mr_reply = (case res of Inl e \<Rightarrow> [] | Inr t \<Rightarrow> t), mr_messages = condense_tool_results new,
      mr_context = fst (summarize_tool_context new), mr_tools_used = snd (summarize_tool_context new),
      mr_text = msgText, mr_ids = snd pf, mr_summaries = fst pf,
      mr_pipeline = pipeline, mr_failed = (case res of Inl e \<Rightarrow> True | Inr t \<Rightarrow> False)\<rparr>"

lemma process_message_unfold:
  assumes "message_call cfg env now channel msgText userPrompt vision (fst (prefetched cfg env now msgText w)) w = (c, res, new, w1, fl)"
  shows "process_message sha cfg env now channel pipeline msgText userPrompt vision w =
    (case res of
       Inl (BackgroundRequested b) \<Rightarrow> Ret (w1\<lparr>cw_slots := c_release c (cw_slots w1),
         cw_jobs := spawn_job (me_texts env) (me_random env) now channel msgText b (cw_jobs w1)\<rparr>)
     | _ \<Rightarrow> (case complete_message_handling sha cfg (me_others env) now channel
                (result_of res new msgText (prefetched cfg env now msgText w) pipeline) w1 of
         Panic \<Rightarrow> Panic
       | Ret w2 \<Rightarrow> Ret (if rf_acquired fl then w2\<lparr>cw_slots := c_release c (cw_slots w2)\<rparr> else w2)))"
proof -
  obtain memories ids where pf: "prefetched cfg env now msgText w = (memories, ids)" by (rule prod.exhaust)
  obtain ctx used where st: "summarize_tool_context new = (ctx, used)" by (rule prod.exhaust)
  show ?thesis
    using assms [unfolded pf fst_conv] st
    by (simp add: process_message_def Let_def pf pf [unfolded prefetched_def] result_of_def
        split: sum.split loop_error.split)
qed

lemma process_message_outcome:
  assumes "message_call cfg env now channel msgText userPrompt vision (fst (prefetched cfg env now msgText w)) w = (c, res, new, w1, fl)"
    and "process_message sha cfg env now channel pipeline msgText userPrompt vision w = Ret w'"
  shows "jy_sent (cw_jobs w') = jy_sent (cw_jobs w1) @ answers channel res \<and>
     (cw_triaged w' = cw_triaged w1 \<or> (\<exists>t. res = Inr t)) \<and>
     cw_slots w' = (if rf_acquired fl \<or> (\<exists>b. res = Inl (BackgroundRequested b)) then c_release c (cw_slots w1) else cw_slots w1)"
proof (cases "\<exists>b. res = Inl (BackgroundRequested b)")
  case True
  with assms show ?thesis by (auto simp: process_message_unfold spawn_sent answers_def)
next
  case False
  let ?mr = "result_of res new msgText (prefetched cfg env now msgText w) pipeline"
  from assms(2) False obtain w2 where w2: "complete_message_handling sha cfg (me_others env) now channel ?mr w1 = Ret w2"
      "w' = (if rf_acquired fl then w2\<lparr>cw_slots := c_release c (cw_slots w2)\<rparr> else w2)"
    unfolding process_message_unfold [OF assms(1)] by (auto split: sum.splits loop_error.splits go.splits)
  from complete_message_outcome [OF refl w2(1)] have "cw_slots w2 = cw_slots w1"
      "jy_sent (cw_jobs w2) = jy_sent (cw_jobs w1) @ answers channel res" "(\<exists>e. res = Inl e) \<longrightarrow> cw_triaged w2 = cw_triaged w1"
    using False apology_plain
    by (cases res; auto simp: answers_def result_of_def split: loop_error.splits)+
  with w2(2) False show ?thesis by (cases res) auto
qed

lemma process_message_panics:
  assumes "1 \<le> mc_max_messages cfg" "process_message sha cfg env now channel pipeline msgText userPrompt vision w = Panic"
  shows "others_shorten (me_others env)"
proof -
  obtain c res new w1 fl where m: "message_call cfg env now channel msgText userPrompt vision
      (fst (prefetched cfg env now msgText w)) w = (c, res, new, w1, fl)"
    by (metis prod_cases5)
  from assms(2) obtain mr where "complete_message_handling sha cfg (me_others env) now channel mr w1 = Panic"
    unfolding process_message_unfold [OF m] by (auto split: sum.splits loop_error.splits go.splits)
  with complete_message_panics [OF assms(1)] show ?thesis by blast
qed




text \<open>So the loop of \<open>main\<close>, which recovers from no panic, goes on after any message unless the slide is raced.\<close>

lemma receive_message_returns:
  assumes "1 \<le> mc_max_messages cfg" "\<not> others_shorten (me_others (mn_message env))"
  shows "\<exists>w'. receive_message sha cfg env now msg w = Ret w'"
proof -
  have "\<exists>w'. process_message sha cfg (mn_message env) now ch pl t p v x = Ret w'" for ch pl t p v x
    using process_message_panics [OF assms(1), of sha "mn_message env"] assms(2) by (metis go.exhaust)
  then show ?thesis
    by (auto simp: receive_message_def Let_def case_prod_beta split: option.split)
qed

section \<open>Witnesses\<close>

definition demo_paused :: "message list" where
  "demo_paused = map (\<lambda>(r, c). \<lparr>role = r, content = c, parts = [], msg_time = 1\<rparr>)
     [(''user'', ''Weather?''), (''assistant'', ''{call}''), (''user'', ''Tool result: rain''), (''assistant'', ''Rain.''),
      (''user'', ''Thanks''), (''assistant'', ''Welcome'')]"

definition demo_message_config :: message_config where
  "demo_message_config = \<lparr>mc_db = True, mc_embed = True, mc_dtc = False, mc_triage = False, mc_subagent = False,
     mc_max_messages = 40, mc_zone = 0, mc_heartbeat = 0, mc_max_tool_result = 0, mc_max_web = 0,
     mc_tool_agent = \<lparr>ta_descriptions = [], ta_grammar = []\<rparr>, mc_profile = [], mc_personality = []\<rparr>"

text \<open>
  A wait that is always served: the others release slots and wake the caller. The channel is a fresh
  one.
\<close>

definition finite_part :: "'a set \<Rightarrow> 'a set" where
  "finite_part X = (if finite X then X else {})"

definition chans_of :: "prio_sem \<Rightarrow> chan set" where
  "chans_of s = set (high s) \<union> set (low s) \<union> finite_part (woken s)"

definition fresh_chan :: "prio_sem rstate \<Rightarrow> chan" where
  "fresh_chan st = Suc (Max ({0} \<union> chans_of (primary_slots st) \<union> chans_of (fallback_slots st)))"

definition served_env :: "prio_sem rstate \<Rightarrow> prio_sem env" where
  "served_env st = (fresh_chan st, \<lambda>s. (Woken, \<lparr>avail = 0, reserved = 0, cap = cap s, high = [], low = [],
     woken = {fresh_chan st..<fresh_chan st + nat (balance s)}\<rparr>))"

definition demo_ask :: string where
  "demo_ask = json_object [json_field ''action'' (json_quote ''tool''), json_field ''name'' (json_quote ''search_web'')]"

definition demo_reply :: string where
  "demo_reply = json_object [json_field ''action'' (json_quote ''respond''), json_field ''text'' (json_quote ''Hello'')]"

text \<open>A model that asks for one tool and then answers; the rest of the world counts the tools that ran.\<close>

definition demo_message_env :: "nat message_env" where
  "demo_message_env = \<lparr>me_orch = (\<lambda>k. \<lparr>oe_system_base = [], oe_tools_text = [],
       oe_chat = (\<lambda>r w. (Inr (if cw_rest w = 0 then demo_ask else demo_reply), w)),
       oe_tool = Some (\<lambda>raw w. (Inr ''ok'', w\<lparr>cw_rest := Suc (cw_rest w)\<rparr>)), oe_clock = (\<lambda>s. 0), oe_zone = 0\<rparr>),
     me_router = Inl demo_cfg, me_wait = ctx_done_env, me_rewait = (\<lambda>w. served_env (cw_slots w)),
     me_prefetch = (\<lambda>t m i. None), me_temporal = [], me_select = (\<lambda>m. None), me_label = (\<lambda>t. t),
     me_progress_ok = (\<lambda>w. True), me_texts = \<lparr>sx_create_skill = [], sx_send_email = [], sx_reason = []\<rparr>,
     me_random = None, me_job_order = [], me_others = (\<lambda>i sm. sm)\<rparr>"

definition demo_chat :: "nat chat_world" where
  "demo_chat = \<lparr>cw_jobs = \<lparr>jy_store = \<lparr>js_jobs = Map.empty, js_next = 0, js_ids = Map.empty\<rparr>, jy_sessions = Map.empty,
       jy_state = demo_manager demo_paused, jy_sent = []\<rparr>,
     cw_slots = \<lparr>primary_slots = idle_sem, fallback_slots = busy_sem, emitted = []\<rparr>, cw_actions = [], cw_signals = None,
     cw_triaged = [], cw_evaluated = [], cw_rest = 0\<rparr>"

lemma demo_texts:
  "process_thinking demo_ask = (demo_ask, demo_ask, [])" "process_thinking demo_reply = (demo_reply, demo_reply, [])"
  "trim_space demo_ask = demo_ask" "trim_space demo_reply = demo_reply"
  "parse_decision demo_ask = Some \<lparr>d_action = ''tool'', d_name = ''search_web'', d_args = None, d_text = []\<rparr>"
  "parse_decision demo_reply = Some \<lparr>d_action = ''respond'', d_name = [], d_args = None, d_text = ''Hello''\<rparr>"
  "\<not> is_tool_soft_error ''ok''" "mandated_brain_tools ''search_web'' = None" "\<not> str_contains ''Hello'' no_action_tag"
  by code_simp+

lemma demo_loop:
  assumes chat: "\<And>ci x. le_chat env ci x = (Inr (if cw_rest (fst x) = 0 then demo_ask else demo_reply), x)"
    and tool: "le_tool env = Some exec" "\<And>t raw x. \<exists>y. call_tool cfg exec t raw x = (Inr ''ok'', y) \<and> cw_rest (fst y) = Suc (cw_rest (fst x))"
    and cfg: "lc_progress cfg = None" "lc_mandated cfg = Some mandated_brain_tools"
    and "cw_rest (fst (ls_world st)) = 0"
  shows "\<exists>st'. loop_rounds cfg env r (Suc (Suc n)) st = (Inr ''Hello'', st') \<and> cw_rest (fst (ls_world st')) = 1"
proof -
  define st2 where "st2 = add_msg (omsg ''assistant'' demo_ask) (st\<lparr>ls_parse_retries := 0\<rparr>)"
  have w2: "cw_rest (fst (ls_world st2)) = 0" using assms(6) by (simp add: st2_def add_msg_def)
  obtain y where y: "call_tool cfg exec ''search_web'' (tool_json ''search_web'' None) (ls_world st2) = (Inr ''ok'', y)"
      "cw_rest (fst y) = 1"
    using tool(2) [of "''search_web''" "tool_json ''search_web'' None" "ls_world st2"] w2 by auto
  obtain st3 where st3: "run_round cfg env r st = Continue st3" "ls_world st3 = y"
    using assms(6) y(1) tool(1) demo_texts
    by (auto simp: run_round_def chat Let_def tool_round_def cfg st2_def after_tool_def failure_of_def)
  have "\<exists>st'. run_round cfg env (r + 1) st3 = Respond ''Hello'' st' \<and> ls_world st' = y"
    using y(2) st3(2) demo_texts by (simp add: run_round_def chat Let_def)
  then show ?thesis using st3(1) y(2) by auto
qed

lemma demo_call:
  assumes "message_call demo_message_config demo_message_env 0 ''chat'' ''Hi'' ''Hi'' [] memories demo_chat = (c, res, new, w1, fl)"
  shows "res = Inr ''Hello'' \<and> cw_rest w1 = 1"
proof -
  obtain c0 st where p: "pick_orchestrator demo_message_env (cw_slots demo_chat) = (c0, st)" by (rule prod.exhaust)
  let ?opts = "Some (message_opts demo_message_config demo_message_env ''chat'' c0 ''Hi'' []
      (stale_trim 0 (messages (cw_state demo_chat))) memories)"
  let ?env = "flag_env (me_orch demo_message_env (client c0)) :: (nat chat_world \<times> run_flags) orch_env"
  let ?x = "(demo_chat\<lparr>cw_slots := st\<rparr>, \<lparr>rf_acquired = True, rf_progress = False\<rparr>)"
  let ?prompt = "message_prompt demo_message_config demo_message_env 0 ''Hi'' demo_chat"
  have q: "query_orchestrator ?env (model c0) ?prompt (Some default_trim_fn) ?opts ?x = (res, new, w1, fl)"
    using assms p by (auto simp: message_call_def Let_def)
  then obtain g where g: "run_grammar_orchestrator ?env (model c0) g ?prompt (Some default_trim_fn) ?opts ?x = (res, new, w1, fl)"
    by (simp add: query_orchestrator_def)
  let ?cfg = "orchestrator_config g ?prompt (Some default_trim_fn) ?opts" and ?le = "orchestrator_env ?env (model c0) ?opts"
  let ?exec = "\<lambda>raw (s, f). (Inr ''ok'' :: tool_error + string, s\<lparr>cw_rest := Suc (cw_rest s)\<rparr>, f)"
  have r: "max_rounds_of ?cfg = Suc (Suc 13)"
    by (simp add: max_rounds_of_def orchestrator_config_def default_max_rounds_def)
  have "\<exists>st'. loop_rounds ?cfg ?le 0 (Suc (Suc 13)) (start_state (orchestrator_messages ?env ?prompt ?opts) ?x) = (Inr ''Hello'', st')
      \<and> cw_rest (fst (ls_world st')) = 1"
  proof (rule demo_loop)
    show "le_chat ?le ci x = (Inr (if cw_rest (fst x) = 0 then demo_ask else demo_reply), x)" for ci x
      by (cases x) (simp add: orchestrator_env_def orchestrator_chat_def flag_env_def demo_message_env_def demo_texts)
    show "le_tool ?le = Some ?exec"
      by (simp add: orchestrator_env_def flag_env_def demo_message_env_def fun_eq_iff)
    show "\<exists>y. call_tool ?cfg ?exec t raw x = (Inr ''ok'', y) \<and> cw_rest (fst y) = Suc (cw_rest (fst x))" for t raw x
      by (cases x) (auto simp: call_tool_def orchestrator_config_def message_opts_def message_tool_start_def message_tool_end_def
          Let_def cw_say_def split: prod.splits bool.splits)
  qed (simp_all add: orchestrator_config_def message_opts_def start_state_def demo_chat_def)
  then show ?thesis using g by (auto simp: run_grammar_orchestrator_def run_loop_def r Let_def)
qed

lemma fresh_chan_fresh:
  assumes "sem_wf s" "s \<in> {primary_slots st, fallback_slots st}"
  shows "fresh_chan st \<notin> set (high s) \<union> set (low s) \<union> woken s"
proof
  let ?A = "{0} \<union> chans_of (primary_slots st) \<union> chans_of (fallback_slots st)"
  assume "fresh_chan st \<in> set (high s) \<union> set (low s) \<union> woken s"
  with assms have "fresh_chan st \<in> ?A" by (auto simp: chans_of_def finite_part_def sem_wf_def)
  then have "fresh_chan st \<le> Max ?A" by (intro Max_ge) (auto simp: chans_of_def finite_part_def)
  then show False by (simp add: fresh_chan_def)
qed

lemma served_env_served:
  assumes "s \<in> {primary_slots st, fallback_slots st}"
  shows "served (served_env st) s"
  unfolding served_def
proof (intro impI)
  assume s: "sem_wf s \<and> 0 < balance s"
  let ?ch = "fresh_chan st"
  have f: "?ch \<notin> set (high s) \<union> set (low s) \<union> woken s" using fresh_chan_fresh s assms by blast
  obtain b s1 where e: "acquire_enter PriorityUser ?ch s = (b, s1)" by (rule prod.exhaust)
  show "sem_env_ok (served_env st) PriorityUser s \<and> balance (sem_after (served_env st) PriorityUser s) = balance s
      \<and> fst (acquire (served_env st) PriorityUser s)"
  proof (cases b)
    case True
    then show ?thesis using f e by (simp add: sem_env_ok_def served_env_def sem_after_def acquire_def)
  next
    case False
    then have "s1 = s\<lparr>high := high s @ [?ch]\<rparr>" using e by (auto simp: acquire_enter_def split: if_splits)
    then have "balance s1 = balance s" by (simp add: balance_def)
    then show ?thesis using f e False s
      by (auto simp: sem_env_ok_def served_env_def sem_after_def acquire_def sem_wf_def balance_def)
  qed
qed

lemma demo_fair: "slots_shared_fairly demo_message_env"
  using served_env_served
  by (auto simp: slots_shared_fairly_def demo_message_env_def same_free_def)

lemma stale_window_orphans_result_witness:
  "is_tool_message (cr_messages (first_request (flag_env (me_orch demo_message_env 1)) ''9b'' [] ''Hi'' (Some default_trim_fn)
      (Some (message_opts demo_message_config demo_message_env ''c'' (noop_choice 1 ''9b'') ''Hi'' []
        (stale_trim (2 * hour) demo_paused) [])) (demo_chat, \<lparr>rf_acquired = True, rf_progress = False\<rparr>)) ! 1)"
  by (rule stale_window_orphans_result)
    (simp_all add: demo_paused_def time_sub_def dur_defs max_dur_def min_dur_def is_tool_message_def has_prefix_def eval_nat_numeral)

text \<open>Nobody else touches the conversation there, so the message is answered; the tool has run.\<close>

lemma demo_no_panic: "process_message id demo_message_config demo_message_env 0 ''chat'' 7 ''Hi'' ''Hi'' [] demo_chat \<noteq> Panic"
  using process_message_panics [of demo_message_config id demo_message_env]
  by (auto simp: others_shorten_def demo_message_env_def demo_message_config_def)

lemma rest_keeps:
  "cw_rest (triage_exchange cfg mr w) = cw_rest w" "cw_rest (evaluate_memories cfg mr w) = cw_rest w"
  "cw_rest (cw_set_state sm w) = cw_rest w" "cw_rest (cw_say ch t w) = cw_rest w" "cw_rest (emit_gap_signal t w) = cw_rest w"
  by (simp_all add: triage_exchange_def evaluate_memories_def cw_set_state_def cw_say_def emit_gap_signal_def
      split: option.split)

lemma complete_message_rest:
  assumes "complete_message_handling sha cfg others now channel mr w = Ret w'"
  shows "cw_rest w' = cw_rest w"
proof -
  obtain sm where "w' = send_reply channel mr (evaluate_memories cfg mr (cw_set_state sm (triage_exchange cfg mr w)))"
    using assms unfolding complete_message_handling_def Let_def by (auto split: go.splits)
  then show ?thesis by (simp add: send_reply_def Let_def rest_keeps)
qed

lemma process_message_rest:
  assumes "message_call cfg env now channel msgText userPrompt vision (fst (prefetched cfg env now msgText w)) w = (c, Inr t, new, w1, fl)"
    and "process_message sha cfg env now channel pipeline msgText userPrompt vision w = Ret w'"
  shows "cw_rest w' = cw_rest w1"
proof -
  obtain w2 where "complete_message_handling sha cfg (me_others env) now channel
      (result_of (Inr t) new msgText (prefetched cfg env now msgText w) pipeline) w1 = Ret w2"
      "w' = (if rf_acquired fl then w2\<lparr>cw_slots := c_release c (cw_slots w2)\<rparr> else w2)"
    using assms(2) unfolding process_message_unfold [OF assms(1)] by (auto split: go.splits)
  with complete_message_rest [OF this(1)] show ?thesis by simp
qed



end
