(* ===== verification/MemText.thy ===== *)
theory MemText
  imports Complex_Main PlanExec
begin

text \<open>
  The texts of the memory store (\<open>memory/save.go\<close>, \<open>memory/embedding.go\<close>, \<open>memory/format.go\<close>,
  \<open>memory/contradiction.go\<close>, \<open>memory/scoring.go\<close>, \<open>memory/entity_extraction.go\<close>, \<open>tools/memory.go\<close>): how
  a memory is cut into chunks, what the models are asked about it and how their answers are read.
  Numbers of JSON are rational: the rounding of \<open>float64\<close> is left out.
\<close>

section \<open>Chunks\<close>

definition max_chunk_bytes :: nat where "max_chunk_bytes = 1200"
definition min_chunk_bytes :: nat where "min_chunk_bytes = 50"

text \<open>Where the text is cut: behind the last newline before the limit, at the limit without one.\<close>

definition cut_before :: "nat \<Rightarrow> string \<Rightarrow> nat" where
  "cut_before n s =
     (case str_last_index (take n s) [CHR 0x0A] of
        Some i \<Rightarrow> if i > 0 then i + 1 else n
      | None \<Rightarrow> n)"

definition chunk_end :: "nat \<Rightarrow> string \<Rightarrow> nat" where
  "chunk_end maxBytes s = (let e = min maxBytes (length s) in if e < length s then cut_before e s else e)"

lemma str_last_index_bound: "str_last_index s sub = Some i \<Longrightarrow> i + length sub \<le> length s"
proof (induction s arbitrary: i)
  case (Cons c cs)
  then show ?case
    by (auto split: option.splits if_splits simp: has_prefix_def) (metis length_Cons length_take min.absorb_iff2 min.commute)
qed (auto split: if_splits)

lemma cut_before_bounds: "0 < n \<Longrightarrow> n \<le> length s \<Longrightarrow> 0 < cut_before n s \<and> cut_before n s \<le> n"
  using str_last_index_bound [of "take n s" "[CHR 0x0A]"]
  by (auto simp: cut_before_def min_def split: option.split if_splits)

lemma chunk_end_bounds: "s \<noteq> [] \<Longrightarrow> 0 < m \<Longrightarrow> 0 < chunk_end m s \<and> chunk_end m s \<le> m \<and> chunk_end m s \<le> length s"
  using cut_before_bounds [of "min m (length s)" s] by (auto simp: chunk_end_def Let_def)

text \<open>The loop does not end for a limit of zero; every caller passes \<open>max_chunk_bytes\<close>.\<close>

function chunk_loop :: "nat \<Rightarrow> string \<Rightarrow> string list" where
  "chunk_loop maxBytes s =
     (if s = [] \<or> maxBytes = 0 then []
      else (let e = chunk_end maxBytes s; chunk = trim_space (take e s); rest = chunk_loop maxBytes (drop e s)
            in if min_chunk_bytes \<le> length chunk then chunk # rest else rest))"
  by pat_completeness auto

termination
proof (relation "measure (\<lambda>(m, s). length s)")
  fix m s and e
  assume "\<not> (s = [] \<or> m = 0)" "e = chunk_end m s"
  then show "((m, drop e s), (m, s)) \<in> measure (\<lambda>(m, s). length s)"
    using chunk_end_bounds [of s m] by auto
qed simp_all

declare chunk_loop.simps [simp del]

definition chunk_text :: "string \<Rightarrow> nat \<Rightarrow> string list" where
  "chunk_text text maxBytes =
     (if length text \<le> maxBytes then [text]
      else (let cs = chunk_loop maxBytes text in if cs = [] then [trim_space text] else cs))"

section \<open>Embedding\<close>

text \<open>
  The server turns a text into a vector, or fails; a text that it calls too large is split in two.
\<close>

definition too_large :: string where "too_large = ''too large to process''"

lemma halves_shorter:
  assumes "100 < length t"
  shows "length (trim_space (take (cut_before (length t div 2) t) t)) < length t"
    and "length (trim_space (drop (cut_before (length t div 2) t) t)) < length t"
proof -
  have b: "0 < cut_before (length t div 2) t" "cut_before (length t div 2) t \<le> length t div 2"
    using cut_before_bounds [of "length t div 2" t] assms by auto
  then show "length (trim_space (take (cut_before (length t div 2) t) t)) < length t"
    using length_trim_space [of "take (cut_before (length t div 2) t) t"] assms by auto
  show "length (trim_space (drop (cut_before (length t div 2) t) t)) < length t"
    using length_trim_space [of "drop (cut_before (length t div 2) t) t"] b assms by auto
qed

function embed_with_fallback ::
  "(string \<Rightarrow> 's \<Rightarrow> (string + 'v) \<times> 's) \<Rightarrow> string \<Rightarrow> 's \<Rightarrow> (string + (string \<times> 'v) list) \<times> 's" where
  "embed_with_fallback emb text s =
     (case emb text s of
        (Inr v, s1) \<Rightarrow> (Inr [(text, v)], s1)
      | (Inl err, s1) \<Rightarrow>
          if str_contains err too_large \<and> 100 < length text
          then (let mid = cut_before (length text div 2) text in
                case embed_with_fallback emb (trim_space (take mid text)) s1 of
                  (Inl e, s2) \<Rightarrow> (Inl e, s2)
                | (Inr left, s2) \<Rightarrow>
                    (case embed_with_fallback emb (trim_space (drop mid text)) s2 of
                       (Inl e, s3) \<Rightarrow> (Inl e, s3)
                     | (Inr right, s3) \<Rightarrow> (Inr (left @ right), s3)))
          else (Inl err, s1))"
  by pat_completeness auto

termination
  by (relation "measure (\<lambda>(emb, t, s). length t)") (auto simp: halves_shorter)

declare embed_with_fallback.simps [simp del]

section \<open>Summaries and prompts\<close>

text \<open>\<open>ExtractSummary\<close>, and the comparison without the source exchange.\<close>

definition before_mark :: "string \<Rightarrow> string \<Rightarrow> string" where
  "before_mark mark text = (case str_index text mark of Some i \<Rightarrow> take i text | None \<Rightarrow> text)"

definition extract_summary :: "string \<Rightarrow> string" where
  "extract_summary text = before_mark (nl @ nl @ ''Source '') text"

definition summary_for_comparison :: "string \<Rightarrow> string" where
  "summary_for_comparison text = before_mark (nl @ nl @ ''Source exchange:'' @ nl) text"

definition numbered :: "(nat \<Rightarrow> string \<Rightarrow> string) \<Rightarrow> string list \<Rightarrow> string" where
  "numbered f xs = concat (map (\<lambda>(i, x). f (i + 1) x) (enumerate 0 xs))"

definition contradiction_prompt :: "string \<Rightarrow> string list \<Rightarrow> string" where
  "contradiction_prompt summary existing =
     ''NEW: '' @ summary_for_comparison summary @ nl
     @ numbered (\<lambda>i c. ''EXISTING_'' @ itoa (int i) @ '': '' @ c @ nl) existing"

definition build_enrichment_prompt :: "string \<Rightarrow> string list \<Rightarrow> string" where
  "build_enrichment_prompt summary existing =
     (if existing = [] then summary
      else ''NEW MEMORY:'' @ nl @ summary @ nl @ nl @ ''EXISTING SIMILAR MEMORIES:'' @ nl
        @ numbered (\<lambda>i c. itoa (int i) @ ''. '' @ c @ nl) existing)"

text \<open>
  \<open>strings.ToUpper\<close> as far as it can matter beside ASCII: the dotless i and the long s become ASCII
  letters.
\<close>

definition upper_char :: "char \<Rightarrow> char" where
  "upper_char c = (if 97 \<le> byte_of c \<and> byte_of c \<le> 122 then char_of (byte_of c - 32) else c)"

definition to_upper :: "string \<Rightarrow> string" where
  "to_upper s = map upper_char (replace_all [CHR 0xC5, CHR 0xBF] ''S'' (replace_all [CHR 0xC4, CHR 0xB1] ''I'' s))"

text \<open>The verdict on the candidate with the number \<open>i\<close>.\<close>

definition contradicted :: "string \<Rightarrow> nat \<Rightarrow> bool" where
  "contradicted raw i =
     list_ex (\<lambda>line. (let l = trim_space (to_upper line) in
         has_prefix l (''EXISTING_'' @ itoa (int i) @ '':'') \<and> str_contains l ''CONTRADICTS''))
       (split_char (CHR 0x0A) raw)"

definition contradicted_ids :: "string \<Rightarrow> (int \<times> string) list \<Rightarrow> int list" where
  "contradicted_ids raw cs = map (fst \<circ> snd) (filter (\<lambda>(i, c). contradicted raw (i + 1)) (enumerate 0 cs))"

section \<open>Answers\<close>

text \<open>A number of JSON as a rational; one that overflows \<open>float64\<close> is an error.\<close>

definition json_rat :: "string \<Rightarrow> rat" where
  "json_rat t =
     (let t1 = (if has_prefix t ''-'' then drop 1 t else t);
          (i, r) = digits_of t1;
          (f, r') = (if has_prefix r ''.'' then digits_of (drop 1 r) else ([], r));
          neg = has_prefix (drop 1 r') ''-'';
          x = nat (dec_int 0 (filter is_digit r'));
          m = of_int (dec_int 0 (i @ f)) / 10 ^ length f;
          v = (if neg then m / 10 ^ x else m * 10 ^ x)
      in if has_prefix t ''-'' then - v else v)"

fun set_float :: "json \<Rightarrow> rat \<Rightarrow> rat \<times> bool" where
  "set_float (JNum t) old = (if float_overflows t then (old, True) else (json_rat t, False))"
| "set_float JNull old = (old, False)"
| "set_float _ old = (old, True)"

definition arg_float :: "string list \<Rightarrow> string \<Rightarrow> (string \<times> string \<times> json) list \<Rightarrow> rat \<times> bool" where
  "arg_float names k ms = set_all set_float 0 (arg_values names k ms)"

definition arg_strings :: "string list \<Rightarrow> string \<Rightarrow> (string \<times> string \<times> json) list \<Rightarrow> string list \<times> bool" where
  "arg_strings names k ms =
     (let ts = map decode_strings (arg_values names k ms)
      in (if ts = [] then [] else fst (last ts), list_ex snd ts))"

record quality =
  q_specificity :: rat
  q_uniqueness :: rat
  q_entities :: "string list"
  q_confidence :: rat

definition parse_quality :: "string \<Rightarrow> quality option" where
  "parse_quality raw =
     (case struct_members (Some (clean_llm_json raw)) of
        None \<Rightarrow> None
      | Some ms \<Rightarrow>
          (let names = [''specificity'', ''uniqueness'', ''entities'', ''confidence''];
               (a, e1) = arg_float names ''specificity'' ms;
               (b, e2) = arg_float names ''uniqueness'' ms;
               (es, e3) = arg_strings names ''entities'' ms;
               (c, e4) = arg_float names ''confidence'' ms
           in if e1 \<or> e2 \<or> e3 \<or> e4 then None
              else Some \<lparr>q_specificity = a, q_uniqueness = b, q_entities = es, q_confidence = c\<rparr>))"

text \<open>\<open>extractEntitiesLightweight\<close>: \<open>None\<close> is the nil slice, of an error or of the answer null.\<close>

definition parse_entities :: "string \<Rightarrow> string list option" where
  "parse_entities raw =
     (case json_parse (trim_space raw) of
        Some (JArr vs) \<Rightarrow> (case decode_strings (JArr vs) of (es, e) \<Rightarrow> if e then None else Some es)
      | _ \<Rightarrow> None)"

section \<open>The tools\<close>

text \<open>\<open>FlexibleStringSlice\<close>: an array of strings, or a single string.\<close>

fun flexible_strings :: "json \<Rightarrow> string list \<times> bool" where
  "flexible_strings (JStr t) = ([t], False)"
| "flexible_strings v = (case decode_strings v of (ts, e) \<Rightarrow> if e then ([], True) else (ts, False))"

record save_args =
  sv_summary :: string
  sv_tags :: "string list"
  sv_category :: string
  sv_salience :: "rat option"
  sv_type :: string

definition parse_save_args :: "string option \<Rightarrow> save_args option" where
  "parse_save_args args =
     (case struct_members args of
        None \<Rightarrow> None
      | Some ms \<Rightarrow>
          (let names = [''summary'', ''tags'', ''category'', ''salience_score'', ''memory_type''];
               (s, e1) = arg_string names ''summary'' ms;
               ts = map flexible_strings (arg_values names ''tags'' ms);
               (c, e2) = arg_string names ''category'' ms;
               fs = arg_values names ''salience_score'' ms;
               (x, e3) = set_all set_float 0 fs;
               (k, e4) = arg_string names ''memory_type'' ms
           in if e1 \<or> list_ex snd ts \<or> e2 \<or> e3 \<or> e4 then None
              else Some \<lparr>sv_summary = s, sv_tags = (if ts = [] then [] else fst (last ts)), sv_category = c,
                sv_salience = (if fs = [] \<or> last fs = JNull then None else Some x), sv_type = k\<rparr>))"

definition effective_salience :: "save_args \<Rightarrow> rat" where
  "effective_salience a =
     (case sv_salience a of
        None \<Rightarrow> 5
      | Some s \<Rightarrow> (let s1 = (if s > 10 then min (s / 10) 10 else s) in if s1 < 0 then 0 else s1))"

definition effective_tags :: "save_args \<Rightarrow> string list" where
  "effective_tags a = (if sv_category a = [] then sv_tags a else sv_category a # sv_tags a)"

definition save_refused :: "save_args \<Rightarrow> bool" where
  "save_refused a \<longleftrightarrow>
     (let s = trim_space (sv_summary a) in s = [] \<or> has_prefix s ''<No '' \<or> has_prefix s ''<no '')"

text \<open>\<open>strconv.Atoi\<close>.\<close>

definition go_atoi :: "string \<Rightarrow> int option" where
  "go_atoi t = (if has_prefix t ''+'' \<and> \<not> has_prefix t ''+-'' then parse_int64 (drop 1 t) else parse_int64 t)"

text \<open>\<open>rewriteQuery\<close>: at most three lines of the answer.\<close>

definition query_variations :: "string \<Rightarrow> string list" where
  "query_variations content =
     take 3 (filter (\<lambda>l. l \<noteq> []) (map trim_space (split_char (CHR 0x0A) (trim_space content))))"

text \<open>\<open>rerankResults\<close>: the numbers of the answer that name a result, each once, up to the limit.\<close>

fun rerank_lines :: "nat \<Rightarrow> nat \<Rightarrow> nat list \<Rightarrow> string list \<Rightarrow> nat list" where
  "rerank_lines n limit acc [] = acc"
| "rerank_lines n limit acc (l # ls) =
     (case go_atoi (trim_space l) of
        None \<Rightarrow> rerank_lines n limit acc ls
      | Some i \<Rightarrow>
          if i < 1 \<or> int n < i \<or> nat i \<in> set acc then rerank_lines n limit acc ls
          else if limit \<le> length acc + 1 then acc @ [nat i]
          else rerank_lines n limit (acc @ [nat i]) ls)"

definition rerank_results :: "string option \<Rightarrow> nat \<Rightarrow> 'a list \<Rightarrow> 'a list" where
  "rerank_results answer limit results =
     (case answer of
        None \<Rightarrow> results
      | Some content \<Rightarrow>
          (let is = rerank_lines (length results) limit [] (split_char (CHR 0x0A) (trim_space content))
           in if is = [] then results else map (\<lambda>i. results ! (i - 1)) is))"

end
