(* ===== verification/MemStore.thy ===== *)
theory MemStore
  imports MemText TimeFmt
begin

text \<open>
  The table \<open>memories\<close> and what is done to it (\<open>memory/\<close>, \<open>tools/memory.go\<close>, \<open>tools/forget_topic.go\<close>).
  A statement, and a transaction as a whole, is one definition; the flags say whether the database
  carried it out. The vectors are of any type, their distance is a parameter (\<open>dst\<close>, the operator of
  pgvector), as are the power and the logarithm of PostgreSQL. Numbers are rational.
\<close>

section \<open>The table\<close>

record 'v memory_row =
  mm_id :: int
  mm_summary :: string
  mm_vec :: 'v
  mm_salience :: rat
  mm_tags :: "string list"
  mm_type :: string
  mm_entities :: "string list"
  mm_confidence :: rat
  mm_source :: string
  mm_source_date :: "gotime option"
  mm_pipeline :: "int option"
  mm_superseded :: "int option"
  mm_related :: "int list"
  mm_created :: gotime
  mm_accessed :: gotime
  mm_retrieved :: int
  mm_last_retrieved :: "gotime option"
  mm_useful :: rat

record 'v mem_db =
  md_rows :: "'v memory_row list"
  md_next :: int

definition row_ids :: "'v mem_db \<Rightarrow> int set" where
  "row_ids db = mm_id ` set (md_rows db)"

text \<open>What PostgreSQL takes as a text, and the columns of type \<open>VARCHAR\<close> (\<open>db/schema.sql\<close>).\<close>

definition pg_text :: "string \<Rightarrow> bool" where
  "pg_text s \<longleftrightarrow> utf8_valid s \<and> CHR 0x00 \<notin> set s"

definition pg_varchar :: "nat \<Rightarrow> string \<Rightarrow> bool" where
  "pg_varchar n s \<longleftrightarrow> pg_text s \<and> length (filter rune_start s) \<le> n"

definition row_accepted :: "'v memory_row \<Rightarrow> bool" where
  "row_accepted r \<longleftrightarrow> pg_text (mm_summary r) \<and> list_all pg_text (mm_tags r) \<and> list_all pg_text (mm_entities r)
     \<and> pg_varchar 20 (mm_type r) \<and> pg_varchar 50 (mm_source r)"

definition insert_row :: "bool \<Rightarrow> 'v memory_row \<Rightarrow> 'v mem_db \<Rightarrow> (int \<times> 'v mem_db) option" where
  "insert_row ok r db =
     (if ok \<and> row_accepted r
      then Some (md_next db, db\<lparr>md_rows := md_rows db @ [r\<lparr>mm_id := md_next db\<rparr>], md_next := md_next db + 1\<rparr>)
      else None)"

fun insert_rows :: "bool \<Rightarrow> 'v memory_row list \<Rightarrow> 'v mem_db \<Rightarrow> (int list \<times> 'v mem_db) option" where
  "insert_rows ok [] db = Some ([], db)"
| "insert_rows ok (r # rs) db =
     (case insert_row ok r db of
        None \<Rightarrow> None
      | Some (i, db1) \<Rightarrow> map_option (\<lambda>(is, db2). (i # is, db2)) (insert_rows ok rs db1))"

definition update_where :: "('v memory_row \<Rightarrow> bool) \<Rightarrow> ('v memory_row \<Rightarrow> 'v memory_row) \<Rightarrow> 'v mem_db \<Rightarrow> 'v mem_db" where
  "update_where P f db = db\<lparr>md_rows := map (\<lambda>r. if P r then f r else r) (md_rows db)\<rparr>"

text \<open>
  The foreign key of \<open>superseded_by\<close> has no action: a row that does not exist cannot supersede, and a
  row that supersedes another that stays cannot be deleted; the whole statement fails.
\<close>

definition supersede_where :: "bool \<Rightarrow> int \<Rightarrow> ('v memory_row \<Rightarrow> bool) \<Rightarrow> 'v mem_db \<Rightarrow> 'v mem_db option" where
  "supersede_where ok new P db =
     (if ok \<and> (list_ex P (md_rows db) \<longrightarrow> new \<in> row_ids db)
      then Some (update_where P (\<lambda>r. r\<lparr>mm_superseded := Some new\<rparr>) db) else None)"

definition delete_where :: "bool \<Rightarrow> ('v memory_row \<Rightarrow> bool) \<Rightarrow> 'v mem_db \<Rightarrow> 'v mem_db option" where
  "delete_where ok P db =
     (let kept = filter (\<lambda>r. \<not> P r) (md_rows db) in
      if ok \<and> list_all (\<lambda>r. case mm_superseded r of None \<Rightarrow> True | Some j \<Rightarrow> j \<in> mm_id ` set kept) kept
      then Some (db\<lparr>md_rows := kept\<rparr>) else None)"

text \<open>A statement whose failure is only logged.\<close>

definition or_same :: "'v mem_db \<Rightarrow> 'v mem_db option \<Rightarrow> 'v mem_db" where
  "or_same db x = (case x of None \<Rightarrow> db | Some db' \<Rightarrow> db')"

definition is_active :: "'v memory_row \<Rightarrow> bool" where
  "is_active r \<longleftrightarrow> mm_superseded r = None"

section \<open>Writing a memory\<close>

record write_request =
  wr_summary :: string
  wr_tags :: "string list"
  wr_salience :: rat
  wr_type :: string
  wr_source :: string
  wr_source_date :: "gotime option"
  wr_pipeline :: int

definition type_of_request :: "write_request \<Rightarrow> string" where
  "type_of_request req = (if wr_type req = [] then ''general'' else wr_type req)"

text \<open>A row with the defaults of the table.\<close>

definition new_row :: "gotime \<Rightarrow> string \<Rightarrow> 'v \<Rightarrow> 'v memory_row" where
  "new_row now summary vec =
     \<lparr>mm_id = 0, mm_summary = summary, mm_vec = vec, mm_salience = 5, mm_tags = [], mm_type = ''general'',
      mm_entities = [], mm_confidence = 1, mm_source = [], mm_source_date = None, mm_pipeline = None,
      mm_superseded = None, mm_related = [], mm_created = now, mm_accessed = now, mm_retrieved = 0,
      mm_last_retrieved = None, mm_useful = 1 / 2\<rparr>"

definition request_row :: "gotime \<Rightarrow> write_request \<Rightarrow> string list \<Rightarrow> string \<times> 'v \<Rightarrow> 'v memory_row" where
  "request_row now req entities = (\<lambda>(text, vec). (new_row now text vec)
     \<lparr>mm_salience := wr_salience req, mm_tags := wr_tags req, mm_type := type_of_request req,
      mm_entities := entities, mm_source := wr_source req, mm_source_date := wr_source_date req\<rparr>)"

text \<open>The insertion of \<open>ScoreAndWrite\<close> has the column \<open>pipeline_id\<close>.\<close>

definition scored_row :: "gotime \<Rightarrow> write_request \<Rightarrow> string \<times> 'v \<Rightarrow> 'v memory_row" where
  "scored_row now req p =
     (request_row now req [] p)\<lparr>mm_pipeline := (if wr_pipeline req \<noteq> 0 then Some (wr_pipeline req) else None)\<rparr>"

text \<open>Requests that were put off until a model is free, and the enrichment.\<close>

datatype mem_work =
    LaterCheck int "(int \<times> string) list" string
  | LaterEntities "int list" string
  | Enrich "int list" string rat "string list"

text \<open>The prompt with which each is submitted to the work queue.\<close>

fun work_prompt :: "mem_work \<Rightarrow> string" where
  "work_prompt (LaterCheck new cs summary) = contradiction_prompt summary (map snd cs)"
| "work_prompt (LaterEntities ids summary) = summary"
| "work_prompt (Enrich ids summary base existing) = build_enrichment_prompt summary existing"

subsection \<open>Without a check\<close>

text \<open>
  \<open>ScoreAndWrite\<close> inserts chunk by chunk, without a transaction: what is left are the chunks to embed,
  the parts to insert, and the identifiers so far. \<open>None\<close>: an error ends it, and what was inserted
  stays.
\<close>

record 'v scoring =
  sc_req :: write_request
  sc_chunks :: "string list"
  sc_parts :: "(string \<times> 'v) list"
  sc_ids :: "int list"

definition score_begin :: "write_request \<Rightarrow> 'v scoring" where
  "score_begin req = \<lparr>sc_req = req, sc_chunks = chunk_text (wr_summary req) max_chunk_bytes, sc_parts = [], sc_ids = []\<rparr>"

definition score_embed :: "(string \<Rightarrow> 's \<Rightarrow> (string + 'v) \<times> 's) \<Rightarrow> 's \<Rightarrow> 'v scoring \<Rightarrow> 'v scoring option \<times> 's" where
  "score_embed emb s st =
     (case sc_chunks st of
        [] \<Rightarrow> (Some st, s)
      | c # cs \<Rightarrow>
          (case embed_with_fallback emb c s of
             (Inl e, s1) \<Rightarrow> (None, s1)
           | (Inr parts, s1) \<Rightarrow> (Some (st\<lparr>sc_chunks := cs, sc_parts := parts\<rparr>), s1)))"

definition score_insert :: "gotime \<Rightarrow> bool \<Rightarrow> 'v scoring \<Rightarrow> 'v mem_db \<Rightarrow> ('v scoring \<times> 'v mem_db) option" where
  "score_insert now ok st db =
     (case sc_parts st of
        [] \<Rightarrow> Some (st, db)
      | p # ps \<Rightarrow>
          map_option (\<lambda>(i, db1). (st\<lparr>sc_parts := ps, sc_ids := sc_ids st @ [i]\<rparr>, db1))
            (insert_row ok (scored_row now (sc_req st) p) db))"

definition score_queue :: "'v scoring \<Rightarrow> mem_work list" where
  "score_queue st =
     (if sc_ids st = [] then [] else [Enrich (sc_ids st) (wr_summary (sc_req st)) (wr_salience (sc_req st)) []])"

subsection \<open>With a check\<close>

text \<open>
  \<open>CheckAndWriteWithContradiction\<close>, cut where it calls a model. Its callers pass a function for the
  checks and a work queue.
\<close>

definition recent_duplicate :: "('v \<Rightarrow> 'v \<Rightarrow> rat) \<Rightarrow> gotime \<Rightarrow> 'v \<Rightarrow> 'v mem_db \<Rightarrow> int option" where
  "recent_duplicate dst now v db =
     map_option mm_id (find (\<lambda>r. is_active r \<and> mm_type r \<noteq> ''identity'' \<and> dst (mm_vec r) v < 5 / 100
       \<and> now - hour < mm_created r) (md_rows db))"

definition similar_memories :: "('v \<Rightarrow> 'v \<Rightarrow> rat) \<Rightarrow> 'v \<Rightarrow> 'v mem_db \<Rightarrow> (int \<times> string) list" where
  "similar_memories dst v db =
     map (\<lambda>r. (mm_id r, mm_summary r)) (take 3 (sort_key (\<lambda>r. dst (mm_vec r) v)
       (filter (\<lambda>r. is_active r \<and> mm_type r \<noteq> ''identity'' \<and> dst (mm_vec r) v < 4 / 10) (md_rows db))))"

definition entity_memories :: "string list \<Rightarrow> int list \<Rightarrow> 'v mem_db \<Rightarrow> (int \<times> string) list" where
  "entity_memories entities known db =
     map (\<lambda>r. (mm_id r, mm_summary r)) (take 3 (sort_key (\<lambda>r. - mm_created r)
       (filter (\<lambda>r. is_active r \<and> mm_type r \<noteq> ''identity'' \<and> set (mm_entities r) \<inter> set entities \<noteq> {}
          \<and> mm_id r \<notin> set known) (md_rows db))))"

record check_state =
  ck_req :: write_request
  ck_candidates :: "(int \<times> string) list"
  ck_entities :: "string list"
  ck_superseded :: "int list"
  ck_later_check :: bool
  ck_later_entities :: bool

text \<open>The two queries (\<open>dup_ok\<close>, \<open>similar_ok\<close>): a duplicate, or the similar memories (\<open>None\<close>: an error).\<close>

definition check_look ::
  "('v \<Rightarrow> 'v \<Rightarrow> rat) \<Rightarrow> gotime \<Rightarrow> bool \<Rightarrow> bool \<Rightarrow> 'v \<Rightarrow> 'v mem_db \<Rightarrow> int + (int \<times> string) list option" where
  "check_look dst now dup_ok similar_ok v db =
     (case (if dup_ok then recent_duplicate dst now v db else None) of
        Some i \<Rightarrow> Inl i
      | None \<Rightarrow> Inr (if similar_ok then Some (similar_memories dst v db) else None))"

text \<open>The answers of the first two calls (\<open>None\<close>: busy, or unreadable).\<close>

definition check_first :: "write_request \<Rightarrow> (int \<times> string) list option \<Rightarrow> string option \<Rightarrow> string list option \<Rightarrow> check_state" where
  "check_first req similar verdict entities =
     (case similar of
        None \<Rightarrow> \<lparr>ck_req = req, ck_candidates = [], ck_entities = (case entities of None \<Rightarrow> [] | Some es \<Rightarrow> es),
                 ck_superseded = [], ck_later_check = False, ck_later_entities = False\<rparr>
      | Some cs \<Rightarrow>
          \<lparr>ck_req = req, ck_candidates = cs, ck_entities = (case entities of None \<Rightarrow> [] | Some es \<Rightarrow> es),
           ck_superseded = (case verdict of None \<Rightarrow> [] | Some raw \<Rightarrow> contradicted_ids raw cs),
           ck_later_check = (cs \<noteq> [] \<and> verdict = None), ck_later_entities = (entities = None)\<rparr>)"

text \<open>The memories that share an entity (\<open>ok\<close>: the query), and the answer of the third call.\<close>

definition check_shared :: "bool \<Rightarrow> check_state \<Rightarrow> 'v mem_db \<Rightarrow> (int \<times> string) list" where
  "check_shared ok st db =
     (if ok \<and> ck_entities st \<noteq> [] then entity_memories (ck_entities st) (map fst (ck_candidates st)) db else [])"

definition check_second :: "(int \<times> string) list \<Rightarrow> string option \<Rightarrow> check_state \<Rightarrow> check_state" where
  "check_second shared verdict st =
     st\<lparr>ck_candidates := ck_candidates st @ shared,
        ck_superseded := ck_superseded st @ (case verdict of None \<Rightarrow> [] | Some raw \<Rightarrow> contradicted_ids raw shared)\<rparr>"

definition first_id :: "int list \<Rightarrow> int" where
  "first_id is = (case is of [] \<Rightarrow> 0 | i # _ \<Rightarrow> i)"

text \<open>The transaction.\<close>

definition check_write :: "gotime \<Rightarrow> bool \<Rightarrow> (string \<times> 'v) list \<Rightarrow> check_state \<Rightarrow> 'v mem_db \<Rightarrow> (int list \<times> 'v mem_db) option" where
  "check_write now ok parts st db =
     (case insert_rows ok (map (request_row now (ck_req st) (ck_entities st)) parts) db of
        None \<Rightarrow> None
      | Some (is, db1) \<Rightarrow>
          map_option (\<lambda>db2. (is, db2)) (supersede_where ok (first_id is) (\<lambda>r. mm_id r \<in> set (ck_superseded st)) db1))"

definition check_queue :: "int list \<Rightarrow> check_state \<Rightarrow> mem_work list" where
  "check_queue is st =
     (let summary = wr_summary (ck_req st) in
      (if ck_later_check st \<and> ck_candidates st \<noteq> [] then [LaterCheck (first_id is) (ck_candidates st) summary] else [])
      @ (if ck_later_entities st \<and> is \<noteq> [] then [LaterEntities is summary] else [])
      @ (if is \<noteq> [] then [Enrich is summary (wr_salience (ck_req st)) (map snd (ck_candidates st))] else []))"

subsection \<open>Work that was put off\<close>

definition merge_entities :: "string list \<Rightarrow> 'v memory_row \<Rightarrow> 'v memory_row" where
  "merge_entities es r = r\<lparr>mm_entities := remdups (mm_entities r @ es)\<rparr>"

definition enriched_salience :: "rat \<Rightarrow> quality \<Rightarrow> rat" where
  "enriched_salience base q =
     min 10 (base + (q_specificity q + q_uniqueness q) / 2 * (1 - base / 10))"

definition too_vague :: "quality \<Rightarrow> bool" where
  "too_vague q \<longleftrightarrow> q_specificity q < 2 / 10 \<or> (q_specificity q < 3 / 10 \<and> q_confidence q < 4 / 10)"

definition apply_enrichment :: "bool \<Rightarrow> int list \<Rightarrow> string \<Rightarrow> rat \<Rightarrow> 'v mem_db \<Rightarrow> 'v mem_db" where
  "apply_enrichment ok is raw base db =
     (case parse_quality raw of
        None \<Rightarrow> db
      | Some q \<Rightarrow>
          if too_vague q then or_same db (delete_where ok (\<lambda>r. mm_id r \<in> set is) db)
          else if ok \<and> list_all pg_text (q_entities q)
          then update_where (\<lambda>r. mm_id r \<in> set is)
            (\<lambda>r. (merge_entities (q_entities q) r)\<lparr>mm_confidence := q_confidence q, mm_salience := enriched_salience base q\<rparr>) db
          else db)"

fun work_done :: "bool \<Rightarrow> string option \<Rightarrow> mem_work \<Rightarrow> 'v mem_db \<Rightarrow> 'v mem_db" where
  "work_done ok None w db = db"
| "work_done ok (Some raw) (LaterCheck new cs summary) db =
     fold (\<lambda>c db. or_same db (supersede_where ok new (\<lambda>r. mm_id r = c \<and> is_active r) db)) (contradicted_ids raw cs) db"
| "work_done ok (Some raw) (LaterEntities is summary) db =
     (case parse_entities raw of
        Some es \<Rightarrow> if es \<noteq> [] \<and> ok \<and> list_all pg_text es then update_where (\<lambda>r. mm_id r \<in> set is) (merge_entities es) db else db
      | None \<Rightarrow> db)"
| "work_done ok (Some raw) (Enrich is summary base existing) db = apply_enrichment ok is raw base db"

end
