(* ===== verification/MemUse.thy ===== *)
theory MemUse
  imports MemStore
begin

text \<open>
  What reads and ages the memories (\<open>memory/ranking.go\<close>, \<open>queries.go\<close>, \<open>prefetch.go\<close>, \<open>decay.go\<close>,
  \<open>reflection.go\<close>, \<open>save.go\<close>), the profile, and the tools that merge and forget
  (\<open>pipelines/consolidate_memory.go\<close>, \<open>tools/forget_topic.go\<close>, \<open>tools/memory.go\<close>).
\<close>

section \<open>Ranking\<close>

definition exclude_synthetic :: "string list" where "exclude_synthetic = [''identity'', ''reflection'', ''episode'']"
definition exclude_internal :: "string list" where "exclude_internal = [''identity'', ''reflection'']"
definition exclude_episodic :: "string list" where "exclude_episodic = [''episode'', ''reflection'']"

text \<open>
  The services of PostgreSQL: the distance, the rank of a full-text match, the logarithm, the power.
\<close>

record 'v pg_env =
  pg_dist :: "'v \<Rightarrow> 'v \<Rightarrow> rat"
  pg_ts_rank :: "string \<Rightarrow> string \<Rightarrow> rat"
  pg_ln :: "rat \<Rightarrow> rat"
  pg_pow :: "rat \<Rightarrow> rat \<Rightarrow> rat"

definition rat_of_ns :: "duration \<Rightarrow> rat" where
  "rat_of_ns d = of_int d / of_int second"

text \<open>The expression of \<open>RankingOrderBy\<close>; the lowest value comes first.\<close>

definition ranking :: "'v pg_env \<Rightarrow> gotime \<Rightarrow> 'v \<Rightarrow> string \<Rightarrow> 'v memory_row \<Rightarrow> rat" where
  "ranking pg now v t r =
     pg_dist pg (mm_vec r) v / max (1 + pg_ts_rank pg (mm_summary r) t * 10) 1
     - mm_salience r * (1 / 10)
     - mm_useful r * (15 / 100)
     - 3 / 100 * rat_of_ns (now - mm_created r) / 86400 / 30
     - mm_confidence r * (3 / 100)
     - pg_ln pg (of_int (mm_retrieved r + 1)) * (2 / 100)
     - (if t \<in> set (mm_entities r) then 2 / 10 else 0)"

definition prefetchable :: "int \<Rightarrow> 'v memory_row \<Rightarrow> bool" where
  "prefetchable excluded r \<longleftrightarrow> is_active r \<and> mm_type r \<notin> set exclude_internal
     \<and> (excluded = 0 \<or> mm_pipeline r = None \<or> mm_pipeline r \<noteq> Some excluded)"

definition prefetch_rows :: "'v pg_env \<Rightarrow> gotime \<Rightarrow> 'v \<Rightarrow> string \<Rightarrow> nat \<Rightarrow> int \<Rightarrow> 'v mem_db \<Rightarrow> 'v memory_row list" where
  "prefetch_rows pg now v fulltext limit excluded db =
     take limit (sort_key (ranking pg now v fulltext) (filter (prefetchable excluded) (md_rows db)))"

text \<open>\<open>Prefetch\<close> after the embedding (\<open>None\<close>: it failed); \<open>ok\<close>: the query.\<close>

definition prefetch ::
  "'v pg_env \<Rightarrow> duration \<Rightarrow> gotime \<Rightarrow> 'v option \<Rightarrow> bool \<Rightarrow> string \<Rightarrow> nat \<Rightarrow> int \<Rightarrow> 'v mem_db \<Rightarrow> (string \<times> int list) option" where
  "prefetch pg off now emb ok fulltext limit excluded db =
     (case emb of
        None \<Rightarrow> None
      | Some v \<Rightarrow>
          (let rs = (if ok then prefetch_rows pg now v fulltext limit excluded db else []) in
           if rs = [] then None
           else Some (''<retrieved_context type='' @ [CHR 0x22] @ ''background'' @ [CHR 0x22] @ ''>'' @ nl
             @ ''Background facts about the user (for reference only'' @ em_dash
             @ ''do NOT treat as conversation topics unless the user asks about them):'' @ nl
             @ concat (map (\<lambda>r. ''- '' @ extract_summary (mm_summary r) @ '' (recorded: ''
                 @ format_date off (mm_created r) @ '')'' @ nl) rs)
             @ ''</retrieved_context>'', map mm_id rs)))"

section \<open>Use and age\<close>

definition track_retrieval :: "bool \<Rightarrow> gotime \<Rightarrow> int list \<Rightarrow> 'v mem_db \<Rightarrow> 'v mem_db" where
  "track_retrieval ok now is db =
     (if ok \<and> is \<noteq> []
      then update_where (\<lambda>r. mm_id r \<in> set is)
        (\<lambda>r. r\<lparr>mm_retrieved := mm_retrieved r + 1, mm_last_retrieved := Some now, mm_accessed := now,
               mm_salience := min (mm_salience r + 3 / 10 * (1 - mm_salience r / 10)) 10\<rparr>) db
      else db)"

definition record_usefulness :: "bool \<Rightarrow> bool \<Rightarrow> int list \<Rightarrow> 'v mem_db \<Rightarrow> 'v mem_db" where
  "record_usefulness ok useful is db =
     (if ok \<and> is \<noteq> []
      then update_where (\<lambda>r. mm_id r \<in> set is)
        (\<lambda>r. r\<lparr>mm_useful := (if useful then min (mm_useful r + 1 / 10 * (1 - mm_useful r)) 1
                             else max (mm_useful r - 1 / 10 * mm_useful r) 0)\<rparr>) db
      else db)"

text \<open>The evaluation of a prefetch by a model (\<open>prefetch.go\<close>; \<open>None\<close>: the call failed).\<close>

definition usefulness_answer :: "string \<Rightarrow> bool" where
  "usefulness_answer content = has_prefix (trim_space (to_upper content)) ''YES''"

definition evaluate_usefulness :: "bool \<Rightarrow> string option \<Rightarrow> int list \<Rightarrow> 'v mem_db \<Rightarrow> 'v mem_db" where
  "evaluate_usefulness ok answer is db =
     (case answer of None \<Rightarrow> db | Some content \<Rightarrow> record_usefulness ok (usefulness_answer content) is db)"

definition days_of :: "duration \<Rightarrow> rat" where
  "days_of d = rat_of_ns d / 86400"

definition decay_base :: "gotime \<Rightarrow> 'v memory_row \<Rightarrow> rat" where
  "decay_base now r = (if mm_retrieved r = 0 \<and> days_of (now - mm_created r) > 14 then 954 / 1000 else 977 / 1000)"

definition decayed :: "'v pg_env \<Rightarrow> gotime \<Rightarrow> 'v memory_row \<Rightarrow> 'v memory_row" where
  "decayed pg now r =
     r\<lparr>mm_salience := max (mm_salience r * pg_pow pg (decay_base now r) (days_of (now - mm_accessed r))) 0, mm_accessed := now\<rparr>"

definition usefulness_decays :: "gotime \<Rightarrow> 'v memory_row \<Rightarrow> bool" where
  "usefulness_decays now r \<longleftrightarrow>
     (case mm_last_retrieved r of None \<Rightarrow> mm_created r | Some t \<Rightarrow> t) < now - 30 * day \<and> \<bar>mm_useful r - 1 / 2\<bar> > 1 / 100"

definition materialize_decay :: "'v pg_env \<Rightarrow> gotime \<Rightarrow> bool \<Rightarrow> bool \<Rightarrow> 'v mem_db \<Rightarrow> 'v mem_db" where
  "materialize_decay pg now ok1 ok2 db =
     (if \<not> ok1 then db
      else (let db1 = update_where (\<lambda>r. mm_accessed r < now - day \<and> mm_salience r > 0) (decayed pg now) db in
            if ok2 then update_where (usefulness_decays now)
                (\<lambda>r. r\<lparr>mm_useful := mm_useful r + (1 / 2 - mm_useful r) * (5 / 100)\<rparr>) db1
            else db1))"

definition stale_memory :: "gotime \<Rightarrow> int \<Rightarrow> 'v memory_row \<Rightarrow> bool" where
  "stale_memory now days r \<longleftrightarrow> mm_salience r \<le> 1 \<and> mm_accessed r < now - days * day
     \<and> (\<not> is_active r \<or> mm_retrieved r = 0)"

definition prune_stale_memories :: "bool \<Rightarrow> gotime \<Rightarrow> int \<Rightarrow> 'v mem_db \<Rightarrow> 'v mem_db option" where
  "prune_stale_memories ok now days db = delete_where ok (stale_memory now days) db"

text \<open>
  The maintenance of the heartbeat: the decay, then, at the time \<open>now2\<close>, the pruning when a number of
  days is set.
\<close>

definition memory_maintenance :: "'v pg_env \<Rightarrow> gotime \<Rightarrow> gotime \<Rightarrow> bool \<Rightarrow> bool \<Rightarrow> bool \<Rightarrow> int \<Rightarrow> 'v mem_db \<Rightarrow> 'v mem_db" where
  "memory_maintenance pg now now2 ok1 ok2 ok3 days db =
     (let db1 = materialize_decay pg now ok1 ok2 db in
      if days > 0 then or_same db1 (prune_stale_memories ok3 now2 days db1) else db1)"

section \<open>Queries\<close>

definition unix_epoch :: gotime where "unix_epoch = 719162 * day"

definition latest_first :: "'v memory_row list \<Rightarrow> 'v memory_row list" where
  "latest_first rs = sort_key (\<lambda>r. - mm_created r) rs"

definition best_first :: "'v memory_row list \<Rightarrow> 'v memory_row list" where
  "best_first rs = sort_key (\<lambda>r. - mm_salience r) (latest_first rs)"

definition recent_row :: "gotime \<Rightarrow> int \<Rightarrow> rat \<Rightarrow> 'v memory_row \<Rightarrow> bool" where
  "recent_row now hrs least r \<longleftrightarrow> now - hrs * hour \<le> mm_created r \<and> least \<le> mm_salience r
     \<and> mm_type r \<notin> set exclude_synthetic \<and> mm_source r \<noteq> ''backfill''"

definition count_recent_memories :: "gotime \<Rightarrow> int \<Rightarrow> rat \<Rightarrow> 'v mem_db \<Rightarrow> nat" where
  "count_recent_memories now hrs least db = length (filter (recent_row now hrs least) (md_rows db))"

definition query_recent_memories :: "gotime \<Rightarrow> int \<Rightarrow> rat \<Rightarrow> nat \<Rightarrow> 'v mem_db \<Rightarrow> (string \<times> rat) list" where
  "query_recent_memories now hrs least limit db =
     map (\<lambda>r. (mm_summary r, mm_salience r))
       (take limit (best_first (filter (\<lambda>r. recent_row now hrs least r \<and> is_active r) (md_rows db))))"

definition query_recent_summaries :: "gotime \<Rightarrow> int \<Rightarrow> rat \<Rightarrow> nat \<Rightarrow> 'v mem_db \<Rightarrow> string list" where
  "query_recent_summaries now hrs least limit db =
     map mm_summary (take limit (latest_first (filter (recent_row now hrs least) (md_rows db))))"

definition query_high_salience :: "gotime \<Rightarrow> int \<Rightarrow> nat \<Rightarrow> 'v mem_db \<Rightarrow> (int \<times> string) list" where
  "query_high_salience now threshold limit db =
     map (\<lambda>r. (mm_id r, mm_summary r)) (take limit (best_first
       (filter (\<lambda>r. of_int threshold \<le> mm_salience r \<and> is_active r \<and> mm_type r \<noteq> ''identity'' \<and> now - 24 * hour \<le> mm_created r)
         (md_rows db))))"

definition last_consolidation :: "'v mem_db \<Rightarrow> gotime" where
  "last_consolidation db =
     fold max (map mm_created (filter (\<lambda>r. mm_source r = ''consolidation'' \<and> is_active r) (md_rows db))) unix_epoch"

definition has_new_memories :: "int \<Rightarrow> 'v mem_db \<Rightarrow> bool" where
  "has_new_memories threshold db =
     list_ex (\<lambda>r. of_int threshold \<le> mm_salience r \<and> is_active r \<and> mm_source r \<noteq> ''consolidation''
       \<and> mm_type r \<noteq> ''identity'' \<and> last_consolidation db < mm_created r) (md_rows db)"

definition count_memories_since :: "gotime \<Rightarrow> 'v mem_db \<Rightarrow> nat" where
  "count_memories_since since db =
     (let cutoff = (if is_zero since then unix_epoch else since) in
      length (filter (\<lambda>r. is_active r \<and> mm_type r \<notin> set exclude_synthetic \<and> cutoff < mm_created r) (md_rows db)))"

section \<open>The profile\<close>

text \<open>\<open>None\<close>: an error of the query.\<close>

definition get_identity_profile :: "bool \<Rightarrow> 'v mem_db \<Rightarrow> string option" where
  "get_identity_profile ok db =
     (if \<not> ok then None
      else (case latest_first (filter (\<lambda>r. mm_type r = ''identity'' \<and> is_active r) (md_rows db)) of
              [] \<Rightarrow> Some ''{}'' | r # _ \<Rightarrow> Some (mm_summary r)))"

definition identity_row :: "gotime \<Rightarrow> string \<Rightarrow> 'v \<Rightarrow> 'v memory_row" where
  "identity_row now profile v =
     (new_row now profile v)\<lparr>mm_salience := 10, mm_tags := [''identity'', ''profile''], mm_type := ''identity'',
        mm_source := ''consolidation''\<rparr>"

text \<open>\<open>WriteIdentityProfile\<close> after the embedding: its transaction. Only the first part is embedded with it.\<close>

definition write_identity :: "gotime \<Rightarrow> bool \<Rightarrow> string \<Rightarrow> 'v \<Rightarrow> 'v mem_db \<Rightarrow> 'v mem_db option" where
  "write_identity now ok profile v db =
     (case insert_row ok (identity_row now profile v) db of
        None \<Rightarrow> None
      | Some (i, db1) \<Rightarrow>
          supersede_where ok i (\<lambda>r. mm_type r = ''identity'' \<and> is_active r \<and> mm_id r \<noteq> i) db1)"

definition write_identity_profile ::
  "(string \<Rightarrow> 's \<Rightarrow> (string + 'v) \<times> 's) \<Rightarrow> 's \<Rightarrow> gotime \<Rightarrow> bool \<Rightarrow> string \<Rightarrow> 'v mem_db \<Rightarrow> 'v mem_db option" where
  "write_identity_profile emb s now ok profile db =
     (case fst (embed_with_fallback emb (''identity profile: '' @ profile) s) of
        Inr (p # ps) \<Rightarrow> write_identity now ok profile (snd p) db
      | _ \<Rightarrow> None)"

definition purge_profiles :: "bool \<Rightarrow> nat \<Rightarrow> 'v mem_db \<Rightarrow> 'v mem_db option" where
  "purge_profiles ok keep db =
     (let kept = map mm_id (take keep (latest_first (filter (\<lambda>r. mm_type r = ''identity'') (md_rows db))))
      in delete_where ok (\<lambda>r. mm_type r = ''identity'' \<and> mm_id r \<notin> set kept) db)"

section \<open>Merging and forgetting\<close>

text \<open>One merge of the consolidation (\<open>batch\<close>: the identifiers that were shown to the model; \<open>None\<close>: skipped or failed).\<close>

definition merge_valid :: "int list \<Rightarrow> int list \<times> string \<Rightarrow> bool" where
  "merge_valid batch m \<longleftrightarrow> 2 \<le> length (fst m) \<and> trim_space (snd m) \<noteq> [] \<and> set (fst m) \<subseteq> set batch"

definition max_salience :: "int list \<Rightarrow> 'v mem_db \<Rightarrow> rat" where
  "max_salience is db =
     (case map mm_salience (filter (\<lambda>r. mm_id r \<in> set is) (md_rows db)) of [] \<Rightarrow> 5 | x # xs \<Rightarrow> fold max xs x)"

definition merge_row :: "gotime \<Rightarrow> string \<Rightarrow> 'v \<Rightarrow> rat \<Rightarrow> 'v memory_row" where
  "merge_row now summary v salience = (new_row now summary v)\<lparr>mm_salience := salience, mm_source := ''consolidation''\<rparr>"

definition merge_memories :: "gotime \<Rightarrow> bool \<Rightarrow> int list \<Rightarrow> int list \<times> string \<Rightarrow> 'v \<Rightarrow> 'v mem_db \<Rightarrow> (int \<times> 'v mem_db) option" where
  "merge_memories now ok batch m v db =
     (if \<not> merge_valid batch m then None
      else (case insert_row ok (merge_row now (snd m) v (max_salience (fst m) db)) db of
              None \<Rightarrow> None
            | Some (i, db1) \<Rightarrow>
                map_option (\<lambda>db2. (i, db2))
                  (supersede_where ok i (\<lambda>r. mm_id r \<in> set (fst m) \<and> is_active r) db1)))"

definition topic_matches :: "('v \<Rightarrow> 'v \<Rightarrow> rat) \<Rightarrow> 'v \<Rightarrow> 'v mem_db \<Rightarrow> (int \<times> string) list" where
  "topic_matches dst v db =
     map (\<lambda>r. (mm_id r, mm_summary r)) (take 50 (sort_key (\<lambda>r. dst (mm_vec r) v)
       (filter (\<lambda>r. is_active r \<and> dst (mm_vec r) v < 35 / 100) (md_rows db))))"

definition topic_preview :: "string \<Rightarrow> (int \<times> string) list \<Rightarrow> string" where
  "topic_preview topic ms =
     ''Found '' @ itoa (int (length ms)) @ '' memories matching '' @ go_quote topic @ '':'' @ nl
     @ concat (map (\<lambda>m. ''- '' @ truncate_str (snd m) 100 @ nl) (take 5 ms))
     @ (if length ms > 5 then ''... and '' @ itoa (int (length ms) - 5) @ '' more.'' @ nl else [])
     @ nl @ ''Call again with confirm=true to archive these memories.''"

definition archive_summary :: "string \<Rightarrow> nat \<Rightarrow> string" where
  "archive_summary topic n = ''Topic archived: '' @ topic @ ''. '' @ itoa (int n) @ '' memories superseded.''"

definition archive_row :: "gotime \<Rightarrow> string \<Rightarrow> 'v \<Rightarrow> 'v memory_row" where
  "archive_row now summary v =
     (new_row now summary v)\<lparr>mm_salience := 3, mm_tags := [''archive'', ''forgotten''], mm_type := ''archive'', mm_source := ''forget_topic''\<rparr>"

definition archive_topic :: "gotime \<Rightarrow> bool \<Rightarrow> string \<Rightarrow> int list \<Rightarrow> 'v \<Rightarrow> 'v mem_db \<Rightarrow> (int \<times> 'v mem_db) option" where
  "archive_topic now ok topic is v db =
     (case insert_row ok (archive_row now (archive_summary topic (length is)) v) db of
        None \<Rightarrow> None
      | Some (i, db1) \<Rightarrow> map_option (\<lambda>db2. (i, db2)) (supersede_where ok i (\<lambda>r. mm_id r \<in> set is) db1))"

text \<open>
  \<open>NewForgetTopic\<close>: the answer (\<open>None\<close>: an error), with the embedding as a function and the flags of
  the query and the transaction.
\<close>

definition forget_topic ::
  "('v \<Rightarrow> 'v \<Rightarrow> rat) \<Rightarrow> (string \<Rightarrow> 'v option) \<Rightarrow> gotime \<Rightarrow> bool \<Rightarrow> bool \<Rightarrow> string option \<Rightarrow> 'v mem_db \<Rightarrow> string option \<times> 'v mem_db" where
  "forget_topic dst emb now ok1 ok2 args db =
     (case struct_members args of
        None \<Rightarrow> (Some ''invalid arguments'', db)
      | Some ms \<Rightarrow>
          (let names = [''topic'', ''confirm''];
               (t, e1) = arg_string names ''topic'' ms; (confirm, e2) = arg_bool names ''confirm'' ms;
               topic = trim_space t
           in if e1 \<or> e2 then (Some ''invalid arguments'', db)
              else if topic = [] then (Some ''error: topic must not be empty'', db)
              else (case (if ok1 then map_option (\<lambda>v. topic_matches dst v db) (emb topic) else None) of
                      None \<Rightarrow> (None, db)
                    | Some found \<Rightarrow>
                        if found = [] then (Some (''No memories found matching topic '' @ go_quote topic @ ''.''), db)
                        else if \<not> confirm then (Some (topic_preview topic found), db)
                        else (case Option.bind (emb (archive_summary topic (length found)))
                                (\<lambda>v. archive_topic now ok2 topic (map fst found) v db) of
                                None \<Rightarrow> (None, db)
                              | Some (i, db2) \<Rightarrow>
                                  (Some (''Archived '' @ itoa (int (length found)) @ '' memories related to '' @ go_quote topic
                                     @ ''. Archive memory created (id='' @ itoa i @ '').''), db2)))))"

end
