(* ===== verification/MemSynth.thy ===== *)
theory MemSynth
  imports MemUse
begin

text \<open>
  Episodes and reflections (\<open>memory/episodes.go\<close>, \<open>memory/reflection.go\<close>): recent memories are grouped
  and a model condenses them. The cosine of two vectors, the embedding and the model are parameters.
\<close>

section \<open>Clusters\<close>

text \<open>\<open>lower\<close> is \<open>strings.ToLower\<close>, with the letters outside ASCII.\<close>

definition jaccard_similarity :: "(string \<Rightarrow> string) \<Rightarrow> string list \<Rightarrow> string list \<Rightarrow> rat" where
  "jaccard_similarity lower a b =
     (let A = remdups (map lower a); B = remdups (map lower b);
          common = length (filter (\<lambda>k. k \<in> set B) A); union = length A + length B - common
      in if union = 0 then 0 else of_nat common / of_nat union)"

definition composite_distance :: "(string \<Rightarrow> string) \<Rightarrow> ('v \<Rightarrow> 'v \<Rightarrow> rat) \<Rightarrow> 'v memory_row \<Rightarrow> 'v memory_row \<Rightarrow> rat" where
  "composite_distance lower cosine a b =
     (1 - cosine (mm_vec a) (mm_vec b)) * (7 / 10) - jaccard_similarity lower (mm_entities a) (mm_entities b) * (3 / 10)"

definition cluster_spans_days :: "'v memory_row list \<Rightarrow> bool" where
  "cluster_spans_days c = (case c of [] \<Rightarrow> False | m # ms \<Rightarrow> list_ex (\<lambda>x. mm_created x div day \<noteq> mm_created m div day) ms)"

text \<open>The inner loop: the cluster takes what is near to one of its members, the others are left.\<close>

fun grow_cluster :: "('a \<Rightarrow> 'a \<Rightarrow> bool) \<Rightarrow> 'a list \<Rightarrow> 'a list \<Rightarrow> 'a list \<times> 'a list" where
  "grow_cluster near c [] = (c, [])"
| "grow_cluster near c (m # ms) =
     (if list_ex (\<lambda>x. near x m) c then grow_cluster near (c @ [m]) ms
      else (let (c', rest) = grow_cluster near c ms in (c', m # rest)))"

lemma grow_cluster_rest: "length (snd (grow_cluster near c ms)) \<le> length ms"
  by (induction near c ms rule: grow_cluster.induct) (auto simp: Let_def split: prod.splits)

function clusters_of :: "('a \<Rightarrow> 'a \<Rightarrow> bool) \<Rightarrow> 'a list \<Rightarrow> 'a list list" where
  "clusters_of near [] = []"
| "clusters_of near (m # ms) =
     (let (c, rest) = grow_cluster near [m] ms in c # clusters_of near rest)"
  by pat_completeness auto
termination
  by (relation "measure (\<lambda>(near, ms). length ms)")
    (auto simp: less_Suc_eq_le, metis grow_cluster_rest snd_conv)

definition cluster_by_similarity :: "(string \<Rightarrow> string) \<Rightarrow> ('v \<Rightarrow> 'v \<Rightarrow> rat) \<Rightarrow> rat \<Rightarrow> 'v memory_row list \<Rightarrow> 'v memory_row list list" where
  "cluster_by_similarity lower cosine threshold ms = clusters_of (\<lambda>a b. composite_distance lower cosine a b < threshold) ms"

section \<open>Episodes\<close>

definition max_episode_clusters :: nat where "max_episode_clusters = 3"

definition episode_candidates :: "gotime \<Rightarrow> 'v mem_db \<Rightarrow> 'v memory_row list" where
  "episode_candidates now db =
     take 80 (latest_first (filter (\<lambda>r. is_active r \<and> mm_type r \<notin> set exclude_episodic \<and> now - 72 * hour \<le> mm_created r)
       (md_rows db)))"

definition cluster_ready :: "'v memory_row list \<Rightarrow> bool" where
  "cluster_ready c \<longleftrightarrow> (if cluster_spans_days c then 3 else 2) \<le> length c"

text \<open>The clusters that are long enough, in their order.\<close>

definition episode_clusters :: "(string \<Rightarrow> string) \<Rightarrow> ('v \<Rightarrow> 'v \<Rightarrow> rat) \<Rightarrow> gotime \<Rightarrow> 'v mem_db \<Rightarrow> 'v memory_row list list" where
  "episode_clusters lower cosine now db =
     (let ms = episode_candidates now db in
      if length ms < 2 then [] else filter cluster_ready (cluster_by_similarity lower cosine (3 / 10) ms))"

fun first_of_kind :: "string list \<Rightarrow> string list \<Rightarrow> string list" where
  "first_of_kind seen [] = []"
| "first_of_kind seen (s # ss) =
     (if trim_space s \<in> set seen then first_of_kind seen ss else s # first_of_kind (trim_space s # seen) ss)"

definition episode_prompt :: "'v memory_row list \<Rightarrow> string" where
  "episode_prompt c = numbered (\<lambda>i s. itoa (int i) @ ''. '' @ s @ nl) (first_of_kind [] (map mm_summary c))"

definition episode_text :: "string \<Rightarrow> string" where
  "episode_text raw =
     (let plain = strip_think_tags (trim_space raw) in
      case struct_members (Some (clean_llm_json raw)) of
        None \<Rightarrow> plain
      | Some ms \<Rightarrow> (let (s, e) = arg_string [''summary''] ''summary'' ms in if e \<or> trim_space s = [] then plain else trim_space s))"

definition episode_row :: "gotime \<Rightarrow> int list \<Rightarrow> string \<times> 'v \<Rightarrow> 'v memory_row" where
  "episode_row now is = (\<lambda>(t, v). (new_row now t v)
     \<lparr>mm_salience := 8, mm_tags := [''episode''], mm_type := ''episode'', mm_source := ''episode_synthesis'', mm_related := is\<rparr>)"

definition link_episode :: "int \<Rightarrow> int list \<Rightarrow> 'v mem_db \<Rightarrow> 'v mem_db" where
  "link_episode i is db = fold (\<lambda>c. update_where (\<lambda>r. mm_id r = c) (\<lambda>r. r\<lparr>mm_related := mm_related r @ [i]\<rparr>)) is db"

text \<open>The transaction, then the statement that lowers the members.\<close>

definition write_episode :: "gotime \<Rightarrow> bool \<Rightarrow> (string \<times> 'v) list \<Rightarrow> int list \<Rightarrow> 'v mem_db \<Rightarrow> (int \<times> 'v mem_db) option" where
  "write_episode now ok parts is db =
     (case insert_rows ok (map (episode_row now is) parts) db of
        Some (i # js, db1) \<Rightarrow> Some (i, link_episode i is db1)
      | _ \<Rightarrow> None)"

definition lower_members :: "bool \<Rightarrow> int list \<Rightarrow> 'v mem_db \<Rightarrow> 'v mem_db" where
  "lower_members ok is db =
     (if ok then update_where (\<lambda>r. mm_id r \<in> set is) (\<lambda>r. r\<lparr>mm_salience := mm_salience r * (6 / 10)\<rparr>) db else db)"

text \<open>
  What surrounds the synthesis: the model (\<open>None\<close>: an error), the embedding, and whether the
  transaction and the lowering of a cluster succeed.
\<close>

record ('v, 's) synth_env =
  sn_model :: "string \<Rightarrow> 's \<Rightarrow> string option \<times> 's"
  sn_embed :: "string \<Rightarrow> 's \<Rightarrow> (string + 'v) \<times> 's"
  sn_tx_ok :: "int list \<Rightarrow> bool"
  sn_lower_ok :: "int list \<Rightarrow> bool"

definition synthesize_cluster ::
  "('v, 's) synth_env \<Rightarrow> gotime \<Rightarrow> 'v memory_row list \<Rightarrow> 'v mem_db \<times> 's \<Rightarrow> (int \<times> 'v mem_db) option \<times> 's" where
  "synthesize_cluster env now c = (\<lambda>(db, s).
     (case sn_model env (episode_prompt c) s of
        (None, s1) \<Rightarrow> (None, s1)
      | (Some raw, s1) \<Rightarrow>
          if episode_text raw = [] then (None, s1)
          else (case embed_with_fallback (sn_embed env) (episode_text raw) s1 of
                  (Inl e, s2) \<Rightarrow> (None, s2)
                | (Inr parts, s2) \<Rightarrow> (write_episode now (sn_tx_ok env (map mm_id c)) parts (map mm_id c) db, s2))))"

fun episodes_loop ::
  "('v, 's) synth_env \<Rightarrow> gotime \<Rightarrow> 'v memory_row list list \<Rightarrow> nat \<Rightarrow> 'v mem_db \<times> 's \<Rightarrow> nat \<times> 'v mem_db \<times> 's" where
  "episodes_loop env now [] n (db, s) = (n, db, s)"
| "episodes_loop env now (c # cs) n (db, s) =
     (if max_episode_clusters \<le> n then (n, db, s)
      else (case synthesize_cluster env now c (db, s) of
              (None, s1) \<Rightarrow> episodes_loop env now cs n (db, s1)
            | (Some (i, db1), s1) \<Rightarrow>
                episodes_loop env now cs (n + 1) (lower_members (sn_lower_ok env (map mm_id c)) (map mm_id c) db1, s1)))"

definition synthesize_episodes ::
  "('v, 's) synth_env \<Rightarrow> (string \<Rightarrow> string) \<Rightarrow> ('v \<Rightarrow> 'v \<Rightarrow> rat) \<Rightarrow> gotime \<Rightarrow> 'v mem_db \<times> 's \<Rightarrow> nat \<times> 'v mem_db \<times> 's" where
  "synthesize_episodes env lower cosine now = (\<lambda>(db, s). episodes_loop env now (episode_clusters lower cosine now db) 0 (db, s))"

section \<open>Reflections\<close>

text \<open>The groups by source and type, ten summaries at most in each; \<open>collate\<close> is the order of the database on texts.\<close>

definition reflection_rows :: "(string \<Rightarrow> int) \<Rightarrow> gotime \<Rightarrow> 'v mem_db \<Rightarrow> (string \<times> string \<times> string) list" where
  "reflection_rows collate since db =
     map (\<lambda>r. (mm_source r, mm_type r, mm_summary r))
       (take 100 (sort_key (collate \<circ> mm_source) (sort_key (collate \<circ> mm_type) (latest_first
         (filter (\<lambda>r. is_active r \<and> mm_type r \<noteq> ''reflection'' \<and> since \<le> mm_created r) (md_rows db))))))"

definition reflection_group :: "(string \<times> string \<times> string) list \<Rightarrow> string \<times> string \<Rightarrow> string list" where
  "reflection_group rs k =
     take 10 (map (\<lambda>(a, b, s). truncate_str s 300) (filter (\<lambda>(a, b, s). (a, b) = k) rs))"

definition reflection_content :: "(string \<times> string \<times> string) list \<Rightarrow> string option" where
  "reflection_content rs =
     (let ks = rev (remdups (rev (map (\<lambda>(a, b, s). (a, b)) rs))) in
      if sum_list (map (length \<circ> reflection_group rs) ks) < 5 then None
      else Some (concat (map (\<lambda>(a, b). ''=== '' @ a @ ''/'' @ b @ '' ==='' @ nl
             @ concat (map (\<lambda>s. ''- '' @ s @ nl) (reflection_group rs (a, b))) @ nl) ks)))"

definition reflection_row :: "gotime \<Rightarrow> string \<times> 'v \<Rightarrow> 'v memory_row" where
  "reflection_row now = (\<lambda>(t, v). (new_row now t v)
     \<lparr>mm_salience := 9, mm_tags := [''reflection'', ''meta''], mm_type := ''reflection'', mm_source := ''reflection''\<rparr>)"

end
