(* ===== verification/MemSystem.thy ===== *)
theory MemSystem
  imports MemSynth
begin

text \<open>
  Everything that writes to the memories, in any order: goroutines that wait for a model between their
  statements, the work that was put off, the maintenance. What the store guarantees then, and what it
  gets wrong.
\<close>

section \<open>The versions of a memory\<close>

definition versions_ok :: "'v mem_db \<Rightarrow> bool" where
  "versions_ok db \<longleftrightarrow> distinct (map mm_id (md_rows db)) \<and> (\<forall>r \<in> set (md_rows db). mm_id r < md_next db)
     \<and> (\<forall>r \<in> set (md_rows db). \<forall>j. mm_superseded r = Some j \<longrightarrow> mm_id r < j \<and> j \<in> row_ids db)"

text \<open>The relation between the table before and after a step.\<close>

definition evolves :: "'v mem_db \<Rightarrow> 'v mem_db \<Rightarrow> bool" where
  "evolves db db' \<longleftrightarrow> md_next db \<le> md_next db' \<and> (versions_ok db \<longrightarrow> versions_ok db')"

lemma evolves_refl [simp]: "evolves db db"
  by (simp add: evolves_def)

lemma evolves_trans: "evolves a b \<Longrightarrow> evolves b c \<Longrightarrow> evolves a c"
  by (auto simp: evolves_def)

definition keeps_version :: "('v memory_row \<Rightarrow> 'v memory_row) \<Rightarrow> bool" where
  "keeps_version f \<longleftrightarrow> (\<forall>r. mm_id (f r) = mm_id r \<and> mm_superseded (f r) = mm_superseded r)"

lemma map_ids: "(\<And>r. mm_id (f r) = mm_id r) \<Longrightarrow> map mm_id (map f rs) = map mm_id rs"
  by simp

lemma update_where_ids:
  assumes "\<And>r. mm_id (f r) = mm_id r"
  shows "map mm_id (md_rows (update_where P f db)) = map mm_id (md_rows db)"
    and "row_ids (update_where P f db) = row_ids db"
    and "md_next (update_where P f db) = md_next db"
proof -
  show i: "map mm_id (md_rows (update_where P f db)) = map mm_id (md_rows db)"
    using assms by (simp add: update_where_def)
  have "row_ids d = set (map mm_id (md_rows d))" for d :: "'v mem_db" by (simp add: row_ids_def)
  with i show "row_ids (update_where P f db) = row_ids db" by metis
  show "md_next (update_where P f db) = md_next db" by (simp add: update_where_def)
qed

lemma update_where_evolves:
  assumes "keeps_version f"
  shows "evolves db (update_where P f db)"
proof -
  note i = update_where_ids [of f P db]
  have "versions_ok (update_where P f db)" if v: "versions_ok db"
    unfolding versions_ok_def
  proof (intro conjI ballI allI impI)
    show "distinct (map mm_id (md_rows (update_where P f db)))"
      using i(1) assms v by (simp add: keeps_version_def versions_ok_def)
  next
    fix r assume "r \<in> set (md_rows (update_where P f db))"
    then obtain r0 where r: "r0 \<in> set (md_rows db)" "mm_id r = mm_id r0" "mm_superseded r = mm_superseded r0"
      using assms by (auto simp: update_where_def keeps_version_def)
    then show "mm_id r < md_next (update_where P f db)"
      using v i(3) assms by (simp add: versions_ok_def keeps_version_def)
    fix j assume "mm_superseded r = Some j"
    then show "mm_id r < j" "j \<in> row_ids (update_where P f db)"
      using v i(2) assms r by (auto simp: versions_ok_def keeps_version_def)
  qed
  then show ?thesis using i assms by (simp add: evolves_def keeps_version_def)
qed

lemma insert_row_Some:
  assumes "insert_row ok r db = Some (i, db')"
  shows "i = md_next db" "md_next db' = md_next db + 1" "md_rows db' = md_rows db @ [r\<lparr>mm_id := i\<rparr>]"
  using assms by (auto simp: insert_row_def split: if_splits)

lemma insert_row_evolves:
  assumes "insert_row ok r db = Some (i, db')" "is_active r"
  shows "evolves db db'"
  using insert_row_Some [OF assms(1)] assms(2)
  by (fastforce simp: evolves_def versions_ok_def row_ids_def is_active_def)

lemma insert_rows_evolves:
  assumes "insert_rows ok rs db = Some (is, db')" "list_all is_active rs"
  shows "evolves db db' \<and> list_all (\<lambda>i. md_next db \<le> i) is \<and> length is = length rs"
  using assms
proof (induction rs arbitrary: db "is")
  case (Cons r rs)
  then obtain i db1 js where s: "insert_row ok r db = Some (i, db1)" "insert_rows ok rs db1 = Some (js, db')" "is = i # js"
    by (auto split: option.splits)
  from Cons.IH [OF s(2)] Cons.prems(2) have h: "evolves db1 db'" "list_all (\<lambda>i. md_next db1 \<le> i) js" "length js = length rs"
    by auto
  have "evolves db db1" using insert_row_evolves [OF s(1)] Cons.prems(2) by simp
  then show ?case using h s(3) insert_row_Some [OF s(1)]
    by (auto intro: evolves_trans simp: list_all_iff)
qed auto

lemma supersede_evolves:
  assumes "supersede_where ok new P db = Some db'" "\<And>r. r \<in> set (md_rows db) \<Longrightarrow> P r \<Longrightarrow> mm_id r < new"
  shows "evolves db db'"
proof -
  let ?f = "\<lambda>r. r\<lparr>mm_superseded := Some new\<rparr>"
  have d: "db' = update_where P ?f db" "list_ex P (md_rows db) \<longrightarrow> new \<in> row_ids db"
    using assms(1) by (auto simp: supersede_where_def split: if_splits)
  note i = update_where_ids [of ?f P db]
  have "versions_ok db'" if v: "versions_ok db"
    unfolding versions_ok_def d(1)
  proof (intro conjI ballI allI impI)
    show "distinct (map mm_id (md_rows (update_where P ?f db)))" using i(1) v by (simp add: versions_ok_def)
  next
    fix r assume "r \<in> set (md_rows (update_where P ?f db))"
    then obtain r0 where r: "r0 \<in> set (md_rows db)" "r = (if P r0 then ?f r0 else r0)"
      by (auto simp: update_where_def)
    then show "mm_id r < md_next (update_where P ?f db)" using v i(3) by (auto simp: versions_ok_def)
    fix j assume j: "mm_superseded r = Some j"
    show "mm_id r < j"
      using v j r assms(2) by (cases "P r0") (auto simp: versions_ok_def)
    show "j \<in> row_ids (update_where P ?f db)"
      using v j r i(2) d(2) by (cases "P r0") (auto simp: versions_ok_def list_ex_iff)
  qed
  then show ?thesis using i d(1) by (simp add: evolves_def)
qed

lemma delete_evolves:
  assumes "delete_where ok P db = Some db'"
  shows "evolves db db'"
proof -
  let ?k = "filter (\<lambda>r. \<not> P r) (md_rows db)"
  have d: "db' = db\<lparr>md_rows := ?k\<rparr>"
      "list_all (\<lambda>r. case mm_superseded r of None \<Rightarrow> True | Some j \<Rightarrow> j \<in> mm_id ` set ?k) ?k"
    using assms unfolding delete_where_def Let_def by (auto split: if_splits)
  have "versions_ok db'" if v: "versions_ok db"
    unfolding versions_ok_def d(1)
  proof (intro conjI ballI allI impI)
    show "distinct (map mm_id (md_rows (db\<lparr>md_rows := ?k\<rparr>)))"
      using v by (simp add: versions_ok_def distinct_map_filter)
  next
    fix r assume r: "r \<in> set (md_rows (db\<lparr>md_rows := ?k\<rparr>))"
    then show "mm_id r < md_next (db\<lparr>md_rows := ?k\<rparr>)" using v by (simp add: versions_ok_def)
    fix j assume j: "mm_superseded r = Some j"
    show "mm_id r < j" using r v j by (auto simp: versions_ok_def)
    show "j \<in> row_ids (db\<lparr>md_rows := ?k\<rparr>)" using r d(2) j by (auto simp: list_all_iff row_ids_def)
  qed
  then show ?thesis using d(1) by (simp add: evolves_def)
qed

lemma or_same_evolves: "(\<And>db'. x = Some db' \<Longrightarrow> evolves db db') \<Longrightarrow> evolves db (or_same db x)"
  by (auto simp: or_same_def split: option.split)

text \<open>The memory that stands for a row now: follow \<open>superseded_by\<close>, at most \<open>n\<close> times.\<close>

fun current_version :: "'v mem_db \<Rightarrow> nat \<Rightarrow> 'v memory_row \<Rightarrow> 'v memory_row" where
  "current_version db 0 r = r"
| "current_version db (Suc n) r =
     (case mm_superseded r of
        None \<Rightarrow> r
      | Some j \<Rightarrow> (case find (\<lambda>x. mm_id x = j) (md_rows db) of None \<Rightarrow> r | Some x \<Rightarrow> current_version db n x))"

lemma current_version_active:
  assumes "versions_ok db" "r \<in> set (md_rows db)" "card {x \<in> set (md_rows db). mm_id r < mm_id x} \<le> n"
  shows "current_version db n r \<in> set (md_rows db) \<and> is_active (current_version db n r)
    \<and> mm_id r \<le> mm_id (current_version db n r)"
  using assms(2,3)
proof (induction n arbitrary: r)
  case 0
  then have "{x \<in> set (md_rows db). mm_id r < mm_id x} = {}" by simp
  moreover have "\<exists>x \<in> set (md_rows db). mm_id r < mm_id x" if "mm_superseded r = Some j" for j
    using assms(1) 0(1) that unfolding versions_ok_def row_ids_def by fastforce
  ultimately have "mm_superseded r = None" by (cases "mm_superseded r") auto
  then show ?case using 0 by (simp add: is_active_def)
next
  case (Suc n)
  show ?case
  proof (cases "mm_superseded r")
    case None
    then show ?thesis using Suc.prems by (simp add: is_active_def)
  next
    case (Some j)
    with assms(1) Suc.prems(1) have j: "mm_id r < j" "\<exists>x \<in> set (md_rows db). mm_id x = j"
      unfolding versions_ok_def row_ids_def by fastforce+
    then obtain x where x: "find (\<lambda>x. mm_id x = j) (md_rows db) = Some x"
      by (cases "find (\<lambda>x. mm_id x = j) (md_rows db)") (auto simp: find_None_iff)
    then have m: "x \<in> set (md_rows db)" "mm_id x = j" by (auto simp: find_Some_iff)
    have "{y \<in> set (md_rows db). mm_id x < mm_id y} \<subset> {y \<in> set (md_rows db). mm_id r < mm_id y}"
      using m j(1) by auto
    then have "card {y \<in> set (md_rows db). mm_id x < mm_id y} < card {y \<in> set (md_rows db). mm_id r < mm_id y}"
      by (intro psubset_card_mono) auto
    with Suc.IH [OF m(1)] Suc.prems(2) have "current_version db n x \<in> set (md_rows db)
        \<and> is_active (current_version db n x) \<and> mm_id x \<le> mm_id (current_version db n x)" by simp
    then show ?thesis using Some x m j(1) by simp
  qed
qed


section \<open>Goroutines\<close>

text \<open>Where a goroutine waits: for the database, for the embedding, for a model.\<close>

datatype 'v mem_proc =
    Scoring "'v scoring"
  | Looking write_request "(int \<times> string) list option"
  | Sharing check_state
  | Judging check_state "(int \<times> string) list"
  | Writing check_state
  | Merging "int list"
  | Archiving string "int list"
  | Composing "int list"
  | Lowering "int list"

record 'v mem_system =
  my_db :: "'v mem_db"
  my_procs :: "'v mem_proc list"
  my_work :: "mem_work list"

definition set_procs :: "'v mem_proc list \<Rightarrow> 'v mem_system \<Rightarrow> 'v mem_system" where
  "set_procs ps y = y\<lparr>my_procs := ps\<rparr>"

definition set_db :: "'v mem_db \<Rightarrow> 'v mem_system \<Rightarrow> 'v mem_system" where
  "set_db db y = y\<lparr>my_db := db\<rparr>"

definition add_work :: "mem_work list \<Rightarrow> 'v mem_system \<Rightarrow> 'v mem_system" where
  "add_work ws y = y\<lparr>my_work := my_work y @ ws\<rparr>"

text \<open>
  The steps. The flags, the answers of the models, the vectors and the times are whatever they are.
  What is put off may be done in any order, or be lost by the work queue.
\<close>

inductive mem_step :: "'v pg_env \<Rightarrow> 'v mem_system \<Rightarrow> 'v mem_system \<Rightarrow> bool" for pg where
  Score: "mem_step pg y (set_procs (Scoring (score_begin req) # my_procs y) y)"
| Embed: "my_procs y = ps @ Scoring st # qs \<Longrightarrow> score_embed emb (s :: nat) st = (Some st', s') \<Longrightarrow>
    mem_step pg y (set_procs (ps @ Scoring st' # qs) y)"
| Insert: "my_procs y = ps @ Scoring st # qs \<Longrightarrow> score_insert now ok st (my_db y) = Some (st', db) \<Longrightarrow>
    mem_step pg y (set_db db (set_procs (ps @ Scoring st' # qs) y))"
| Scored: "my_procs y = ps @ Scoring st # qs \<Longrightarrow> mem_step pg y (add_work (score_queue st) (set_procs (ps @ qs) y))"
| Look: "check_look (pg_dist pg) now ok1 ok2 v (my_db y) = Inr similar \<Longrightarrow>
    mem_step pg y (set_procs (Looking req similar # my_procs y) y)"
| First: "my_procs y = ps @ Looking req similar # qs \<Longrightarrow>
    mem_step pg y (set_procs (ps @ Sharing (check_first req similar verdict entities) # qs) y)"
| Share: "my_procs y = ps @ Sharing st # qs \<Longrightarrow>
    mem_step pg y (set_procs (ps @ Judging st (check_shared ok st (my_db y)) # qs) y)"
| Second: "my_procs y = ps @ Judging st shared # qs \<Longrightarrow>
    mem_step pg y (set_procs (ps @ Writing (check_second shared verdict st) # qs) y)"
| Write: "my_procs y = ps @ Writing st # qs \<Longrightarrow> parts \<noteq> [] \<Longrightarrow> check_write now ok parts st (my_db y) = Some (is, db) \<Longrightarrow>
    mem_step pg y (set_db db (add_work (check_queue is st) (set_procs (ps @ qs) y)))"
| Work: "my_work y = ws @ w # ws' \<Longrightarrow>
    mem_step pg y (set_db (work_done ok outcome w (my_db y)) (y\<lparr>my_work := ws @ ws'\<rparr>))"
| Retrieve: "mem_step pg y (set_db (track_retrieval ok now is (my_db y)) y)"
| Judge: "mem_step pg y (set_db (evaluate_usefulness ok answer is (my_db y)) y)"
| Maintain: "mem_step pg y (set_db (memory_maintenance pg now now2 ok1 ok2 ok3 days (my_db y)) y)"
| Profile: "write_identity now ok profile v (my_db y) = Some db \<Longrightarrow> mem_step pg y (set_db db y)"
| Purge: "purge_profiles ok keep (my_db y) = Some db \<Longrightarrow> mem_step pg y (set_db db y)"
| Batch: "set is \<subseteq> fst ` set (query_high_salience now threshold limit (my_db y)) \<Longrightarrow>
    mem_step pg y (set_procs (Merging is # my_procs y) y)"
| Merge: "my_procs y = ps @ Merging batch # qs \<Longrightarrow> merge_memories now ok batch m v (my_db y) = Some (i, db) \<Longrightarrow>
    mem_step pg y (set_db db (add_work [Enrich [i] (snd m) (max_salience (fst m) (my_db y)) []] y))"
| Topic: "is = map fst (topic_matches (pg_dist pg) v (my_db y)) \<Longrightarrow>
    mem_step pg y (set_procs (Archiving topic is # my_procs y) y)"
| Archive: "my_procs y = ps @ Archiving topic is # qs \<Longrightarrow> archive_topic now ok topic is v (my_db y) = Some (i, db) \<Longrightarrow>
    mem_step pg y (set_db db (set_procs (ps @ qs) y))"
| Group: "c \<in> set (episode_clusters lower cosine now (my_db y)) \<Longrightarrow>
    mem_step pg y (set_procs (Composing (map mm_id c) # my_procs y) y)"
| Episode: "my_procs y = ps @ Composing is # qs \<Longrightarrow> write_episode now ok parts is (my_db y) = Some (i, db) \<Longrightarrow>
    mem_step pg y (set_db db (set_procs (ps @ Lowering is # qs) y))"
| Lower: "my_procs y = ps @ Lowering is # qs \<Longrightarrow>
    mem_step pg y (set_db (lower_members ok is (my_db y)) (set_procs (ps @ qs) y))"
| Reflect: "insert_row ok (reflection_row now p) (my_db y) = Some (i, db) \<Longrightarrow> mem_step pg y (set_db db y)"
| GiveUp: "my_procs y = ps @ p # qs \<Longrightarrow> mem_step pg y (set_procs (ps @ qs) y)"
| Lose: "my_work y = ws @ w # ws' \<Longrightarrow> mem_step pg y (y\<lparr>my_work := ws @ ws'\<rparr>)"

definition mem_start :: "'v mem_system" where
  "mem_start = \<lparr>my_db = \<lparr>md_rows = [], md_next = 1\<rparr>, my_procs = [], my_work = []\<rparr>"

inductive mem_reach :: "'v pg_env \<Rightarrow> 'v mem_system \<Rightarrow> bool" for pg where
  Start: "mem_reach pg mem_start"
| Step: "mem_reach pg y \<Longrightarrow> mem_step pg y z \<Longrightarrow> mem_reach pg z"

section \<open>The invariant\<close>

definition below :: "int \<Rightarrow> (int \<times> string) list \<Rightarrow> bool" where
  "below n cs \<longleftrightarrow> list_all (\<lambda>c. fst c < n) cs"

fun proc_ok :: "int \<Rightarrow> 'v mem_proc \<Rightarrow> bool" where
  "proc_ok n (Looking req similar) = (case similar of None \<Rightarrow> True | Some cs \<Rightarrow> below n cs)"
| "proc_ok n (Sharing st) = (below n (ck_candidates st) \<and> list_all (\<lambda>i. i < n) (ck_superseded st))"
| "proc_ok n (Judging st shared) =
     (below n (ck_candidates st) \<and> list_all (\<lambda>i. i < n) (ck_superseded st) \<and> below n shared)"
| "proc_ok n (Writing st) = (below n (ck_candidates st) \<and> list_all (\<lambda>i. i < n) (ck_superseded st))"
| "proc_ok n (Merging is) = list_all (\<lambda>i. i < n) is"
| "proc_ok n (Archiving topic is) = list_all (\<lambda>i. i < n) is"
| "proc_ok n _ = True"

fun work_ok :: "mem_work \<Rightarrow> bool" where
  "work_ok (LaterCheck new cs summary) = below new cs"
| "work_ok _ = True"

definition mem_inv :: "'v mem_system \<Rightarrow> bool" where
  "mem_inv y \<longleftrightarrow> versions_ok (my_db y) \<and> list_all (proc_ok (md_next (my_db y))) (my_procs y) \<and> list_all work_ok (my_work y)"

lemma below_mono: "below n cs \<Longrightarrow> n \<le> m \<Longrightarrow> below m cs"
  by (auto simp: below_def list_all_iff)

lemma proc_ok_mono: "proc_ok n p \<Longrightarrow> n \<le> m \<Longrightarrow> proc_ok m p"
  by (cases p) (auto simp: below_def list_all_iff split: option.splits)

lemma contradicted_below: "below n cs \<Longrightarrow> list_all (\<lambda>i. i < n) (contradicted_ids raw cs)"
  by (auto simp: contradicted_ids_def below_def list_all_iff in_set_enumerate_eq) (metis fst_conv nth_mem)

lemma row_ids_below: "versions_ok db \<Longrightarrow> r \<in> set (md_rows db) \<Longrightarrow> mm_id r < md_next db"
  by (simp add: versions_ok_def)

text \<open>The statements.\<close>

lemma merge_entities_keeps [simp]: "mm_id (merge_entities es r) = mm_id r" "mm_superseded (merge_entities es r) = mm_superseded r"
  by (simp_all add: merge_entities_def)

lemma apply_enrichment_evolves: "evolves db (apply_enrichment ok is raw base db)"
  by (auto simp: apply_enrichment_def keeps_version_def intro!: or_same_evolves update_where_evolves
      split: option.split elim: delete_evolves)

lemma work_done_evolves:
  assumes "work_ok w"
  shows "evolves db (work_done ok outcome w db)"
proof (cases outcome)
  case (Some raw)
  show ?thesis
  proof (cases w)
    case (LaterCheck new cs summary)
    have "evolves db (fold (\<lambda>c db. or_same db (supersede_where ok new (\<lambda>r. mm_id r = c \<and> is_active r) db)) is db)"
      if "list_all (\<lambda>i. i < new) is" for "is"
      using that
    proof (induction "is" arbitrary: db)
      case (Cons c js)
      have "evolves db (or_same db (supersede_where ok new (\<lambda>r. mm_id r = c \<and> is_active r) db))"
        by (rule or_same_evolves, erule supersede_evolves) (use Cons.prems in auto)
      with Cons show ?case by (auto intro: evolves_trans)
    qed simp
    with LaterCheck Some assms contradicted_below [of new cs raw] show ?thesis by simp
  next
    case (LaterEntities "is" summary)
    then show ?thesis using Some
      by (auto simp: keeps_version_def intro!: update_where_evolves split: option.split)
  qed (use Some apply_enrichment_evolves in simp)
qed simp

lemma updates_evolve:
  "evolves db (track_retrieval ok now is db)"
  "evolves db (evaluate_usefulness ok answer is db)"
  "evolves db (lower_members ok is db)"
  by (auto simp: track_retrieval_def evaluate_usefulness_def record_usefulness_def lower_members_def keeps_version_def
      intro!: update_where_evolves split: option.split)

lemma maintenance_evolves: "evolves db (memory_maintenance pg now now2 ok1 ok2 ok3 days db)"
proof -
  have a: "evolves db (update_where P (decayed pg now) db)" for P
    by (rule update_where_evolves) (simp add: keeps_version_def decayed_def)
  have b: "evolves d (update_where P (\<lambda>r. r\<lparr>mm_useful := mm_useful r + (1 / 2 - mm_useful r) * (5 / 100)\<rparr>) d)" for P and d :: "'a mem_db"
    by (rule update_where_evolves) (simp add: keeps_version_def)
  have c: "evolves db (materialize_decay pg now ok1 ok2 db)"
    using evolves_trans [OF a b] a by (simp add: materialize_decay_def Let_def)
  have "evolves d (or_same d (prune_stale_memories ok3 now2 days d))" for d :: "'a mem_db"
    by (rule or_same_evolves) (simp add: prune_stale_memories_def delete_evolves)
  with evolves_trans [OF c] c show ?thesis by (simp add: memory_maintenance_def Let_def)
qed

lemma write_identity_evolves:
  assumes "write_identity now ok profile v db = Some db'"
  shows "evolves db db'"
proof -
  obtain i db1 where s: "insert_row ok (identity_row now profile v) db = Some (i, db1)"
      "supersede_where ok i (\<lambda>r. mm_type r = ''identity'' \<and> is_active r \<and> mm_id r \<noteq> i) db1 = Some db'"
    using assms by (auto simp: write_identity_def split: option.splits)
  have e: "evolves db db1" by (rule insert_row_evolves [OF s(1)]) (simp add: identity_row_def new_row_def is_active_def)
  show ?thesis
  proof (cases "versions_ok db")
    case True
    with e have "versions_ok db1" by (simp add: evolves_def)
    then have "mm_id r < i" if "r \<in> set (md_rows db1)" "mm_id r \<noteq> i" for r
      using that row_ids_below [of db1 r] insert_row_Some [OF s(1)] by fastforce
    then have "evolves db1 db'" by (intro supersede_evolves [OF s(2)]) auto
    with e show ?thesis by (rule evolves_trans)
  next
    case False
    have "md_next db' = md_next db1" using s(2) by (auto simp: supersede_where_def update_where_def split: if_splits)
    then show ?thesis using False insert_row_Some [OF s(1)] by (simp add: evolves_def)
  qed
qed


lemma merge_memories_evolves:
  assumes "merge_memories now ok batch m v db = Some (i, db')" "list_all (\<lambda>i. i < md_next db) batch"
  shows "evolves db db'"
proof -
  obtain db1 where s: "insert_row ok (merge_row now (snd m) v (max_salience (fst m) db)) db = Some (i, db1)"
      "supersede_where ok i (\<lambda>r. mm_id r \<in> set (fst m) \<and> is_active r) db1 = Some db'" "set (fst m) \<subseteq> set batch"
    using assms(1) by (auto simp: merge_memories_def merge_valid_def split: option.splits if_splits)
  have "evolves db db1" by (rule insert_row_evolves [OF s(1)]) (simp add: merge_row_def new_row_def is_active_def)
  moreover have "evolves db1 db'"
    by (rule supersede_evolves [OF s(2)]) (use assms(2) s(3) insert_row_Some [OF s(1)] in \<open>auto simp: list_all_iff\<close>)
  ultimately show ?thesis by (rule evolves_trans)
qed

lemma archive_topic_evolves:
  assumes "archive_topic now ok topic is v db = Some (i, db')" "list_all (\<lambda>i. i < md_next db) is"
  shows "evolves db db'"
proof -
  obtain db1 where s: "insert_row ok (archive_row now (archive_summary topic (length is)) v) db = Some (i, db1)"
      "supersede_where ok i (\<lambda>r. mm_id r \<in> set is) db1 = Some db'"
    using assms(1) by (auto simp: archive_topic_def split: option.splits)
  have "evolves db db1" by (rule insert_row_evolves [OF s(1)]) (simp add: archive_row_def new_row_def is_active_def)
  moreover have "evolves db1 db'"
    by (rule supersede_evolves [OF s(2)]) (use assms(2) insert_row_Some [OF s(1)] in \<open>auto simp: list_all_iff\<close>)
  ultimately show ?thesis by (rule evolves_trans)
qed

lemma check_write_evolves:
  assumes "check_write now ok parts st db = Some (is, db')" "proc_ok (md_next db) (Writing st)" "parts \<noteq> []"
  shows "evolves db db' \<and> list_all work_ok (check_queue is st)"
proof -
  let ?rows = "map (request_row now (ck_req st) (ck_entities st)) parts"
  obtain db1 where s: "insert_rows ok ?rows db = Some (is, db1)"
      "supersede_where ok (first_id is) (\<lambda>r. mm_id r \<in> set (ck_superseded st)) db1 = Some db'"
    using assms(1) by (auto simp: check_write_def split: option.splits)
  have e: "evolves db db1 \<and> list_all (\<lambda>i. md_next db \<le> i) is \<and> length is = length parts"
    using insert_rows_evolves [OF s(1)]
    by (auto simp: list_all_iff request_row_def new_row_def is_active_def split: prod.splits)
  with assms(3) obtain i js where c: "is = i # js" by (cases "is") auto
  then have i: "first_id is = i" "md_next db \<le> i" using e by (auto simp: first_id_def)
  have "evolves db1 db'"
    by (rule supersede_evolves [OF s(2)]) (use assms(2) i in \<open>auto simp: list_all_iff\<close>)
  then show ?thesis using e i assms(2) below_mono [of "md_next db" "ck_candidates st" i]
    by (auto simp: check_queue_def Let_def intro: evolves_trans)
qed

text \<open>The embedding never gives an empty list.\<close>

lemma embed_nonempty: "embed_with_fallback emb t s = (Inr ps, s') \<Longrightarrow> ps \<noteq> []"
proof (induction "length t" arbitrary: t s ps s' rule: less_induct)
  case less
  show ?case
  proof (cases "emb t s")
    case (Pair x s1)
    note d = less.prems [unfolded embed_with_fallback.simps [of emb t s]] Pair
    show ?thesis
    proof (cases x)
      case (Inl err)
      with d have big: "str_contains err too_large" "100 < length t" by (auto split: if_splits)
      let ?mid = "cut_before (length t div 2) t"
      obtain l s2 where l: "embed_with_fallback emb (trim_space (take ?mid t)) s1 = (Inr l, s2)" "\<exists>r. ps = l @ r"
        using d Inl big by (auto simp: Let_def split: prod.splits sum.splits)
      then show ?thesis using less.hyps [OF halves_shorter(1) [OF big(2)] l(1)] by auto
    next
      case (Inr v)
      then show ?thesis using d by auto
    qed
  qed
qed

text \<open>What the queries find exists.\<close>

lemma rows_below: "versions_ok db \<Longrightarrow> set rs \<subseteq> set (md_rows db) \<Longrightarrow> below (md_next db) (map (\<lambda>r. (mm_id r, mm_summary r)) rs)"
  by (auto simp: below_def list_all_iff row_ids_below)

lemma queries_below:
  assumes "versions_ok db"
  shows "below (md_next db) (similar_memories dst v db)" "below (md_next db) (entity_memories es is db)"
    "below (md_next db) (topic_matches dst v db)" "below (md_next db) (query_high_salience now threshold limit db)"
  unfolding similar_memories_def entity_memories_def topic_matches_def query_high_salience_def
  by (rule rows_below [OF assms], auto simp: best_first_def latest_first_def dest!: in_set_takeD)+

lemma below_ids: "below n cs \<Longrightarrow> list_all (\<lambda>i. i < n) (map fst cs)"
  by (simp add: below_def list_all_iff)

lemma score_queue_ok [simp]: "list_all work_ok (score_queue st)"
  by (simp add: score_queue_def)

lemma mem_inv_evolve:
  assumes "mem_inv y" "evolves (my_db y) db" "list_all (proc_ok (md_next db)) ps" "list_all work_ok ws"
  shows "mem_inv \<lparr>my_db = db, my_procs = ps, my_work = ws\<rparr>"
  using assms by (simp add: mem_inv_def evolves_def)


lemma link_episode_evolves: "evolves db (link_episode i is db)"
  unfolding link_episode_def
proof (induction "is" arbitrary: db)
  case (Cons c js)
  have "evolves db (update_where (\<lambda>r. mm_id r = c) (\<lambda>r. r\<lparr>mm_related := mm_related r @ [i]\<rparr>) db)"
    by (rule update_where_evolves) (simp add: keeps_version_def)
  with Cons show ?case by (auto intro: evolves_trans)
qed simp

lemma write_episode_evolves:
  assumes "write_episode now ok parts is db = Some (i, db')"
  shows "evolves db db'"
proof -
  obtain js db1 where s: "insert_rows ok (map (episode_row now is) parts) db = Some (i # js, db1)" "db' = link_episode i is db1"
    using assms by (auto simp: write_episode_def split: option.splits list.splits)
  have "evolves db db1" using insert_rows_evolves [OF s(1)]
    by (auto simp: list_all_iff episode_row_def new_row_def is_active_def split: prod.splits)
  then show ?thesis using s(2) link_episode_evolves evolves_trans by blast
qed

lemma below_first:
  assumes "case similar of None \<Rightarrow> True | Some cs \<Rightarrow> below n cs"
  shows "below n (ck_candidates (check_first req similar verdict entities))"
    "list_all (\<lambda>i. i < n) (ck_superseded (check_first req similar verdict entities))"
  using assms contradicted_below [of n]
  by (auto simp: check_first_def below_def split: option.splits)

lemma below_second:
  assumes "proc_ok n (Judging st shared)"
  shows "proc_ok n (Writing (check_second shared verdict st))"
  using assms contradicted_below [of n shared]
  by (auto simp: check_second_def below_def split: option.split)

lemma procs_mono: "list_all (proc_ok n) ps \<Longrightarrow> n \<le> m \<Longrightarrow> list_all (proc_ok m) ps"
  by (auto simp: list_all_iff intro: proc_ok_mono)

lemma mem_step_inv:
  assumes "mem_step pg y z" "mem_inv y"
  shows "mem_inv z"
proof -
  have v: "versions_ok (my_db y)" "list_all (proc_ok (md_next (my_db y))) (my_procs y)" "list_all work_ok (my_work y)"
    using assms(2) by (simp_all add: mem_inv_def)
  have keep: "mem_inv z" if "my_db z = my_db y" "list_all (proc_ok (md_next (my_db y))) (my_procs z)" "list_all work_ok (my_work z)"
    using that v by (simp add: mem_inv_def)
  have move: "mem_inv z" if e: "evolves (my_db y) (my_db z)"
      and "list_all (proc_ok (md_next (my_db y))) (my_procs z)" "list_all work_ok (my_work z)"
  proof -
    have n: "md_next (my_db y) \<le> md_next (my_db z)" "versions_ok (my_db z)" using e v(1) by (auto simp: evolves_def)
    then show ?thesis using procs_mono [OF that(2) n(1)] that(3) by (simp add: mem_inv_def)
  qed
  note q = queries_below [OF v(1)]
  show ?thesis using assms(1)
  proof cases
    case Score then show ?thesis using v by (intro keep) (auto simp: set_procs_def)
  next
    case Embed then show ?thesis using v by (intro keep) (auto simp: set_procs_def)
  next
    case (Insert ps st qs now ok st' db)
    then have "evolves (my_db y) db"
      by (auto simp: score_insert_def scored_row_def request_row_def new_row_def is_active_def
          intro: insert_row_evolves split: list.splits prod.splits)
    then show ?thesis using Insert v by (intro move) (auto simp: set_procs_def set_db_def)
  next
    case Scored then show ?thesis using v by (intro keep) (auto simp: set_procs_def add_work_def)
  next
    case (Look now ok1 ok2 w similar)
    then have "case similar of None \<Rightarrow> True | Some cs \<Rightarrow> below (md_next (my_db y)) cs"
      using q(1) by (auto simp: check_look_def split: option.splits if_splits)
    then show ?thesis using Look v by (intro keep) (auto simp: set_procs_def)
  next
    case First then show ?thesis using v below_first by (intro keep) (auto simp: set_procs_def)
  next
    case Share then show ?thesis using v q(2) by (intro keep) (auto simp: set_procs_def check_shared_def below_def)
  next
    case Second then show ?thesis using v below_second by (intro keep) (auto simp: set_procs_def)
  next
    case (Write ps st qs parts now ok "is" db)
    then have "proc_ok (md_next (my_db y)) (Writing st)" using v(2) by simp
    from check_write_evolves [OF Write(4) this Write(3)]
    have "evolves (my_db y) db" "list_all work_ok (check_queue is st)" by auto
    then show ?thesis using Write v by (intro move) (auto simp: set_procs_def set_db_def add_work_def)
  next
    case (Work ws w ws' ok outcome)
    then show ?thesis using v work_done_evolves [of w "my_db y" ok outcome]
      by (intro move) (auto simp: set_db_def)
  next
    case Retrieve then show ?thesis using v updates_evolve by (intro move) (auto simp: set_db_def)
  next
    case Judge then show ?thesis using v updates_evolve by (intro move) (auto simp: set_db_def)
  next
    case Maintain then show ?thesis using v maintenance_evolves by (intro move) (auto simp: set_db_def)
  next
    case Profile then show ?thesis using v write_identity_evolves by (intro move) (auto simp: set_db_def)
  next
    case Purge then show ?thesis using v delete_evolves unfolding purge_profiles_def Let_def
      by (intro move) (auto simp: set_db_def)
  next
    case (Batch "is" now threshold limit)
    then have "list_all (\<lambda>i. i < md_next (my_db y)) is" using q(4) by (fastforce simp: below_def list_all_iff)
    then show ?thesis using Batch v by (intro keep) (auto simp: set_procs_def)
  next
    case (Merge ps batch qs now ok m w i db)
    then have "evolves (my_db y) db" using v(2) by (intro merge_memories_evolves [OF Merge(3)]) auto
    then show ?thesis using Merge v by (intro move) (auto simp: set_db_def add_work_def)
  next
    case Topic then show ?thesis using v q(3) below_ids by (intro keep) (auto simp: set_procs_def)
  next
    case (Archive ps topic "is" qs now ok w i db)
    then have "evolves (my_db y) db" using v(2) by (intro archive_topic_evolves [OF Archive(3)]) auto
    then show ?thesis using Archive v by (intro move) (auto simp: set_db_def set_procs_def)
  next
    case Group then show ?thesis using v by (intro keep) (auto simp: set_procs_def)
  next
    case (Episode ps "is" qs now ok parts i db)
    then show ?thesis using v write_episode_evolves by (intro move) (auto simp: set_db_def set_procs_def)
  next
    case Lower then show ?thesis using v updates_evolve by (intro move) (auto simp: set_db_def set_procs_def)
  next
    case (Reflect ok now p i db)
    then have "evolves (my_db y) db"
      by (intro insert_row_evolves [OF Reflect(2)]) (auto simp: reflection_row_def new_row_def is_active_def split: prod.split)
    then show ?thesis using Reflect v by (intro move) (auto simp: set_db_def)
  next
    case GiveUp then show ?thesis using v by (intro keep) (auto simp: set_procs_def)
  next
    case Lose then show ?thesis using v by (intro keep) auto
  qed
qed

lemma mem_start_inv: "mem_inv mem_start"
  by (simp add: mem_start_def mem_inv_def versions_ok_def)

lemma mem_reach_inv: "mem_reach pg y \<Longrightarrow> mem_inv y"
  by (induction rule: mem_reach.induct) (auto intro: mem_step_inv mem_start_inv)

end
