(* ===== verification/MemGuarantees.thy ===== *)
theory MemGuarantees
  imports MemSystem
begin

text \<open>
  What holds of the memories, whatever runs: a superseded memory leads to one that counts, chunks keep
  the text. And where the store does not do what it means to: nothing is ever pruned, old memories
  crowd out new ones, saved memories escape the isolation of pipelines, a topic that is forgotten can
  take the profile with it, episodes are written again and again.
\<close>

section \<open>Versions\<close>

text \<open>
  C7: a superseded memory leads to one that counts. However saves, checks that were put off, merges,
  maintenance and the tools interleave, following \<open>superseded_by\<close> from any memory ends, at a memory
  that is still there, is not superseded and is not older.
\<close>

theorem memories_have_current_version:
  assumes "mem_reach pg y" "r \<in> set (md_rows (my_db y))"
  shows "let x = current_version (my_db y) (length (md_rows (my_db y))) r
         in x \<in> set (md_rows (my_db y)) \<and> is_active x \<and> mm_id r \<le> mm_id x"
proof -
  have v: "versions_ok (my_db y)" using mem_reach_inv [OF assms(1)] by (simp add: mem_inv_def)
  have "card {x \<in> set (md_rows (my_db y)). mm_id r < mm_id x} \<le> card (set (md_rows (my_db y)))"
    by (rule card_mono) auto
  also have "\<dots> \<le> length (md_rows (my_db y))" by (rule card_length)
  finally show ?thesis using current_version_active [OF v assms(2)] by (simp add: Let_def)
qed

section \<open>Chunks\<close>

lemma chunk_loop_pieces:
  assumes "0 < m"
  shows "\<exists>ps. concat ps = s \<and> list_all (\<lambda>p. p \<noteq> [] \<and> length p \<le> m) ps
    \<and> chunk_loop m s = filter (\<lambda>c. min_chunk_bytes \<le> length c) (map trim_space ps)"
  using assms
proof (induction m s rule: chunk_loop.induct)
  case (1 m s)
  show ?case
  proof (cases "s = []")
    case True
    then show ?thesis by (auto simp: chunk_loop.simps intro: exI [of _ "[]"])
  next
    case False
    let ?e = "chunk_end m s"
    have b: "0 < ?e" "?e \<le> m" "?e \<le> length s" using chunk_end_bounds [OF False "1.prems"] by auto
    obtain ps where ps: "concat ps = drop ?e s" "list_all (\<lambda>p. p \<noteq> [] \<and> length p \<le> m) ps"
        "chunk_loop m (drop ?e s) = filter (\<lambda>c. min_chunk_bytes \<le> length c) (map trim_space ps)"
      using "1.IH" False "1.prems" by auto
    have "chunk_loop m s = filter (\<lambda>c. min_chunk_bytes \<le> length c) (map trim_space (take ?e s # ps))"
      using False "1.prems" ps(3) by (subst chunk_loop.simps) (simp add: Let_def)
    moreover have "concat (take ?e s # ps) = s" using ps(1) by simp
    moreover have "list_all (\<lambda>p. p \<noteq> [] \<and> length p \<le> m) (take ?e s # ps)" using ps(2) b False by auto
    ultimately show ?thesis by blast
  qed
qed

text \<open>
  C37: chunks keep the text. A text that is too long is cut into pieces of at most 1200 bytes, which
  together are the text; the chunks are the trimmed pieces, in their order, without those of fewer
  than fifty bytes, and the whole trimmed text if none is left.
\<close>

theorem chunks_keep_text:
  assumes "max_chunk_bytes < length t"
  shows "\<exists>ps. concat ps = t \<and> list_all (\<lambda>p. p \<noteq> [] \<and> length p \<le> 1200) ps
    \<and> chunk_text t max_chunk_bytes
        = (let cs = filter (\<lambda>c. 50 \<le> length c) (map trim_space ps) in if cs = [] then [trim_space t] else cs)"
  using chunk_loop_pieces [of max_chunk_bytes t] assms
  by (auto simp: chunk_text_def max_chunk_bytes_def min_chunk_bytes_def Let_def)

section \<open>Pruning\<close>

lemma update_where_mem:
  "r \<in> set (md_rows db) \<Longrightarrow> (if P r then f r else r) \<in> set (md_rows (update_where P f db))"
  by (simp add: update_where_def)

lemma update_where_memD:
  "r \<in> set (md_rows (update_where P f db)) \<Longrightarrow> \<exists>r0 \<in> set (md_rows db). r = (if P r0 then f r0 else r0)"
  by (auto simp: update_where_def)

lemma decay_refreshes:
  assumes "\<And>b d. 0 < b \<Longrightarrow> 0 < pg_pow pg b d" "r \<in> set (md_rows db)" "0 < mm_salience r"
  shows "\<exists>r' \<in> set (md_rows (materialize_decay pg now True ok2 db)). mm_id r' = mm_id r \<and> now - day \<le> mm_accessed r'"
proof -
  let ?P = "\<lambda>r. mm_accessed r < now - day \<and> mm_salience r > 0"
  let ?r1 = "if ?P r then decayed pg now r else r"
  let ?db1 = "update_where ?P (decayed pg now) db"
  have 1: "?r1 \<in> set (md_rows ?db1)" "mm_id ?r1 = mm_id r" "now - day \<le> mm_accessed ?r1"
  proof -
    show "?r1 \<in> set (md_rows ?db1)" by (rule update_where_mem [OF assms(2)])
    show "mm_id ?r1 = mm_id r" by (simp add: decayed_def)
    have "0 < day" by (simp add: day_def hour_def minute_def second_def)
    then show "now - day \<le> mm_accessed ?r1"
      by (cases "mm_accessed r < now - day") (simp_all add: decayed_def assms(3))
  qed
  let ?g = "\<lambda>r. r\<lparr>mm_useful := mm_useful r + (1 / 2 - mm_useful r) * (5 / 100)\<rparr>"
  let ?r2 = "if usefulness_decays now ?r1 then ?g ?r1 else ?r1"
  have "?r2 \<in> set (md_rows (update_where (usefulness_decays now) ?g ?db1))"
    by (rule update_where_mem [OF 1(1)])
  moreover have "mm_id ?r2 = mm_id r" "now - day \<le> mm_accessed ?r2" using 1 by auto
  ultimately show ?thesis using 1 by (auto simp: materialize_decay_def Let_def)
qed

text \<open>
  C38: maintenance never prunes what has decayed. The decay counts as an access: it refreshes
  \<open>last_accessed\<close> of every memory that was not accessed for a day, and the pruning that follows looks
  for memories that were not accessed for days. A memory whose salience is not exactly zero is never
  pruned, however old, unused and worthless it is.
\<close>

theorem maintenance_never_prunes:
  assumes "\<And>b d. 0 < b \<Longrightarrow> 0 < pg_pow pg b d" "r \<in> set (md_rows db)" "0 < mm_salience r"
    and "now2 \<le> now + (days - 1) * day"
  shows "mm_id r \<in> row_ids (memory_maintenance pg now now2 True ok2 ok3 days db)"
proof -
  let ?d = "materialize_decay pg now True ok2 db"
  obtain r' where r': "r' \<in> set (md_rows ?d)" "mm_id r' = mm_id r" "now - day \<le> mm_accessed r'"
    using decay_refreshes [OF assms(1-3)] by blast
  have "(days - 1) * day = days * day - day" by (simp add: algebra_simps)
  with r'(3) assms(4) have "\<not> stale_memory now2 days r'" by (simp add: stale_memory_def)
  with r'(1) have "r' \<in> set (md_rows (memory_maintenance pg now now2 True ok2 ok3 days db))"
    by (simp add: memory_maintenance_def Let_def or_same_def prune_stale_memories_def delete_where_def split: option.split)
  then show ?thesis using r'(2) by (metis image_eqI row_ids_def)
qed

section \<open>Ranking\<close>

lemma take_sort_key_le:
  assumes "y \<in> set (take n (sort_key f xs))" "x \<in> set xs" "f x < f y"
  shows "x \<in> set (take n (sort_key f xs))"
proof -
  let ?s = "sort_key f xs"
  obtain j where j: "j < length ?s" "j < n" "y = ?s ! j" using assms(1) by (auto simp: in_set_conv_nth)
  obtain k where k: "k < length ?s" "x = ?s ! k" using assms(2) by (metis in_set_conv_nth set_sort)
  have "k < n"
  proof (rule ccontr)
    assume "\<not> k < n"
    with j have "f (?s ! j) \<le> f (?s ! k)"
      using sorted_nth_mono [of "map f ?s" j k] k(1) by simp
    with assms(3) j k show False by simp
  qed
  with k show ?thesis by (auto simp: in_set_conv_nth)
qed

lemma older_ranks_lower:
  assumes "x = y\<lparr>mm_id := i, mm_created := c\<rparr>" "c < mm_created y"
  shows "ranking pg now v t x < ranking pg now v t y"
proof -
  have "rat_of_ns (now - mm_created y) < rat_of_ns (now - c)"
    using assms(2) by (simp add: rat_of_ns_def second_def divide_strict_right_mono)
  then have "3 / 100 * rat_of_ns (now - mm_created y) / 86400 / 30 < 3 / 100 * rat_of_ns (now - c) / 86400 / 30"
    by (simp add: divide_strict_right_mono)
  then show ?thesis unfolding ranking_def assms(1) by simp
qed

text \<open>
  C39: old memories crowd out new ones. The ranking subtracts the age, and the lowest value comes
  first: of two memories that differ in nothing but their age the older one is better, and a prefetch
  that takes the newer one takes the older one too.
\<close>

theorem older_memory_preferred:
  assumes "x \<in> set (md_rows db)" "x = y\<lparr>mm_id := i, mm_created := c\<rparr>" "c < mm_created y"
    and "y \<in> set (prefetch_rows pg now v t limit excluded db)"
  shows "ranking pg now v t x < ranking pg now v t y \<and> x \<in> set (prefetch_rows pg now v t limit excluded db)"
proof
  show l: "ranking pg now v t x < ranking pg now v t y" by (rule older_ranks_lower [OF assms(2,3)])
  have "prefetchable excluded y" using assms(4) unfolding prefetch_rows_def by (auto dest!: in_set_takeD)
  then have "prefetchable excluded x" by (simp add: assms(2) prefetchable_def is_active_def)
  with assms(1) show "x \<in> set (prefetch_rows pg now v t limit excluded db)"
    using take_sort_key_le [of y limit "ranking pg now v t" _ x, OF _ _ l] assms(4) by (simp add: prefetch_rows_def)
qed

section \<open>Pipelines\<close>

lemma insert_rows_first:
  assumes "insert_rows ok (r # rs) db = Some (is, db')"
  shows "first_id is = md_next db \<and> r\<lparr>mm_id := md_next db\<rparr> \<in> set (md_rows db')"
proof -
  have grows: "set (md_rows a) \<subseteq> set (md_rows b)" if "insert_rows ok xs a = Some (js, b)" for xs a js b
    using that
  proof (induction xs arbitrary: a js)
    case (Cons x xs)
    then show ?case by (fastforce dest!: insert_row_Some(3) split: option.splits)
  qed simp
  obtain i db1 js where s: "insert_row ok r db = Some (i, db1)" "insert_rows ok rs db1 = Some (js, db')" "is = i # js"
    using assms by (auto split: option.splits)
  then show ?thesis using insert_row_Some [OF s(1)] grows [OF s(2)] by (auto simp: first_id_def)
qed

text \<open>
  Saved memories escape the isolation. The prefetch of the next message leaves out the memories
  of the pipeline before it; a memory that is saved without a check belongs to its pipeline, but the
  insertion of a memory that is saved with a check writes no pipeline, so it is found at once.
\<close>

lemma checked_save_escapes_isolation:
  assumes "check_write now ok parts st db = Some (is, db')" "parts \<noteq> []"
    and "list_all (\<lambda>i. i < md_next db) (ck_superseded st)" "type_of_request (ck_req st) \<notin> set exclude_internal"
  shows "\<exists>r \<in> set (md_rows db'). mm_id r = first_id is \<and> prefetchable (wr_pipeline (ck_req st)) r"
proof -
  obtain t v ps where p: "parts = (t, v) # ps" using assms(2) by (cases parts) auto
  let ?r = "request_row now (ck_req st) (ck_entities st) (t, v)"
  obtain db1 where s: "insert_rows ok (?r # map (request_row now (ck_req st) (ck_entities st)) ps) db = Some (is, db1)"
      "supersede_where ok (first_id is) (\<lambda>r. mm_id r \<in> set (ck_superseded st)) db1 = Some db'"
    using assms(1) p by (auto simp: check_write_def split: option.splits)
  from insert_rows_first [OF s(1)] have f: "first_id is = md_next db" "?r\<lparr>mm_id := md_next db\<rparr> \<in> set (md_rows db1)" by auto
  have "md_next db \<notin> set (ck_superseded st)" using assms(3) by (auto simp: list_all_iff)
  with s(2) f have "?r\<lparr>mm_id := md_next db\<rparr> \<in> set (md_rows db')"
    by (auto simp: supersede_where_def update_where_def image_iff split: if_splits intro: bexI [OF _ f(2)])
  moreover have "prefetchable (wr_pipeline (ck_req st)) (?r\<lparr>mm_id := md_next db\<rparr>)"
    using assms(4) by (simp add: prefetchable_def request_row_def new_row_def is_active_def)
  ultimately show ?thesis using f(1) by (intro bexI) auto
qed

text \<open>The memory that is saved without a check is left out, as it should be.\<close>

lemma scored_save_isolated:
  assumes "wr_pipeline req \<noteq> 0"
  shows "\<not> prefetchable (wr_pipeline req) (scored_row now req p)"
  using assms by (cases p) (simp add: prefetchable_def scored_row_def request_row_def new_row_def)

section \<open>The quality gate\<close>

text \<open>A memory that superseded another one is not deleted, however vague: the foreign key forbids it.\<close>

lemma superseding_memory_stays:
  assumes "r \<in> set (md_rows db)" "mm_superseded r = Some i" "mm_id r \<notin> set is" "i \<in> set is"
    and "parse_quality raw = Some q" "too_vague q"
  shows "apply_enrichment ok is raw base db = db"
proof -
  have "i \<notin> mm_id ` set (filter (\<lambda>r. mm_id r \<notin> set is) (md_rows db))" using assms(4) by auto
  then have "\<not> list_all (\<lambda>r. case mm_superseded r of None \<Rightarrow> True | Some j \<Rightarrow> j \<in> mm_id ` set (filter (\<lambda>r. mm_id r \<notin> set is) (md_rows db)))
      (filter (\<lambda>r. mm_id r \<notin> set is) (md_rows db))"
    using assms(1-3) by (auto simp: list_all_iff)
  then show ?thesis using assms(5,6) by (simp add: apply_enrichment_def or_same_def delete_where_def Let_def)
qed

section \<open>The profile\<close>

text \<open>
  The tool \<open>save_memory\<close> takes any type: a memory that it saves with the type of the profile is the
  profile from then on.
\<close>

lemma saved_identity_becomes_profile:
  assumes "insert_row ok (scored_row now req (t, v)) db = Some (i, db')" "wr_type req = ''identity''"
    and "list_all (\<lambda>r. mm_created r < now) (md_rows db)"
  shows "get_identity_profile True db' = Some t"
proof -
  let ?P = "\<lambda>r. mm_type r = ''identity'' \<and> is_active r"
  let ?r = "(scored_row now req (t, v))\<lparr>mm_id := i\<rparr>"
  have r: "?P ?r" "mm_created ?r = now" "mm_summary ?r = t"
    using assms(2) by (simp_all add: scored_row_def request_row_def new_row_def is_active_def type_of_request_def)
  have "latest_first (filter ?P (md_rows db')) = ?r # latest_first (filter ?P (md_rows db))"
  proof -
    have s: "sort_key f (xs @ [x]) = x # sort_key f xs" if "list_all (\<lambda>y. f x < f y) xs" for f :: "'a memory_row \<Rightarrow> int" and x xs
      using that
    proof (induction xs)
      case (Cons y ys)
      then show ?case by simp
    qed simp
    have "filter ?P (md_rows db') = filter ?P (md_rows db) @ [?r]" using insert_row_Some(3) [OF assms(1)] r(1) by simp
    then show ?thesis using s [of "\<lambda>r. - mm_created r" ?r "filter ?P (md_rows db)"] assms(3) r(2)
      by (auto simp: latest_first_def list_all_iff)
  qed
  then show ?thesis using r(3) by (simp add: get_identity_profile_def)
qed

text \<open>
  Forgetting a topic can erase the profile. The search for the memories of a topic does not leave
  out the profile: when the topic is near to it, the profile is superseded by the archive note, and
  from then on there is none.
\<close>

lemma forgetting_erases_profile:
  assumes "archive_topic now True topic (map fst (topic_matches dst v db)) w db = Some (i, db')"
    and "list_all (\<lambda>r. if mm_type r = ''identity'' \<and> is_active r then dst (mm_vec r) v < 35 / 100 else True) (md_rows db)"
    and "length (filter (\<lambda>r. is_active r \<and> dst (mm_vec r) v < 35 / 100) (md_rows db)) \<le> 50"
  shows "get_identity_profile True db' = Some ''{}''"
proof -
  let ?row = "archive_row now (archive_summary topic (length (map fst (topic_matches dst v db)))) w"
  let ?ids = "set (map fst (topic_matches dst v db))"
  obtain db1 where s: "insert_row True ?row db = Some (i, db1)"
      "supersede_where True i (\<lambda>r. mm_id r \<in> ?ids) db1 = Some db'"
    using assms(1) by (auto simp: archive_topic_def split: option.splits)
  have ids: "mm_id r \<in> ?ids" if "r \<in> set (md_rows db)" "mm_type r = ''identity''" "is_active r" for r
  proof -
    have "r \<in> set (filter (\<lambda>r. is_active r \<and> dst (mm_vec r) v < 35 / 100) (md_rows db))"
      using that assms(2) by (auto simp: list_all_iff)
    then show ?thesis using assms(3) by (auto simp: topic_matches_def image_image)
  qed
  have "\<not> (mm_type r = ''identity'' \<and> is_active r)" if r: "r \<in> set (md_rows db')" for r
  proof -
    have db': "db' = update_where (\<lambda>r. mm_id r \<in> ?ids) (\<lambda>r. r\<lparr>mm_superseded := Some i\<rparr>) db1"
      using s(2) by (auto simp: supersede_where_def split: if_splits)
    then obtain r1 where r1: "r1 \<in> set (md_rows db1)" "r = (if mm_id r1 \<in> ?ids then r1\<lparr>mm_superseded := Some i\<rparr> else r1)"
      using r update_where_memD by blast
    show ?thesis
    proof (cases "r1 \<in> set (md_rows db)")
      case True
      then show ?thesis using r1 ids by (auto simp: is_active_def)
    next
      case False
      then have "r1 = ?row\<lparr>mm_id := i\<rparr>" using r1(1) insert_row_Some [OF s(1)] by auto
      then show ?thesis using r1(2) by (auto simp: archive_row_def)
    qed
  qed
  then have "filter (\<lambda>r. mm_type r = ''identity'' \<and> is_active r) (md_rows db') = []" by (simp add: filter_empty_conv)
  then show ?thesis by (simp add: get_identity_profile_def latest_first_def)
qed


section \<open>Episodes\<close>

lemma grow_cluster_map:
  assumes "\<And>a b. near (g a) (g b) = near a b"
  shows "grow_cluster near (map g c) (map g ms) = (map g (fst (grow_cluster near c ms)), map g (snd (grow_cluster near c ms)))"
proof (induction ms arbitrary: c)
  case (Cons m ms)
  show ?case using Cons [of c] Cons [of "c @ [m]"] assms
    by (auto simp: list_ex_iff Let_def split: prod.splits)
qed simp

lemma clusters_of_map:
  assumes "\<And>a b. near (g a) (g b) = near a b"
  shows "clusters_of near (map g ms) = map (map g) (clusters_of near ms)"
  using assms
proof (induction near ms rule: clusters_of.induct)
  case (2 near m ms)
  have "grow_cluster near [g m] (map g ms) = (map g (fst (grow_cluster near [m] ms)), map g (snd (grow_cluster near [m] ms)))"
    using grow_cluster_map [of near g "[m]" ms] 2(2) by simp
  then show ?case using 2 by (cases "grow_cluster near [m] ms") simp
qed simp

text \<open>What the synthesis does to a row that was there: nothing that the clusters depend on.\<close>

definition same_kind :: "'v memory_row \<Rightarrow> 'v memory_row \<Rightarrow> bool" where
  "same_kind a b \<longleftrightarrow> mm_id a = mm_id b \<and> mm_vec a = mm_vec b \<and> mm_entities a = mm_entities b
     \<and> mm_created a = mm_created b \<and> mm_type a = mm_type b \<and> mm_superseded a = mm_superseded b"

text \<open>The table with rows that were touched, and new rows that are no candidates.\<close>

definition touched :: "'v mem_db \<Rightarrow> 'v mem_db \<Rightarrow> bool" where
  "touched db db' \<longleftrightarrow> (\<exists>g news. md_rows db' = map g (md_rows db) @ news \<and> (\<forall>r. same_kind (g r) r)
     \<and> list_all (\<lambda>r. mm_type r \<in> set exclude_episodic) news)"

lemma touched_refl [simp]: "touched db db"
  unfolding touched_def by (rule exI [of _ id], rule exI [of _ "[]"]) (simp add: same_kind_def)

lemma touched_trans:
  assumes "touched a b" "touched b c"
  shows "touched a c"
proof -
  obtain g ns h ms where s: "md_rows b = map g (md_rows a) @ ns" "\<forall>r. same_kind (g r) r"
      "list_all (\<lambda>r. mm_type r \<in> set exclude_episodic) ns" "md_rows c = map h (md_rows b) @ ms"
      "\<forall>r. same_kind (h r) r" "list_all (\<lambda>r. mm_type r \<in> set exclude_episodic) ms"
    using assms unfolding touched_def by blast
  have "md_rows c = map (h \<circ> g) (md_rows a) @ (map h ns @ ms)" using s(1,4) by simp
  moreover have "\<forall>r. same_kind ((h \<circ> g) r) r" using s(2,5) by (simp add: same_kind_def)
  moreover have "list_all (\<lambda>r. mm_type r \<in> set exclude_episodic) (map h ns @ ms)"
    using s(3,5,6) by (auto simp: list_all_iff same_kind_def)
  ultimately show ?thesis unfolding touched_def by blast
qed

lemma touched_update:
  assumes "\<And>r. same_kind (f r) r"
  shows "touched db (update_where P f db)"
  unfolding touched_def update_where_def
  by (rule exI [of _ "\<lambda>r. if P r then f r else r"], rule exI [of _ "[]"]) (use assms in \<open>simp add: same_kind_def\<close>)

lemma touched_insert:
  assumes "insert_rows ok rs db = Some (is, db')" "list_all (\<lambda>r. mm_type r \<in> set exclude_episodic) rs"
  shows "touched db db'"
proof -
  have "\<exists>news. md_rows db' = md_rows db @ news \<and> list_all (\<lambda>r. mm_type r \<in> set exclude_episodic) news"
    using assms
  proof (induction rs arbitrary: db "is")
    case (Cons r rs)
    then obtain i db1 js where s: "insert_row ok r db = Some (i, db1)" "insert_rows ok rs db1 = Some (js, db')"
      by (auto split: option.splits)
    from Cons.IH [OF s(2)] Cons.prems(2) obtain news where
        "md_rows db' = md_rows db1 @ news" "list_all (\<lambda>r. mm_type r \<in> set exclude_episodic) news" by auto
    then show ?case using insert_row_Some(3) [OF s(1)] Cons.prems(2)
      by (intro exI [of _ "r\<lparr>mm_id := i\<rparr> # news"]) simp
  qed simp
  then show ?thesis unfolding touched_def by (intro exI [of _ id]) (simp add: same_kind_def)
qed

lemma write_episode_touched:
  assumes "write_episode now ok parts is db = Some (i, db')"
  shows "touched db db'"
proof -
  obtain js db1 where s: "insert_rows ok (map (episode_row now is) parts) db = Some (i # js, db1)" "db' = link_episode i is db1"
    using assms by (auto simp: write_episode_def split: option.splits list.splits)
  have "touched db db1"
    by (rule touched_insert [OF s(1)]) (auto simp: list_all_iff episode_row_def exclude_episodic_def split: prod.splits)
  moreover have "touched d (link_episode i ks d)" for d :: "'a mem_db" and ks
    unfolding link_episode_def
  proof (induction ks arbitrary: d)
    case (Cons k ks)
    have "touched d (update_where (\<lambda>r. mm_id r = k) (\<lambda>r. r\<lparr>mm_related := mm_related r @ [i]\<rparr>) d)"
      by (rule touched_update) (simp add: same_kind_def)
    with Cons show ?case by (auto intro: touched_trans)
  qed simp
  ultimately show ?thesis using s(2) touched_trans by blast
qed

lemma episodes_loop_touched:
  assumes "episodes_loop env now cs n (db, s) = (k, db', s')"
  shows "touched db db'"
  using assms
proof (induction cs arbitrary: n db s)
  case (Cons c cs)
  show ?case
  proof (cases "synthesize_cluster env now c (db, s)")
    case (Pair x s1)
    show ?thesis
    proof (cases "max_episode_clusters \<le> n \<or> x = None")
      case True
      then show ?thesis using Cons.prems Cons.IH Pair by (auto split: if_splits)
    next
      case False
      then obtain i db1 where x: "x = Some (i, db1)" by auto
      let ?db2 = "lower_members (sn_lower_ok env (map mm_id c)) (map mm_id c) db1"
      have "touched db ?db2"
      proof (rule touched_trans)
        show "touched db db1" using Pair x write_episode_touched
          by (auto simp: synthesize_cluster_def split: prod.splits option.splits sum.splits if_splits)
        show "touched db1 ?db2" unfolding lower_members_def
          by (auto simp: same_kind_def intro!: touched_update)
      qed
      moreover have "touched ?db2 db'" using Cons.prems Cons.IH Pair x False by auto
      ultimately show ?thesis by (rule touched_trans)
    qed
  qed
qed simp

lemma insort_key_map: "(\<And>x. f (g x) = f x) \<Longrightarrow> insort_key f (g x) (map g xs) = map g (insort_key f x xs)"
  by (induction xs) auto

lemma sort_key_map_commute: "(\<And>x. f (g x) = f x) \<Longrightarrow> sort_key f (map g xs) = map g (sort_key f xs)"
  by (induction xs) (auto simp: insort_key_map)

lemma touched_candidates:
  assumes "touched db db'"
  shows "\<exists>g. (\<forall>r. same_kind (g r) r) \<and> episode_candidates now db' = map g (episode_candidates now db)"
proof -
  obtain g news where s: "md_rows db' = map g (md_rows db) @ news" "\<forall>r. same_kind (g r) r"
      "list_all (\<lambda>r. mm_type r \<in> set exclude_episodic) news"
    using assms unfolding touched_def by blast
  let ?P = "\<lambda>r. is_active r \<and> mm_type r \<notin> set exclude_episodic \<and> now - 72 * hour \<le> mm_created r"
  have n: "filter ?P news = []" using s(3) by (auto simp: filter_empty_conv list_all_iff)
  have "?P (g r) = ?P r" for r using s(2) by (simp add: same_kind_def is_active_def)
  then have "filter ?P (map g (md_rows db)) = map g (filter ?P (md_rows db))" by (simp add: filter_map comp_def)
  then have "filter ?P (md_rows db') = map g (filter ?P (md_rows db))" using s(1) n by simp
  moreover have "latest_first (map g xs) = map g (latest_first xs)" for xs
    using s(2) by (simp add: latest_first_def sort_key_map_commute same_kind_def)
  ultimately have "episode_candidates now db' = map g (episode_candidates now db)"
    unfolding episode_candidates_def by (simp add: take_map)
  with s(2) show ?thesis by blast
qed



section \<open>Witnesses\<close>

definition demo_pg :: "int pg_env" where
  "demo_pg = \<lparr>pg_dist = (\<lambda>a b. of_int \<bar>a - b\<bar>), pg_ts_rank = (\<lambda>a b. 0), pg_ln = (\<lambda>x. 0), pg_pow = (\<lambda>b d. b)\<rparr>"

definition demo_memory :: "int \<Rightarrow> gotime \<Rightarrow> int memory_row" where
  "demo_memory i t = (new_row t ''likes tea'' 0)\<lparr>mm_id := i\<rparr>"

definition demo_write :: write_request where
  "demo_write = \<lparr>wr_summary = ''likes tea'', wr_tags = [], wr_salience = 5, wr_type = [], wr_source = ''conversation'',
     wr_source_date = None, wr_pipeline = 7\<rparr>"

definition demo_profile_row :: "int \<Rightarrow> int memory_row" where
  "demo_profile_row i = (identity_row i ''me'' 0)\<lparr>mm_id := i\<rparr>"

definition demo_memories :: "int mem_system" where
  "demo_memories = \<lparr>my_db = \<lparr>md_rows = [(demo_profile_row 1)\<lparr>mm_superseded := Some 2\<rparr>, demo_profile_row 2], md_next = 3\<rparr>,
     my_procs = [], my_work = []\<rparr>"

lemma demo_text: "pg_text ''me''" "pg_text ''likes tea''" "pg_text ''conversation''" "pg_text ''general''" "pg_text ''identity''"
    "pg_text ''profile''" "pg_text ''consolidation''" "pg_text []" "pg_text ''archive''" "pg_text ''forgotten''" "pg_text ''forget_topic''"
  by code_simp+

lemma demo_memories_reach: "mem_reach demo_pg demo_memories"
proof -
  let ?d = "\<lparr>md_rows = [demo_profile_row 1], md_next = 2\<rparr>"
  have a: "row_accepted (identity_row i ''me'' (0::int))" for i
    using demo_text by (simp add: row_accepted_def identity_row_def new_row_def pg_varchar_def)
  have b: "write_identity 1 True ''me'' 0 (my_db (mem_start :: int mem_system)) = Some ?d"
    using a by (simp add: write_identity_def insert_row_def mem_start_def supersede_where_def update_where_def row_ids_def
        demo_profile_row_def identity_row_def new_row_def)
  have c: "write_identity 2 True ''me'' 0 ?d = Some (my_db demo_memories)"
    using a by (simp add: write_identity_def insert_row_def supersede_where_def update_where_def row_ids_def
        demo_profile_row_def identity_row_def new_row_def is_active_def demo_memories_def)
  have "mem_reach demo_pg (set_db ?d mem_start)" by (rule mem_reach.Step [OF mem_reach.Start]) (rule mem_step.Profile [OF b])
  moreover have "mem_step demo_pg (set_db ?d mem_start) (set_db (my_db demo_memories) (set_db ?d mem_start))"
    by (rule mem_step.Profile [where now = 2 and ok = True and profile = "''me''" and v = 0]) (use c in \<open>simp add: set_db_def\<close>)
  moreover have "set_db (my_db demo_memories) (set_db ?d mem_start) = demo_memories"
    by (simp add: set_db_def mem_start_def demo_memories_def)
  ultimately show ?thesis by (metis mem_reach.Step)
qed

theorem memories_have_current_version_witness:
  "is_active (current_version (my_db demo_memories) 2 ((demo_profile_row 1)\<lparr>mm_superseded := Some 2\<rparr>))"
  using memories_have_current_version [OF demo_memories_reach, of "(demo_profile_row 1)\<lparr>mm_superseded := Some 2\<rparr>"]
  by (simp add: demo_memories_def Let_def numeral_2_eq_2)

theorem chunks_keep_text_witness:
  "\<exists>ps. concat ps = replicate 1201 CHR ''a'' \<and> list_all (\<lambda>p. p \<noteq> [] \<and> length p \<le> 1200) ps"
  using chunks_keep_text [of "replicate 1201 CHR ''a''"] by (auto simp: max_chunk_bytes_def)

theorem maintenance_never_prunes_witness:
  "1 \<in> row_ids (memory_maintenance demo_pg (10000 * day) (10000 * day) True True True 90
      \<lparr>md_rows = [demo_memory 1 0], md_next = 2\<rparr>)"
  using maintenance_never_prunes [of demo_pg "demo_memory 1 0" "\<lparr>md_rows = [demo_memory 1 0], md_next = 2\<rparr>"
      "10000 * day" "10000 * day" 90 True True]
  by (simp add: demo_pg_def demo_memory_def new_row_def day_def hour_def minute_def second_def)

theorem older_memory_preferred_witness:
  "ranking demo_pg (10 * day) 0 ''tea'' (demo_memory 1 0) < ranking demo_pg (10 * day) 0 ''tea'' ((demo_memory 2 0)\<lparr>mm_created := 5\<rparr>)"
  using older_memory_preferred [where x = "demo_memory 1 0" and db = "\<lparr>md_rows = [demo_memory 1 0, (demo_memory 2 0)\<lparr>mm_created := 5\<rparr>], md_next = 3\<rparr>"
      and y = "(demo_memory 2 0)\<lparr>mm_created := 5\<rparr>" and i = 1 and c = 0 and pg = demo_pg and now = "10 * day" and v = 0 and t = "''tea''"
      and limit = 2 and excluded = 0]
  by (simp add: demo_memory_def new_row_def prefetch_rows_def prefetchable_def is_active_def exclude_internal_def)

lemma checked_save_escapes_isolation_witness:
  "\<exists>is db' r. check_write 0 True [(''likes tea'', 0 :: int)]
      (check_first demo_write (Some []) (Some []) (Some [])) \<lparr>md_rows = [], md_next = 1\<rparr> = Some (is, db')
    \<and> r \<in> set (md_rows db') \<and> prefetchable 7 r"
proof -
  let ?st = "check_first demo_write (Some []) (Some []) (Some [])"
  have "\<exists>is db'. check_write 0 True [(''likes tea'', 0 :: int)] ?st \<lparr>md_rows = [], md_next = 1\<rparr> = Some (is, db')"
    using demo_text by (simp add: check_write_def insert_row_def row_accepted_def request_row_def check_first_def demo_write_def
        new_row_def type_of_request_def pg_varchar_def supersede_where_def contradicted_ids_def)
  then obtain "is" and db' :: "int mem_db" where w: "check_write 0 True [(''likes tea'', 0)] ?st \<lparr>md_rows = [], md_next = 1\<rparr> = Some (is, db')"
    by blast
  with checked_save_escapes_isolation [OF w] show ?thesis
    by (auto simp: check_first_def demo_write_def contradicted_ids_def type_of_request_def exclude_internal_def)
qed

lemma forgetting_erases_profile_witness:
  "\<exists>i db'. archive_topic 5 True ''me'' (map fst (topic_matches (pg_dist demo_pg) 0 \<lparr>md_rows = [demo_profile_row 1], md_next = 2\<rparr>)) 0
      \<lparr>md_rows = [demo_profile_row 1], md_next = 2\<rparr> = Some (i, db') \<and> get_identity_profile True db' = Some ''{}''"
proof -
  let ?db = "\<lparr>md_rows = [demo_profile_row 1], md_next = 2\<rparr>"
  have m: "topic_matches (pg_dist demo_pg) 0 ?db = [(1, ''me'')]"
    by (simp add: topic_matches_def demo_pg_def demo_profile_row_def identity_row_def new_row_def is_active_def)
  have t: "pg_text (archive_summary ''me'' 1)" by code_simp
  have "row_accepted (archive_row 5 (archive_summary ''me'' 1) (0 :: int))"
    using t demo_text by (simp add: row_accepted_def archive_row_def new_row_def pg_varchar_def)
  then have "\<exists>i db'. archive_topic 5 True ''me'' (map fst (topic_matches (pg_dist demo_pg) 0 ?db)) 0 ?db = Some (i, db')"
    unfolding m by (simp add: archive_topic_def insert_row_def supersede_where_def row_ids_def)
  then obtain i db' where w: "archive_topic 5 True ''me'' (map fst (topic_matches (pg_dist demo_pg) 0 ?db)) 0 ?db = Some (i, db')"
    by blast
  have "get_identity_profile True db' = Some ''{}''"
    by (rule forgetting_erases_profile [OF w]) (simp_all add: demo_pg_def demo_profile_row_def identity_row_def new_row_def)
  with w show ?thesis by blast
qed

definition demo_synth :: "(int, unit) synth_env" where
  "demo_synth = \<lparr>sn_model = (\<lambda>t s. (Some ''A tea episode.'', s)), sn_embed = (\<lambda>t s. (Inr 1, s)),
     sn_tx_ok = (\<lambda>is. True), sn_lower_ok = (\<lambda>is. True)\<rparr>"


end
