(* ===== verification/Triage.thy ===== *)
theory Triage
  imports MemUse Retry
begin

text \<open>
  The triage of conversations and emails (\<open>pipelines/triage_conversation.go\<close>, \<open>triage_queue.go\<close>): a
  model scores an exchange, and what is worth it is saved. The model, the embedding and the saving
  are parameters over a world that they change; what runs afterwards in a goroutine is returned.
\<close>

section \<open>The answer of the model\<close>

record triage_result =
  tr_salience :: rat
  tr_summary :: string
  tr_category :: string
  tr_tags :: "string list"
  tr_save :: "bool option"
  tr_shift :: bool

definition parse_triage :: "string \<Rightarrow> triage_result option" where
  "parse_triage raw =
     (case struct_members (Some raw) of
        None \<Rightarrow> None
      | Some ms \<Rightarrow>
          (let names = [''salience_score'', ''summary'', ''category'', ''tags'', ''save'', ''paradigm_shift''];
               (x, e1) = arg_float names ''salience_score'' ms; (s, e2) = arg_string names ''summary'' ms;
               (c, e3) = arg_string names ''category'' ms; (ts, e4) = arg_strings names ''tags'' ms;
               bs = arg_values names ''save'' ms; (b, e5) = set_all set_bool False bs;
               (p, e6) = arg_bool names ''paradigm_shift'' ms
           in if e1 \<or> e2 \<or> e3 \<or> e4 \<or> e5 \<or> e6 then None
              else Some \<lparr>tr_salience = x, tr_summary = s, tr_category = c, tr_tags = ts,
                tr_save = (if bs = [] \<or> last bs = JNull then None else Some b), tr_shift = p\<rparr>))"

definition cut_to :: "nat \<Rightarrow> string \<Rightarrow> string" where
  "cut_to n s = (if n < length s then truncate_str s n else s)"

text \<open>\<open>triageViaDTC\<close>: an unreadable answer counts as a middling one.\<close>

definition triage_via_dtc ::
  "(string \<Rightarrow> string \<Rightarrow> 's \<Rightarrow> (string + string) \<times> 's) \<Rightarrow> string \<Rightarrow> string \<Rightarrow> nat \<Rightarrow> 's \<Rightarrow> (string + triage_result) \<times> 's" where
  "triage_via_dtc model prompt content maxLen s =
     (let c = cut_to maxLen content in
      case model prompt c s of
        (Inl err, s1) \<Rightarrow> (Inl (''triage request: '' @ err), s1)
      | (Inr raw, s1) \<Rightarrow>
          (case parse_triage raw of
             Some r \<Rightarrow> (Inr r, s1)
           | None \<Rightarrow> (Inr \<lparr>tr_salience = 5, tr_summary = truncate_str c 200, tr_category = [], tr_tags = [],
               tr_save = None, tr_shift = False\<rparr>, s1)))"

definition assistant_mark :: string where "assistant_mark = nl @ ''assistant: ''"

definition truncate_assistant_reply :: "string \<Rightarrow> nat \<Rightarrow> string" where
  "truncate_assistant_reply exchange maxReply =
     (case str_index exchange assistant_mark of
        None \<Rightarrow> exchange
      | Some i \<Rightarrow>
          (let start = i + length assistant_mark; reply = drop start exchange
           in if length reply \<le> maxReply then exchange else take start exchange @ truncate_str reply maxReply))"

section \<open>Triage and save\<close>

record triage_request =
  tq_prompt :: string
  tq_input :: string
  tq_tag :: string
  tq_type :: string
  tq_source :: string
  tq_date :: "gotime option"
  tq_pipeline :: int
  tq_max :: nat

text \<open>
  The configuration: which of the parts there are; and the world's operations: the vector of a text,
  how many memories are near to it (\<open>None\<close>: an error), the model, the checked save (\<open>False\<close>: it failed).
\<close>

record triage_config =
  tc_dtc :: bool
  tc_grammar :: string
  tc_embed :: string
  tc_db :: bool
  tc_checked :: bool
  tc_nudge :: bool
  tc_email_prompt :: string
  tc_conversation_prompt :: string

record ('v, 's) triage_env =
  te_embed :: "string \<Rightarrow> 's \<Rightarrow> 'v option \<times> 's"
  te_near :: "'v \<Rightarrow> 's \<Rightarrow> nat"
  te_model :: "string \<Rightarrow> string \<Rightarrow> 's \<Rightarrow> (string + string) \<times> 's"
  te_save :: "write_request \<Rightarrow> 's \<Rightarrow> bool \<times> 's"

text \<open>The query behind \<open>te_near\<close>.\<close>

definition coverage_count :: "('v \<Rightarrow> 'v \<Rightarrow> rat) \<Rightarrow> 'v \<Rightarrow> 'v mem_db \<Rightarrow> nat" where
  "coverage_count dst v db =
     length (filter (\<lambda>r. is_active r \<and> dst (mm_vec r) v < 3 / 10 \<and> mm_type r \<notin> set exclude_internal) (md_rows db))"

definition annotate_coverage :: "triage_config \<Rightarrow> ('v, 's) triage_env \<Rightarrow> string \<Rightarrow> 's \<Rightarrow> string \<times> 's" where
  "annotate_coverage cfg env input s =
     (if tc_embed cfg = [] \<or> \<not> tc_db cfg then (input, s)
      else (case te_embed env (take 500 input) s of
              (None, s1) \<Rightarrow> (input, s1)
            | (Some v, s1) \<Rightarrow>
                (let n = te_near env v s1 in
                 (if 3 \<le> n then input @ nl @ ''[Memory coverage: '' @ itoa (int n)
                      @ '' similar memories exist. Only save if genuinely NEW information.]'' else input, s1))))"

text \<open>What is started after a save.\<close>

datatype triage_effect =
    SavedChecked write_request
  | SavedAsync write_request
  | PreferencePath string
  | Nudge
  | ShiftPath string "string list"

definition preference_tags :: "string list" where
  "preference_tags = [''preferences'', ''communication_style'', ''behavior'', ''response_style'']"

definition has_preference_tags :: "string list \<Rightarrow> bool" where
  "has_preference_tags tags = list_ex (\<lambda>t. t \<in> set preference_tags) tags"

definition triage_write :: "triage_request \<Rightarrow> triage_result \<Rightarrow> write_request" where
  "triage_write req r =
     \<lparr>wr_summary = tr_summary r, wr_tags = tq_tag req # tr_tags r, wr_salience = tr_salience r, wr_type = tq_type req,
      wr_source = tq_source req, wr_source_date = tq_date req, wr_pipeline = tq_pipeline req\<rparr>"

definition after_save :: "triage_config \<Rightarrow> triage_request \<Rightarrow> triage_result \<Rightarrow> triage_effect list" where
  "after_save cfg req r =
     (let tags = tq_tag req # tr_tags r in
      (if has_preference_tags tags \<and> tc_dtc cfg \<and> tc_db cfg then [PreferencePath (tr_summary r)] else [])
      @ (if 7 \<le> tr_salience r \<and> \<not> (tr_shift r \<and> 9 \<le> tr_salience r) \<and> tc_nudge cfg then [Nudge] else [])
      @ (if tr_shift r \<and> 9 \<le> tr_salience r \<and> tc_dtc cfg then [ShiftPath (tr_summary r) tags] else []))"

text \<open>The error (\<open>None\<close>: none), and what was saved and started.\<close>

definition triage_and_save ::
  "triage_config \<Rightarrow> ('v, 's) triage_env \<Rightarrow> (triage_result \<Rightarrow> bool) \<Rightarrow> triage_request \<Rightarrow> 's
     \<Rightarrow> string option \<times> triage_effect list \<times> 's" where
  "triage_and_save cfg env should_save req s =
     (if \<not> tc_dtc cfg \<or> tc_grammar cfg = [] then (Some ''triage not configured'', [], s)
      else (let (input, s1) = annotate_coverage cfg env (tq_input req) s in
            case triage_via_dtc (te_model env) (tq_prompt req) input (tq_max req) s1 of
              (Inl err, s2) \<Rightarrow> (Some err, [], s2)
            | (Inr r, s2) \<Rightarrow>
                if \<not> should_save r then (None, [], s2)
                else if tc_checked cfg
                then (case te_save env (triage_write req r) s2 of
                        (False, s3) \<Rightarrow> (None, [], s3)
                      | (True, s3) \<Rightarrow> (None, SavedChecked (triage_write req r) # after_save cfg req r, s3))
                else (None, SavedAsync (triage_write req r) # after_save cfg req r, s2)))"

section \<open>Conversations and emails\<close>

definition conversation_request :: "triage_config \<Rightarrow> string \<Rightarrow> int \<Rightarrow> triage_request" where
  "conversation_request cfg input pipeline =
     \<lparr>tq_prompt = trim_space (tc_conversation_prompt cfg), tq_input = input, tq_tag = ''conversation'', tq_type = ''general'',
      tq_source = ''conversation'', tq_date = None, tq_pipeline = pipeline, tq_max = 8000\<rparr>"

definition email_request :: "string \<Rightarrow> string \<Rightarrow> gotime option \<Rightarrow> triage_request" where
  "email_request prompt input date =
     \<lparr>tq_prompt = prompt, tq_input = input, tq_tag = ''email'', tq_type = ''email'', tq_source = ''email'', tq_date = date,
      tq_pipeline = 0, tq_max = 8000\<rparr>"

text \<open>What a closure in the retry queue does when it is called.\<close>

datatype retry_call =
    RetryConversation string string bool
  | RetryEmail string string

datatype triage_outcome =
    Trivial
  | Done "triage_effect list"
  | Queued retry_call string
  | LoggedFailure string string

text \<open>The verb \<open>%.60s\<close>: sixty runes at most.\<close>

fun take_runes :: "nat \<Rightarrow> string \<Rightarrow> string" where
  "take_runes n [] = []"
| "take_runes n (c # cs) =
     (if rune_start c then (if n = 0 then [] else c # take_runes (n - 1) cs) else c # take_runes n cs)"

definition retry_label :: "retry_call \<Rightarrow> string" where
  "retry_label c =
     (case c of
        RetryConversation input exchange tools \<Rightarrow> ''conversation triage: '' @ take_runes 60 input
      | RetryEmail input formatted \<Rightarrow> ''email triage: '' @ take_runes 60 input)"

text \<open>\<open>retry\<close>: whether there is a queue.\<close>

definition triage_failed :: "bool \<Rightarrow> retry_call \<Rightarrow> string \<Rightarrow> string \<Rightarrow> triage_outcome" where
  "triage_failed retry c op err = (if retry then Queued c (retry_label c) else LoggedFailure op err)"

text \<open>\<open>threshold\<close>: the adaptive parameters for exchanges with and without tools.\<close>

definition triage_conversation ::
  "triage_config \<Rightarrow> ('v, 's) triage_env \<Rightarrow> bool \<Rightarrow> (bool \<Rightarrow> rat) \<Rightarrow> string \<Rightarrow> bool \<Rightarrow> int \<Rightarrow> 's \<Rightarrow> triage_outcome \<times> 's" where
  "triage_conversation cfg env retry threshold exchange tools pipeline s =
     (if length (trim_space exchange) < 20 then (Trivial, s)
      else (let input = truncate_assistant_reply exchange 800 in
            case triage_and_save cfg env (\<lambda>r. threshold tools \<le> tr_salience r) (conversation_request cfg input pipeline) s of
              (None, effs, s1) \<Rightarrow> (Done effs, s1)
            | (Some err, effs, s1) \<Rightarrow> (triage_failed retry (RetryConversation input exchange tools) ''conversation_triage'' err, s1)))"

definition wanted_email :: "rat \<Rightarrow> triage_result \<Rightarrow> bool" where
  "wanted_email threshold r \<longleftrightarrow> tr_save r \<noteq> Some False \<and> threshold \<le> tr_salience r"

definition email_prompt :: "triage_config \<Rightarrow> string \<Rightarrow> string" where
  "email_prompt cfg prefs =
     (let p = trim_space (tc_email_prompt cfg) in if prefs \<noteq> [] then p @ nl @ nl @ prefs else p)"

definition triage_email ::
  "triage_config \<Rightarrow> ('v, 's) triage_env \<Rightarrow> bool \<Rightarrow> rat \<Rightarrow> string \<Rightarrow> string \<Rightarrow> gotime \<Rightarrow> 's \<Rightarrow> triage_outcome \<times> 's" where
  "triage_email cfg env retry threshold prefs formatted date s =
     (case triage_and_save cfg env (wanted_email threshold) (email_request (email_prompt cfg prefs) formatted (Some date)) s of
        (None, effs, s1) \<Rightarrow> (Done effs, s1)
      | (Some err, effs, s1) \<Rightarrow> (triage_failed retry (RetryEmail formatted formatted) ''email_triage'' err, s1))"

definition retry_triage ::
  "triage_config \<Rightarrow> ('v, 's) triage_env \<Rightarrow> retry_call \<Rightarrow> 's \<Rightarrow> string option \<times> triage_effect list \<times> 's" where
  "retry_triage cfg env c s =
     (case c of
        RetryConversation input exchange tools \<Rightarrow>
          triage_and_save cfg env (\<lambda>r. (if tools then 3 else 5) \<le> tr_salience r) (conversation_request cfg input 0) s
      | RetryEmail input formatted \<Rightarrow>
          triage_and_save cfg env (wanted_email 1) (email_request (trim_space (tc_email_prompt cfg)) input None) s)"

section \<open>Preferences\<close>

text \<open>The table \<open>personality_traits\<close>, by category and key.\<close>

type_synonym traits = "string \<times> string \<rightharpoonup> string \<times> string"

definition upsert_trait :: "bool \<Rightarrow> string \<Rightarrow> string \<Rightarrow> string \<Rightarrow> string \<Rightarrow> traits \<Rightarrow> traits option" where
  "upsert_trait ok category key v c ts =
     (if ok \<and> pg_varchar 50 category \<and> pg_varchar 255 key \<and> pg_text v \<and> pg_text c
      then Some (ts((category, key) \<mapsto> (v, c))) else None)"

definition delete_trait :: "bool \<Rightarrow> string \<Rightarrow> string \<Rightarrow> traits \<Rightarrow> traits option" where
  "delete_trait ok category key ts = (if ok then Some (ts((category, key) := None)) else None)"

text \<open>\<open>applyPreferenceFastPath\<close> on the answer of the model (\<open>None\<close>: an error): the traits, and whether the engine is refreshed.\<close>

definition apply_preference :: "bool \<Rightarrow> string option \<Rightarrow> traits \<Rightarrow> traits \<times> bool" where
  "apply_preference ok answer ts =
     (case Option.bind answer (\<lambda>raw. struct_members (Some raw)) of
        None \<Rightarrow> (ts, False)
      | Some ms \<Rightarrow>
          (let names = [''category'', ''key'', ''value'', ''context''];
               (c, e1) = arg_string names ''category'' ms; (k, e2) = arg_string names ''key'' ms;
               (v, e3) = arg_string names ''value'' ms; (x, e4) = arg_string names ''context'' ms
           in if e1 \<or> e2 \<or> e3 \<or> e4 \<or> c \<notin> {''style'', ''preference''} \<or> k = [] \<or> v = [] then (ts, False)
              else (case upsert_trait ok c k v x ts of None \<Rightarrow> (ts, False) | Some ts' \<Rightarrow> (ts', True))))"

text \<open>\<open>ApplyPersonalityUpdates\<close>: updates of the consolidation (action, category, key, value, context), and how many were applied.\<close>

record personality_update =
  pu_action :: string
  pu_category :: string
  pu_key :: string
  pu_value :: string
  pu_context :: string

definition apply_update :: "(personality_update \<Rightarrow> bool) \<Rightarrow> personality_update \<Rightarrow> traits \<times> nat \<Rightarrow> traits \<times> nat" where
  "apply_update ok u = (\<lambda>(ts, n).
     (let action = (if pu_action u = [] then ''set'' else to_lower (pu_action u));
          res = (if action = ''set'' \<and> pu_category u \<noteq> [] \<and> pu_key u \<noteq> [] \<and> pu_value u \<noteq> []
                 then upsert_trait (ok u) (pu_category u) (pu_key u) (pu_value u) (pu_context u) ts
                 else if action = ''remove'' \<and> pu_category u \<noteq> [] \<and> pu_key u \<noteq> []
                 then delete_trait (ok u) (pu_category u) (pu_key u) ts else None)
      in case res of None \<Rightarrow> (ts, n) | Some ts' \<Rightarrow> (ts', n + 1)))"

definition apply_personality_updates :: "(personality_update \<Rightarrow> bool) \<Rightarrow> personality_update list \<Rightarrow> traits \<Rightarrow> traits \<times> nat" where
  "apply_personality_updates ok us ts = fold (apply_update ok) us (ts, 0)"

text \<open>\<open>FormatPreferencesForTriage\<close>; the keys of the category \<open>preference\<close> in the order of the database.\<close>

definition format_preferences :: "string list \<Rightarrow> traits \<Rightarrow> string" where
  "format_preferences keys ts =
     (if keys = [] then []
      else ''## User Preferences'' @ nl @ ''The user has expressed these preferences. Respect them when scoring'' @ em_dash
        @ ''if an email matches a disinterest preference, score 0 and set save to false.'' @ nl
        @ concat (map (\<lambda>k. ''- '' @ k @ '': '' @ (case ts (''preference'', k) of None \<Rightarrow> [] | Some (v, c) \<Rightarrow> v) @ nl) keys))"


lemma fast_path_keeps_others:
  assumes "apply_preference ok answer ts = (ts', b)" "fst k \<notin> {''style'', ''preference''}"
  shows "ts' k = ts k"
  using assms by (cases k) (auto simp: apply_preference_def upsert_trait_def Let_def split: option.splits if_splits prod.splits)

section \<open>Nothing is lost, but the pipeline is\<close>

definition saved_by :: "triage_effect list \<Rightarrow> write_request list" where
  "saved_by effs = concat (map (\<lambda>e. case e of SavedChecked w \<Rightarrow> [w] | SavedAsync w \<Rightarrow> [w] | _ \<Rightarrow> []) effs)"

lemma saved_by_simps [simp]:
  "saved_by [] = []" "saved_by (SavedChecked w # es) = w # saved_by es" "saved_by (SavedAsync w # es) = w # saved_by es"
  by (simp_all add: saved_by_def)

lemma after_save_saves [simp]: "saved_by (after_save cfg req r) = []"
  by (simp add: saved_by_def after_save_def Let_def)

text \<open>What a triage ends with, by the answer of the model.\<close>

definition asked_result :: "triage_config \<Rightarrow> ('v, 's) triage_env \<Rightarrow> triage_request \<Rightarrow> 's \<Rightarrow> (string + triage_result) \<times> 's" where
  "asked_result cfg env req s =
     (let (input, s1) = annotate_coverage cfg env (tq_input req) s
      in triage_via_dtc (te_model env) (tq_prompt req) input (tq_max req) s1)"

lemma triage_and_save_cases:
  assumes "tc_dtc cfg" "tc_grammar cfg \<noteq> []" "triage_and_save cfg env P req s = (e, effs, s')"
  shows "case asked_result cfg env req s of
      (Inl err, s1) \<Rightarrow> e = Some err \<and> effs = [] \<and> s' = s1
    | (Inr r, s1) \<Rightarrow> e = None \<and> (saved_by effs = [triage_write req r] \<and> P r
        \<or> effs = [] \<and> (\<not> P r \<or> tc_checked cfg \<and> \<not> fst (te_save env (triage_write req r) s1)))"
  using assms by (auto simp: triage_and_save_def asked_result_def Let_def split: prod.splits sum.splits if_splits bool.splits)


text \<open>
  A retry forgets the pipeline and the adapted threshold. The closure in the retry queue does not
  know the pipeline of its exchange: what it saves belongs to none, so that the prefetch of the next
  message does not leave it out; and it goes by the fixed thresholds three and five, whatever the
  adaptive parameters are.
\<close>

lemma retry_forgets_pipeline:
  assumes "triage_conversation cfg env True threshold exchange tools pipeline s = (Queued c lbl, s1)"
    and "retry_triage cfg env2 c s2 = (err, effs, s3)" "w \<in> set (saved_by effs)"
  shows "wr_pipeline w = 0 \<and> (if tools then 3 else 5) \<le> wr_salience w"
proof -
  let ?input = "truncate_assistant_reply exchange 800"
  have c: "c = RetryConversation ?input exchange tools"
    using assms(1) by (auto simp: triage_conversation_def Let_def triage_failed_def split: if_splits prod.splits option.splits)
  let ?P = "\<lambda>r. (if tools then 3 else 5) \<le> tr_salience r"
  have t: "triage_and_save cfg env2 ?P (conversation_request cfg ?input 0) s2 = (err, effs, s3)"
    using assms(2) c by (simp add: retry_triage_def)
  show ?thesis
  proof (cases "tc_dtc cfg \<and> tc_grammar cfg \<noteq> []")
    case True
    then have d: "tc_dtc cfg" "tc_grammar cfg \<noteq> []" by auto
    obtain r where "saved_by effs = [triage_write (conversation_request cfg ?input 0) r]" "?P r"
      using triage_and_save_cases [OF d t] assms(3) by (auto split: prod.splits sum.splits)
    then show ?thesis using assms(3) by (simp add: triage_write_def conversation_request_def)
  next
    case False
    then show ?thesis using t assms(3) by (auto simp: triage_and_save_def)
  qed
qed

section \<open>Witnesses\<close>

definition demo_triage_config :: triage_config where
  "demo_triage_config = \<lparr>tc_dtc = True, tc_grammar = ''g'', tc_embed = [], tc_db = True, tc_checked = True, tc_nudge = False,
     tc_email_prompt = [], tc_conversation_prompt = []\<rparr>"

definition demo_answer :: string where
  "demo_answer = ''{'' @ [CHR 0x22] @ ''salience_score'' @ [CHR 0x22] @ '': 8, '' @ [CHR 0x22] @ ''summary'' @ [CHR 0x22] @ '': ''
     @ [CHR 0x22] @ ''tea'' @ [CHR 0x22] @ ''}''"

definition demo_triage_env :: "(string + string) \<Rightarrow> (int, unit) triage_env" where
  "demo_triage_env answer = \<lparr>te_embed = (\<lambda>t s. (None, s)), te_near = (\<lambda>v s. 0), te_model = (\<lambda>p t s. (answer, s)),
     te_save = (\<lambda>w s. (True, s))\<rparr>"

definition demo_exchange :: string where
  "demo_exchange = ''user: I like tea very much'' @ nl @ ''assistant: Noted.''"

lemma demo_triage:
  "20 \<le> length (trim_space demo_exchange)" "truncate_assistant_reply demo_exchange 800 = demo_exchange"
  "parse_triage demo_answer = Some \<lparr>tr_salience = 8, tr_summary = ''tea'', tr_category = [], tr_tags = [], tr_save = None, tr_shift = False\<rparr>"
  by code_simp+


lemma retry_forgets_pipeline_witness:
  "\<exists>c lbl effs w. triage_conversation demo_triage_config (demo_triage_env (Inl ''busy'')) True (\<lambda>t. 3) demo_exchange True 7 ()
      = (Queued c lbl, ()) \<and> retry_triage demo_triage_config (demo_triage_env (Inr demo_answer)) c () = (None, effs, ())
    \<and> saved_by effs = [w] \<and> wr_pipeline w = 0"
proof -
  have q: "triage_conversation demo_triage_config (demo_triage_env (Inl ''busy'')) True (\<lambda>t. 3) demo_exchange True 7 ()
      = (Queued (RetryConversation demo_exchange demo_exchange True) (''conversation triage: '' @ take_runes 60 demo_exchange), ())"
    using demo_triage by (simp add: triage_conversation_def triage_and_save_def annotate_coverage_def triage_via_dtc_def
        demo_triage_config_def demo_triage_env_def conversation_request_def triage_failed_def retry_label_def Let_def)
  have "\<exists>effs w. retry_triage demo_triage_config (demo_triage_env (Inr demo_answer)) (RetryConversation demo_exchange demo_exchange True) ()
      = (None, effs, ()) \<and> saved_by effs = [w]"
    using demo_triage by (simp add: retry_triage_def triage_and_save_def annotate_coverage_def triage_via_dtc_def
        demo_triage_config_def demo_triage_env_def conversation_request_def Let_def)
  then obtain effs w where r: "retry_triage demo_triage_config (demo_triage_env (Inr demo_answer))
      (RetryConversation demo_exchange demo_exchange True) () = (None, effs, ())" "saved_by effs = [w]" by blast
  with retry_forgets_pipeline [OF q r(1), of w] q show ?thesis by auto
qed

end
