(* ===== verification/Consolidate.thy ===== *)
theory Consolidate
  imports Triage MemGuarantees "HOL-Library.AList"
begin

text \<open>
  The consolidation of the memories into the profile (\<open>pipelines/consolidate_memory.go\<close>,
  \<open>consolidate_profile.go\<close>): important memories go to the deep thinker in batches, its answer changes
  the profile, the personality and the memories. A profile is a JSON object; of the encoding only the
  text of a \<open>float64\<close> is a parameter (\<open>num\<close>).
\<close>

section \<open>Profiles\<close>

type_synonym json_object = "(string \<times> json) list"

definition object_of :: "(string \<times> string \<times> json) list \<Rightarrow> json_object" where
  "object_of ms = foldl (\<lambda>m (k, raw, v). AList.update k v m) [] ms"

definition json_of_object :: "json_object \<Rightarrow> json" where
  "json_of_object m = JObj (map (\<lambda>(k, v). (k, [], v)) m)"

text \<open>\<open>json.Unmarshal\<close> into a map: \<open>None\<close> an error, \<open>Some None\<close> the nil map of the text null.\<close>

definition parse_object :: "string \<Rightarrow> json_object option option" where
  "parse_object s =
     (case json_parse s of
        Some (JObj ms) \<Rightarrow> if floats_ok (JObj ms) then Some (Some (object_of ms)) else None
      | Some JNull \<Rightarrow> Some None
      | _ \<Rightarrow> None)"

text \<open>\<open>toObjectSlice\<close>, and back.\<close>

fun object_slice :: "json option \<Rightarrow> json_object list" where
  "object_slice (Some (JArr vs)) = concat (map (\<lambda>v. case v of JObj ms \<Rightarrow> [object_of ms] | _ \<Rightarrow> []) vs)"
| "object_slice _ = []"

definition json_of_slice :: "json_object list \<Rightarrow> json" where
  "json_of_slice os = JArr (map json_of_object os)"

text \<open>
  \<open>mergeObjectArray\<close>: an object whose identifier is known is copied into the last one of that
  identifier, others are appended; a nil
  slice is encoded as null. \<open>key\<close> is the identifier of a value,
  \<open>strings.ToLower(fmt.Sprint(v))\<close> with all of Unicode.
\<close>

definition ident_of :: "(json \<Rightarrow> string) \<Rightarrow> string \<Rightarrow> json_object \<Rightarrow> string option" where
  "ident_of key f m =
     map_option key (map_of m f)"

definition index_of :: "(json \<Rightarrow> string) \<Rightarrow> string \<Rightarrow> string \<Rightarrow> json_object list \<Rightarrow> nat option" where
  "index_of key f k os =
     (case rev (filter (\<lambda>i. ident_of key f (os ! i) = Some k) [0..<length os]) of [] \<Rightarrow> None | i # _ \<Rightarrow> Some i)"

definition upsert_object :: "(json \<Rightarrow> string) \<Rightarrow> string \<Rightarrow> (string \<rightharpoonup> nat) \<times> json_object list \<Rightarrow> json_object
    \<Rightarrow> (string \<rightharpoonup> nat) \<times> json_object list" where
  "upsert_object key f = (\<lambda>(index, os) u.
     (case ident_of key f u of
        None \<Rightarrow> (index, os @ [u])
      | Some k \<Rightarrow>
          (case index k of
             Some i \<Rightarrow> (index, os[i := foldl (\<lambda>m (k, v). AList.update k v m) (os ! i) u])
           | None \<Rightarrow> (index(k \<mapsto> length os), os @ [u]))))"

definition merge_object_array :: "(json \<Rightarrow> string) \<Rightarrow> json option \<Rightarrow> json option \<Rightarrow> string \<Rightarrow> json" where
  "merge_object_array key cur upd f =
     (let os = object_slice cur;
          merged = snd (foldl (upsert_object key f) (\<lambda>k. index_of key f k os, os) (object_slice upd))
      in if merged = [] \<and> (case cur of Some (JArr vs) \<Rightarrow> False | _ \<Rightarrow> True) then JNull else json_of_slice merged)"

definition card_keys :: "string list" where "card_keys = [''name'', ''important_people'', ''last_consolidated'']"

definition apply_key :: "(json \<Rightarrow> string) \<Rightarrow> string \<times> json \<Rightarrow> json_object \<Rightarrow> json_object" where
  "apply_key key = (\<lambda>(k, v) m.
     AList.update k (if k = ''important_people'' then merge_object_array key (map_of m k) (Some v) ''name'' else v) m)"

definition max_people :: nat where "max_people = 15"

definition cap_people :: "json_object \<Rightarrow> json_object" where
  "cap_people m =
     (let people = object_slice (map_of m ''important_people'') in
      if max_people < length people
      then AList.update ''important_people'' (json_of_slice (drop (length people - max_people) people)) m else m)"

text \<open>
  \<open>mergeProfileJSON\<close> up to the encoding: \<open>Inl\<close> the updates do not parse; a profile that is the text
  null is a nil map, into which Go cannot write.
\<close>

definition merge_profile :: "(json \<Rightarrow> string) \<Rightarrow> string \<Rightarrow> string \<Rightarrow> (unit + json_object) go" where
  "merge_profile key current updates =
     (case parse_object updates of
        None \<Rightarrow> Ret (Inl ())
      | Some u \<Rightarrow>
          (let us = (case u of None \<Rightarrow> [] | Some m \<Rightarrow> m);
               cur = (case parse_object current of None \<Rightarrow> Some [] | Some c \<Rightarrow> c)
           in case cur of
                None \<Rightarrow> if us \<noteq> [] then Panic else Ret (Inr [])
              | Some m \<Rightarrow> Ret (Inr (cap_people (filter (\<lambda>(k, v). k \<in> set card_keys) (fold (apply_key key) us m))))))"

definition validate_profile :: "json_object \<Rightarrow> json_object \<Rightarrow> bool" where
  "validate_profile merged current \<longleftrightarrow>
     list_all (\<lambda>k. map_of current k \<noteq> None \<longrightarrow> map_of merged k \<noteq> None) [''name'', ''important_people'']"

subsection \<open>Encoding\<close>

text \<open>\<open>json.MarshalIndent\<close> with the prefix and the indentation of two blanks; the keys of a map are sorted.\<close>

fun string_le :: "string \<Rightarrow> string \<Rightarrow> bool" where
  "string_le [] t = True"
| "string_le (c # cs) [] = False"
| "string_le (c # cs) (d # ds) \<longleftrightarrow> byte_of c < byte_of d \<or> (c = d \<and> string_le cs ds)"

fun insert_member :: "string \<times> 'a \<Rightarrow> (string \<times> 'a) list \<Rightarrow> (string \<times> 'a) list" where
  "insert_member x [] = [x]"
| "insert_member x (y # ys) = (if string_le (fst x) (fst y) then x # y # ys else y # insert_member x ys)"

definition line_break :: "nat \<Rightarrow> string" where
  "line_break d = nl @ concat (replicate d ''  '')"

definition bracketed_items :: "nat \<Rightarrow> string \<Rightarrow> string \<Rightarrow> string list \<Rightarrow> string" where
  "bracketed_items d a b xs = (if xs = [] then a @ b else a @ str_join '','' (map ((@) (line_break (d + 1))) xs) @ line_break d @ b)"

definition last_members :: "(string \<times> 'a) list \<Rightarrow> (string \<times> 'a) list" where
  "last_members ms = foldr insert_member (foldl (\<lambda>m (k, v). AList.update k v m) [] ms) []"

text \<open>The nesting of a value bounds the recursion.\<close>

fun json_depth :: "json \<Rightarrow> nat" where
  "json_depth (JArr vs) = Suc (foldr (max \<circ> json_depth) vs 0)"
| "json_depth (JObj ms) = Suc (foldr (\<lambda>(k, raw, v). max (json_depth v)) ms 0)"
| "json_depth _ = 0"

fun marshal_fuel :: "nat \<Rightarrow> (string \<Rightarrow> string) \<Rightarrow> nat \<Rightarrow> json \<Rightarrow> string" where
  "marshal_fuel n num d JNull = ''null''"
| "marshal_fuel n num d (JBool b) = (if b then ''true'' else ''false'')"
| "marshal_fuel n num d (JNum t) = num t"
| "marshal_fuel n num d (JStr t) = json_quote t"
| "marshal_fuel (Suc n) num d (JArr vs) = bracketed_items d ''['' '']'' (map (marshal_fuel n num (d + 1)) vs)"
| "marshal_fuel (Suc n) num d (JObj ms) =
     bracketed_items d ''{'' ''}'' (map (\<lambda>(k, v). json_quote k @ '': '' @ marshal_fuel n num (d + 1) v)
       (last_members (map (\<lambda>(k, raw, v). (k, v)) ms)))"
| "marshal_fuel 0 num d v = []"

definition marshal_value :: "(string \<Rightarrow> string) \<Rightarrow> json \<Rightarrow> string" where
  "marshal_value num v = marshal_fuel (json_depth v) num 1 v"

definition marshal_profile :: "(string \<Rightarrow> string) \<Rightarrow> json_object \<Rightarrow> string" where
  "marshal_profile num m =
     ''{'' @ nl @ str_join ('','' @ nl)
       (concat (map (\<lambda>k. case map_of m k of None \<Rightarrow> [] | Some v \<Rightarrow> [''  '' @ go_quote k @ '': '' @ marshal_value num v]) card_keys))
     @ nl @ ''}''"

section \<open>Batches\<close>

definition memory_line :: "int \<times> string \<Rightarrow> string" where
  "memory_line = (\<lambda>(i, s). ''[id='' @ itoa i @ ''] '' @ s @ nl)"

definition batch_budget :: "int \<Rightarrow> nat \<Rightarrow> int" where
  "batch_budget maxChars fixed = max 500 ((if maxChars \<le> 0 then 50000 else maxChars) - int fixed)"

text \<open>The memories that fit; the first one always does.\<close>

fun fill_batch :: "int \<Rightarrow> int \<Rightarrow> nat \<Rightarrow> (int \<times> string) list \<Rightarrow> nat" where
  "fill_batch budget used n [] = n"
| "fill_batch budget used n (m # ms) =
     (let l = int (length (memory_line m)) in
      if used + l > budget \<and> n > 0 then n else fill_batch budget (used + l) (n + 1) ms)"

definition batch_size :: "int \<Rightarrow> (int \<times> string) list \<Rightarrow> nat" where
  "batch_size budget ms = fill_batch budget 0 0 ms"

lemma fill_batch_bounds: "n \<le> fill_batch budget used n ms \<and> fill_batch budget used n ms \<le> n + length ms"
proof (induction ms arbitrary: used n)
  case (Cons m ms)
  show ?case using Cons [where used = "used + int (length (memory_line m))" and n = "n + 1"] by (auto simp: Let_def)
qed simp

lemma batch_size_bounds: "ms \<noteq> [] \<Longrightarrow> 0 < batch_size budget ms \<and> batch_size budget ms \<le> length ms"
proof (cases ms)
  case (Cons m ms')
  then show ?thesis
    using fill_batch_bounds [of 1 budget "int (length (memory_line m))" ms'] by (simp add: batch_size_def Let_def)
qed simp

lemma batch_size_pos [simp]: "ms \<noteq> [] \<Longrightarrow> 0 < batch_size budget ms"
  using batch_size_bounds by blast

definition batch_length :: "(int \<times> string) list \<Rightarrow> int" where
  "batch_length ms = int (length (concat (map memory_line ms)))"

lemma fill_batch_fits:
  "0 < n \<Longrightarrow> used \<le> budget \<Longrightarrow> used + batch_length (take (fill_batch budget used n ms - n) ms) \<le> budget"
proof (induction ms arbitrary: used n)
  case (Cons m ms)
  show ?case
  proof (cases "used + int (length (memory_line m)) > budget")
    case False
    have "n + 1 \<le> fill_batch budget (used + int (length (memory_line m))) (n + 1) ms"
      using fill_batch_bounds by blast
    then have "fill_batch budget (used + int (length (memory_line m))) (n + 1) ms - n
        = Suc (fill_batch budget (used + int (length (memory_line m))) (n + 1) ms - (n + 1))" by simp
    then show ?thesis using Cons.IH [of "n + 1" "used + int (length (memory_line m))"] False
      by (simp add: Let_def batch_length_def del: diff_Suc_Suc)
  qed (use Cons.prems in \<open>simp add: Let_def batch_length_def\<close>)
qed (simp add: batch_length_def)

lemma fill_batch_over:
  "0 < n \<Longrightarrow> budget < used \<Longrightarrow> fill_batch budget used n ms = n"
  by (cases ms) (auto simp: Let_def)

lemma batch_size_fits:
  assumes "1 < batch_size budget ms"
  shows "batch_length (take (batch_size budget ms) ms) \<le> budget"
proof (cases ms)
  case (Cons m ms')
  let ?l = "int (length (memory_line m))"
  have e: "batch_size budget ms = fill_batch budget ?l 1 ms'" by (simp add: batch_size_def Cons Let_def)
  then have "?l \<le> budget" using assms fill_batch_over [of 1 budget ?l ms'] by force
  then have f: "?l + batch_length (take (fill_batch budget ?l 1 ms' - 1) ms') \<le> budget"
    by (intro fill_batch_fits) auto
  obtain k where "fill_batch budget ?l 1 ms' = Suc k" using assms e by (cases "fill_batch budget ?l 1 ms'") auto
  then show ?thesis using f e by (simp add: Cons batch_length_def)
qed (use assms in \<open>simp add: batch_size_def\<close>)

definition trait_json :: "string \<times> string \<times> string \<times> string \<Rightarrow> string" where
  "trait_json = (\<lambda>(c, k, v, x).
     bracketed_items 1 ''{'' ''}'' (map (\<lambda>(n, t). json_quote n @ '': '' @ json_quote t) [(''category'', c), (''key'', k), (''value'', v)]
       @ (if x = [] then [] else [json_quote ''context'' @ '': '' @ json_quote x])))"


definition traits_json :: "(string \<times> string \<times> string \<times> string) list \<Rightarrow> string" where
  "traits_json ts =
     ''['' @ str_join '','' (map (\<lambda>t. line_break 1 @ trait_json t) ts) @ line_break 0 @ '']''"

text \<open>The part of the prompt before the memories; \<open>clock\<close> is the text of \<open>timefmt.Now\<close>.\<close>

definition consolidation_prompt :: "string \<Rightarrow> string \<Rightarrow> (string \<times> string \<times> string \<times> string) list \<Rightarrow> string" where
  "consolidation_prompt clock profile ts =
     ''CURRENT USER PROFILE:'' @ nl @ profile @ nl @ nl @ ''CURRENT PERSONALITY:'' @ nl
     @ (if ts = [] then ''(none)'' @ nl else traits_json ts @ nl)
     @ nl @ ''HIGH-SALIENCE MEMORIES:'' @ nl @ ''(Current time: '' @ clock @ '')'' @ nl @ nl"

section \<open>The answer\<close>

record consolidation_output =
  co_updates :: string
  co_profile :: string
  co_personality :: "personality_update list"
  co_merges :: "(int list \<times> string) list"

definition profile_data :: "consolidation_output \<Rightarrow> string" where
  "profile_data c = (if co_updates c \<noteq> [] then co_updates c else co_profile c)"

definition arg_raw :: "string list \<Rightarrow> string \<Rightarrow> (string \<times> string \<times> json) list \<Rightarrow> string" where
  "arg_raw names k ms =
     (case rev (filter (\<lambda>(k', raw, v). field_of names k' = Some k) ms) of [] \<Rightarrow> [] | (k', raw, v) # _ \<Rightarrow> raw)"

fun decode_update :: "json \<Rightarrow> personality_update \<times> bool" where
  "decode_update JNull = (\<lparr>pu_action = [], pu_category = [], pu_key = [], pu_value = [], pu_context = []\<rparr>, False)"
| "decode_update (JObj ms) =
     (let names = [''action'', ''category'', ''key'', ''value'', ''context''];
          (a, e1) = arg_string names ''action'' ms; (c, e2) = arg_string names ''category'' ms;
          (k, e3) = arg_string names ''key'' ms; (v, e4) = arg_string names ''value'' ms;
          (x, e5) = arg_string names ''context'' ms
      in (\<lparr>pu_action = a, pu_category = c, pu_key = k, pu_value = v, pu_context = x\<rparr>, e1 \<or> e2 \<or> e3 \<or> e4 \<or> e5))"
| "decode_update _ = (\<lparr>pu_action = [], pu_category = [], pu_key = [], pu_value = [], pu_context = []\<rparr>, True)"

fun decode_ints :: "json \<Rightarrow> int list \<times> bool" where
  "decode_ints JNull = ([], False)"
| "decode_ints (JArr vs) = (let rs = map (\<lambda>v. set_int v 0) vs in (map fst rs, list_ex snd rs))"
| "decode_ints _ = ([], True)"

fun decode_merge :: "json \<Rightarrow> (int list \<times> string) \<times> bool" where
  "decode_merge JNull = (([], []), False)"
| "decode_merge (JObj ms) =
     (let names = [''source_ids'', ''merged_summary''];
          is = map decode_ints (arg_values names ''source_ids'' ms); (s, e) = arg_string names ''merged_summary'' ms
      in ((if is = [] then [] else fst (last is), s), e \<or> list_ex snd is))"
| "decode_merge _ = (([], []), True)"

fun decode_all :: "(json \<Rightarrow> 'a \<times> bool) \<Rightarrow> json \<Rightarrow> 'a list \<times> bool" where
  "decode_all f JNull = ([], False)"
| "decode_all f (JArr vs) = (let rs = map f vs in (map fst rs, list_ex snd rs))"
| "decode_all f _ = ([], True)"

definition parse_output :: "string \<Rightarrow> consolidation_output option" where
  "parse_output raw =
     (case struct_members (Some raw) of
        None \<Rightarrow> None
      | Some ms \<Rightarrow>
          (let names = [''profile_updates'', ''user_profile'', ''personality_updates'', ''memory_merges''];
               ps = map (decode_all decode_update) (arg_values names ''personality_updates'' ms);
               gs = map (decode_all decode_merge) (arg_values names ''memory_merges'' ms)
           in if list_ex snd ps \<or> list_ex snd gs then None
              else Some \<lparr>co_updates = arg_raw names ''profile_updates'' ms, co_profile = arg_raw names ''user_profile'' ms,
                co_personality = (if ps = [] then [] else fst (last ps)), co_merges = (if gs = [] then [] else fst (last gs))\<rparr>))"

section \<open>Applying it\<close>

text \<open>The memories, the traits, and the enrichments that were started.\<close>

record 'v cons_world =
  kw_db :: "'v mem_db"
  kw_traits :: traits
  kw_started :: "mem_work list"

text \<open>
  What surrounds the consolidation: the deep thinker and the embedding over a state, the texts, and
  the traits in the order of the database (none when they cannot be read), and
  whether the statements succeed; error texts are without the number of the batch; \<open>kn_begin\<close> is the start of the transaction of a merge.
\<close>

record ('v, 's) cons_env =
  kn_model :: "string \<Rightarrow> 's \<Rightarrow> (string + string) \<times> 's"
  kn_embed :: "string \<Rightarrow> 's \<Rightarrow> (string + 'v) \<times> 's"
  kn_num :: "string \<Rightarrow> string"
  kn_key :: "json \<Rightarrow> string"
  kn_clock :: string
  kn_traits :: "traits \<Rightarrow> (string \<times> string \<times> string \<times> string) list"
  kn_prompt_length :: nat
  kn_now :: gotime
  kn_enrich :: bool
  kn_profile_ok :: "string \<Rightarrow> bool"
  kn_read_ok :: bool
  kn_trait_ok :: "personality_update \<Rightarrow> bool"
  kn_salience_ok :: "int list \<Rightarrow> bool"
  kn_begin :: "int list \<Rightarrow> bool"
  kn_tx :: "int list \<Rightarrow> bool"

definition write_profile :: "('v, 's) cons_env \<Rightarrow> string \<Rightarrow> 'v cons_world \<times> 's \<Rightarrow> bool \<times> 'v cons_world \<times> 's" where
  "write_profile env profile = (\<lambda>(w, s).
     (case embed_with_fallback (kn_embed env) (''identity profile: '' @ profile) s of
        (Inr (p # ps), s1) \<Rightarrow>
          (case write_identity (kn_now env) (kn_profile_ok env profile) profile (snd p) (kw_db w) of
             None \<Rightarrow> (False, w, s1)
           | Some db \<Rightarrow> (True, w\<lparr>kw_db := db\<rparr>, s1))
      | (_, s1) \<Rightarrow> (False, w, s1)))"

text \<open>\<open>applyMemoryMerges\<close>; when a transaction cannot begin, the rest is left.\<close>

fun apply_merges :: "('v, 's) cons_env \<Rightarrow> int list \<Rightarrow> (int list \<times> string) list \<Rightarrow> 'v cons_world \<times> 's \<Rightarrow> 'v cons_world \<times> 's" where
  "apply_merges env batch [] ws = ws"
| "apply_merges env batch (m # ms) (w, s) =
     (if \<not> merge_valid batch m \<or> \<not> kn_salience_ok env (fst m) then apply_merges env batch ms (w, s)
      else (case kn_embed env (snd m) s of
              (Inl e, s1) \<Rightarrow> apply_merges env batch ms (w, s1)
            | (Inr v, s1) \<Rightarrow>
                if \<not> kn_begin env (fst m) then (w, s1)
                else (case merge_memories (kn_now env) (kn_tx env (fst m)) batch m v (kw_db w) of
                        None \<Rightarrow> apply_merges env batch ms (w, s1)
                      | Some (i, db) \<Rightarrow>
                          apply_merges env batch ms (w\<lparr>kw_db := db, kw_started := kw_started w
                            @ (if kn_enrich env then [Enrich [i] (snd m) (max_salience (fst m) (kw_db w)) []] else [])\<rparr>, s1))))"

text \<open>The merged profile when it is to be written: it is valid and new.\<close>

definition current_object :: "string \<Rightarrow> json_object" where
  "current_object current = (case parse_object current of Some (Some m) \<Rightarrow> m | _ \<Rightarrow> [])"

definition new_profile :: "('v, 's) cons_env \<Rightarrow> string \<Rightarrow> json_object \<Rightarrow> string option" where
  "new_profile env current merged =
     (let t = marshal_profile (kn_num env) merged in
      if validate_profile merged (current_object current) \<and> trim_space t \<noteq> trim_space current then Some t else None)"

definition apply_dual ::
  "('v, 's) cons_env \<Rightarrow> consolidation_output \<Rightarrow> string \<Rightarrow> int list \<Rightarrow> 'v cons_world \<times> 's \<Rightarrow> (bool \<times> 'v cons_world \<times> 's) go" where
  "apply_dual env dual current batch ws =
     (let pd = profile_data dual in
      case (if pd \<in> {[], ''null'', ''{}''} then Ret (Inl ()) else merge_profile (kn_key env) current pd) of
        Panic \<Rightarrow> Panic
      | Ret merged \<Rightarrow>
          (let (ok, w, s) = (case (case merged of Inl _ \<Rightarrow> None | Inr m \<Rightarrow> new_profile env current m) of
                  None \<Rightarrow> (True, ws) | Some t \<Rightarrow> write_profile env t ws)
           in Ret (if \<not> ok then (False, w, s)
                   else (True, apply_merges env batch (co_merges dual)
                     (w\<lparr>kw_traits := fst (apply_personality_updates (kn_trait_ok env) (co_personality dual) (kw_traits w))\<rparr>, s)))))"

definition answers_dual :: "string \<Rightarrow> consolidation_output option" where
  "answers_dual raw =
     Option.bind (parse_output raw) (\<lambda>d. if profile_data d \<noteq> [] \<or> co_personality d \<noteq> [] \<or> co_merges d \<noteq> [] then Some d else None)"

text \<open>
  \<open>applyConsolidationResult\<close>: an error, or the profile to go on with (empty: unchanged) and the number
  of memories that count as processed.
\<close>

definition apply_result ::
  "('v, 's) cons_env \<Rightarrow> string \<Rightarrow> string \<Rightarrow> nat \<Rightarrow> int list \<Rightarrow> 'v cons_world \<times> 's
     \<Rightarrow> ((string + string \<times> nat) \<times> 'v cons_world \<times> 's) go" where
  "apply_result env raw current n batch ws =
     (case answers_dual raw of
        Some d \<Rightarrow>
          (case apply_dual env d current batch ws of
             Panic \<Rightarrow> Panic
           | Ret (False, ws1) \<Rightarrow> Ret (Inl ''write updated profile'', ws1)
           | Ret (True, ws1) \<Rightarrow>
               Ret (Inr (case get_identity_profile (kn_read_ok env) (kw_db (fst ws1)) of None \<Rightarrow> current | Some p \<Rightarrow> p, n), ws1))
      | None \<Rightarrow>
          (case struct_members (Some raw) of
             None \<Rightarrow> Ret (Inl ''invalid JSON from deep thinker'', ws)
           | Some ms \<Rightarrow>
               if \<not> list_ex (\<lambda>(k, r, v). k \<in> {''name'', ''important_people''}) ms
               then Ret (Inr ([], 0), ws)
               else (case merge_profile (kn_key env) current raw of
                       Panic \<Rightarrow> Panic
                     | Ret (Inl _) \<Rightarrow> Ret (Inl ''merge profile'', ws)
                     | Ret (Inr m) \<Rightarrow>
                         if \<not> validate_profile m (current_object current) then Ret (Inr ([], 0), ws)
                         else (case new_profile env current m of
                                 None \<Rightarrow> Ret (Inr ([], n), ws)
                               | Some t \<Rightarrow>
                                   (case write_profile env t ws of
                                      (False, ws1) \<Rightarrow> Ret (Inl ''write updated profile'', ws1)
                                    | (True, ws1) \<Rightarrow> Ret (Inr (t, n), ws1))))))"

section \<open>The loop\<close>

definition fixed_prompt :: "('v, 's) cons_env \<Rightarrow> string \<Rightarrow> traits \<Rightarrow> string" where
  "fixed_prompt env current ts = consolidation_prompt (kn_clock env) current (kn_traits env ts)"

text \<open>The longest batch for which the prompt stays in the budget, and the prompt.\<close>

definition next_batch :: "('v, 's) cons_env \<Rightarrow> int \<Rightarrow> string \<Rightarrow> traits \<Rightarrow> (int \<times> string) list \<Rightarrow> (int \<times> string) list" where
  "next_batch env maxChars current ts ms =
     take (batch_size (batch_budget maxChars (length (fixed_prompt env current ts) + kn_prompt_length env)) ms) ms"

lemma next_batch_nonempty [simp]: "ms \<noteq> [] \<Longrightarrow> next_batch env maxChars current ts ms \<noteq> []"
  by (simp add: next_batch_def)

lemma next_batch_app: "next_batch env maxChars current ts ms @ drop (length (next_batch env maxChars current ts ms)) ms = ms"
  by (metis next_batch_def append_take_drop_id append_eq_conv_conj)

text \<open>The last component is what the model was shown: the batches that were sent, in order.\<close>

function consolidate_loop ::
  "('v, 's) cons_env \<Rightarrow> int \<Rightarrow> nat \<Rightarrow> string \<Rightarrow> (int \<times> string) list \<Rightarrow> 'v cons_world \<times> 's
     \<Rightarrow> ((string option \<times> nat) \<times> ('v cons_world \<times> 's) \<times> (int \<times> string) list list) go" where
  "consolidate_loop env maxChars done_n current ms ws =
     (if ms = [] then Ret ((None, done_n), ws, [])
      else (let batch = next_batch env maxChars current (kw_traits (fst ws)) ms;
                prompt = fixed_prompt env current (kw_traits (fst ws)) @ concat (map memory_line batch);
                (answer, s1) = kn_model env prompt (snd ws)
            in case answer of
                 Inl e \<Rightarrow> Ret ((Some (''consolidation request: '' @ e), done_n), (fst ws, s1), [batch])
               | Inr raw \<Rightarrow>
                   (case apply_result env (clean_llm_json raw) current (length batch) (map fst batch) (fst ws, s1) of
                      Panic \<Rightarrow> Panic
                    | Ret (Inl e, ws1) \<Rightarrow> Ret ((Some (''apply consolidation: '' @ e), done_n), ws1, [batch])
                    | Ret (Inr (p, n), ws1) \<Rightarrow>
                        (case consolidate_loop env maxChars (done_n + n) (if p \<noteq> [] then p else current)
                                (drop (length batch) ms) ws1 of
                           Panic \<Rightarrow> Panic
                         | Ret (r, ws2, bs) \<Rightarrow> Ret (r, ws2, batch # bs)))))"
  by pat_completeness auto
termination
  by (relation "measure (\<lambda>(env, c, t, p, ms, ws). length ms)") auto

declare consolidate_loop.simps [simp del]

definition consolidate_core ::
  "('v, 's) cons_env \<Rightarrow> bool \<Rightarrow> int \<Rightarrow> nat \<Rightarrow> int \<Rightarrow> 'v cons_world \<times> 's
     \<Rightarrow> ((string option \<times> nat) \<times> ('v cons_world \<times> 's) \<times> (int \<times> string) list list) go" where
  "consolidate_core env ok threshold limit maxChars ws =
     (if \<not> ok then Ret ((Some ''query high-salience memories'', 0), ws, [])
      else (let ms = query_high_salience (kn_now env) threshold limit (kw_db (fst ws));
                current = (case get_identity_profile (kn_read_ok env) (kw_db (fst ws)) of None \<Rightarrow> ''{}'' | Some p \<Rightarrow> p)
            in consolidate_loop env maxChars 0 current ms ws))"

text \<open>
  The tool \<open>consolidate_memory\<close> (the answer, and whether the engine is refreshed), and the run
  of the fast path.
\<close>

definition consolidate_memory ::
  "('v, 's) cons_env \<Rightarrow> bool \<Rightarrow> bool \<Rightarrow> bool \<Rightarrow> nat \<Rightarrow> 'v cons_world \<times> 's \<Rightarrow> (string \<times> bool \<times> 'v cons_world \<times> 's) go" where
  "consolidate_memory env pool dtc ok limit ws =
     (if \<not> pool then Ret (''Memory consolidation unavailable: no database configured.'', False, ws)
      else if \<not> dtc then Ret (''Memory consolidation unavailable: no deep thinker configured.'', False, ws)
      else (case consolidate_core env ok 8 limit 0 ws of
              Panic \<Rightarrow> Panic
            | Ret ((Some e, n), ws1, bs) \<Rightarrow> Ret (''Consolidation failed: '' @ e, False, ws1)
            | Ret ((None, n), ws1, bs) \<Rightarrow>
                if n = 0 then Ret (''No high-salience memories (score 8+) found in the last 24 hours. No consolidation needed.'', False, ws1)
                else Ret (''Memory consolidation complete. Synthesized '' @ itoa (int n) @ '' high-salience memories into core profile.'',
                  True, ws1)))"

definition consolidate_immediate ::
  "('v, 's) cons_env \<Rightarrow> bool \<Rightarrow> 'v cons_world \<times> 's \<Rightarrow> (string option \<times> 'v cons_world \<times> 's) go" where
  "consolidate_immediate env ok ws =
     (case consolidate_core env ok 8 10 0 ws of Panic \<Rightarrow> Panic | Ret ((e, n), ws1, bs) \<Rightarrow> Ret (e, ws1))"

section \<open>What the consolidation keeps\<close>

lemma map_of_filter_key: "map_of (filter (\<lambda>(k, v). k \<in> S) m) k = (if k \<in> S then map_of m k else None)"
  by (induction m) auto

lemma apply_key_keeps: "map_of m k \<noteq> None \<Longrightarrow> map_of (apply_key key kv m) k \<noteq> None"
  by (cases kv) (auto simp: apply_key_def update_conv')

lemma apply_keys_keep: "map_of m k \<noteq> None \<Longrightarrow> map_of (fold (apply_key key) us m) k \<noteq> None"
  by (induction us arbitrary: m) (use apply_key_keeps in auto)

lemma length_object_slice: "length (object_slice (Some (json_of_slice os))) = length os"
  by (induction os) (auto simp: json_of_slice_def json_of_object_def)

lemma cap_people_keys: "map_of m k \<noteq> None \<Longrightarrow> map_of (cap_people m) k \<noteq> None"
  by (auto simp: cap_people_def Let_def update_conv')

lemma cap_people_card: "fst ` set m \<subseteq> set card_keys \<Longrightarrow> fst ` set (cap_people m) \<subseteq> set card_keys"
  by (auto simp: cap_people_def Let_def dom_update card_keys_def)

lemma cap_people_bound: "length (object_slice (map_of (cap_people m) ''important_people'')) \<le> max_people"
  by (auto simp: cap_people_def Let_def update_conv' length_object_slice)

text \<open>
  C36: \<open>mergeProfileJSON\<close> keeps the identity card: what it returns has only the three keys of the card, at
  most 15 important people, and, whatever the deep thinker sends, every essential key the stored profile
  had, so that \<open>validateProfile\<close> never rejects a merged profile.
\<close>

theorem merged_profile_is_card:
  assumes "merge_profile key current updates = Ret (Inr m)"
  shows "fst ` set m \<subseteq> set card_keys \<and> length (object_slice (map_of m ''important_people'')) \<le> max_people
    \<and> validate_profile m (current_object current)"
proof -
  obtain u where u: "parse_object updates = Some u"
    using assms by (cases "parse_object updates") (auto simp: merge_profile_def)
  let ?us = "case u of None \<Rightarrow> [] | Some m \<Rightarrow> m"
  consider "m = []" "parse_object current = Some None"
    | c us where "m = cap_people (filter (\<lambda>(k, v). k \<in> set card_keys) (fold (apply_key key) us c))"
        "current_object current = c"
  proof (cases "parse_object current")
    case None
    then show ?thesis using that(2) [of ?us "[]"] assms u by (simp add: merge_profile_def current_object_def Let_def)
  next
    case (Some p)
    then show ?thesis using that assms u
      by (cases p) (auto simp: merge_profile_def current_object_def Let_def split: if_splits)
  qed
  then show ?thesis
  proof cases
    case 2
    have "map_of m k \<noteq> None" if "map_of c k \<noteq> None" "k \<in> set card_keys" for k
      unfolding 2 by (rule cap_people_keys) (use apply_keys_keep [OF that(1)] that(2) in \<open>simp add: map_of_filter_key\<close>)
    then have "validate_profile m c" by (simp add: validate_profile_def card_keys_def)
    moreover have "fst ` set m \<subseteq> set card_keys" unfolding 2 by (rule cap_people_card) auto
    ultimately show ?thesis using cap_people_bound 2 by simp
  qed (simp add: current_object_def validate_profile_def)
qed

lemma apply_result_count:
  "apply_result env raw current n batch ws = Ret (Inr (p, k), ws1) \<Longrightarrow> k \<le> n"
  by (auto simp: apply_result_def split: option.splits go.splits sum.splits if_splits bool.splits prod.splits)

lemma loop_partitions:
  "consolidate_loop env maxChars d current ms ws = Ret ((e, n), ws', bs) \<Longrightarrow>
     [] \<notin> set bs \<and> (\<exists>rest. ms = concat bs @ rest \<and> (e = None \<longrightarrow> rest = [])) \<and> n \<le> d + length (concat bs)"
proof (induction env maxChars d current ms ws arbitrary: e n ws' bs rule: consolidate_loop.induct)
  case (1 env maxChars d current ms ws)
  show ?case
  proof (cases "ms = []")
    case False
    define batch where "batch = next_batch env maxChars current (kw_traits (fst ws)) ms"
    define prompt where "prompt = fixed_prompt env current (kw_traits (fst ws)) @ concat (map memory_line batch)"
    have ne: "batch \<noteq> []" by (simp add: batch_def False)
    have app: "batch @ drop (length batch) ms = ms" by (simp add: batch_def next_batch_app)
    obtain answer s1 where a: "kn_model env prompt (snd ws) = (answer, s1)" by force
    have eq: "Ret ((e, n), ws', bs) = consolidate_loop env maxChars d current ms ws" using "1.prems" by simp
    note eq = eq [unfolded consolidate_loop.simps [of env maxChars d current ms ws] Let_def, folded batch_def,
        folded prompt_def, unfolded a, simplified False, simplified]
    note IH = "1.IH" [OF False batch_def prompt_def a [symmetric] refl]
    show ?thesis
    proof (cases answer)
      case (Inl x)
      then have "e \<noteq> None" "n = d" "bs = [batch]" using eq by auto
      then show ?thesis using ne app by (metis append_Nil2 concat.simps le_add1 set_ConsD empty_iff list.set(1))
    next
      case (Inr raw)
      show ?thesis
      proof (cases "apply_result env (clean_llm_json raw) current (length batch) (map fst batch) (fst ws, s1)")
        case (Ret r)
        show ?thesis
        proof (cases "fst r")
          case (Inl x)
          then have "e \<noteq> None" "n = d" "bs = [batch]" using eq Ret \<open>answer = Inr raw\<close> by (cases r; auto)+
          then show ?thesis using ne app by (metis append_Nil2 concat.simps le_add1 set_ConsD empty_iff list.set(1))
        next
          case (Inr pk)
          obtain p k ws1 where r: "r = (Inr (p, k), ws1)" using Inr by (cases r; cases pk) auto
          then obtain bs' where rec: "consolidate_loop env maxChars (d + k) (if p \<noteq> [] then p else current)
              (drop (length batch) ms) ws1 = Ret ((e, n), ws', bs')" and bs: "bs = batch # bs'"
            using eq Ret \<open>answer = Inr raw\<close> by (auto split: go.splits)
          have ih: "[] \<notin> set bs'" "n \<le> d + k + length (concat bs')"
              "\<exists>rest. drop (length batch) ms = concat bs' @ rest \<and> (e = None \<longrightarrow> rest = [])"
            using IH [OF \<open>answer = Inr raw\<close> Ret r [symmetric] refl refl rec] by simp_all
          then obtain rest where "drop (length batch) ms = concat bs' @ rest" "e = None \<longrightarrow> rest = []" by blast
          then have "ms = concat bs @ rest \<and> (e = None \<longrightarrow> rest = [])" using app bs by simp
          moreover have "k \<le> length batch" using apply_result_count Ret r by blast
          then have "n \<le> d + length (concat bs)" using ih(2) bs by simp
          ultimately show ?thesis using ne ih(1) bs by auto
        qed
      qed (use eq Inr in simp)
    qed
  qed (use "1.prems" in \<open>simp add: consolidate_loop.simps\<close>)
qed


section \<open>Witnesses\<close>

definition demo_person :: "string \<Rightarrow> string" where
  "demo_person t = ''{'' @ [CHR 0x22] @ ''name'' @ [CHR 0x22] @ '':'' @ [CHR 0x22] @ t @ [CHR 0x22] @ ''}''"

theorem merged_profile_is_card_witness:
  "merge_profile (\<lambda>v. []) (demo_person ''Ann'') (demo_person ''Bo'') = Ret (Inr [(''name'', JStr ''Bo'')])
    \<and> validate_profile [(''name'', JStr ''Bo'')] (current_object (demo_person ''Ann''))"
proof -
  have "merge_profile (\<lambda>v. []) (demo_person ''Ann'') (demo_person ''Bo'') = Ret (Inr [(''name'', JStr ''Bo'')])"
    by code_simp
  then show ?thesis using merged_profile_is_card by blast
qed

definition demo_cons :: "(int, unit) cons_env" where
  "demo_cons = \<lparr>kn_model = (\<lambda>p s. (Inr ''{}'', s)), kn_embed = (\<lambda>t s. (Inr 1, s)), kn_num = id, kn_key = (\<lambda>v. []),
     kn_clock = ''now'', kn_traits = (\<lambda>ts. []), kn_prompt_length = 100, kn_now = 10, kn_enrich = False,
     kn_profile_ok = (\<lambda>t. True), kn_read_ok = True, kn_trait_ok = (\<lambda>u. True), kn_salience_ok = (\<lambda>is. True), kn_begin = (\<lambda>is. True), kn_tx = (\<lambda>is. True)\<rparr>"

lemma demo_model: "kn_model demo_cons p s = (Inr ''{}'', s)"
  by (simp add: demo_cons_def)

lemma demo_answer_empty: "answers_dual (clean_llm_json ''{}'') = None" "struct_members (Some (clean_llm_json ''{}'')) = Some []"
  by code_simp+

lemma demo_result: "apply_result demo_cons (clean_llm_json ''{}'') current n batch ws = Ret (Inr ([], 0), ws)"
  by (simp add: apply_result_def demo_answer_empty)


end
