(* ===== verification/Spec2Isabelle.thy ===== *)
theory Spec2Isabelle
  imports CircuitBreaker WorkQueue Retry Shell SchedSystem JobSystem HeartSystem Confirm MessageSystem
    MemGuarantees Triage Consolidate
begin

text \<open>
  Sokratos, a personal assistant in Go: a chat front end, an orchestrating language model that calls
  tools in rounds, a small pool of inference slots shared by user requests and background work, and
  several loops that act without the user (routines, scheduled tasks, plans, objectives). This
  library models the parts that decide; what they call is a parameter.

  Conventions. A string is the list of its bytes, as in Go. A time is the number of nanoseconds
  since January 1, year 1 UTC, a duration a number of nanoseconds (\<open>Prelude\<close>); the difference of two
  times saturates as \<open>time.Sub\<close> does. A mutex is the granularity of a step: what Go does under one
  lock, or in one query, is one definition, and goroutines are step relations over these definitions.
  Language models, tools, the database's success or failure, the process that a command starts and
  the random numbers are arguments; the world they change is a state of arbitrary type that is passed
  along. Panics are the value \<open>Panic\<close>, errors the left side of a sum or a datatype of errors.

  Parts of the program and the theories that model them.

    \<^item> Inference slots. \<open>PrioritySem\<close> (\<open>engine/priority_sem.go\<close>) is the semaphore with two queues and
      reservations; \<open>SemSystem\<close> lets any number of goroutines use it, as a step relation;
      \<open>SlotRouter\<close> (\<open>engine/slot_router.go\<close>, \<open>engine/engine.go\<close>) chooses a model and gives its slot up
      during tool calls.
    \<^item> Requests to models. \<open>CircuitBreaker\<close> (\<open>clients/circuit_breaker.go\<close>, \<open>subagent_client.go\<close>),
      \<open>WorkQueue\<close> (\<open>clients/workqueue.go\<close>), \<open>Retry\<close> (\<open>pipelines/retry.go\<close>, \<open>retry_queue.go\<close>,
      \<open>processed_tracker.go\<close>), \<open>Limiters\<close> (\<open>engine/share_limiter.go\<close>, \<open>toolreg/approval_cache.go\<close>).
    \<^item> Text. \<open>TextUtil\<close> (\<open>textutil/\<close>), \<open>Json\<close> (what the program uses of \<open>encoding/json\<close>), \<open>TimeFmt\<close> and
      \<open>TimeParse\<close> (\<open>timefmt/\<close>), \<open>Durations\<close>, \<open>Paths\<close> and \<open>ToolArgs\<close> (what it uses of \<open>time\<close>, \<open>path/filepath\<close> and
      \<open>strconv\<close>).
    \<^item> The conversation. \<open>Messages\<close> (\<open>llm/client.go\<close>, \<open>engine/trim.go\<close>, \<open>engine/slide.go\<close>,
      \<open>engine/state.go\<close>): the messages, the window sent to the model, the slide into the archive and
      the snapshot in the database.
    \<^item> The tool loop. \<open>Orchestrate\<close> (\<open>orchestrate/\<close>) is the loop, \<open>LlmOrchestrator\<close>
      (\<open>llm/orchestrator.go\<close>) its adapter, \<open>Registry\<close> (\<open>toolreg/\<close>, \<open>clients/subagent_supervisor.go\<close>,
      \<open>tools/delegate_task.go\<close>) the tools it may call.
    \<^item> Tools. \<open>FileOps\<close> (\<open>tools/file_ops.go\<close>) and \<open>Shell\<close> (\<open>tools/shell.go\<close>, \<open>tools/shell_config.go\<close>).
    \<^item> Work without the user. \<open>Routines\<close> (\<open>routines/\<close>, \<open>engine/routines.go\<close>), \<open>PlanExec\<close>
      (\<open>worktracker/plan_execute.go\<close>), \<open>Objectives\<close> (\<open>objectives/\<close>, \<open>objective_callbacks.go\<close>). Plans run
      in the background under \<open>WorkTracker\<close> (\<open>worktracker/work_tracker.go\<close>); \<open>WorkSystem\<close> lets its
      goroutines, the watchdog and the user run in any order. \<open>Scheduler\<close> (\<open>engine/scheduler.go\<close>,
      \<open>tools/task_queue.go\<close>) keeps its tasks in the same table, and \<open>SchedSystem\<close> runs it beside the
      tracker and the tools that add and complete tasks.
    \<^item> Background jobs. \<open>Jobs\<close> (\<open>engine/background_jobs.go\<close>, \<open>tools/background_jobs.go\<close>,
      \<open>dispatch.go\<close>) holds the jobs by reference, as Go does, beside the table by identifier, and the
      goroutine of a job cut where it waits; \<open>JobSystem\<close> lets the goroutines, the tools of the user and
      the model run in any order.
    \<^item> The heartbeat. \<open>HeartText\<close> (\<open>engine/heartbeat.go\<close>, \<open>engine/temporal.go\<close>) is what the model is
      shown, \<open>Heartbeat\<close> (\<open>engine/heartbeat.go\<close>, \<open>heartbeat_phase2.go\<close>, \<open>objective_pursuit.go\<close>,
      \<open>curiosity.go\<close>, \<open>cognitive.go\<close>, \<open>objectives.go\<close>, \<open>adaptive/\<close>) the tick with its phases, and
      \<open>HeartSystem\<close> lets ticks follow each other, with anything the rest of the program does between them.
      The adaptive parameters are rational numbers, without the rounding of \<open>float64\<close>; the queries of the
      memories are inputs of the tick, and of its maintenance it has the pruning of \<open>work_items\<close>.
    \<^item> The memories. \<open>MemText\<close> (\<open>memory/save.go\<close>, \<open>embedding.go\<close>, \<open>format.go\<close>, \<open>tools/memory.go\<close>) is what
      happens to their texts, \<open>MemStore\<close> (\<open>memory/scoring.go\<close>, \<open>contradiction.go\<close>,
      \<open>entity_extraction.go\<close>) the table and the two ways a memory is written, \<open>MemUse\<close> (\<open>memory/ranking.go\<close>,
      \<open>prefetch.go\<close>, \<open>decay.go\<close>, \<open>queries.go\<close>, \<open>engine/cognitive.go\<close>, \<open>tools/forget_topic.go\<close>) retrieval, age,
      the profile, merging and forgetting, \<open>MemSynth\<close> (\<open>memory/episodes.go\<close>, \<open>reflection.go\<close>) episodes and
      reflections. A statement or a transaction is one definition; \<open>MemSystem\<close> lets the goroutines that
      save, the work queue and the loops run in any order, and \<open>MemGuarantees\<close> is what that gives. Vectors
      are an arbitrary type, their distance, the full-text rank and the power are parameters, and the
      numbers of the table are rational, without the rounding of \<open>float64\<close>.
    \<^item> What becomes a memory. \<open>Triage\<close> (\<open>pipelines/triage_conversation.go\<close>, \<open>triage_queue.go\<close>,
      \<open>memory/personality.go\<close>) scores exchanges and emails; \<open>Consolidate\<close>
      (\<open>pipelines/consolidate_memory.go\<close>, \<open>consolidate_profile.go\<close>) turns important memories into the profile.

    \<^item> The user. \<open>Confirm\<close> (\<open>confirm.go\<close>, the questions of \<open>register_gmail_tools.go\<close>,
      \<open>register_calendar_tools.go\<close>, \<open>register_ai_tools.go\<close>) is the gate in front of the tools that act on
      the outside world. \<open>MessageLoop\<close> (\<open>message_loop.go\<close>, \<open>condense.go\<close>, \<open>prefetch.go\<close>, the loop of
      \<open>main.go\<close>) takes a message from the platform to its answer, over the router, the tool loop, the
      conversation and the jobs; \<open>MessageSystem\<close> is what that guarantees. The chat platform, the search in
      the memories, the choice of tools and the bodies of the slash commands are parameters.

  The lemmas. Interfaces are locales, interpreted on the model: the semaphore for its clients, the
  queues, the router's choices. Reachability predicates carry the invariants: slots are conserved,
  requests are neither lost nor duplicated, the breaker is closed exactly below its threshold. Each
  routine with a contract has one: the trimmed window and the slide keep tool pairs, the archive holds
  what the slide removes, schedules fire once per slot, the routine table mirrors its file, a delegate
  reaches the world only through its tools, a command runs only allowed binaries, a file outside the
  workspace is opened only with an approval, a task fires on time and the scheduler never sleeps past
  one, the sessions of background jobs are bounded, the heartbeat does not repeat itself and keeps the
  distances between the things it starts, a gated tool runs only after a recent yes, every message
  is answered and gives its slot back, every superseded memory leads to one that counts, a triaged
  exchange is accounted for, and a consolidation shows each memory at most once. Where the code does
  not do what it means to, the theorem says what it does instead.

  Bounds and fuel. The recursion of the JSON encoder has the nesting of the value as its fuel; every other loop has a measure (rounds left for the tool loop,
  steps and replannings left for a plan, the bytes left for a scan). Loops that run for ever, such as
  workers, are step relations.

  Not modelled: the HTTP clients, PostgreSQL beyond the queries named, Telegram, Google, the JavaScript
  machine of the skills, the prompts, metrics and logging, and the wiring in \<open>main.go\<close>: they are I/O, or
  code the program only calls. Of the memories the search tool around its queries, the adaptations that
  a reflection proposes, the transition memory and the bootstrap of the profile, and the grammars for the
  model server are left out.
\<close>

end
